(* ===== verification/Rust_Str.thy ===== *)
theory Rust_Str
  imports Jmcp_Prelude
begin

text \<open>
  The part of Rust's \<^verbatim>\<open>str\<close> interface that the server's own code uses, on byte strings:
  substring search, lines, whitespace trimming, ASCII case folding, joining, character
  boundaries of UTF-8 text, and decimal parsing. Every function is executable. The lemmas
  relate search to the library's \<^const>\<open>sublist\<close>, and lines to the joined text.
\<close>

section \<open>Bytes and characters\<close>

abbreviation NL :: char where "NL \<equiv> CHR 0x0A"
abbreviation CR :: char where "CR \<equiv> CHR 0x0D"
abbreviation SP :: char where "SP \<equiv> CHR 0x20"
abbreviation DQ :: char where "DQ \<equiv> CHR 0x22"
abbreviation SQ :: char where "SQ \<equiv> CHR 0x27"

definition byte :: "char \<Rightarrow> nat" where
  "byte c = of_char c"

text \<open>A UTF-8 continuation byte, \<^verbatim>\<open>10xxxxxx\<close>.\<close>

definition is_cont :: "char \<Rightarrow> bool" where
  "is_cont c \<longleftrightarrow> 128 \<le> byte c \<and> byte c < 192"

definition is_char_boundary :: "string \<Rightarrow> nat \<Rightarrow> bool" where
  "is_char_boundary s i \<longleftrightarrow>
     i = 0 \<or> i = length s \<or> (i < length s \<and> \<not> is_cont (s ! i))"

text \<open>The characters of a UTF-8 text, each as its bytes (\<^verbatim>\<open>str::chars\<close>).\<close>

function utf8_chars :: "string \<Rightarrow> string list" where
  "utf8_chars [] = []"
| "utf8_chars (c # cs) = (c # takeWhile is_cont cs) # utf8_chars (dropWhile is_cont cs)"
  by pat_completeness auto
termination
  by (relation "measure length") (auto simp: le_imp_less_Suc length_dropWhile_le)

definition take_chars :: "nat \<Rightarrow> string \<Rightarrow> string" where
  "take_chars n s = concat (take n (utf8_chars s))"

definition is_ascii_alphanumeric :: "char \<Rightarrow> bool" where
  "is_ascii_alphanumeric c \<longleftrightarrow>
     (48 \<le> byte c \<and> byte c < 58) \<or> (65 \<le> byte c \<and> byte c < 91) \<or> (97 \<le> byte c \<and> byte c < 123)"

definition is_ascii_digit :: "char \<Rightarrow> bool" where
  "is_ascii_digit c \<longleftrightarrow> 48 \<le> byte c \<and> byte c < 58"

definition is_ascii_graphic :: "char \<Rightarrow> bool" where
  "is_ascii_graphic c \<longleftrightarrow> 33 \<le> byte c \<and> byte c < 127"

definition is_ascii_whitespace :: "char \<Rightarrow> bool" where
  "is_ascii_whitespace c \<longleftrightarrow> byte c = 32 \<or> byte c = 9 \<or> byte c = 10 \<or> byte c = 12 \<or> byte c = 13"

definition ascii_lower_char :: "char \<Rightarrow> char" where
  "ascii_lower_char c = (if 65 \<le> byte c \<and> byte c < 91 then char_of (byte c + 32) else c)"

definition to_ascii_lowercase :: "string \<Rightarrow> string" where
  "to_ascii_lowercase s = map ascii_lower_char s"

text \<open>
  The loops that move a cut to a character boundary: downwards to the first boundary at or
  below the position, upwards to the first one at or above it. Position 0 and the length are
  boundaries, so both loops stop; the upward loop is only started at or below the length.
\<close>

fun floor_boundary :: "string \<Rightarrow> nat \<Rightarrow> nat" where
  "floor_boundary s 0 = 0"
| "floor_boundary s (Suc n) = (if is_char_boundary s (Suc n) then Suc n else floor_boundary s n)"

function ceil_boundary :: "string \<Rightarrow> nat \<Rightarrow> nat" where
  "ceil_boundary s i =
     (if i < length s \<and> \<not> is_char_boundary s i then ceil_boundary s (Suc i) else i)"
  by pat_completeness auto
termination
  by (relation "measure (\<lambda>(s, i). length s - i)") auto

declare ceil_boundary.simps [simp del]

section \<open>Search\<close>

text \<open>\<^verbatim>\<open>str::find\<close>: the first byte position at which the needle occurs.\<close>

fun str_find :: "string \<Rightarrow> string \<Rightarrow> nat option" where
  "str_find n [] = (if n = [] then Some 0 else None)"
| "str_find n (c # cs) =
     (if prefix n (c # cs) then Some 0 else map_option Suc (str_find n cs))"

definition str_contains :: "string \<Rightarrow> string \<Rightarrow> bool" where
  "str_contains n s \<longleftrightarrow> str_find n s \<noteq> None"

definition starts_with :: "string \<Rightarrow> string \<Rightarrow> bool" where
  "starts_with p s \<longleftrightarrow> prefix p s"

fun find_char :: "char \<Rightarrow> string \<Rightarrow> nat option" where
  "find_char c [] = None"
| "find_char c (x # xs) = (if x = c then Some 0 else map_option Suc (find_char c xs))"

text \<open>\<^verbatim>\<open>str::replace\<close> of one character by a string.\<close>

definition replace_char :: "char \<Rightarrow> string \<Rightarrow> string \<Rightarrow> string" where
  "replace_char c r s = concat (map (\<lambda>x. if x = c then r else [x]) s)"

section \<open>Lines\<close>

fun split_inclusive :: "string \<Rightarrow> string list" where
  "split_inclusive [] = []"
| "split_inclusive (c # cs) =
     (if c = NL then [c] # split_inclusive cs
      else (case split_inclusive cs of [] \<Rightarrow> [[c]] | l # ls \<Rightarrow> (c # l) # ls))"

text \<open>\<^verbatim>\<open>lines()\<close> drops the newline and one carriage return before it.\<close>

definition strip_line_end :: "string \<Rightarrow> string" where
  "strip_line_end l =
     (if l \<noteq> [] \<and> last l = NL
      then (let b = butlast l in if b \<noteq> [] \<and> last b = CR then butlast b else b)
      else l)"

definition str_lines :: "string \<Rightarrow> string list" where
  "str_lines s = map strip_line_end (split_inclusive s)"

fun str_join :: "string \<Rightarrow> string list \<Rightarrow> string" where
  "str_join sep [] = []"
| "str_join sep [x] = x"
| "str_join sep (x # y # ys) = x @ sep @ str_join sep (y # ys)"

section \<open>Whitespace\<close>

text \<open>
  The number of bytes of the Unicode whitespace character at the head of the text, 0 when the
  head is not whitespace: the ASCII controls 9 to 13 and the space, U+0085 and U+00A0 in two
  bytes, and U+1680, U+2000 to U+200A, U+2028, U+2029, U+202F, U+205F and U+3000 in three.
\<close>

definition ws_len :: "string \<Rightarrow> nat" where
  "ws_len s =
     (case s of [] \<Rightarrow> 0
      | a # r \<Rightarrow>
          if (9 \<le> byte a \<and> byte a < 14) \<or> byte a = 32 then 1
          else (case r of [] \<Rightarrow> 0
                | b # q \<Rightarrow>
                    if byte a = 194 \<and> (byte b = 133 \<or> byte b = 160) then 2
                    else (case q of [] \<Rightarrow> 0
                          | c # _ \<Rightarrow>
                              if (byte a = 225 \<and> byte b = 154 \<and> byte c = 128)
                                \<or> (byte a = 226 \<and> byte b = 128
                                    \<and> ((128 \<le> byte c \<and> byte c < 139)
                                        \<or> byte c = 168 \<or> byte c = 169 \<or> byte c = 175))
                                \<or> (byte a = 226 \<and> byte b = 129 \<and> byte c = 159)
                                \<or> (byte a = 227 \<and> byte b = 128 \<and> byte c = 128)
                              then 3 else 0)))"

function trim_start :: "string \<Rightarrow> string" where
  "trim_start s = (if s \<noteq> [] \<and> ws_len s \<noteq> 0 then trim_start (drop (ws_len s) s) else s)"
  by pat_completeness auto
termination
  by (relation "measure length") auto

declare trim_start.simps [simp del]

text \<open>The last bytes that form a whitespace character: one, two or three of them.\<close>

definition ws_suffix_len :: "string \<Rightarrow> nat" where
  "ws_suffix_len s =
     (let n = length s in
      if 1 \<le> n \<and> ws_len (drop (n - 1) s) = 1 then 1
      else if 2 \<le> n \<and> ws_len (drop (n - 2) s) = 2 then 2
      else if 3 \<le> n \<and> ws_len (drop (n - 3) s) = 3 then 3
      else 0)"

function trim_end :: "string \<Rightarrow> string" where
  "trim_end s =
     (if ws_suffix_len s \<noteq> 0 then trim_end (take (length s - ws_suffix_len s) s) else s)"
  by pat_completeness auto
termination
  by (relation "measure length") (auto simp: ws_suffix_len_def Let_def split: if_splits)

declare trim_end.simps [simp del]

definition str_trim :: "string \<Rightarrow> string" where
  "str_trim s = trim_end (trim_start s)"

text \<open>The position of the first whitespace character.\<close>

fun find_ws :: "string \<Rightarrow> nat option" where
  "find_ws [] = None"
| "find_ws (c # cs) = (if ws_len (c # cs) \<noteq> 0 then Some 0 else map_option Suc (find_ws cs))"

section \<open>Decimal parsing\<close>

fun parse_digits :: "nat \<Rightarrow> string \<Rightarrow> nat option" where
  "parse_digits acc [] = Some acc"
| "parse_digits acc (c # cs) =
     (if is_ascii_digit c then parse_digits (10 * acc + (byte c - 48)) cs else None)"

text \<open>\<^verbatim>\<open>parse::<usize>()\<close>: an optional plus sign, digits, and no overflow of 64 bits.\<close>

definition parse_usize :: "string \<Rightarrow> nat option" where
  "parse_usize s =
     (let ds = (case s of c # cs \<Rightarrow> if c = CHR ''+'' then cs else s | [] \<Rightarrow> s)
      in if ds = [] then None
         else (case parse_digits 0 ds of None \<Rightarrow> None
               | Some n \<Rightarrow> if n < 2 ^ 64 then Some n else None))"

section \<open>Facts about search\<close>

lemma prefix_imp_sublist: "prefix n s \<Longrightarrow> sublist n s"
  by (auto simp: prefix_def sublist_def)

lemma str_find_Some_iff_sublist: "str_find n s \<noteq> None \<longleftrightarrow> sublist n s"
  by (induction s) (auto simp: sublist_Cons_right)

lemma str_contains_iff [rstr_simps]: "str_contains n s \<longleftrightarrow> sublist n s"
  by (simp only: str_contains_def str_find_Some_iff_sublist)

lemma str_find_bound: "str_find n s = Some i \<Longrightarrow> i + length n \<le> length s"
proof (induction s arbitrary: i)
  case Nil
  then show ?case by (simp split: if_splits)
next
  case (Cons c cs)
  then show ?case by (auto split: if_splits dest: prefix_length_le)
qed

lemma str_find_prefix: "str_find n s = Some i \<Longrightarrow> prefix n (drop i s)"
  by (induction s arbitrary: i) (auto split: if_splits)

lemma str_find_first: "str_find n s = Some i \<Longrightarrow> j < i \<Longrightarrow> \<not> prefix n (drop j s)"
proof (induction s arbitrary: i j)
  case Nil
  then show ?case by (simp split: if_splits)
next
  case (Cons c cs)
  then show ?case by (cases j) (auto split: if_splits)
qed

lemma find_char_bound: "find_char c s = Some i \<Longrightarrow> i < length s \<and> s ! i = c"
  by (induction s arbitrary: i) (auto split: if_splits)

lemma find_char_None_iff: "find_char c s = None \<longleftrightarrow> c \<notin> set s"
  by (induction s) auto

lemma find_char_append:
  "c \<notin> set a \<Longrightarrow> find_char c (a @ c # b) = Some (length a)"
  by (induction a) auto

section \<open>Facts about lines\<close>

lemma concat_split_inclusive [rstr_simps]: "concat (split_inclusive s) = s"
  by (induction s) (auto split: list.splits)

lemma split_inclusive_Nil_iff [simp]: "split_inclusive s = [] \<longleftrightarrow> s = []"
  by (cases s) (auto split: list.splits)

lemma split_inclusive_line:
  "NL \<notin> set l \<Longrightarrow> split_inclusive (l @ NL # s) = (l @ [NL]) # split_inclusive s"
  by (induction l) auto

lemma split_inclusive_last:
  "NL \<notin> set l \<Longrightarrow> split_inclusive l = (if l = [] then [] else [l])"
  by (induction l) auto

lemma strip_line_end_nl:
  "l = [] \<or> last l \<noteq> CR \<Longrightarrow> strip_line_end (l @ [NL]) = l"
  by (auto simp: strip_line_end_def)

lemma strip_line_end_no_nl: "NL \<notin> set l \<Longrightarrow> strip_line_end l = l"
  using last_in_set by (fastforce simp: strip_line_end_def)

text \<open>A line as \<^verbatim>\<open>lines()\<close> hands it out again: no newline in it, no final carriage return.\<close>

definition clean_line :: "string \<Rightarrow> bool" where
  "clean_line l \<longleftrightarrow> NL \<notin> set l \<and> (l = [] \<or> last l \<noteq> CR)"

lemma str_lines_cons:
  "clean_line l \<Longrightarrow> str_lines (l @ NL # s) = l # str_lines s"
  by (simp add: str_lines_def clean_line_def split_inclusive_line strip_line_end_nl)

lemma str_lines_single: "NL \<notin> set l \<Longrightarrow> l \<noteq> [] \<Longrightarrow> str_lines l = [l]"
  by (simp add: str_lines_def split_inclusive_last strip_line_end_no_nl)

lemma str_lines_Nil [simp]: "str_lines [] = []"
  by (simp add: str_lines_def)

lemma str_lines_join_nl:
  "list_all clean_line ls \<Longrightarrow> ls \<noteq> [] \<Longrightarrow> str_lines (str_join [NL] ls @ [NL]) = ls"
proof (induction ls rule: induct_list012)
  case (2 x)
  then show ?case using str_lines_cons [of x "[]"] by simp
next
  case (3 x y ys)
  then show ?case using str_lines_cons [of x] by simp
qed simp

text \<open>Without the closing newline the same holds unless the last line is empty.\<close>

lemma str_lines_join:
  "list_all clean_line ls \<Longrightarrow> ls \<noteq> [] \<Longrightarrow> last ls \<noteq> [] \<Longrightarrow> str_lines (str_join [NL] ls) = ls"
proof (induction ls rule: induct_list012)
  case (2 x)
  then show ?case by (simp add: clean_line_def str_lines_single)
next
  case (3 x y ys)
  then show ?case using str_lines_cons [of x] by simp
qed simp

lemma split_inclusive_no_inner_nl:
  "l \<in> set (split_inclusive s) \<Longrightarrow> NL \<notin> set (butlast l)"
proof (induction s arbitrary: l)
  case Nil
  then show ?case by simp
next
  case (Cons c cs)
  show ?case
  proof (cases "c = NL")
    case True
    with Cons show ?thesis by auto
  next
    case False
    with Cons show ?thesis by (auto split: list.splits if_splits)
  qed
qed

lemma split_inclusive_not_Nil: "l \<in> set (split_inclusive s) \<Longrightarrow> l \<noteq> []"
  by (induction s arbitrary: l) (auto split: list.splits if_splits)

lemma strip_line_end_no_nl_out:
  "NL \<notin> set (butlast l) \<Longrightarrow> NL \<notin> set (strip_line_end l)"
proof -
  assume a: "NL \<notin> set (butlast l)"
  show ?thesis
  proof (cases "l \<noteq> [] \<and> last l = NL")
    case True
    with a show ?thesis
      by (auto simp: strip_line_end_def Let_def dest: in_set_butlastD)
  next
    case False
    then have "NL \<notin> set l" using a
      by (metis append_butlast_last_id list.set(1) empty_iff set_ConsD rotate1.simps(2) set_rotate1)
    with False show ?thesis by (auto simp: strip_line_end_def)
  qed
qed

lemma str_lines_no_nl: "l \<in> set (str_lines s) \<Longrightarrow> NL \<notin> set l"
  by (auto simp: str_lines_def dest!: split_inclusive_no_inner_nl strip_line_end_no_nl_out)

lemma length_str_join:
  "length (str_join sep ls) = sum_list (map length ls) + (length ls - 1) * length sep"
  by (induction ls rule: induct_list012) auto

section \<open>Facts about trimming and characters\<close>

lemma ws_len_le: "ws_len s \<le> length s"
  by (auto simp: ws_len_def split: list.splits)

lemma length_trim_start_le: "length (trim_start s) \<le> length s"
proof (induction s rule: trim_start.induct)
  case (1 s)
  show ?case
  proof (cases "s \<noteq> [] \<and> ws_len s \<noteq> 0")
    case True
    with "1" have "length (trim_start (drop (ws_len s) s)) \<le> length s" by fastforce
    with True show ?thesis by (simp add: trim_start.simps [of s])
  next
    case False
    then show ?thesis by (auto simp: trim_start.simps [of s])
  qed
qed

lemma trim_end_prefix: "prefix (trim_end s) s"
proof (induction s rule: trim_end.induct)
  case (1 s)
  show ?case
  proof (cases "ws_suffix_len s \<noteq> 0")
    case True
    with "1" have "prefix (trim_end (take (length s - ws_suffix_len s) s)) s"
      using prefix_order.trans take_is_prefix by blast
    with True show ?thesis by (simp add: trim_end.simps [of s])
  next
    case False
    then show ?thesis by (simp add: trim_end.simps [of s])
  qed
qed

lemma length_str_trim_le: "length (str_trim s) \<le> length s"
  unfolding str_trim_def
  using trim_end_prefix [of "trim_start s"] length_trim_start_le [of s] prefix_length_le
  by fastforce

lemma trim_start_suffix: "suffix (trim_start s) s"
proof (induction s rule: trim_start.induct)
  case (1 s)
  show ?case
  proof (cases "s \<noteq> [] \<and> ws_len s \<noteq> 0")
    case True
    with "1" have "suffix (trim_start (drop (ws_len s) s)) s"
      using suffix_drop suffix_order.trans by blast
    with True show ?thesis by (simp add: trim_start.simps [of s])
  next
    case False
    then show ?thesis by (auto simp: trim_start.simps [of s])
  qed
qed

lemma set_str_trim: "set (str_trim s) \<subseteq> set s"
  unfolding str_trim_def
  using set_mono_prefix [OF trim_end_prefix [of "trim_start s"]] set_mono_suffix [OF trim_start_suffix [of s]]
  by blast

lemma append_first_eq:
  "c \<notin> set x \<Longrightarrow> c \<notin> set y \<Longrightarrow> x @ c # p = y @ c # q \<Longrightarrow> x = y \<and> p = q"
proof (induction x arbitrary: y)
  case Nil
  then show ?case by (cases y) auto
next
  case (Cons a x)
  then show ?case by (cases y) auto
qed

text \<open>Lines joined by newlines determine the lines.\<close>

lemma str_join_nl_inject:
  assumes "\<forall>l\<in>set xs. NL \<notin> set l \<and> l \<noteq> []" and "\<forall>l\<in>set ys. NL \<notin> set l \<and> l \<noteq> []"
    and "str_join [NL] xs = str_join [NL] ys"
  shows "xs = ys"
  using assms
proof (induction xs arbitrary: ys rule: induct_list012)
  case 1
  then show ?case by (cases ys; cases "tl ys") auto
next
  case (2 x)
  show ?case
  proof (cases ys)
    case Nil
    with 2 show ?thesis by simp
  next
    case (Cons y ys')
    show ?thesis
    proof (cases ys')
      case Nil
      with 2 Cons show ?thesis by simp
    next
      case c: (Cons z zs)
      from 2 Cons c have "NL \<in> set x" by auto
      with 2 show ?thesis by simp
    qed
  qed
next
  case (3 x x' xs)
  show ?case
  proof (cases ys)
    case Nil
    with 3 show ?thesis by simp
  next
    case (Cons y ys')
    show ?thesis
    proof (cases ys')
      case Nil
      from 3 Cons Nil have "NL \<in> set y" by (metis append_Cons append_Nil in_set_conv_decomp str_join.simps(2,3))
      with 3 Cons show ?thesis by simp
    next
      case c: (Cons z zs)
      from 3 Cons c have eq: "x @ NL # str_join [NL] (x' # xs) = y @ NL # str_join [NL] (z # zs)"
        by simp
      have "NL \<notin> set x" "NL \<notin> set y" using 3 Cons by simp_all
      then have xy: "x = y" and rest: "str_join [NL] (x' # xs) = str_join [NL] (z # zs)"
        using append_first_eq [OF _ _ eq] by simp_all
      from 3 Cons c rest have "x' # xs = z # zs" by (intro "3.IH"(2)) simp_all
      with xy Cons c show ?thesis by simp
    qed
  qed
qed

lemma trim_start_no_ws: "ws_len s = 0 \<Longrightarrow> trim_start s = s"
  by (simp add: trim_start.simps)

lemma concat_utf8_chars [rstr_simps]: "concat (utf8_chars s) = s"
  by (induction s rule: utf8_chars.induct) auto

lemma take_chars_prefix: "prefix (take_chars n s) s"
proof -
  have "concat (take n (utf8_chars s)) @ concat (drop n (utf8_chars s)) = s"
    by (metis append_take_drop_id concat_append concat_utf8_chars)
  then show ?thesis by (metis prefixI take_chars_def)
qed

lemma is_char_boundary_ends [simp]:
  "is_char_boundary s 0" "is_char_boundary s (length s)"
  by (simp_all add: is_char_boundary_def)

lemma floor_boundary_le: "floor_boundary s n \<le> n"
  by (induction n) (auto intro: le_SucI)

lemma floor_boundary_ok: "is_char_boundary s (floor_boundary s n)"
  by (induction n) auto

lemma ceil_boundary_props:
  "i \<le> length s \<Longrightarrow>
     i \<le> ceil_boundary s i \<and> ceil_boundary s i \<le> length s \<and> is_char_boundary s (ceil_boundary s i)"
proof (induction s i rule: ceil_boundary.induct)
  case (1 s i)
  show ?case
  proof (cases "i < length s \<and> \<not> is_char_boundary s i")
    case True
    with "1.IH" have "Suc i \<le> ceil_boundary s (Suc i) \<and> ceil_boundary s (Suc i) \<le> length s
        \<and> is_char_boundary s (ceil_boundary s (Suc i))"
      by simp
    with True show ?thesis by (simp add: ceil_boundary.simps [of s i])
  next
    case False
    with "1.prems" have "is_char_boundary s i" by (cases "i = length s") auto
    with False "1.prems" show ?thesis by (simp add: ceil_boundary.simps [of s i])
  qed
qed

end
