(* ===== verification/Jmcp_Error.thy ===== *)
theory Jmcp_Error
  imports Rust_Str
begin

text \<open>
  The error type of the server (\<^verbatim>\<open>rust-junosmcp-core/src/error.rs\<close>): one constructor per
  variant of \<^verbatim>\<open>JmcpError\<close>, the text its \<^verbatim>\<open>Display\<close> prints, and the stable identifier
  \<^verbatim>\<open>audit_kind\<close> gives it.

  Errors of the NETCONF client libraries enter as values: the variant the server's code
  matches on, and the text the library prints for it. Durations are in milliseconds, paths and
  the errors of other libraries are the text they print.
\<close>

section \<open>Errors of the NETCONF client\<close>

datatype error_tag =
    OperationFailed | InvalidValue | MissingElement | BadElement | UnknownElement
  | MissingAttribute | BadAttribute | UnknownAttribute | DataMissing | DataExists
  | AccessDenied | LockDenied | ResourceDenied | OperationNotSupported | InUse | TooBig
  | MalformedMessage | RollbackFailed | UnknownNamespace | OtherTag

datatype rpc_error = ServerError error_tag | CommitUnknown | ParseError | OtherRpcError

datatype netconf_error =
  NetconfRpc rpc_error | NetconfTransport | NetconfFraming | NetconfProtocol | NetconfOther

datatype rustez_kind =
    RzNetconf netconf_error | RzSshConfig | RzFacts | RzConfig | RzXmlParse | RzOther

datatype rustez_error = RustEzError (rz_kind: rustez_kind) (rz_text: string)

section \<open>The server's error type\<close>

text \<open>The plugins nothing here uses are left out: they are slow on a type of this width.\<close>

datatype (plugins del: size quickcheck_random quickcheck_exhaustive
    quickcheck_bounded_forall quickcheck_full_exhaustive quickcheck_narrowing transfer lifting)
  jmcp_error =
  UnknownRouter string
| InventoryInvalid string
| KeyFileMissing string
| SshConfigInvalid string string
| BadFormat string
| BadConfigFormat string
| BadLoadMode string
| OverrideRequiresChangeSet string
| OverrideRequiresHumanApproval string
| IncompatibleFormatMode string string
| BadPfeCommand string
| BadRollbackVersion int
| BadSourcePath string
| InsufficientDisk u64 u64 string
| UnsupportedAuth string
| DestExistsDiffers string string string
| ScpFailed int string
| ScpDependencyUnavailable string
| ConnectTimeout string
| HostKeyMismatch string string
| HostKeyRevoked string string
| DeviceProbeFailed string string
| VerifyMismatch string string string
| LocalDestExistsDiffers string string string
| RemoteFileMissing string string
| FetchVerifyMismatch string string string
| TransferOuterTimeout nat
| ConfirmationRequired string
| UpgradeClusterUnsupported string
| UpgradeCommitConfirmedActive string u64
| UpgradeInstallTimeout string nat
| UpgradeRebootTimeout string u64
| UpgradePostVerifyMismatch string string string
| UpgradeOuterTimeout nat
| Timeout nat
| Cancelled
| DeviceLeaseBusy string u64
| DeviceLeaseError string string
| CandidateCleanupFailed string string string
| Rustez rustez_error
| Io string
| Json string
| Denied string string string string string "nat option"
| DeniedAllowlist string string string string
| AllowlistEntryInvalid string string string
| ConfigDomainAllowlistInvariant string string
| PlaneOwnedDevice string string string
| DirectCommitDisabled string
| ConfigFormatNotAllowedWithRules string
| BlocklistRuleInvalid string string string
| TemplateSyntax string
| TemplateVars string
| TemplateRender string
| TemplateFormatMismatch string
| Validation string
| ConfigParseHint string
| InventoryReadonly
| DeviceExists string
| PasswordAuthDisabled
| InvalidDeviceName string
| InvalidDeviceIp string
| InvalidDevicePort u32
| MissingArguments "string list"
| InventoryDriftedOnDisk
| EmptyInventory
| InventoryRead string
| InventoryParse string
| InventoryWrite string
| KnownHostsMissing string

type_synonym 'a jres = "jmcp_error + 'a"

definition show_int :: "int \<Rightarrow> string" where
  "show_int i = (if i < 0 then CHR ''-'' # show_nat (nat (- i)) else show_nat (nat i))"

text \<open>The \<^verbatim>\<open>Debug\<close> of a list of field names, which hold no character that needs an escape.\<close>

definition debug_strings :: "string list \<Rightarrow> string" where
  "debug_strings xs = ''['' @ str_join '', '' (map (\<lambda>x. [DQ] @ x @ [DQ]) xs) @ '']''"

definition error_to_string :: "jmcp_error \<Rightarrow> string" where
  "error_to_string e =
     (case e of
        UnknownRouter a \<Rightarrow>
          ''router '' @ [SQ] @ a @ [SQ] @ '' not found in device mapping''
      | InventoryInvalid a \<Rightarrow>
          ''invalid devices.json: '' @ a
      | KeyFileMissing a \<Rightarrow>
          ''private key file not found: '' @ a
      | SshConfigInvalid router source0 \<Rightarrow>
          ''ssh_config invalid for router '' @ [SQ] @ router @ [SQ] @ '': '' @ source0
      | BadFormat a \<Rightarrow>
          ''invalid config_format '' @ [SQ] @ a @ [SQ] @ '' (expected set, text, or xml)''
      | BadConfigFormat a \<Rightarrow>
          ''invalid format '' @ [SQ] @ a @ [SQ]
          @ '' for get_junos_config (expected text, set, xml, or json)''
      | BadLoadMode a \<Rightarrow>
          ''invalid mode '' @ [SQ] @ a @ [SQ] @ '' (expected merge, replace, or override)''
      | OverrideRequiresChangeSet tool \<Rightarrow>
          ''refused: mode=override on '' @ [SQ] @ tool @ [SQ]
          @ '' is refused because this tool commits directly with no second-principal review. Route the change through create_junos_change_set ''
          @ [CHR 0xE2, CHR 0x86, CHR 0x92] @ '' approve_junos_change_set ''
          @ [CHR 0xE2, CHR 0x86, CHR 0x92] @ '' apply_junos_change_set instead.''
      | OverrideRequiresHumanApproval tool \<Rightarrow>
          ''refused: mode=override on '' @ [SQ] @ tool @ [SQ]
          @ '' is refused while this server runs in lab mode, because lab mode waives approval and override has no other path to a human approver''
      | IncompatibleFormatMode format0 mode0 \<Rightarrow>
          ''mode '' @ [SQ] @ mode0 @ [SQ] @ '' is not compatible with config_format '' @ [SQ]
          @ format0 @ [SQ]
      | BadPfeCommand a \<Rightarrow>
          ''invalid pfe_command: '' @ a
      | BadRollbackVersion a \<Rightarrow>
          ''rollback version '' @ show_int a @ '' out of range (0..=49)''
      | BadSourcePath a \<Rightarrow>
          ''invalid source_path [code=bad_source_path]: '' @ a
      | InsufficientDisk free required message \<Rightarrow>
          ''insufficient disk [code=insufficient_disk]: '' @ message @ '' (free=''
          @ show_nat (unat free) @ ''B required='' @ show_nat (unat required) @ ''B)''
      | UnsupportedAuth a \<Rightarrow>
          ''unsupported auth [code=unsupported_auth]: device '' @ [SQ] @ a @ [SQ]
          @ '' uses password auth; transfer_file requires ssh_key (add SshKey to inventory)''
      | DestExistsDiffers dest local_sha remote_sha \<Rightarrow>
          ''destination already exists with different content [code=dest_exists_differs]: ''
          @ dest @ '' (local sha256='' @ local_sha @ '', remote sha256='' @ remote_sha
          @ ''); pass force=true to overwrite''
      | ScpFailed exit_code stderr \<Rightarrow>
          ''scp failed [code=scp_failed] (exit='' @ show_int exit_code @ ''): '' @ stderr
      | ScpDependencyUnavailable detail \<Rightarrow>
          ''required OpenSSH scp dependency unavailable [code=scp_dependency_unavailable]: ''
          @ detail
          @ ''; install openssh-client with legacy -O support or use the supported container image''
      | ConnectTimeout a \<Rightarrow>
          ''scp connect timeout [code=connect_timeout]: device '' @ [SQ] @ a @ [SQ]
          @ '' may be unreachable or SSH (port 22) is filtered''
      | HostKeyMismatch router known_hosts_file \<Rightarrow>
          ''host key verification failed [code=host_key_mismatch]: router '' @ [SQ] @ router
          @ [SQ] @ '' was rejected; review or refresh the entry in '' @ known_hosts_file
      | HostKeyRevoked router known_hosts_file \<Rightarrow>
          ''host key revoked [code=host_key_revoked]: router '' @ [SQ] @ router @ [SQ]
          @ '' key is marked @revoked in '' @ known_hosts_file
          @ ''; the key is compromised and must not be trusted''
      | DeviceProbeFailed phase message \<Rightarrow>
          ''device probe failed [code=device_probe_failed] (phase='' @ phase @ ''): '' @ message
      | VerifyMismatch dest local_sha remote_sha \<Rightarrow>
          ''post-transfer verify failed [code=verify_mismatch]: '' @ dest @ '' (local sha256=''
          @ local_sha @ '', remote sha256='' @ remote_sha @ ''); destination file was deleted''
      | LocalDestExistsDiffers dest local_sha remote_sha \<Rightarrow>
          ''[code=local_dest_exists_differs] local destination '' @ [SQ] @ dest @ [SQ]
          @ '' exists with sha256 '' @ [SQ] @ local_sha @ [SQ] @ ''; remote sha256 is '' @ [SQ]
          @ remote_sha @ [SQ] @ ''; set force=true to overwrite''
      | RemoteFileMissing router remote_path \<Rightarrow>
          ''[code=remote_file_missing] router '' @ [SQ] @ router @ [SQ] @ '' has no file at ''
          @ [SQ] @ remote_path @ [SQ]
      | FetchVerifyMismatch dest local_sha remote_sha \<Rightarrow>
          ''[code=fetch_verify_mismatch] fetched file '' @ [SQ] @ dest @ [SQ] @ '' local sha256 ''
          @ [SQ] @ local_sha @ [SQ] @ '' does not match remote sha256 '' @ [SQ] @ remote_sha
          @ [SQ]
      | TransferOuterTimeout a \<Rightarrow>
          ''transfer outer timeout [code=outer_timeout] after '' @ duration_debug a
          @ ''; raise the `timeout` arg or split the file''
      | ConfirmationRequired payload \<Rightarrow>
          ''confirmation required [code=confirmation_required]: re-call with confirm=true to proceed; plan: ''
          @ payload
      | UpgradeClusterUnsupported router \<Rightarrow>
          ''cluster device unsupported [code=cluster_unsupported]: router '' @ [SQ] @ router
          @ [SQ]
          @ '' is a chassis cluster; upgrade_junos v1 supports standalone devices only (ISSU support deferred to v2)''
      | UpgradeCommitConfirmedActive router rollback_secs \<Rightarrow>
          ''active commit-confirmed window [code=commit_confirmed_active]: router '' @ [SQ]
          @ router @ [SQ] @ '' has a pending rollback in '' @ show_nat (unat rollback_secs)
          @ ''s; run `commit` or `rollback` first, then retry''
      | UpgradeInstallTimeout router elapsed \<Rightarrow>
          ''install RPC timed out [code=install_timeout]: router '' @ [SQ] @ router @ [SQ]
          @ '' after '' @ duration_debug elapsed
          @ ''; the install may still be running on the device ''
          @ [CHR 0xE2, CHR 0x80, CHR 0x94]
          @ '' check from console or retry once the device is reachable''
      | UpgradeRebootTimeout router waited_secs \<Rightarrow>
          ''device did not return after reboot [code=reboot_timeout]: router '' @ [SQ] @ router
          @ [SQ] @ '' did not reopen NETCONF within '' @ show_nat (unat waited_secs)
          @ ''s; check console / hardware status''
      | UpgradePostVerifyMismatch router expected observed \<Rightarrow>
          ''post-upgrade version mismatch [code=postverify_mismatch]: router '' @ [SQ] @ router
          @ [SQ] @ '' expected '' @ [SQ] @ expected @ [SQ] @ '', got '' @ [SQ] @ observed @ [SQ]
          @ ''; the install may have rolled back or failed silently''
      | UpgradeOuterTimeout a \<Rightarrow>
          ''upgrade outer timeout [code=upgrade_outer_timeout] after '' @ duration_debug a
          @ ''; raise the `timeout` arg or check device responsiveness''
      | Timeout a \<Rightarrow>
          ''operation timed out after '' @ duration_debug a
      | Cancelled \<Rightarrow>
          ''operation cancelled by client [code=cancelled]''
      | DeviceLeaseBusy router waited_secs \<Rightarrow>
          ''device lease busy [code=device_lease_busy]: router '' @ [SQ] @ router @ [SQ]
          @ '' remained locked by another destructive workflow after ''
          @ show_nat (unat waited_secs) @ ''s''
      | DeviceLeaseError router detail \<Rightarrow>
          ''device lease failed [code=device_lease_error]: router '' @ [SQ] @ router @ [SQ]
          @ '': '' @ detail
      | CandidateCleanupFailed primary rollback unlock \<Rightarrow>
          ''candidate cleanup failed [code=candidate_cleanup_failed]: primary='' @ primary
          @ ''; rollback='' @ rollback @ ''; unlock='' @ unlock
      | Rustez a \<Rightarrow>
          rz_text a
      | Io a \<Rightarrow>
          ''io: '' @ a
      | Json a \<Rightarrow>
          ''json: '' @ a
      | Denied tool router pattern rule_source input_excerpt _ \<Rightarrow>
          ''denied by blocklist: '' @ tool @ '' on '' @ [SQ] @ router @ [SQ] @ '' matched rule ''
          @ [SQ] @ pattern @ [SQ] @ '' (action=deny, source='' @ rule_source @ ''); input: ''
          @ input_excerpt
      | DeniedAllowlist tool router reason input_excerpt \<Rightarrow>
          ''denied by allowlist: '' @ tool @ '' on '' @ [SQ] @ router @ [SQ] @ '': '' @ reason
          @ ''; input: '' @ input_excerpt
      | AllowlistEntryInvalid scope entry reason \<Rightarrow>
          ''invalid allowlist entry for '' @ scope @ '': entry '' @ [SQ] @ entry @ [SQ] @ '' ''
          @ reason
      | ConfigDomainAllowlistInvariant tool router \<Rightarrow>
          ''policy invariant violated: '' @ tool @ '' on '' @ [SQ] @ router @ [SQ]
          @ '': check_config returned DenyAllowlist, which the config domain must never produce''
      | PlaneOwnedDevice tool device authority \<Rightarrow>
          ''refused: '' @ tool @ '' on '' @ [SQ] @ device @ [SQ] @ '' is owned by '' @ authority
          @ ''. Changes to plane-owned devices are overwritten at the next push. Use --allow-plane-owned-writes to permit this operation with a warning.''
      | DirectCommitDisabled a \<Rightarrow>
          a
      | ConfigFormatNotAllowedWithRules format0 \<Rightarrow>
          ''config blocklist rules require config_format=set; got '' @ [SQ] @ format0 @ [SQ]
      | BlocklistRuleInvalid scope pattern source0 \<Rightarrow>
          ''invalid blocklist rule for '' @ scope @ '': pattern '' @ [SQ] @ pattern @ [SQ]
          @ '': '' @ source0
      | TemplateSyntax a \<Rightarrow>
          ''template syntax error: '' @ a
      | TemplateVars a \<Rightarrow>
          ''template vars parse error: '' @ a
      | TemplateRender a \<Rightarrow>
          ''template render error: '' @ a
      | TemplateFormatMismatch format0 \<Rightarrow>
          ''template format `'' @ format0 @ ''` not allowed: device has config rules; use `set`''
      | Validation a \<Rightarrow>
          ''validation error: '' @ a
      | ConfigParseHint a \<Rightarrow>
          a
      | InventoryReadonly \<Rightarrow>
          ''inventory is read-only (--inventory-readonly set)''
      | DeviceExists a \<Rightarrow>
          ''device `'' @ a @ ''` already exists in the inventory''
      | PasswordAuthDisabled \<Rightarrow>
          ''password authentication is not allowed for add_device; use --allow-password-auth-add to enable''
      | InvalidDeviceName a \<Rightarrow>
          ''invalid device name `'' @ a @ ''`: must match ^[A-Za-z0-9_.-]+$''
      | InvalidDeviceIp a \<Rightarrow>
          ''invalid device IP/hostname `'' @ a @ ''`''
      | InvalidDevicePort a \<Rightarrow>
          ''invalid device port `'' @ show_nat (unat a) @ ''`: must be in 1..=65535''
      | MissingArguments a \<Rightarrow>
          ''missing required arguments: '' @ debug_strings a
      | InventoryDriftedOnDisk \<Rightarrow>
          ''inventory file changed on disk between read and write; call reload_devices and retry''
      | EmptyInventory \<Rightarrow>
          ''inventory is empty (no devices)''
      | InventoryRead a \<Rightarrow>
          ''inventory file read error: '' @ a
      | InventoryParse a \<Rightarrow>
          ''inventory parse error: '' @ a
      | InventoryWrite a \<Rightarrow>
          ''inventory file write error: '' @ a
      | KnownHostsMissing a \<Rightarrow>
          ''known_hosts file missing or unreadable [code=known_hosts_missing]: '' @ a
          @ ''; run scripts/scan-known-hosts.sh to pre-populate it, or pass --ssh-accept-new-host-keys (lab only)'')"

definition audit_kind :: "jmcp_error \<Rightarrow> string" where
  "audit_kind e =
     (case e of
        UnknownRouter _ \<Rightarrow> ''unknown_router''
      | InventoryInvalid _ \<Rightarrow> ''invalid_input''
      | KeyFileMissing _ \<Rightarrow> ''not_found''
      | SshConfigInvalid _ _ \<Rightarrow> ''invalid_input''
      | BadFormat _ \<Rightarrow> ''invalid_input''
      | BadConfigFormat _ \<Rightarrow> ''invalid_input''
      | BadLoadMode _ \<Rightarrow> ''invalid_input''
      | OverrideRequiresChangeSet _ \<Rightarrow> ''blocked''
      | OverrideRequiresHumanApproval _ \<Rightarrow> ''blocked''
      | IncompatibleFormatMode _ _ \<Rightarrow> ''invalid_input''
      | BadPfeCommand _ \<Rightarrow> ''invalid_input''
      | BadRollbackVersion _ \<Rightarrow> ''invalid_input''
      | BadSourcePath _ \<Rightarrow> ''invalid_input''
      | InsufficientDisk _ _ _ \<Rightarrow> ''insufficient_disk''
      | UnsupportedAuth _ \<Rightarrow> ''unsupported''
      | DestExistsDiffers _ _ _ \<Rightarrow> ''conflict''
      | ScpFailed _ _ \<Rightarrow> ''scp_failed''
      | ScpDependencyUnavailable _ \<Rightarrow> ''dependency_unavailable''
      | ConnectTimeout _ \<Rightarrow> ''timeout''
      | HostKeyMismatch _ _ \<Rightarrow> ''host_key_mismatch''
      | HostKeyRevoked _ _ \<Rightarrow> ''host_key_revoked''
      | DeviceProbeFailed _ _ \<Rightarrow> ''device_probe_failed''
      | VerifyMismatch _ _ _ \<Rightarrow> ''verify_mismatch''
      | LocalDestExistsDiffers _ _ _ \<Rightarrow> ''conflict''
      | RemoteFileMissing _ _ \<Rightarrow> ''not_found''
      | FetchVerifyMismatch _ _ _ \<Rightarrow> ''verify_mismatch''
      | TransferOuterTimeout _ \<Rightarrow> ''timeout''
      | ConfirmationRequired _ \<Rightarrow> ''confirmation_required''
      | UpgradeClusterUnsupported _ \<Rightarrow> ''unsupported''
      | UpgradeCommitConfirmedActive _ _ \<Rightarrow> ''commit_confirmed_active''
      | UpgradeInstallTimeout _ _ \<Rightarrow> ''timeout''
      | UpgradeRebootTimeout _ _ \<Rightarrow> ''timeout''
      | UpgradePostVerifyMismatch _ _ _ \<Rightarrow> ''verify_mismatch''
      | UpgradeOuterTimeout _ \<Rightarrow> ''timeout''
      | Timeout _ \<Rightarrow> ''timeout''
      | Cancelled \<Rightarrow> ''cancelled''
      | DeviceLeaseBusy _ _ \<Rightarrow> ''lease_busy''
      | DeviceLeaseError _ _ \<Rightarrow> ''lease_error''
      | CandidateCleanupFailed _ _ _ \<Rightarrow> ''lease_error''
      | Rustez _ \<Rightarrow> ''transport''
      | Io _ \<Rightarrow> ''io''
      | Json _ \<Rightarrow> ''parse''
      | Denied _ _ _ _ _ _ \<Rightarrow> ''blocked''
      | DeniedAllowlist _ _ reason _ \<Rightarrow> reason
      | AllowlistEntryInvalid _ _ _ \<Rightarrow> ''invalid_input''
      | ConfigDomainAllowlistInvariant _ _ \<Rightarrow> ''blocked''
      | PlaneOwnedDevice _ _ _ \<Rightarrow> ''blocked''
      | DirectCommitDisabled _ \<Rightarrow> ''blocked''
      | ConfigFormatNotAllowedWithRules _ \<Rightarrow> ''invalid_input''
      | BlocklistRuleInvalid _ _ _ \<Rightarrow> ''invalid_input''
      | TemplateSyntax _ \<Rightarrow> ''parse''
      | TemplateVars _ \<Rightarrow> ''parse''
      | TemplateRender _ \<Rightarrow> ''parse''
      | TemplateFormatMismatch _ \<Rightarrow> ''invalid_input''
      | Validation _ \<Rightarrow> ''invalid_input''
      | ConfigParseHint _ \<Rightarrow> ''invalid_input''
      | InventoryReadonly \<Rightarrow> ''inventory_readonly''
      | DeviceExists _ \<Rightarrow> ''conflict''
      | PasswordAuthDisabled \<Rightarrow> ''unsupported''
      | InvalidDeviceName _ \<Rightarrow> ''invalid_input''
      | InvalidDeviceIp _ \<Rightarrow> ''invalid_input''
      | InvalidDevicePort _ \<Rightarrow> ''invalid_input''
      | MissingArguments _ \<Rightarrow> ''invalid_input''
      | InventoryDriftedOnDisk \<Rightarrow> ''conflict''
      | EmptyInventory \<Rightarrow> ''inventory_empty''
      | InventoryRead _ \<Rightarrow> ''io''
      | InventoryParse _ \<Rightarrow> ''parse''
      | InventoryWrite _ \<Rightarrow> ''io''
      | KnownHostsMissing _ \<Rightarrow> ''not_found'')"

section \<open>Errors that say a remote call was dropped\<close>

text \<open>
  The pattern \<^verbatim>\<open>JmcpError::Cancelled | JmcpError::Timeout(_)\<close>, by which the transaction code
  recognises an RPC whose answer it did not wait for.
\<close>

definition is_dropped_rpc :: "jmcp_error \<Rightarrow> bool" where
  "is_dropped_rpc e = (case e of Cancelled \<Rightarrow> True | Timeout _ \<Rightarrow> True | _ \<Rightarrow> False)"

lemma is_dropped_rpc_simps [simp]:
  "is_dropped_rpc Cancelled" "is_dropped_rpc (Timeout d)"
  "\<not> is_dropped_rpc (Validation v)" "\<not> is_dropped_rpc (Rustez r)"
  by (simp_all add: is_dropped_rpc_def)

end
