(* ===== verification/Helpers.thy ===== *)
theory Helpers
  imports Jmcp_Error
begin

text \<open>
  \<^verbatim>\<open>rust-junosmcp-core/src/helpers.rs\<close> and \<^verbatim>\<open>config_authority.rs\<close>: argument parsing and
  validation, the load-mode gate, the confirmed-commit window, and the ownership check, as
  pure functions. Server-wide knobs that the source keeps in atomics are a record passed in;
  the wall clock is an argument.

  Unicode's table of alphanumeric characters beyond ASCII is a parameter of the path check.
\<close>

section \<open>Payloads and load modes\<close>

datatype config_payload = PayloadSet string | PayloadText string | PayloadXml string

datatype load_action = Merge | Replace | Override | LoadSet | Update

definition load_action_as_str :: "load_action \<Rightarrow> string" where
  "load_action_as_str a =
     (case a of Merge \<Rightarrow> ''merge'' | Replace \<Rightarrow> ''replace'' | Override \<Rightarrow> ''override''
      | LoadSet \<Rightarrow> ''set'' | Update \<Rightarrow> ''update'')"

definition build_config_payload :: "string \<Rightarrow> string option \<Rightarrow> config_payload jres" where
  "build_config_payload txt fmt =
     (let f = (case fmt of None \<Rightarrow> ''set'' | Some x \<Rightarrow> x) in
      if f = ''set'' then Inr (PayloadSet txt)
      else if f = ''text'' then Inr (PayloadText txt)
      else if f = ''xml'' then Inr (PayloadXml txt)
      else Inl (BadFormat f))"

definition parse_load_mode :: "string option \<Rightarrow> load_action jres" where
  "parse_load_mode mode =
     (let m = (case mode of None \<Rightarrow> ''merge'' | Some x \<Rightarrow> x) in
      if m = ''merge'' then Inr Merge
      else if m = ''replace'' then Inr Replace
      else if m = ''override'' then Inr Override
      else Inl (BadLoadMode m))"

definition resolve_load_action :: "string \<Rightarrow> load_action \<Rightarrow> load_action jres" where
  "resolve_load_action fmt mode =
     (if fmt = ''set'' \<and> mode = Override then Inl (IncompatibleFormatMode fmt ''override'')
      else if fmt = ''set'' then Inr LoadSet
      else Inr mode)"

definition refuse_override_outside_changeset :: "string \<Rightarrow> load_action \<Rightarrow> unit jres" where
  "refuse_override_outside_changeset tool mode =
     (if mode = Override then Inl (OverrideRequiresChangeSet tool) else Inr ())"

definition config_display_suffix :: "string \<Rightarrow> string option jres" where
  "config_display_suffix fmt =
     (if fmt = ''text'' then Inr None
      else if fmt = ''set'' then Inr (Some ''display set'')
      else if fmt = ''xml'' then Inr (Some ''display xml'')
      else if fmt = ''json'' then Inr (Some ''display json'')
      else Inl (BadConfigFormat fmt))"

section \<open>Text\<close>

definition excerpt :: "string \<Rightarrow> string" where
  "excerpt s = (if length s \<le> 120 then s else take (floor_boundary s 120) s)"

definition OPEN_TAG :: string where "OPEN_TAG = ''<configuration-output>''"
definition CLOSE_TAG :: string where "CLOSE_TAG = ''</configuration-output>''"

definition strip_config_xml_wrapper :: "string \<Rightarrow> string" where
  "strip_config_xml_wrapper raw =
     (case str_find OPEN_TAG raw of
        None \<Rightarrow> str_trim raw
      | Some start \<Rightarrow>
          (let rest = drop (start + length OPEN_TAG) raw in
           case str_find CLOSE_TAG rest of
             None \<Rightarrow> str_trim raw
           | Some e \<Rightarrow> str_trim (take e rest)))"

definition MAX_INPUT_LEN :: nat where "MAX_INPUT_LEN = 1048576"

definition validate_input_length :: "string \<Rightarrow> string \<Rightarrow> unit jres" where
  "validate_input_length field_name val =
     (if length val > MAX_INPUT_LEN
      then Inl (InventoryInvalid
             (field_name @ '' exceeds maximum length of '' @ show_nat MAX_INPUT_LEN @ '' bytes''))
      else Inr ())"

section \<open>Rollback versions and confirm windows\<close>

definition validate_rollback_version :: "i64 \<Rightarrow> u32 jres" where
  "validate_rollback_version v =
     (if 0 \<le> sint v \<and> sint v \<le> 49 then Inr (ucast v) else Inl (BadRollbackVersion (sint v)))"

definition confirm_timeout_to_secs :: "u32 \<Rightarrow> u32 jres" where
  "confirm_timeout_to_secs mins =
     (if mins = 0 then Inl (Validation ''confirm_timeout_mins must be >= 1'')
      else (case checked_mul mins 60 of
              Some secs \<Rightarrow> Inr secs
            | None \<Rightarrow> Inl (Validation
                ''confirm_timeout_mins too large (overflow when converting to seconds)'')))"

text \<open>The two process-wide settings, written once at start-up.\<close>

record knobs =
  confirm_default_mins :: u32
  cleanup_timeout_secs :: u64

definition default_knobs :: knobs where
  "default_knobs = \<lparr>confirm_default_mins = 10, cleanup_timeout_secs = 30\<rparr>"

definition set_commit_confirm_default_mins :: "u32 \<Rightarrow> knobs \<Rightarrow> knobs" where
  "set_commit_confirm_default_mins mins k = k\<lparr>confirm_default_mins := mins\<rparr>"

datatype confirm_decision = Confirmed u32 | OptedOut

definition resolve_confirm_timeout :: "knobs \<Rightarrow> u32 option \<Rightarrow> confirm_decision" where
  "resolve_confirm_timeout k caller_mins =
     (case caller_mins of
        None \<Rightarrow> Confirmed (confirm_default_mins k)
      | Some m \<Rightarrow> if m = 0 then OptedOut else Confirmed m)"

text \<open>\<open>now\<close> is the Unix time, 0 when the clock is before the epoch.\<close>

definition rollback_deadline_unix :: "u64 \<Rightarrow> u32 \<Rightarrow> u64" where
  "rollback_deadline_unix now mins = saturating_add now (saturating_mul (ucast mins) 60)"

section \<open>Configuration paths and output caps\<close>

definition dangerous_chars :: "(char \<times> string) list" where
  "dangerous_chars =
     [(CHR ''|'', ''pipe operator''), (CHR '';'', ''semicolon''), (NL, ''newline''),
      (CR, ''carriage return''), (DQ, ''double quote''), (SQ, ''single quote''),
      (CHR 0x60, ''backtick''), (CHR ''$'', ''dollar sign''), (CHR ''&'', ''ampersand''),
      (CHR ''>'', ''redirect''), (CHR ''<'', ''redirect''), (CHR 0x5C, ''backslash''),
      (CHR ''('', ''parenthesis''), (CHR '')'', ''parenthesis''), (CHR ''{'', ''brace''),
      (CHR ''}'', ''brace''), (CHR ''['', ''bracket''), (CHR '']'', ''bracket''),
      (CHR ''*'', ''wildcard''), (CHR ''?'', ''wildcard''), (CHR ''!'', ''exclamation''),
      (CHR ''#'', ''hash'')]"

definition is_alphanumeric :: "(string \<Rightarrow> bool) \<Rightarrow> string \<Rightarrow> bool" where
  "is_alphanumeric uni_alnum ch =
     (case ch of [c] \<Rightarrow> if byte c < 128 then is_ascii_alphanumeric c else uni_alnum ch
      | _ \<Rightarrow> uni_alnum ch)"

definition path_char_allowed :: "(string \<Rightarrow> bool) \<Rightarrow> string \<Rightarrow> bool" where
  "path_char_allowed uni_alnum ch \<longleftrightarrow>
     is_alphanumeric uni_alnum ch \<or> ch \<in> {''-'', ''_'', ''.'', ''/'', '':'', '' ''}"

definition validate_config_path :: "(string \<Rightarrow> bool) \<Rightarrow> string \<Rightarrow> unit jres" where
  "validate_config_path uni_alnum path =
     (if str_trim path = [] then Inl (Validation ''config_path cannot be empty or whitespace-only'')
      else (case find (\<lambda>(ch, _). ch \<in> set path) dangerous_chars of
        Some (ch, name) \<Rightarrow>
          Inl (Validation (''config_path contains forbidden character: '' @ name @ '' ('' @ [ch] @ '')''))
      | None \<Rightarrow>
         (case find (\<lambda>ch. \<not> path_char_allowed uni_alnum ch) (utf8_chars path) of
            Some ch \<Rightarrow>
              Inl (Validation (''config_path contains invalid character: '' @ [SQ] @ ch @ [SQ]
                @ '' (only alphanumerics, hyphens, underscores, dots, slashes, colons, and spaces are allowed)''))
          | None \<Rightarrow>
              if str_contains ''  '' path
              then Inl (Validation ''config_path contains consecutive spaces'')
              else Inr ())))"

definition MIN_MAX_BYTES :: u32 where "MIN_MAX_BYTES = 64"

definition validate_output_caps :: "u32 option \<Rightarrow> u32 option \<Rightarrow> unit jres" where
  "validate_output_caps max_lines max_bytes =
     (if max_lines = Some 0
      then Inl (Validation ''max_lines must be at least 1; a cap of 0 asks for no output at all'')
      else (case max_bytes of
              Some bytes \<Rightarrow>
                if bytes < MIN_MAX_BYTES
                then Inl (Validation (''max_bytes must be at least '' @ show_nat (unat MIN_MAX_BYTES)
                  @ ''; a smaller budget cannot hold the truncation marker, so the cap could not be honoured exactly''))
                else Inr ()
            | None \<Rightarrow> Inr ()))"

section \<open>Ownership\<close>

datatype junos_authority = Local | Mist | SecurityDirectorCloud | SecurityDirectorOnprem | Unknown

definition authority_default :: junos_authority where
  "authority_default = Unknown"

definition is_local :: "junos_authority \<Rightarrow> bool" where
  "is_local a = (case a of Local \<Rightarrow> True | _ \<Rightarrow> False)"

text \<open>The kebab-case name serde writes for a variant, without its quotes.\<close>

definition authority_str :: "junos_authority \<Rightarrow> string" where
  "authority_str a =
     (case a of Local \<Rightarrow> ''local'' | Mist \<Rightarrow> ''mist''
      | SecurityDirectorCloud \<Rightarrow> ''security-director-cloud''
      | SecurityDirectorOnprem \<Rightarrow> ''security-director-onprem'' | Unknown \<Rightarrow> ''unknown'')"

definition ownership_warning :: "string \<Rightarrow> string" where
  "ownership_warning owner =
     ''WARNING: this device is owned by '' @ owner
     @ ''. Changes may be overwritten at the next push from the owning management plane.''"

definition check_plane_owned_operation ::
    "string \<Rightarrow> string \<Rightarrow> junos_authority \<Rightarrow> bool \<Rightarrow> string option jres" where
  "check_plane_owned_operation tool_name device_name authority allow_plane_owned_writes =
     (case authority of
        Local \<Rightarrow> Inr None
      | Unknown \<Rightarrow> Inr None
      | _ \<Rightarrow>
          if allow_plane_owned_writes then Inr (Some (ownership_warning (authority_str authority)))
          else Inl (PlaneOwnedDevice tool_name device_name (authority_str authority)))"

section \<open>Lemmas\<close>

lemma parse_load_mode_cases:
  "parse_load_mode m = Inr a \<Longrightarrow> a \<in> {Merge, Replace, Override}"
  by (auto simp: parse_load_mode_def Let_def split: if_splits)

lemma resolve_load_action_Override_iff:
  "resolve_load_action f m = Inr Override \<longleftrightarrow> f \<noteq> ''set'' \<and> m = Override"
  by (auto simp: resolve_load_action_def)

lemma excerpt_prefix: "prefix (excerpt s) s"
  by (simp add: excerpt_def take_is_prefix)

lemma length_excerpt_le: "length (excerpt s) \<le> 120"
  using floor_boundary_le [of s 120] by (auto simp: excerpt_def)

lemma excerpt_boundary: "is_char_boundary s (length (excerpt s))"
proof (cases "length s \<le> 120")
  case True
  then show ?thesis by (simp add: excerpt_def)
next
  case False
  then have "length (excerpt s) = floor_boundary s 120"
    using floor_boundary_le [of s 120] by (simp add: excerpt_def)
  then show ?thesis by (simp add: floor_boundary_ok)
qed

lemma confirm_timeout_to_secs_Inr_iff:
  "confirm_timeout_to_secs m = Inr s \<longleftrightarrow>
     m \<noteq> 0 \<and> unat m * 60 < 2 ^ 32 \<and> unat s = unat m * 60"
  by (auto simp: confirm_timeout_to_secs_def checked_mul_Some_iff word_unat_eq_iff split: option.splits)
     (auto simp: checked_mul_def split: if_splits)

lemma utf8_chars_ascii:
  "\<forall>c\<in>set s. byte c < 128 \<Longrightarrow> utf8_chars s = map (\<lambda>c. [c]) s"
proof (induction s)
  case Nil
  show ?case by simp
next
  case (Cons c cs)
  then have "takeWhile is_cont cs = []" and "dropWhile is_cont cs = cs"
    by (cases cs; simp add: is_cont_def)+
  with Cons show ?case by simp
qed

lemma find_dangerous_None_iff:
  "find (\<lambda>(ch, _). ch \<in> set path) dangerous_chars = None \<longleftrightarrow>
     (\<forall>ch\<in>fst ` set dangerous_chars. ch \<notin> set path)"
  by (fastforce simp: find_None_iff)

lemma validate_config_path_Inr_iff:
  "validate_config_path ua p = Inr () \<longleftrightarrow>
     str_trim p \<noteq> [] \<and> (\<forall>ch\<in>fst ` set dangerous_chars. ch \<notin> set p)
     \<and> (\<forall>ch\<in>set (utf8_chars p). path_char_allowed ua ch) \<and> \<not> str_contains ''  '' p"
proof (cases "find (\<lambda>(ch, _). ch \<in> set p) dangerous_chars")
  case None
  then have d: "\<forall>ch\<in>fst ` set dangerous_chars. ch \<notin> set p"
    by (simp only: find_dangerous_None_iff)
  show ?thesis
  proof (cases "find (\<lambda>ch. \<not> path_char_allowed ua ch) (utf8_chars p)")
    case (Some ch)
    then have "\<not> (\<forall>ch\<in>set (utf8_chars p). path_char_allowed ua ch)"
      by (fastforce simp: find_Some_iff dest: nth_mem)
    with None Some show ?thesis by (simp add: validate_config_path_def)
  next
    case n: None
    then have "\<forall>ch\<in>set (utf8_chars p). path_char_allowed ua ch"
      by (auto simp: find_None_iff)
    with None n d show ?thesis by (simp add: validate_config_path_def)
  qed
next
  case (Some x)
  then have "\<not> (\<forall>ch\<in>fst ` set dangerous_chars. ch \<notin> set p)"
    by (metis find_dangerous_None_iff option.distinct(1))
  with Some show ?thesis by (auto simp: validate_config_path_def split: prod.splits)
qed

lemma dangerous_not_allowed:
  "ch \<in> fst ` set dangerous_chars \<Longrightarrow> \<not> is_ascii_alphanumeric ch \<and> ch \<notin> set ''-_./: ''"
  by (auto simp: dangerous_chars_def is_ascii_alphanumeric_def byte_def)

lemma path_char_allowed_ascii:
  "byte c < 128 \<Longrightarrow> path_char_allowed ua [c] \<longleftrightarrow> is_ascii_alphanumeric c \<or> c \<in> set ''-_./: ''"
  by (auto simp: path_char_allowed_def is_alphanumeric_def)

section \<open>Properties\<close>

text \<open>
  C40. On ASCII input the path check of \<^verbatim>\<open>get_junos_config\<close> accepts exactly the paths that hold
  something besides whitespace, use only letters, digits and the six separators, and have no two
  spaces in a row: the explicit list of forbidden characters takes nothing away from the
  allowlist and lets nothing past it.
\<close>

theorem validate_config_path_accepts_iff:
  assumes "\<forall>c\<in>set p. byte c < 128"
  shows "validate_config_path ua p = Inr () \<longleftrightarrow>
     str_trim p \<noteq> [] \<and> (\<forall>c\<in>set p. is_ascii_alphanumeric c \<or> c \<in> set ''-_./: '')
     \<and> \<not> str_contains ''  '' p"
proof -
  have chars: "(\<forall>ch\<in>set (utf8_chars p). path_char_allowed ua ch) \<longleftrightarrow>
      (\<forall>c\<in>set p. is_ascii_alphanumeric c \<or> c \<in> set ''-_./: '')"
    using assms by (auto simp: utf8_chars_ascii path_char_allowed_ascii simp del: set_simps list.set)
  have "\<forall>ch\<in>fst ` set dangerous_chars. ch \<notin> set p"
    if "\<forall>c\<in>set p. is_ascii_alphanumeric c \<or> c \<in> set ''-_./: ''"
    using that dangerous_not_allowed by blast
  then show ?thesis
    unfolding validate_config_path_Inr_iff chars by blast
qed

theorem validate_config_path_accepts_iff_witness:
  "validate_config_path (\<lambda>_. False) ''system services'' = Inr ()"
proof -
  have a: "\<forall>c\<in>set ''system services''. byte c < 128" by code_simp
  have "str_trim ''system services'' \<noteq> []" by code_simp
  moreover have "\<forall>c\<in>set ''system services''. is_ascii_alphanumeric c \<or> c \<in> set ''-_./: ''"
    by code_simp
  moreover have "\<not> str_contains ''  '' ''system services''" by code_simp
  ultimately show ?thesis using a validate_config_path_accepts_iff [OF a] by blast
qed

text \<open>
  C38. No tool that commits without a second principal's review can send a load that replaces the
  whole configuration: once the requested mode has passed \<^verbatim>\<open>refuse_override_outside_changeset\<close>,
  whatever format it is combined with resolves to a wire action other than \<^verbatim>\<open>override\<close>; and a
  set-format load is always sent as \<^verbatim>\<open>set\<close>.
\<close>

theorem direct_commit_never_overrides:
  assumes "parse_load_mode mode = Inr m"
    and "refuse_override_outside_changeset tool m = Inr ()"
    and "resolve_load_action fmt m = Inr a"
  shows "a \<noteq> Override \<and> (fmt = ''set'' \<longleftrightarrow> a = LoadSet)"
  using assms parse_load_mode_cases [OF assms(1)]
  by (auto simp: refuse_override_outside_changeset_def resolve_load_action_def split: if_splits)

theorem direct_commit_never_overrides_witness:
  "parse_load_mode (Some ''replace'') = Inr Replace
   \<and> resolve_load_action ''text'' Replace = Inr Replace \<and> Replace \<noteq> Override"
proof -
  have 1: "parse_load_mode (Some ''replace'') = Inr Replace" by code_simp
  have 2: "refuse_override_outside_changeset ''load_and_commit_config'' Replace = Inr ()" by code_simp
  have 3: "resolve_load_action ''text'' Replace = Inr Replace" by code_simp
  show ?thesis using 1 3 direct_commit_never_overrides [OF 1 2 3] by blast
qed

text \<open>
  The excerpt that goes into a refusal and into the log is at most 120 bytes, is the beginning
  of the input, ends on a character boundary of the input, and is the whole input when that
  already fits.
\<close>

theorem excerpt_spec:
  "length (excerpt s) \<le> 120 \<and> prefix (excerpt s) s
   \<and> is_char_boundary s (length (excerpt s)) \<and> (excerpt s = s \<longleftrightarrow> length s \<le> 120)"
proof -
  have "excerpt s = s \<longleftrightarrow> length s \<le> 120"
    using length_excerpt_le [of s] by (auto simp: excerpt_def)
  then show ?thesis
    using length_excerpt_le excerpt_prefix excerpt_boundary by blast
qed

end
