(* ===== verification/Inventory.thy ===== *)
theory Inventory
  imports Helpers "HOL-Library.List_Lexorder" "HOL-Library.Char_ord"
begin

text \<open>
  \<^verbatim>\<open>rust-junosmcp-core/src/inventory.rs\<close>: the device entries of \<^verbatim>\<open>devices.json\<close> and the
  validation every loaded inventory passes. A hash map is an association list with distinct
  keys, in whatever order the map iterates. The parser of IP literals and the existence of a key
  file are parameters.
\<close>

section \<open>Data\<close>

datatype auth_config = Password string | SshKey string

datatype rule_action = Deny_action | Allow_action

record rule_spec =
  rs_action :: rule_action
  rs_pattern :: string

datatype command_mode_config = AllowlistCfg | BlocklistCfg

record blocklist_rules =
  commands :: "rule_spec list"
  config :: "rule_spec list"
  pfe_commands :: "rule_spec list"
  mode :: "command_mode_config option"
  allow :: "string list"
  allowed_pipes :: "string list"
  pfe_allow :: "string list"
  pfe_allowed_pipes :: "string list"

record device_entry =
  ip :: string
  port :: u16
  username :: string
  auth :: auth_config
  ssh_config :: "string option"
  blocklist :: "blocklist_rules option"
  config_authority :: junos_authority

definition default_port :: u16 where "default_port = 22"

record inventory =
  devices :: "(string \<times> device_entry) list"
  blocklist_defaults :: "blocklist_rules option"
  source_path :: string

definition empty_inventory :: inventory where
  "empty_inventory = \<lparr>devices = [], blocklist_defaults = None, source_path = []\<rparr>"

section \<open>Validation\<close>

definition name_char :: "char \<Rightarrow> bool" where
  "name_char c \<longleftrightarrow> is_ascii_alphanumeric c \<or> c = CHR ''_'' \<or> c = CHR ''.'' \<or> c = CHR ''-''"

definition is_valid_device_name :: "string \<Rightarrow> bool" where
  "is_valid_device_name s =
     (if s = [] \<or> length s > 64 \<or> starts_with ''-'' s then False else list_all name_char s)"

fun split_on :: "char \<Rightarrow> string \<Rightarrow> string list" where
  "split_on c [] = [[]]"
| "split_on c (x # xs) =
     (if x = c then [] # split_on c xs
      else (case split_on c xs of [] \<Rightarrow> [[x]] | l # ls \<Rightarrow> (x # l) # ls))"

definition is_valid_label :: "string \<Rightarrow> bool" where
  "is_valid_label label \<longleftrightarrow>
     label \<noteq> [] \<and> length label \<le> 63 \<and> \<not> starts_with ''-'' label \<and> last label \<noteq> CHR ''-''
     \<and> list_all (\<lambda>c. is_ascii_alphanumeric c \<or> c = CHR ''-'') label"

definition is_valid_ip_or_hostname :: "(string \<Rightarrow> bool) \<Rightarrow> string \<Rightarrow> bool" where
  "is_valid_ip_or_hostname is_ip_literal s =
     (if is_ip_literal s then True
      else if s = [] \<or> length s > 253 then False
      else list_all is_valid_label (split_on CHR ''.'' s))"

definition is_valid_ssh_username :: "string \<Rightarrow> bool" where
  "is_valid_ssh_username s =
     (if s = [] \<or> length s > 64 \<or> starts_with ''-'' s then False else list_all name_char s)"

definition is_valid_auth_path :: "string \<Rightarrow> bool" where
  "is_valid_auth_path p =
     (if p = [] then False
      else if CHR 0x00 \<in> set p then False
      else if starts_with ''-'' p then False
      else True)"

definition router_error :: "string \<Rightarrow> string \<Rightarrow> jmcp_error" where
  "router_error name what = InventoryInvalid (''router '' @ [SQ] @ name @ [SQ] @ '': '' @ what)"

definition validate_entry ::
    "(string \<Rightarrow> bool) \<Rightarrow> (string \<Rightarrow> bool) \<Rightarrow> string \<Rightarrow> device_entry \<Rightarrow> unit jres" where
  "validate_entry is_ip_literal file_exists name entry =
     (if \<not> is_valid_device_name name
      then Inl (router_error name (''name is invalid (must match ^[A-Za-z0-9_.-]{1,64}$, no leading '' @ [SQ] @ ''-'' @ [SQ] @ '')''))
      else if \<not> is_valid_ip_or_hostname is_ip_literal (ip entry)
      then Inl (router_error name ''ip/hostname is invalid'')
      else if port entry = 0
      then Inl (router_error name ''port must be non-zero'')
      else if \<not> is_valid_ssh_username (username entry)
      then Inl (router_error name (''username is invalid (must match ^[A-Za-z0-9_.-]{1,64}$, no leading '' @ [SQ] @ ''-'' @ [SQ] @ '')''))
      else
        and_then
          (case auth entry of
             SshKey private_key_path \<Rightarrow>
               if \<not> is_valid_auth_path private_key_path
               then Inl (router_error name (''private_key_path is invalid (empty, contains NUL, or starts with '' @ [SQ] @ ''-'' @ [SQ] @ '')''))
               else if \<not> file_exists private_key_path then Inl (KeyFileMissing private_key_path)
               else Inr ()
           | Password _ \<Rightarrow> Inr ())
          (\<lambda>_. case blocklist entry of
                 Some bl \<Rightarrow>
                   if mode bl \<noteq> None
                   then Inl (router_error name (''blocklist.mode is not allowed on a per-device blocklist; ''
                          @ [SQ] @ ''mode'' @ [SQ] @ '' is policy-wide and must be set only in _blocklist_defaults''))
                   else Inr ()
               | None \<Rightarrow> Inr ()))"

fun validate_devices ::
    "(string \<Rightarrow> bool) \<Rightarrow> (string \<Rightarrow> bool) \<Rightarrow> (string \<times> device_entry) list \<Rightarrow> unit jres" where
  "validate_devices is_ip_literal file_exists [] = Inr ()"
| "validate_devices is_ip_literal file_exists ((name, entry) # rest) =
     and_then (validate_entry is_ip_literal file_exists name entry)
       (\<lambda>_. validate_devices is_ip_literal file_exists rest)"

text \<open>
  \<open>load_shared\<close> is the shared crate's parser: the entries it read and the policy key, or the text
  of its error.
\<close>

definition inventory_load ::
    "(string \<Rightarrow> string + (string \<times> device_entry) list \<times> blocklist_rules option)
      \<Rightarrow> (string \<Rightarrow> bool) \<Rightarrow> (string \<Rightarrow> bool) \<Rightarrow> string \<Rightarrow> inventory jres" where
  "inventory_load load_shared is_ip_literal file_exists path =
     and_then (map_err InventoryInvalid (load_shared path)) (\<lambda>(ds, pol).
     and_then (validate_devices is_ip_literal file_exists ds) (\<lambda>_.
       Inr \<lparr>devices = ds, blocklist_defaults = pol, source_path = path\<rparr>))"

section \<open>Lookups\<close>

definition inv_get :: "inventory \<Rightarrow> string \<Rightarrow> device_entry jres" where
  "inv_get iv name =
     (case map_of (devices iv) name of Some e \<Rightarrow> Inr e | None \<Rightarrow> Inl (UnknownRouter name))"

definition inv_names :: "inventory \<Rightarrow> string list" where
  "inv_names iv = sort (map fst (devices iv))"

definition inv_len :: "inventory \<Rightarrow> nat" where
  "inv_len iv = length (devices iv)"

definition inv_is_empty :: "inventory \<Rightarrow> bool" where
  "inv_is_empty iv \<longleftrightarrow> devices iv = []"

definition contains_router :: "inventory \<Rightarrow> string \<Rightarrow> bool" where
  "contains_router iv name \<longleftrightarrow> map_of (devices iv) name \<noteq> None"

section \<open>Lemmas\<close>

lemma inv_get_Inr_iff [flow_simps]: "inv_get iv n = Inr e \<longleftrightarrow> map_of (devices iv) n = Some e"
  by (simp add: inv_get_def split: option.splits)

lemma inv_get_is_ok: "is_ok (inv_get iv n) \<longleftrightarrow> n \<in> set (inv_names iv)"
  by (simp add: inv_get_def inv_names_def is_ok_def map_of_eq_None_iff image_iff split: option.splits)
     (metis fst_conv map_of_SomeD weak_map_of_SomeI option.distinct(1) eq_fst_iff)

lemma validate_devices_Inr_iff:
  "validate_devices isip ex ds = Inr () \<longleftrightarrow>
     (\<forall>(name, entry)\<in>set ds. validate_entry isip ex name entry = Inr ())"
  by (induction ds) (auto simp: and_then_eq_Inr)

lemma validate_entry_Inr_iff:
  "validate_entry isip ex name entry = Inr () \<longleftrightarrow>
     is_valid_device_name name \<and> is_valid_ip_or_hostname isip (ip entry) \<and> port entry \<noteq> 0
     \<and> is_valid_ssh_username (username entry)
     \<and> (\<forall>p. auth entry = SshKey p \<longrightarrow> is_valid_auth_path p \<and> ex p)
     \<and> (\<forall>bl. blocklist entry = Some bl \<longrightarrow> mode bl = None)"
  by (auto simp: validate_entry_def and_then_eq_Inr split: auth_config.splits option.splits if_splits)

lemma concat_split_on: "str_join [c] (split_on c s) = s"
proof (induction s)
  case Nil
  show ?case by simp
next
  case (Cons x xs)
  then show ?case
    by (cases "split_on c xs" rule: list.exhaust; cases "tl (split_on c xs)") auto
qed

section \<open>Properties\<close>

text \<open>
  What a loaded inventory guarantees to the code that builds SSH command lines from it: loading
  succeeds exactly when every entry is valid, and then every device name and SSH user name is
  between 1 and 64 ASCII name characters, none starts with a dash, no key path starts with a dash
  or contains NUL and every key file exists, the port is not 0, and no device carries a
  policy mode of its own.
\<close>

theorem loaded_inventory_is_safe:
  assumes "inventory_load ld isip ex path = Inr iv" and "(name, entry) \<in> set (devices iv)"
  shows "1 \<le> length name \<and> length name \<le> 64 \<and> hd name \<noteq> CHR ''-'' \<and> list_all name_char name
    \<and> 1 \<le> length (username entry) \<and> length (username entry) \<le> 64
    \<and> hd (username entry) \<noteq> CHR ''-'' \<and> list_all name_char (username entry)
    \<and> port entry \<noteq> 0
    \<and> (case auth entry of SshKey p \<Rightarrow> p \<noteq> [] \<and> hd p \<noteq> CHR ''-'' \<and> CHR 0x00 \<notin> set p \<and> ex p | Password _ \<Rightarrow> True)
    \<and> (case blocklist entry of Some bl \<Rightarrow> mode bl = None | None \<Rightarrow> True)"
proof -
  from assms(1) have "validate_devices isip ex (devices iv) = Inr ()"
    by (auto simp: inventory_load_def and_then_eq_Inr)
  with assms(2) have v: "validate_entry isip ex name entry = Inr ()"
    by (auto simp: validate_devices_Inr_iff)
  have hd: "hd s \<noteq> CHR ''-''" if "\<not> starts_with ''-'' s" "s \<noteq> []" for s
    using that by (cases s) (auto simp: starts_with_def)
  from v show ?thesis
    unfolding validate_entry_Inr_iff
    by (auto simp: is_valid_device_name_def is_valid_ssh_username_def is_valid_auth_path_def
          Suc_le_eq hd split: if_splits auth_config.splits option.splits)
qed

definition sample_entry :: device_entry where
  "sample_entry = \<lparr>ip = ''10.0.0.1'', port = 830, username = ''admin'', auth = SshKey ''/k'',
     ssh_config = None, blocklist = None, config_authority = Unknown\<rparr>"

theorem loaded_inventory_is_safe_witness:
  "hd (username sample_entry) \<noteq> CHR ''-''"
proof -
  let ?iv = "\<lparr>devices = [(''r1'', sample_entry)], blocklist_defaults = None, source_path = ''d''\<rparr>"
  have 1: "inventory_load (\<lambda>_. Inr ([(''r1'', sample_entry)], None)) (\<lambda>_. False) (\<lambda>_. True) ''d'' = Inr ?iv"
    by (code_simp)
  have 2: "(''r1'', sample_entry) \<in> set (devices ?iv)" by simp
  show ?thesis using loaded_inventory_is_safe [OF 1 2] by blast
qed

end
