(* ===== verification/Policy_Rs.thy ===== *)
theory Policy_Rs
  imports Inventory
begin

text \<open>
  \<^verbatim>\<open>rust-junosmcp-core/src/policy.rs\<close>: the command and configuration policy compiled from the
  inventory, one engine policy per device, and the decisions taken from it. The rule engine itself
  is the crate \<^verbatim>\<open>mecmcp_policy\<close>, which is not part of the repository: its operations are the
  fields of the record \<open>policy_lib\<close>, a parameter of every definition that calls it. The structures
  this code builds for it (domains, rule lists, allowlists) are modelled with the fields the code
  fills in; a compiled allowlist entry is of an arbitrary type.
\<close>

section \<open>The engine's data\<close>

datatype rule_source = Defaults | Device

datatype command_mode = Allowlist | Blocklist

record compiled_rule =
  cr_action :: rule_action
  cr_pattern :: string
  cr_source :: rule_source

text \<open>The one refusal reason this code produces itself, and any other of the engine's.\<close>

datatype allowlist_deny_reason = ForbiddenMetachar | EngineReason nat

datatype decision =
    Allow
  | Deny compiled_rule rule_source "nat option"
  | DenyAllowlist command_mode allowlist_deny_reason string

datatype allowlist_entry_error_kind = GlobMetachar char | Empty

record domain_rules =
  dr_defaults :: "compiled_rule list"
  dr_device_specific :: "string \<rightharpoonup> compiled_rule list"

record 'a command_allowlist =
  al_entries :: "'a list"
  al_allowed_pipes :: "'a list"

record 'a command_domain =
  cd_blocklist :: domain_rules
  cd_allowlist :: "'a command_allowlist"

record 'a engine_policy =
  ep_mode :: command_mode
  ep_commands :: "'a command_domain"
  ep_config :: domain_rules
  ep_pfe :: "'a command_domain"

record 'a policy_lib =
  pl_compile_rules :: "(rule_action \<times> string) list \<Rightarrow> string \<Rightarrow> rule_source
    \<Rightarrow> (string \<Rightarrow> string \<Rightarrow> string \<Rightarrow> jmcp_error) \<Rightarrow> compiled_rule list jres"
  pl_compile_allowlist_entries :: "string list \<Rightarrow> string
    \<Rightarrow> (string \<Rightarrow> string \<Rightarrow> allowlist_entry_error_kind \<Rightarrow> jmcp_error) \<Rightarrow> 'a list jres"
  pl_check_command :: "'a engine_policy \<Rightarrow> string \<Rightarrow> string \<Rightarrow> rule_action \<Rightarrow> decision"
  pl_check_pfe_command :: "'a engine_policy \<Rightarrow> string \<Rightarrow> string \<Rightarrow> rule_action \<Rightarrow> decision"
  pl_check_config :: "'a engine_policy \<Rightarrow> string \<Rightarrow> string \<Rightarrow> string \<Rightarrow> rule_action \<Rightarrow> string
    \<Rightarrow> (string \<Rightarrow> jmcp_error) \<Rightarrow> decision jres"
  pl_has_config_rules_for :: "'a engine_policy \<Rightarrow> string \<Rightarrow> bool"
  pl_command_rules_for :: "'a engine_policy \<Rightarrow> string \<Rightarrow> compiled_rule list"
  pl_pfe_command_rules_for :: "'a engine_policy \<Rightarrow> string \<Rightarrow> compiled_rule list"
  pl_evaluate :: "compiled_rule list \<Rightarrow> string \<Rightarrow> compiled_rule option"
  pl_normalize_input :: "string \<Rightarrow> string"
  pl_is_allowed :: "decision \<Rightarrow> bool"
  pl_source_str :: "rule_source \<Rightarrow> string"
  pl_reason_str :: "allowlist_deny_reason \<Rightarrow> string"

section \<open>Compilation\<close>

definition compile_rules ::
    "'a policy_lib \<Rightarrow> rule_spec list \<Rightarrow> string \<Rightarrow> rule_source \<Rightarrow> compiled_rule list jres" where
  "compile_rules pl rules scope source =
     pl_compile_rules pl (map (\<lambda>r. (rs_action r, rs_pattern r)) rules) scope source
       BlocklistRuleInvalid"

definition entry_error_reason :: "allowlist_entry_error_kind \<Rightarrow> string" where
  "entry_error_reason kind =
     (case kind of
        GlobMetachar c \<Rightarrow>
          ''contains glob metacharacter '' @ [SQ, c, SQ]
          @ '' (allowlist entries are literal whitespace-token prefixes, never globs)''
      | Empty \<Rightarrow> ''is empty or all-whitespace'')"

definition compile_allowlist :: "'a policy_lib \<Rightarrow> string list \<Rightarrow> string \<Rightarrow> 'a list jres" where
  "compile_allowlist pl entries scope =
     pl_compile_allowlist_entries pl entries scope
       (\<lambda>scope entry kind. AllowlistEntryInvalid scope entry (entry_error_reason kind))"

definition device_scope :: "string \<Rightarrow> string \<Rightarrow> string" where
  "device_scope name what = ''device '' @ [SQ] @ name @ [SQ] @ ''.'' @ what"

definition compile_domain_rules ::
    "'a policy_lib \<Rightarrow> rule_spec list \<Rightarrow> (string \<times> rule_spec list) option \<Rightarrow> string
      \<Rightarrow> domain_rules jres" where
  "compile_domain_rules pl defaults device scope_prefix =
     and_then (compile_rules pl defaults (''_blocklist_defaults.'' @ scope_prefix) Defaults) (\<lambda>ds.
       let domain = \<lparr>dr_defaults = ds, dr_device_specific = Map.empty\<rparr> in
       case device of
         None \<Rightarrow> Inr domain
       | Some (name, rules) \<Rightarrow>
           if rules = [] then Inr domain
           else and_then (compile_rules pl rules (device_scope name (''blocklist.'' @ scope_prefix)) Device)
             (\<lambda>compiled. Inr (if compiled = [] then domain
                else domain \<lparr>dr_device_specific := [name \<mapsto> compiled]\<rparr>)))"

section \<open>The policy\<close>

record 'a policy =
  per_device :: "string \<rightharpoonup> 'a engine_policy"
  default_policy :: "'a engine_policy"
  command_mode :: command_mode
  default_commands_count :: nat
  default_config_count :: nat
  default_pfe_commands_count :: nat
  devices_with_rules :: nat

text \<open>\<^verbatim>\<open>defaults.map(|d| d.field.as_slice()).unwrap_or(&[])\<close>.\<close>

definition field_or_nil :: "(blocklist_rules \<Rightarrow> 'b list) \<Rightarrow> blocklist_rules option \<Rightarrow> 'b list" where
  "field_or_nil field d = (case d of None \<Rightarrow> [] | Some b \<Rightarrow> field b)"

definition has_rules :: "blocklist_rules \<Rightarrow> bool" where
  "has_rules b \<longleftrightarrow> commands b \<noteq> [] \<or> config b \<noteq> [] \<or> pfe_commands b \<noteq> []"

definition has_own_rules :: "blocklist_rules option \<Rightarrow> bool" where
  "has_own_rules b = (case b of None \<Rightarrow> False | Some b \<Rightarrow> has_rules b)"

definition any_device_has_rules :: "inventory \<Rightarrow> bool" where
  "any_device_has_rules iv =
     list_ex (\<lambda>name. case inv_get iv name of Inl _ \<Rightarrow> False | Inr entry \<Rightarrow> has_own_rules (blocklist entry))
       (inv_names iv)"

definition select_command_mode :: "inventory \<Rightarrow> command_mode" where
  "select_command_mode iv =
     (let defaults = blocklist_defaults iv in
      case Option.bind defaults mode of
        Some AllowlistCfg \<Rightarrow> Allowlist
      | Some BlocklistCfg \<Rightarrow> Blocklist
      | None \<Rightarrow>
          if field_or_nil commands defaults \<noteq> [] \<or> field_or_nil config defaults \<noteq> []
             \<or> field_or_nil pfe_commands defaults \<noteq> [] \<or> any_device_has_rules iv
          then Blocklist else Allowlist)"

text \<open>The body of the loop over the devices: everything compiled for one of them.\<close>

definition device_policy ::
    "'a policy_lib \<Rightarrow> command_mode \<Rightarrow> blocklist_rules option \<Rightarrow> string \<Rightarrow> blocklist_rules option
      \<Rightarrow> 'a engine_policy jres" where
  "device_policy pl cmode defaults name device_bl =
     and_then (compile_domain_rules pl (field_or_nil commands defaults)
                 (map_option (\<lambda>b. (name, commands b)) device_bl) ''commands'') (\<lambda>commands_rules.
     and_then (compile_domain_rules pl (field_or_nil config defaults)
                 (map_option (\<lambda>b. (name, config b)) device_bl) ''config'') (\<lambda>config_rules.
     and_then (compile_domain_rules pl (field_or_nil pfe_commands defaults)
                 (map_option (\<lambda>b. (name, pfe_commands b)) device_bl) ''pfe_commands'') (\<lambda>pfe_rules.
     let merged_allow = field_or_nil allow defaults @ field_or_nil allow device_bl;
         merged_pipes = field_or_nil allowed_pipes defaults @ field_or_nil allowed_pipes device_bl in
     and_then (compile_allowlist pl merged_allow (device_scope name ''allow'')) (\<lambda>allow_entries.
     and_then (compile_allowlist pl merged_pipes (device_scope name ''allowed_pipes'')) (\<lambda>pipe_entries.
     let merged_pfe_allow = field_or_nil pfe_allow defaults @ field_or_nil pfe_allow device_bl;
         merged_pfe_pipes =
           field_or_nil pfe_allowed_pipes defaults @ field_or_nil pfe_allowed_pipes device_bl in
     and_then (compile_allowlist pl merged_pfe_allow (device_scope name ''pfe_allow'')) (\<lambda>pfe_allow_entries.
     and_then (compile_allowlist pl merged_pfe_pipes (device_scope name ''pfe_allowed_pipes''))
       (\<lambda>pfe_pipe_entries.
         Inr \<lparr>ep_mode = cmode,
              ep_commands = \<lparr>cd_blocklist = commands_rules,
                cd_allowlist = \<lparr>al_entries = allow_entries, al_allowed_pipes = pipe_entries\<rparr>\<rparr>,
              ep_config = config_rules,
              ep_pfe = \<lparr>cd_blocklist = pfe_rules,
                cd_allowlist = \<lparr>al_entries = pfe_allow_entries,
                  al_allowed_pipes = pfe_pipe_entries\<rparr>\<rparr>\<rparr>)))))))"

fun build_devices ::
    "'a policy_lib \<Rightarrow> command_mode \<Rightarrow> inventory \<Rightarrow> string list
      \<Rightarrow> (string \<rightharpoonup> 'a engine_policy) \<times> nat \<Rightarrow> ((string \<rightharpoonup> 'a engine_policy) \<times> nat) jres" where
  "build_devices pl cmode iv [] acc = Inr acc"
| "build_devices pl cmode iv (name # names) (pd, n) =
     and_then (inv_get iv name) (\<lambda>entry.
       let n' = if has_own_rules (blocklist entry) then Suc n else n in
       and_then (device_policy pl cmode (blocklist_defaults iv) name (blocklist entry)) (\<lambda>lib_policy.
         build_devices pl cmode iv names (pd(name \<mapsto> lib_policy), n')))"

definition defaults_policy ::
    "'a policy_lib \<Rightarrow> command_mode \<Rightarrow> blocklist_rules option \<Rightarrow> 'a engine_policy jres" where
  "defaults_policy pl cmode defaults =
     and_then (compile_domain_rules pl (field_or_nil commands defaults) None ''commands'') (\<lambda>commands_rules.
     and_then (compile_domain_rules pl (field_or_nil config defaults) None ''config'') (\<lambda>config_rules.
     and_then (compile_domain_rules pl (field_or_nil pfe_commands defaults) None ''pfe_commands'') (\<lambda>pfe_rules.
     and_then (compile_allowlist pl (field_or_nil allow defaults) ''_blocklist_defaults.allow'') (\<lambda>allow_entries.
     and_then (compile_allowlist pl (field_or_nil allowed_pipes defaults)
                 ''_blocklist_defaults.allowed_pipes'') (\<lambda>pipe_entries.
     and_then (compile_allowlist pl (field_or_nil pfe_allow defaults)
                 ''_blocklist_defaults.pfe_allow'') (\<lambda>pfe_allow_entries.
     and_then (compile_allowlist pl (field_or_nil pfe_allowed_pipes defaults)
                 ''_blocklist_defaults.pfe_allowed_pipes'') (\<lambda>pfe_pipe_entries.
       Inr \<lparr>ep_mode = cmode,
            ep_commands = \<lparr>cd_blocklist = commands_rules,
              cd_allowlist = \<lparr>al_entries = allow_entries, al_allowed_pipes = pipe_entries\<rparr>\<rparr>,
            ep_config = config_rules,
            ep_pfe = \<lparr>cd_blocklist = pfe_rules,
              cd_allowlist = \<lparr>al_entries = pfe_allow_entries,
                al_allowed_pipes = pfe_pipe_entries\<rparr>\<rparr>\<rparr>)))))))"

definition build :: "'a policy_lib \<Rightarrow> inventory \<Rightarrow> 'a policy jres" where
  "build pl iv =
     (let defaults = blocklist_defaults iv; cmode = select_command_mode iv in
      and_then (build_devices pl cmode iv (inv_names iv) (Map.empty, 0)) (\<lambda>(pd, n).
      and_then (defaults_policy pl cmode defaults) (\<lambda>default_policy.
        Inr \<lparr>per_device = pd, default_policy = default_policy, command_mode = cmode,
             default_commands_count = length (field_or_nil commands defaults),
             default_config_count = length (field_or_nil config defaults),
             default_pfe_commands_count = length (field_or_nil pfe_commands defaults),
             devices_with_rules = n\<rparr>)))"

definition policy_for :: "'a policy \<Rightarrow> string \<Rightarrow> 'a engine_policy" where
  "policy_for pol router = (case per_device pol router of Some p \<Rightarrow> p | None \<Rightarrow> default_policy pol)"

section \<open>Decisions\<close>

definition deny_disallowed_character :: "'a policy_lib \<Rightarrow> 'a policy \<Rightarrow> string \<Rightarrow> decision option" where
  "deny_disallowed_character pl pol raw =
     (if command_mode pol \<noteq> Allowlist then None
      else if \<not> list_ex (\<lambda>c. c \<noteq> SP \<and> \<not> is_ascii_graphic c) raw then None
      else Some (DenyAllowlist Allowlist ForbiddenMetachar (pl_normalize_input pl raw)))"

definition apply_allowlist_deny_carveout ::
    "'a policy_lib \<Rightarrow> 'a policy \<Rightarrow> 'a engine_policy \<Rightarrow> string \<Rightarrow> string \<Rightarrow> decision
      \<Rightarrow> ('a engine_policy \<Rightarrow> string \<Rightarrow> compiled_rule list) \<Rightarrow> decision" where
  "apply_allowlist_deny_carveout pl pol p router raw_input decision rules_for =
     (if command_mode pol \<noteq> Allowlist \<or> \<not> pl_is_allowed pl decision then decision
      else
        (let rules = rules_for p router; normalized = pl_normalize_input pl raw_input in
         case pl_evaluate pl rules normalized of
           Some rule \<Rightarrow> if cr_action rule = Deny_action then Deny rule (cr_source rule) None else decision
         | None \<Rightarrow> decision))"

definition check_command :: "'a policy_lib \<Rightarrow> 'a policy \<Rightarrow> string \<Rightarrow> string \<Rightarrow> decision" where
  "check_command pl pol router command =
     (let p = policy_for pol router in
      case deny_disallowed_character pl pol command of
        Some d \<Rightarrow> d
      | None \<Rightarrow>
          apply_allowlist_deny_carveout pl pol p router command
            (pl_check_command pl p router command Deny_action) (pl_command_rules_for pl))"

definition check_pfe_command :: "'a policy_lib \<Rightarrow> 'a policy \<Rightarrow> string \<Rightarrow> string \<Rightarrow> decision" where
  "check_pfe_command pl pol router pfe_command =
     (let p = policy_for pol router in
      case deny_disallowed_character pl pol pfe_command of
        Some d \<Rightarrow> d
      | None \<Rightarrow>
          apply_allowlist_deny_carveout pl pol p router pfe_command
            (pl_check_pfe_command pl p router pfe_command Deny_action) (pl_pfe_command_rules_for pl))"

definition check_config ::
    "'a policy_lib \<Rightarrow> 'a policy \<Rightarrow> string \<Rightarrow> string \<Rightarrow> string \<Rightarrow> decision jres" where
  "check_config pl pol router config_format config_text =
     pl_check_config pl (policy_for pol router) router config_format config_text Deny_action ''set''
       ConfigFormatNotAllowedWithRules"

definition has_config_rules_for :: "'a policy_lib \<Rightarrow> 'a policy \<Rightarrow> string \<Rightarrow> bool" where
  "has_config_rules_for pl pol router = pl_has_config_rules_for pl (policy_for pol router) router"

record policy_counts =
  pc_default_commands :: nat
  pc_default_config :: nat
  pc_default_pfe_commands :: nat
  pc_devices_with_rules :: nat

definition rule_counts :: "'a policy \<Rightarrow> policy_counts" where
  "rule_counts pol =
     \<lparr>pc_default_commands = default_commands_count pol,
      pc_default_config = default_config_count pol,
      pc_default_pfe_commands = default_pfe_commands_count pol,
      pc_devices_with_rules = devices_with_rules pol\<rparr>"

definition enforce_decision ::
    "'a policy_lib \<Rightarrow> decision \<Rightarrow> string \<Rightarrow> string \<Rightarrow> string \<Rightarrow> unit jres" where
  "enforce_decision pl decision tool router raw_input =
     (case decision of
        Allow \<Rightarrow> Inr ()
      | Deny rule source _ \<Rightarrow>
          Inl (Denied tool router (cr_pattern rule) (pl_source_str pl source) (excerpt raw_input) None)
      | DenyAllowlist _ reason normalized \<Rightarrow>
          Inl (DeniedAllowlist tool router (pl_reason_str pl reason) (excerpt normalized)))"

section \<open>What compilation gives each device\<close>

lemma build_devices_other:
  "build_devices pl m iv names (pd, n) = Inr (pd', n') \<Longrightarrow> x \<notin> set names \<Longrightarrow> pd' x = pd x"
  by (induction names arbitrary: pd n) (auto simp: Let_def and_then_eq_Inr split: if_splits)

lemma build_devices_entry:
  assumes "build_devices pl m iv names (pd, n) = Inr (pd', n')" and "x \<in> set names"
  shows "\<exists>e p. inv_get iv x = Inr e \<and> pd' x = Some p
     \<and> device_policy pl m (blocklist_defaults iv) x (blocklist e) = Inr p"
  using assms
proof (induction names arbitrary: pd n)
  case Nil
  then show ?case by simp
next
  case (Cons y names)
  from Cons.prems(1) obtain e p n1 where
      e: "inv_get iv y = Inr e" and
      p: "device_policy pl m (blocklist_defaults iv) y (blocklist e) = Inr p" and
      rest: "build_devices pl m iv names (pd(y \<mapsto> p), n1) = Inr (pd', n')"
    by (auto simp: Let_def and_then_eq_Inr)
  show ?case
  proof (cases "x \<in> set names")
    case True
    then show ?thesis by (rule Cons.IH [OF rest])
  next
    case False
    with Cons.prems(2) have "x = y" by simp
    with e p build_devices_other [OF rest False] show ?thesis by simp
  qed
qed

lemma build_devices_count:
  "build_devices pl m iv names (pd, n) = Inr (pd', n') \<Longrightarrow>
     n' = n + length (filter (\<lambda>x. \<exists>e. inv_get iv x = Inr e \<and> has_own_rules (blocklist e)) names)"
proof (induction names arbitrary: pd n)
  case Nil
  then show ?case by simp
next
  case (Cons y names)
  from Cons.prems obtain e p where
      e: "inv_get iv y = Inr e" and
      rest: "build_devices pl m iv names
        (pd(y \<mapsto> p), if has_own_rules (blocklist e) then Suc n else n) = Inr (pd', n')"
    by (auto simp: Let_def and_then_eq_Inr)
  from Cons.IH [OF rest] e show ?case by simp
qed

lemma build_mode: "build pl iv = Inr pol \<Longrightarrow> command_mode pol = select_command_mode iv"
  by (auto simp: build_def Let_def and_then_eq_Inr)

lemma build_policy_for:
  assumes "build pl iv = Inr pol"
  shows "case map_of (devices iv) r of
      Some e \<Rightarrow> device_policy pl (command_mode pol) (blocklist_defaults iv) r (blocklist e)
                 = Inr (policy_for pol r)
    | None \<Rightarrow> defaults_policy pl (command_mode pol) (blocklist_defaults iv) = Inr (policy_for pol r)"
proof -
  from assms obtain pd n where
      b: "build_devices pl (command_mode pol) iv (inv_names iv) (Map.empty, 0) = Inr (pd, n)" and
      d: "defaults_policy pl (command_mode pol) (blocklist_defaults iv) = Inr (default_policy pol)" and
      pd: "per_device pol = pd"
    by (auto simp: build_def Let_def and_then_eq_Inr)
  show ?thesis
  proof (cases "map_of (devices iv) r")
    case None
    then have "r \<notin> set (inv_names iv)" by (simp add: inv_names_def map_of_eq_None_iff)
    with b have "pd r = None" using build_devices_other [OF b] by simp
    with None d pd show ?thesis by (simp add: policy_for_def)
  next
    case (Some e)
    then have "inv_get iv r = Inr e" by (simp add: inv_get_Inr_iff)
    then have "r \<in> set (inv_names iv)" using inv_get_is_ok [of iv r] by simp
    from build_devices_entry [OF b this] \<open>inv_get iv r = Inr e\<close> Some pd show ?thesis
      by (auto simp: policy_for_def)
  qed
qed

section \<open>The gate of a command domain\<close>

text \<open>
  What this code relies on in the engine: \<^verbatim>\<open>Decision::is_allowed\<close> recognises the decision
  \<^verbatim>\<open>Allow\<close> and no other.
\<close>

definition policy_contract :: "'a policy_lib \<Rightarrow> bool" where
  "policy_contract pl \<longleftrightarrow> (\<forall>d. pl_is_allowed pl d \<longleftrightarrow> d = Allow)"

definition printable :: "string \<Rightarrow> bool" where
  "printable s \<longleftrightarrow> list_all (\<lambda>c. c = SP \<or> is_ascii_graphic c) s"

definition carved_out :: "'a policy_lib \<Rightarrow> compiled_rule list \<Rightarrow> string \<Rightarrow> bool" where
  "carved_out pl rules raw \<longleftrightarrow>
     (case pl_evaluate pl rules (pl_normalize_input pl raw) of
        Some rule \<Rightarrow> cr_action rule = Deny_action | None \<Rightarrow> False)"

lemma enforce_decision_Inr_iff:
  "enforce_decision pl d tool r raw = Inr () \<longleftrightarrow> d = Allow"
  by (simp add: enforce_decision_def split: decision.splits)

lemma deny_disallowed_character_None_iff:
  "deny_disallowed_character pl pol raw = None \<longleftrightarrow> command_mode pol \<noteq> Allowlist \<or> printable raw"
  by (auto simp: deny_disallowed_character_def printable_def list_ex_iff list_all_iff)

lemma deny_disallowed_character_Some:
  "deny_disallowed_character pl pol raw = Some d \<Longrightarrow> d \<noteq> Allow"
  by (auto simp: deny_disallowed_character_def split: if_splits)

lemma carveout_Allow_iff:
  assumes "policy_contract pl"
  shows "apply_allowlist_deny_carveout pl pol p r raw d rules = Allow \<longleftrightarrow>
    d = Allow \<and> \<not> (command_mode pol = Allowlist \<and> carved_out pl (rules p r) raw)"
  using assms
  by (auto simp: apply_allowlist_deny_carveout_def policy_contract_def carved_out_def Let_def
      split: option.splits if_splits)

text \<open>
  The two command domains keep one contract, with different rules and a different
  engine operation.
\<close>

locale gated_domain =
  fixes pl :: "'a policy_lib"
    and chk :: "'a policy \<Rightarrow> string \<Rightarrow> string \<Rightarrow> decision"
    and engine :: "'a engine_policy \<Rightarrow> string \<Rightarrow> string \<Rightarrow> decision"
    and rules_for :: "'a engine_policy \<Rightarrow> string \<Rightarrow> compiled_rule list"
  assumes allow_iff: "policy_contract pl \<Longrightarrow>
      chk pol r c = Allow \<longleftrightarrow>
        engine (policy_for pol r) r c = Allow
        \<and> (if command_mode pol = Allowlist
            then printable c \<and> \<not> carved_out pl (rules_for (policy_for pol r) r) c else True)"
    and same_device: "policy_for p1 r = policy_for p2 r \<Longrightarrow> command_mode p1 = command_mode p2 \<Longrightarrow>
      chk p1 r c = chk p2 r c"
begin

lemma admitted_iff:
  assumes "policy_contract pl"
  shows "enforce_decision pl (chk pol r c) tool r c = Inr () \<longleftrightarrow>
      engine (policy_for pol r) r c = Allow
      \<and> (if command_mode pol = Allowlist
          then printable c \<and> \<not> carved_out pl (rules_for (policy_for pol r) r) c else True)"
  by (simp add: enforce_decision_Inr_iff allow_iff [OF assms])

lemma isolated:
  assumes "build pl iv1 = Inr p1" and "build pl iv2 = Inr p2"
    and "select_command_mode iv1 = select_command_mode iv2"
    and "blocklist_defaults iv1 = blocklist_defaults iv2"
    and "map_of (devices iv1) r = map_of (devices iv2) r"
  shows "chk p1 r c = chk p2 r c"
proof (rule same_device)
  show "command_mode p1 = command_mode p2"
    using assms(1-3) by (simp add: build_mode)
  with build_policy_for [OF assms(1), of r] build_policy_for [OF assms(2), of r] assms(4,5)
  show "policy_for p1 r = policy_for p2 r" by (auto split: option.splits)
qed

end

lemma domain_allow_iff:
  assumes "policy_contract pl"
  shows "(case deny_disallowed_character pl pol c of
            Some d \<Rightarrow> d | None \<Rightarrow> apply_allowlist_deny_carveout pl pol p r c d0 rules) = Allow \<longleftrightarrow>
    d0 = Allow \<and> (if command_mode pol = Allowlist
                   then printable c \<and> \<not> carved_out pl (rules p r) c else True)"
  using deny_disallowed_character_None_iff [of pl pol c] deny_disallowed_character_Some [of pl pol c]
  by (auto simp: carveout_Allow_iff [OF assms] split: option.splits)

lemma deny_disallowed_character_cong:
  "command_mode p1 = command_mode p2 \<Longrightarrow>
     deny_disallowed_character pl p1 c = deny_disallowed_character pl p2 c"
  by (simp add: deny_disallowed_character_def)

lemma carveout_cong:
  "command_mode p1 = command_mode p2 \<Longrightarrow>
     apply_allowlist_deny_carveout pl p1 p r c d rules = apply_allowlist_deny_carveout pl p2 p r c d rules"
  by (simp add: apply_allowlist_deny_carveout_def)

interpretation cli_domain: gated_domain pl "check_command pl"
    "\<lambda>p r c. pl_check_command pl p r c Deny_action" "pl_command_rules_for pl"
  for pl :: "'a policy_lib"
proof
  show "check_command pl pol r c = Allow \<longleftrightarrow>
      pl_check_command pl (policy_for pol r) r c Deny_action = Allow
      \<and> (if command_mode pol = Allowlist
          then printable c \<and> \<not> carved_out pl (pl_command_rules_for pl (policy_for pol r) r) c
          else True)"
    if "policy_contract pl" for pol r c
    unfolding check_command_def Let_def by (rule domain_allow_iff [OF that])
  show "check_command pl p1 r c = check_command pl p2 r c"
    if "policy_for p1 r = policy_for p2 r" and "command_mode p1 = command_mode p2" for p1 r p2 c
    unfolding check_command_def Let_def that(1) carveout_cong [OF that(2)]
      deny_disallowed_character_cong [OF that(2)] by (rule refl)
qed

interpretation pfe_domain: gated_domain pl "check_pfe_command pl"
    "\<lambda>p r c. pl_check_pfe_command pl p r c Deny_action" "pl_pfe_command_rules_for pl"
  for pl :: "'a policy_lib"
proof
  show "check_pfe_command pl pol r c = Allow \<longleftrightarrow>
      pl_check_pfe_command pl (policy_for pol r) r c Deny_action = Allow
      \<and> (if command_mode pol = Allowlist
          then printable c \<and> \<not> carved_out pl (pl_pfe_command_rules_for pl (policy_for pol r) r) c
          else True)"
    if "policy_contract pl" for pol r c
    unfolding check_pfe_command_def Let_def by (rule domain_allow_iff [OF that])
  show "check_pfe_command pl p1 r c = check_pfe_command pl p2 r c"
    if "policy_for p1 r = policy_for p2 r" and "command_mode p1 = command_mode p2" for p1 r p2 c
    unfolding check_pfe_command_def Let_def that(1) carveout_cong [OF that(2)]
      deny_disallowed_character_cong [OF that(2)] by (rule refl)
qed

lemma any_device_has_rules_iff:
  "any_device_has_rules iv \<longleftrightarrow>
     (\<exists>r e b. map_of (devices iv) r = Some e \<and> blocklist e = Some b \<and> has_rules b)"
proof -
  have "r \<in> set (inv_names iv)" if "map_of (devices iv) r = Some e" for r e
    using that inv_get_is_ok [of iv r] by (simp add: inv_get_def)
  then show ?thesis
    by (fastforce simp: any_device_has_rules_def list_ex_iff inv_get_def has_own_rules_def
        split: sum.splits option.splits)
qed

lemma has_own_rules_fields:
  "has_own_rules b \<longleftrightarrow>
     field_or_nil commands b \<noteq> [] \<or> field_or_nil config b \<noteq> [] \<or> field_or_nil pfe_commands b \<noteq> []"
  by (simp add: has_own_rules_def field_or_nil_def has_rules_def split: option.split)

section \<open>A concrete engine\<close>

text \<open>
  An engine to evaluate the model with: a rule and an allowlist entry match every input that
  starts with their text, the last matching rule decides, and nothing is normalised.
\<close>

definition toy_rules_for :: "domain_rules \<Rightarrow> string \<Rightarrow> compiled_rule list" where
  "toy_rules_for dr r =
     dr_defaults dr @ (case dr_device_specific dr r of Some rs \<Rightarrow> rs | None \<Rightarrow> [])"

definition toy_evaluate :: "compiled_rule list \<Rightarrow> string \<Rightarrow> compiled_rule option" where
  "toy_evaluate rules s = find (\<lambda>r. starts_with (cr_pattern r) s) (rev rules)"

definition toy_check :: "command_mode \<Rightarrow> string command_domain \<Rightarrow> string \<Rightarrow> string \<Rightarrow> decision" where
  "toy_check m d r c =
     (case m of
        Allowlist \<Rightarrow>
          if list_ex (\<lambda>e. starts_with e c) (al_entries (cd_allowlist d)) then Allow
          else DenyAllowlist Allowlist (EngineReason 0) c
      | Blocklist \<Rightarrow>
          (case toy_evaluate (toy_rules_for (cd_blocklist d) r) c of
             Some rule \<Rightarrow> if cr_action rule = Deny_action then Deny rule (cr_source rule) None else Allow
           | None \<Rightarrow> Allow))"

definition toy_check_config :: "domain_rules \<Rightarrow> string \<Rightarrow> string \<Rightarrow> decision" where
  "toy_check_config d r text =
     (case find (\<lambda>l. toy_evaluate (toy_rules_for d r) l \<noteq> None) (str_lines text) of
        Some l \<Rightarrow>
          (case toy_evaluate (toy_rules_for d r) l of
             Some rule \<Rightarrow> if cr_action rule = Deny_action then Deny rule (cr_source rule) None else Allow
           | None \<Rightarrow> Allow)
      | None \<Rightarrow> Allow)"

definition toy_engine :: "string policy_lib" where
  "toy_engine = \<lparr>
     pl_compile_rules = \<lambda>pairs scope src mk_err.
       Inr (map (\<lambda>(a, p). \<lparr>cr_action = a, cr_pattern = p, cr_source = src\<rparr>) pairs),
     pl_compile_allowlist_entries = \<lambda>entries scope mk_err. Inr entries,
     pl_check_command = \<lambda>p r c a. toy_check (ep_mode p) (ep_commands p) r c,
     pl_check_pfe_command = \<lambda>p r c a. toy_check (ep_mode p) (ep_pfe p) r c,
     pl_check_config = \<lambda>p r fmt text a set mk_err.
       if fmt \<noteq> set \<and> toy_rules_for (ep_config p) r \<noteq> [] then Inl (mk_err fmt)
       else Inr (toy_check_config (ep_config p) r text),
     pl_has_config_rules_for = \<lambda>p r. toy_rules_for (ep_config p) r \<noteq> [],
     pl_command_rules_for = \<lambda>p. toy_rules_for (cd_blocklist (ep_commands p)),
     pl_pfe_command_rules_for = \<lambda>p. toy_rules_for (cd_blocklist (ep_pfe p)),
     pl_evaluate = toy_evaluate,
     pl_normalize_input = \<lambda>s. s,
     pl_is_allowed = \<lambda>d. (case d of Allow \<Rightarrow> True | _ \<Rightarrow> False),
     pl_source_str = \<lambda>s. (case s of Defaults \<Rightarrow> ''defaults'' | Device \<Rightarrow> ''device''),
     pl_reason_str = \<lambda>r. (case r of ForbiddenMetachar \<Rightarrow> ''forbidden'' | EngineReason _ \<Rightarrow> ''not allowed'')\<rparr>"

lemma toy_engine_contract: "policy_contract toy_engine"
  by (simp add: policy_contract_def toy_engine_def split: decision.splits)

definition no_rules :: blocklist_rules where
  "no_rules = \<lparr>commands = [], config = [], pfe_commands = [], mode = None, allow = [],
     allowed_pipes = [], pfe_allow = [], pfe_allowed_pipes = []\<rparr>"

definition carve_out_defaults :: blocklist_rules where
  "carve_out_defaults = no_rules \<lparr>mode := Some AllowlistCfg, allow := [''request system''],
     commands := [\<lparr>rs_action = Deny_action, rs_pattern = ''request system reboot''\<rparr>]\<rparr>"

definition sample_inventory :: inventory where
  "sample_inventory = \<lparr>devices = [(''r1'', sample_entry),
       (''r2'', sample_entry \<lparr>blocklist := Some (no_rules \<lparr>allow := [''show'']\<rparr>)\<rparr>)],
     blocklist_defaults = Some carve_out_defaults, source_path = ''d''\<rparr>"

section \<open>Properties\<close>

text \<open>
  C6. Which commands pass the policy, for both command domains and every tool: under the blocklist
  the engine's decision alone counts; under the allowlist a command also has to consist of printable
  ASCII characters and spaces, and no deny rule of the device may match it, whatever the allowlist
  says. The single hypothesis is that the engine's \<^verbatim>\<open>is_allowed\<close> means the decision
  \<^verbatim>\<open>Allow\<close>.
\<close>

theorem command_admitted_iff:
  assumes "policy_contract pl"
  shows "(enforce_decision pl (check_command pl pol r c) tool r c = Inr () \<longleftrightarrow>
      pl_check_command pl (policy_for pol r) r c Deny_action = Allow
      \<and> (if command_mode pol = Allowlist
          then printable c \<and> \<not> carved_out pl (pl_command_rules_for pl (policy_for pol r) r) c
          else True))
    \<and> (enforce_decision pl (check_pfe_command pl pol r c) tool r c = Inr () \<longleftrightarrow>
      pl_check_pfe_command pl (policy_for pol r) r c Deny_action = Allow
      \<and> (if command_mode pol = Allowlist
          then printable c \<and> \<not> carved_out pl (pl_pfe_command_rules_for pl (policy_for pol r) r) c
          else True))"
  using cli_domain.admitted_iff [OF assms] pfe_domain.admitted_iff [OF assms] by blast

theorem command_admitted_iff_witness:
  "\<exists>pol. build toy_engine sample_inventory = Inr pol
     \<and> enforce_decision toy_engine (check_command toy_engine pol ''r1'' ''request system halt'') ''t'' ''r1''
         ''request system halt'' = Inr ()
     \<and> enforce_decision toy_engine (check_command toy_engine pol ''r1'' ''request system reboot'') ''t'' ''r1''
         ''request system reboot'' \<noteq> Inr ()"
proof -
  obtain pol where pol: "build toy_engine sample_inventory = Inr pol"
    and p: "policy_for pol ''r1'' = \<lparr>ep_mode = Allowlist,
       ep_commands = \<lparr>cd_blocklist = \<lparr>dr_defaults = [\<lparr>cr_action = Deny_action,
           cr_pattern = ''request system reboot'', cr_source = Defaults\<rparr>],
           dr_device_specific = Map.empty\<rparr>,
         cd_allowlist = \<lparr>al_entries = [''request system''], al_allowed_pipes = []\<rparr>\<rparr>,
       ep_config = \<lparr>dr_defaults = [], dr_device_specific = Map.empty\<rparr>,
       ep_pfe = \<lparr>cd_blocklist = \<lparr>dr_defaults = [], dr_device_specific = Map.empty\<rparr>,
         cd_allowlist = \<lparr>al_entries = [], al_allowed_pipes = []\<rparr>\<rparr>\<rparr>"
    and m: "command_mode pol = Allowlist"
    by (simp add: build_def Let_def sample_inventory_def inv_names_def select_command_mode_def
        carve_out_defaults_def no_rules_def inv_get_def has_own_rules_def has_rules_def sample_entry_def
        device_policy_def defaults_policy_def field_or_nil_def compile_domain_rules_def
        compile_rules_def compile_allowlist_def toy_engine_def policy_for_def)
  note ctr = command_admitted_iff [OF toy_engine_contract, of pol _ _ "''t''"]
  have "enforce_decision toy_engine (check_command toy_engine pol ''r1'' ''request system halt'') ''t'' ''r1''
         ''request system halt'' = Inr ()"
    unfolding ctr [THEN conjunct1] p m
    by (simp add: toy_engine_def toy_check_def starts_with_def printable_def is_ascii_graphic_def byte_def
        carved_out_def toy_evaluate_def toy_rules_for_def)
  moreover have "enforce_decision toy_engine (check_command toy_engine pol ''r1'' ''request system reboot'')
         ''t'' ''r1'' ''request system reboot'' \<noteq> Inr ()"
    unfolding ctr [THEN conjunct1] p m
    by (simp add: toy_engine_def carved_out_def toy_evaluate_def toy_rules_for_def starts_with_def)
  ultimately show ?thesis using pol by blast
qed

text \<open>
  Devices are isolated: a router's decisions depend on the policy mode, on the defaults and on its
  own entry only. Two inventories that agree on these give the same decision for every command,
  PFE command and configuration text on that router, whatever they allow or deny elsewhere.
\<close>

theorem policy_is_isolated:
  assumes "build pl iv1 = Inr p1" and "build pl iv2 = Inr p2"
    and "select_command_mode iv1 = select_command_mode iv2"
    and "blocklist_defaults iv1 = blocklist_defaults iv2"
    and "map_of (devices iv1) r = map_of (devices iv2) r"
  shows "check_command pl p1 r c = check_command pl p2 r c
    \<and> check_pfe_command pl p1 r c = check_pfe_command pl p2 r c
    \<and> check_config pl p1 r fmt text = check_config pl p2 r fmt text"
proof (intro conjI)
  show "check_command pl p1 r c = check_command pl p2 r c" by (rule cli_domain.isolated [OF assms])
  show "check_pfe_command pl p1 r c = check_pfe_command pl p2 r c" by (rule pfe_domain.isolated [OF assms])
  have "command_mode p1 = command_mode p2" using assms(1-3) by (simp add: build_mode)
  with build_policy_for [OF assms(1), of r] build_policy_for [OF assms(2), of r] assms(4,5)
  have "policy_for p1 r = policy_for p2 r" by (auto split: option.splits)
  then show "check_config pl p1 r fmt text = check_config pl p2 r fmt text"
    by (simp add: check_config_def)
qed

theorem policy_is_isolated_witness:
  "\<exists>p1 p2. build toy_engine sample_inventory = Inr p1
     \<and> build toy_engine (sample_inventory \<lparr>devices := [(''r1'', sample_entry)]\<rparr>) = Inr p2
     \<and> check_command toy_engine p1 ''r1'' ''show version'' = check_command toy_engine p2 ''r1'' ''show version''
     \<and> check_command toy_engine p1 ''r2'' ''show version'' \<noteq> check_command toy_engine p2 ''r2'' ''show version''"
proof -
  let ?iv = "sample_inventory \<lparr>devices := [(''r1'', sample_entry)]\<rparr>"
  note defs = build_def Let_def sample_inventory_def inv_names_def select_command_mode_def
        carve_out_defaults_def no_rules_def inv_get_def has_own_rules_def has_rules_def sample_entry_def
        device_policy_def defaults_policy_def field_or_nil_def compile_domain_rules_def
        compile_rules_def compile_allowlist_def toy_engine_def
  obtain p1 where 1: "build toy_engine sample_inventory = Inr p1"
    and a: "check_command toy_engine p1 ''r2'' ''show version'' = Allow"
    by (simp add: defs check_command_def policy_for_def deny_disallowed_character_def is_ascii_graphic_def byte_def
       apply_allowlist_deny_carveout_def toy_check_def toy_evaluate_def toy_rules_for_def starts_with_def)
  obtain p2 where 2: "build toy_engine ?iv = Inr p2"
    and b: "check_command toy_engine p2 ''r2'' ''show version'' \<noteq> Allow"
    by (simp add: defs check_command_def policy_for_def deny_disallowed_character_def is_ascii_graphic_def byte_def
       apply_allowlist_deny_carveout_def toy_check_def toy_evaluate_def toy_rules_for_def starts_with_def)
  have m: "select_command_mode sample_inventory = select_command_mode ?iv"
    by (simp add: select_command_mode_def sample_inventory_def carve_out_defaults_def no_rules_def)
  have "check_command toy_engine p1 ''r1'' ''show version'' = check_command toy_engine p2 ''r1'' ''show version''"
    using policy_is_isolated [OF 1 2 m, of "''r1''" "''show version''"] by (simp add: sample_inventory_def)
  with 1 2 a b show ?thesis by metis
qed

text \<open>
  The mode a policy is built with: an explicit mode is obeyed; without one the policy is the
  fail-open blocklist exactly when some deny-rule list is non-empty, in the defaults or on any
  device, and the fail-closed allowlist otherwise. The count of devices with rules in the startup
  summary is the number of inventory names whose entry has rules of its own.
\<close>

theorem policy_mode_is_fail_closed:
  assumes "build pl iv = Inr pol"
  shows "command_mode pol =
      (case Option.bind (blocklist_defaults iv) mode of
         Some AllowlistCfg \<Rightarrow> Allowlist
       | Some BlocklistCfg \<Rightarrow> Blocklist
       | None \<Rightarrow>
           if has_own_rules (blocklist_defaults iv)
              \<or> (\<exists>r e b. map_of (devices iv) r = Some e \<and> blocklist e = Some b \<and> has_rules b)
           then Blocklist else Allowlist)
    \<and> pc_devices_with_rules (rule_counts pol) =
        length (filter (\<lambda>r. \<exists>e. map_of (devices iv) r = Some e \<and> has_own_rules (blocklist e)) (inv_names iv))"
proof
  show "command_mode pol =
      (case Option.bind (blocklist_defaults iv) mode of
         Some AllowlistCfg \<Rightarrow> Allowlist
       | Some BlocklistCfg \<Rightarrow> Blocklist
       | None \<Rightarrow>
           if has_own_rules (blocklist_defaults iv)
              \<or> (\<exists>r e b. map_of (devices iv) r = Some e \<and> blocklist e = Some b \<and> has_rules b)
           then Blocklist else Allowlist)"
    unfolding build_mode [OF assms] select_command_mode_def Let_def any_device_has_rules_iff
      has_own_rules_fields
    by (simp split: option.split command_mode_config.split)
  from assms obtain pd where
    "build_devices pl (command_mode pol) iv (inv_names iv) (Map.empty, 0) = Inr (pd, devices_with_rules pol)"
    by (auto simp: build_def Let_def and_then_eq_Inr)
  from build_devices_count [OF this]
  show "pc_devices_with_rules (rule_counts pol) =
        length (filter (\<lambda>r. \<exists>e. map_of (devices iv) r = Some e \<and> has_own_rules (blocklist e)) (inv_names iv))"
    by (simp add: rule_counts_def inv_get_Inr_iff)
qed

theorem policy_mode_is_fail_closed_witness:
  "\<exists>pol. build toy_engine empty_inventory = Inr pol \<and> command_mode pol = Allowlist"
proof -
  obtain pol where pol: "build toy_engine empty_inventory = Inr pol"
    by (simp add: build_def Let_def empty_inventory_def inv_names_def defaults_policy_def field_or_nil_def
        compile_domain_rules_def compile_rules_def compile_allowlist_def toy_engine_def)
  from policy_mode_is_fail_closed [OF pol] pol show ?thesis
    by (simp add: empty_inventory_def has_own_rules_def)
qed

end
