(* ===== verification/Netconf.thy ===== *)
theory Netconf
  imports Inventory
begin

text \<open>
  The interface of the NETCONF client libraries as the server uses it, as a parameter of the
  model: nothing here is the server's own code. A session is an opaque handle \<open>'d\<close>; everything
  outside the process (the network, the devices, the state the libraries keep per session) is
  one value \<open>'w\<close>.

  A remote call is an \<open>answer\<close>: how many milliseconds it takes (\<^const>\<open>None\<close> for never), what it
  says, the outside world after it, and the outside world when the caller stops waiting before the
  answer arrives, in which case the device may or may not have acted.
\<close>

record ('a, 'e, 'w) answer =
  takes :: "nat option"
  says :: "'e + 'a"
  after :: 'w
  dropped :: 'w

record conn_params =
  cp_host :: string
  cp_port :: u16
  cp_username :: string
  cp_keepalive :: nat
  cp_rpc_timeout :: nat
  cp_host_key :: string
  cp_jump_hosts :: "string list"
  cp_proxy_command :: "string option"
  cp_auth :: "auth_config option"

record ('d, 'w) netconf =
  nc_open :: "conn_params \<Rightarrow> 'w \<Rightarrow> (rustez_error + 'd) \<times> 'w"
  nc_alive :: "'d \<Rightarrow> 'w \<Rightarrow> bool"
  nc_db_open :: "'d \<Rightarrow> 'w \<Rightarrow> bool"
  nc_touched :: "'d \<Rightarrow> 'w \<Rightarrow> bool"
  nc_close :: "'d \<Rightarrow> 'w \<Rightarrow> (unit, rustez_error, 'w) answer"
  nc_config :: "'d \<Rightarrow> 'w \<Rightarrow> rustez_error + unit"
  nc_rpc :: "'d \<Rightarrow> 'w \<Rightarrow> rustez_error + unit"
  nc_lock :: "'d \<Rightarrow> 'w \<Rightarrow> (unit, rustez_error, 'w) answer"
  nc_unlock :: "'d \<Rightarrow> 'w \<Rightarrow> (unit, rustez_error, 'w) answer"
  nc_load :: "config_payload \<Rightarrow> load_action \<Rightarrow> 'd \<Rightarrow> 'w \<Rightarrow> (unit, rustez_error, 'w) answer"
  nc_rollback :: "u32 \<Rightarrow> 'd \<Rightarrow> 'w \<Rightarrow> (unit, rustez_error, 'w) answer"
  nc_diff :: "'d \<Rightarrow> 'w \<Rightarrow> (string option, rustez_error, 'w) answer"
  nc_commit_check :: "'d \<Rightarrow> 'w \<Rightarrow> (unit, rustez_error, 'w) answer"
  nc_commit_with_comment :: "string \<Rightarrow> 'd \<Rightarrow> 'w \<Rightarrow> (unit, rustez_error, 'w) answer"
  nc_commit_confirmed :: "u32 \<Rightarrow> 'd \<Rightarrow> 'w \<Rightarrow> (unit, rustez_error, 'w) answer"
  nc_call_xml :: "string \<Rightarrow> 'd \<Rightarrow> 'w \<Rightarrow> (string, rustez_error, 'w) answer"
  nc_cli :: "string \<Rightarrow> 'd \<Rightarrow> 'w \<Rightarrow> (string, rustez_error, 'w) answer"

text \<open>
  The parts of the SSH client configuration the connect path reads: loading a file (or the text of
  the load error), and what it resolves for a host.
\<close>

type_synonym ssh_config_loader = "string \<Rightarrow> string + (string \<Rightarrow> string list \<times> string option)"

section \<open>A scripted device\<close>

text \<open>
  One concrete instance, for evaluating the model: sessions are numbered from 0, the outside world
  is the number of sessions opened so far and the list of requests seen, every request takes 5 ms
  and succeeds, and no session is ever flagged.
\<close>

type_synonym lab = "nat \<times> string list"

definition lab_reply :: "string \<Rightarrow> 'a \<Rightarrow> lab \<Rightarrow> ('a, rustez_error, lab) answer" where
  "lab_reply req v w =
     \<lparr>takes = Some 5, says = Inr v, after = (fst w, snd w @ [req]), dropped = (fst w, snd w @ [req])\<rparr>"

definition lab_nc :: "(nat, lab) netconf" where
  "lab_nc = \<lparr>
     nc_open = \<lambda>cp w. (Inr (fst w), (Suc (fst w), snd w @ [''open''])),
     nc_alive = \<lambda>d w. True, nc_db_open = \<lambda>d w. False, nc_touched = \<lambda>d w. False,
     nc_close = \<lambda>d. lab_reply ''close'' (),
     nc_config = \<lambda>d w. Inr (), nc_rpc = \<lambda>d w. Inr (),
     nc_lock = \<lambda>d. lab_reply ''lock'' (), nc_unlock = \<lambda>d. lab_reply ''unlock'' (),
     nc_load = \<lambda>c a d. lab_reply ''load'' (),
     nc_rollback = \<lambda>n d. lab_reply ''rollback'' (),
     nc_diff = \<lambda>d. lab_reply ''diff'' None,
     nc_commit_check = \<lambda>d. lab_reply ''check'' (),
     nc_commit_with_comment = \<lambda>c d. lab_reply ''commit'' (),
     nc_commit_confirmed = \<lambda>m d. lab_reply ''commit-confirmed'' (),
     nc_call_xml = \<lambda>x d. lab_reply x ''<ok/>'',
     nc_cli = \<lambda>c d. lab_reply c ''ok''\<rparr>"

lemma lab_flags [simp]:
  "nc_alive lab_nc d w" "\<not> nc_db_open lab_nc d w" "\<not> nc_touched lab_nc d w"
  by (simp_all add: lab_nc_def)

end
