(* ===== verification/Device_Pool.thy ===== *)
theory Device_Pool
  imports Netconf "HOL-Library.Multiset"
begin

text \<open>
  \<^verbatim>\<open>rust-junosmcp-core/src/device_manager.rs\<close>: the per-router session pool, the guard that
  gives a session back when it is dropped, and the manager that opens sessions. Time is in
  milliseconds. The pool's two tables are association lists keyed by router name.

  Sessions the code hands to \<^verbatim>\<open>close\<close> (inline or on a spawned task) are collected in
  \<open>closing\<close>, and sessions whose return to the pool was spawned by \<^verbatim>\<open>Drop\<close> in
  \<open>returning\<close>: the tasks run later, in any order, which the step relation below makes explicit.
\<close>

section \<open>Transient errors and retries\<close>

definition transient_needles :: "string list" where
  "transient_needles =
     [''session expired'', ''keepalive probe failed'', ''connection closed'', ''connection reset'',
      ''connection refused'', ''connection failed'', ''broken pipe'', ''unexpected eof'',
      ''early eof'', ''channel closed'', ''session closed'', ''no route to host'',
      ''transport error'']"

definition error_is_transient :: "string \<Rightarrow> bool" where
  "error_is_transient err =
     (let lower = to_ascii_lowercase err in list_ex (\<lambda>n. str_contains n lower) transient_needles)"

text \<open>
  The retry loop over a state: \<open>op\<close> gets the number of the attempt, from 1; \<open>sleep\<close> is the
  effect of the backoff on the state.
\<close>

function retry_transient_from ::
    "nat \<Rightarrow> ('s \<Rightarrow> 's) \<Rightarrow> (nat \<Rightarrow> 's \<Rightarrow> 'a jres \<times> 's) \<Rightarrow> nat \<Rightarrow> 's \<Rightarrow> 'a jres \<times> 's" where
  "retry_transient_from max_attempts sleep op attempt s =
     (case op (Suc attempt) s of
        (Inr v, s') \<Rightarrow> (Inr v, s')
      | (Inl err, s') \<Rightarrow>
          if Suc attempt < max_attempts \<and> error_is_transient (error_to_string err)
          then retry_transient_from max_attempts sleep op (Suc attempt) (sleep s')
          else (Inl err, s'))"
  by pat_completeness auto
termination
  by (relation "measure (\<lambda>(m, sl, op, a, s). m - a)") auto

declare retry_transient_from.simps [simp del]

definition retry_transient ::
    "nat \<Rightarrow> ('s \<Rightarrow> 's) \<Rightarrow> (nat \<Rightarrow> 's \<Rightarrow> 'a jres \<times> 's) \<Rightarrow> 's \<Rightarrow> 'a jres \<times> 's" where
  "retry_transient max_attempts sleep op s = retry_transient_from max_attempts sleep op 0 s"

section \<open>The pool\<close>

record 'd pool_entry =
  pe_device :: 'd
  returned_at :: nat

record cleanup_taint =
  failed_at :: nat
  phases :: string

record 'd session_pool =
  slots :: "(string \<times> 'd pool_entry) list"
  taints :: "(string \<times> cleanup_taint) list"
  idle_timeout :: nat
  closing :: "'d list"
  returning :: "(string \<times> 'd) list"

definition POOL_IDLE_TIMEOUT :: nat where "POOL_IDLE_TIMEOUT = 300000"

definition new_pool :: "'d session_pool" where
  "new_pool = \<lparr>slots = [], taints = [], idle_timeout = POOL_IDLE_TIMEOUT, closing = [], returning = []\<rparr>"

definition remove_key :: "'k \<Rightarrow> ('k \<times> 'v) list \<Rightarrow> ('k \<times> 'v) list" where
  "remove_key k al = filter (\<lambda>(k', _). k' \<noteq> k) al"

definition insert_key :: "'k \<Rightarrow> 'v \<Rightarrow> ('k \<times> 'v) list \<Rightarrow> ('k \<times> 'v) list" where
  "insert_key k v al = (k, v) # remove_key k al"

definition entry_expired :: "'d session_pool \<Rightarrow> nat \<Rightarrow> 'd pool_entry \<Rightarrow> bool" where
  "entry_expired p t e \<longleftrightarrow> t - returned_at e > idle_timeout p"

definition evict_expired :: "nat \<Rightarrow> 'd session_pool \<Rightarrow> 'd session_pool" where
  "evict_expired t p =
     p\<lparr>slots := filter (\<lambda>(_, e). \<not> entry_expired p t e) (slots p),
       closing := closing p @ map (pe_device \<circ> snd) (filter (\<lambda>(_, e). entry_expired p t e) (slots p)),
       taints := filter (\<lambda>(_, x). \<not> t - failed_at x > idle_timeout p) (taints p)\<rparr>"

definition try_checkout ::
    "('d \<Rightarrow> bool) \<Rightarrow> nat \<Rightarrow> string \<Rightarrow> 'd session_pool \<Rightarrow> 'd option \<times> 'd session_pool" where
  "try_checkout session_alive t name p =
     (case map_of (slots p) name of
        None \<Rightarrow> (None, p)
      | Some e \<Rightarrow>
          (let p' = p\<lparr>slots := remove_key name (slots p)\<rparr> in
           if entry_expired p t e then (None, p'\<lparr>closing := closing p @ [pe_device e]\<rparr>)
           else if \<not> session_alive (pe_device e) then (None, p'\<lparr>closing := closing p @ [pe_device e]\<rparr>)
           else (Some (pe_device e), p')))"

definition return_session ::
    "('d \<Rightarrow> bool) \<Rightarrow> nat \<Rightarrow> string \<Rightarrow> 'd \<Rightarrow> 'd session_pool \<Rightarrow> 'd session_pool" where
  "return_session session_alive t name dev p =
     (if \<not> session_alive dev then p\<lparr>closing := closing p @ [dev]\<rparr>
      else
        (let p' = p\<lparr>slots := insert_key name \<lparr>pe_device = dev, returned_at = t\<rparr> (slots p)\<rparr> in
         case map_of (slots p) name of
           Some old \<Rightarrow> p'\<lparr>closing := closing p @ [pe_device old]\<rparr>
         | None \<Rightarrow> p'))"

fun invalidate :: "string list \<Rightarrow> 'd session_pool \<Rightarrow> 'd session_pool" where
  "invalidate [] p = p"
| "invalidate (name # names) p =
     invalidate names
       (case map_of (slots p) name of
          Some e \<Rightarrow> p\<lparr>slots := remove_key name (slots p), closing := closing p @ [pe_device e]\<rparr>
        | None \<Rightarrow> p)"

definition record_cleanup_taint :: "nat \<Rightarrow> string \<Rightarrow> string \<Rightarrow> 'd session_pool \<Rightarrow> 'd session_pool" where
  "record_cleanup_taint t router ph p =
     p\<lparr>taints := insert_key router \<lparr>failed_at = t, phases = ph\<rparr> (taints p)\<rparr>"

definition check_cleanup_taint :: "string \<Rightarrow> 'd session_pool \<Rightarrow> string option" where
  "check_cleanup_taint router p = map_option phases (map_of (taints p) router)"

definition clear_cleanup_taint :: "string \<Rightarrow> 'd session_pool \<Rightarrow> 'd session_pool" where
  "clear_cleanup_taint router p = p\<lparr>taints := remove_key router (taints p)\<rparr>"

section \<open>The guard\<close>

record 'd pooled_device =
  pd_dev :: "'d option"
  router_name :: string
  reuse_allowed :: bool

datatype lock_release = LockConfirmed | ClosedUnverified

definition should_pool :: "bool \<Rightarrow> bool \<Rightarrow> bool \<Rightarrow> bool" where
  "should_pool reuse config_db_open touched_candidate \<longleftrightarrow>
     reuse \<and> \<not> config_db_open \<and> \<not> touched_candidate"

definition prevent_reuse :: "'d pooled_device \<Rightarrow> 'd pooled_device" where
  "prevent_reuse g = g\<lparr>reuse_allowed := False\<rparr>"

definition allow_reuse :: "'d pooled_device \<Rightarrow> 'd pooled_device" where
  "allow_reuse g = g\<lparr>reuse_allowed := True\<rparr>"

definition is_some_and :: "('a \<Rightarrow> bool) \<Rightarrow> 'a option \<Rightarrow> bool" where
  "is_some_and f o1 = (case o1 of None \<Rightarrow> False | Some x \<Rightarrow> f x)"

definition is_reusable :: "('d, 'w) netconf \<Rightarrow> 'w \<Rightarrow> 'd pooled_device \<Rightarrow> bool" where
  "is_reusable nc w g =
     should_pool (reuse_allowed g)
       (is_some_and (\<lambda>d. nc_db_open nc d w) (pd_dev g))
       (is_some_and (\<lambda>d. nc_touched nc d w) (pd_dev g))"

text \<open>\<^verbatim>\<open>Drop\<close>: the guard's session goes to the pool or to a close, on a spawned task.\<close>

definition drop_guard ::
    "('d, 'w) netconf \<Rightarrow> 'w \<Rightarrow> 'd pooled_device \<Rightarrow> 'd session_pool \<Rightarrow> 'd session_pool" where
  "drop_guard nc w g p =
     (case pd_dev g of
        None \<Rightarrow> p
      | Some dev \<Rightarrow>
          if \<not> should_pool (reuse_allowed g) (nc_db_open nc dev w) (nc_touched nc dev w)
          then p\<lparr>closing := closing p @ [dev]\<rparr>
          else p\<lparr>returning := returning p @ [(router_name g, dev)]\<rparr>)"

text \<open>
  Closing through a mutable borrow, and waiting for it: the guard owns no session afterwards. An
  answer that never comes is \<^const>\<open>None\<close>; \<open>close_within\<close> is the close under a time budget.
\<close>

definition close_within ::
    "('d, 'w) netconf \<Rightarrow> nat \<Rightarrow> 'd pooled_device \<Rightarrow> 'w \<Rightarrow> (unit jres) option \<times> 'd pooled_device \<times> 'w" where
  "close_within nc budget g w =
     (case pd_dev g of
        None \<Rightarrow> (Some (Inr ()), g, w)
      | Some d \<Rightarrow>
          (let a = nc_close nc d w; g' = g\<lparr>pd_dev := None\<rparr> in
           if (case takes a of None \<Rightarrow> False | Some n \<Rightarrow> n \<le> budget)
           then (Some (map_err Rustez (says a)), g', after a)
           else (None, g', dropped a)))"

text \<open>
  Giving up the candidate lock: a session whose candidate is flagged dirty is closed under the
  budget, any other is unlocked and may be pooled again. Dereferencing a guard that owns no
  session panics in the source: \<^const>\<open>None\<close> here.
\<close>

definition release_lock ::
    "('d, 'w) netconf \<Rightarrow> nat \<Rightarrow> 'd pooled_device \<Rightarrow> 'w
      \<Rightarrow> (lock_release jres \<times> 'd pooled_device \<times> 'w) option" where
  "release_lock nc budget g w =
     (if is_some_and (\<lambda>d. nc_touched nc d w) (pd_dev g)
      then
        (case close_within nc budget g w of
           (Some r, g', w') \<Rightarrow> Some (and_then r (\<lambda>_. Inr ClosedUnverified), g', w')
         | (None, g', w') \<Rightarrow>
             Some (Inl (Validation (''closing the session to release the candidate lock exceeded the ''
               @ show_nat (budget div 1000) @ ''s cleanup budget; lock state unknown'')), g', w'))
      else
        (case pd_dev g of
           None \<Rightarrow> None
         | Some d \<Rightarrow>
             (case nc_config nc d w of
                Inl e \<Rightarrow> Some (Inl (Rustez e), g, w)
              | Inr _ \<Rightarrow>
                  (let a = nc_unlock nc d w in
                   case says a of
                     Inl e \<Rightarrow> Some (Inl (Rustez e), g, after a)
                   | Inr _ \<Rightarrow> Some (Inr LockConfirmed, allow_reuse g, after a)))))"

section \<open>The manager\<close>

record ('d, 'w) device_manager =
  dm_inventory :: inventory
  inventory_path :: string
  inventory_hash :: string
  inventory_readonly :: bool
  allow_password_auth_add :: bool
  host_key_policy :: string
  pool :: "'d session_pool"
  ext :: 'w
  now :: nat

definition store_inventory ::
    "inventory \<Rightarrow> string \<Rightarrow> string \<Rightarrow> ('d, 'w) device_manager \<Rightarrow> ('d, 'w) device_manager" where
  "store_inventory iv path hash dm =
     dm\<lparr>dm_inventory := iv, inventory_path := path, inventory_hash := hash\<rparr>"

definition invalidate_pool ::
    "string list \<Rightarrow> ('d, 'w) device_manager \<Rightarrow> ('d, 'w) device_manager" where
  "invalidate_pool names dm = dm\<lparr>pool := invalidate names (pool dm)\<rparr>"

definition KEEPALIVE_INTERVAL :: nat where "KEEPALIVE_INTERVAL = 30000"
definition POOL_RPC_TIMEOUT :: nat where "POOL_RPC_TIMEOUT = 3600000"
definition CONNECT_MAX_ATTEMPTS :: nat where "CONNECT_MAX_ATTEMPTS = 3"
definition CONNECT_RETRY_BACKOFF :: nat where "CONNECT_RETRY_BACKOFF = 3000"

text \<open>One connect attempt: the builder's settings from the inventory entry, then the open.\<close>

definition connect_params ::
    "ssh_config_loader \<Rightarrow> (string \<Rightarrow> bool) \<Rightarrow> string \<Rightarrow> string \<Rightarrow> device_entry \<Rightarrow> conn_params jres" where
  "connect_params ssh_load is_utf8 hk router entry =
     (let base = \<lparr>cp_host = ip entry, cp_port = port entry, cp_username = username entry,
            cp_keepalive = KEEPALIVE_INTERVAL, cp_rpc_timeout = POOL_RPC_TIMEOUT,
            cp_host_key = hk, cp_jump_hosts = [], cp_proxy_command = None, cp_auth = None\<rparr> in
      and_then
        (case ssh_config entry of
           None \<Rightarrow> Inr base
         | Some f \<Rightarrow>
             (case ssh_load f of
                Inl e \<Rightarrow> Inl (SshConfigInvalid router e)
              | Inr res \<Rightarrow>
                  (let (jumps, proxy) = res (ip entry);
                       b1 = (if jumps \<noteq> [] then base\<lparr>cp_jump_hosts := jumps\<rparr> else base)
                   in Inr (case proxy of Some c \<Rightarrow> b1\<lparr>cp_proxy_command := Some c\<rparr> | None \<Rightarrow> b1))))
        (\<lambda>b. case auth entry of
               Password pw \<Rightarrow> Inr (b\<lparr>cp_auth := Some (Password pw)\<rparr>)
             | SshKey path \<Rightarrow>
                 if is_utf8 path then Inr (b\<lparr>cp_auth := Some (SshKey path)\<rparr>)
                 else Inl (InventoryInvalid (''private_key_path is not valid UTF-8: '' @ path))))"

definition connect_attempt ::
    "('d, 'w) netconf \<Rightarrow> ssh_config_loader \<Rightarrow> (string \<Rightarrow> bool) \<Rightarrow> string \<Rightarrow> string \<Rightarrow> device_entry
      \<Rightarrow> 'w \<times> nat \<Rightarrow> 'd jres \<times> 'w \<times> nat" where
  "connect_attempt nc ssh_load is_utf8 hk router entry s =
     (case connect_params ssh_load is_utf8 hk router entry of
        Inl e \<Rightarrow> (Inl e, s)
      | Inr cp \<Rightarrow> (let (r, w) = nc_open nc cp (fst s) in (map_err Rustez r, w, snd s)))"

definition connect_fresh ::
    "('d, 'w) netconf \<Rightarrow> ssh_config_loader \<Rightarrow> (string \<Rightarrow> bool) \<Rightarrow> string
      \<Rightarrow> ('d, 'w) device_manager \<Rightarrow> 'd pooled_device jres \<times> ('d, 'w) device_manager" where
  "connect_fresh nc ssh_load is_utf8 router dm =
     (case inv_get (dm_inventory dm) router of
        Inl e \<Rightarrow> (Inl e, dm)
      | Inr entry \<Rightarrow>
          (let (r, w, t) =
             retry_transient CONNECT_MAX_ATTEMPTS (\<lambda>(w, t). (w, t + CONNECT_RETRY_BACKOFF))
               (\<lambda>_. connect_attempt nc ssh_load is_utf8 (host_key_policy dm) router entry)
               (ext dm, now dm)
           in (case r of
                 Inl e \<Rightarrow> Inl e
               | Inr d \<Rightarrow> Inr \<lparr>pd_dev = Some d, router_name = router, reuse_allowed = True\<rparr>,
               dm\<lparr>ext := w, now := t\<rparr>)))"

definition open_dev ::
    "('d, 'w) netconf \<Rightarrow> ssh_config_loader \<Rightarrow> (string \<Rightarrow> bool) \<Rightarrow> string
      \<Rightarrow> ('d, 'w) device_manager \<Rightarrow> 'd pooled_device jres \<times> ('d, 'w) device_manager" where
  "open_dev nc ssh_load is_utf8 router dm =
     (case try_checkout (\<lambda>d. nc_alive nc d (ext dm)) (now dm) router (pool dm) of
        (Some d, p) \<Rightarrow>
          (Inr \<lparr>pd_dev = Some d, router_name = router, reuse_allowed = True\<rparr>, dm\<lparr>pool := p\<rparr>)
      | (None, p) \<Rightarrow> connect_fresh nc ssh_load is_utf8 router (dm\<lparr>pool := p\<rparr>))"

definition open_fresh ::
    "('d, 'w) netconf \<Rightarrow> ssh_config_loader \<Rightarrow> (string \<Rightarrow> bool) \<Rightarrow> string
      \<Rightarrow> ('d, 'w) device_manager \<Rightarrow> 'd pooled_device jres \<times> ('d, 'w) device_manager" where
  "open_fresh nc ssh_load is_utf8 router dm =
     connect_fresh nc ssh_load is_utf8 router (dm\<lparr>pool := invalidate [router] (pool dm)\<rparr>)"

definition drop_dev ::
    "('d, 'w) netconf \<Rightarrow> 'd pooled_device \<Rightarrow> ('d, 'w) device_manager \<Rightarrow> ('d, 'w) device_manager" where
  "drop_dev nc g dm = dm\<lparr>pool := drop_guard nc (ext dm) g (pool dm)\<rparr>"

text \<open>One CLI command on an open guard, which is then dropped.\<close>

definition cli_and_drop ::
    "('d, 'w) netconf \<Rightarrow> string \<Rightarrow> 'd \<Rightarrow> 'd pooled_device \<Rightarrow> ('d, 'w) device_manager
      \<Rightarrow> (rustez_error + string) \<times> ('d, 'w) device_manager" where
  "cli_and_drop nc command d g dm =
     (let a = nc_cli nc command d (ext dm) in (says a, drop_dev nc g (dm\<lparr>ext := after a\<rparr>)))"

definition run_cli ::
    "('d, 'w) netconf \<Rightarrow> ssh_config_loader \<Rightarrow> (string \<Rightarrow> bool) \<Rightarrow> string \<Rightarrow> string
      \<Rightarrow> ('d, 'w) device_manager \<Rightarrow> string jres \<times> ('d, 'w) device_manager" where
  "run_cli nc ssh_load is_utf8 router command dm =
     (case open_dev nc ssh_load is_utf8 router dm of
        (Inl e, dm1) \<Rightarrow> (Inl e, dm1)
      | (Inr g, dm1) \<Rightarrow>
          (let d = the (pd_dev g); (r, dm2) = cli_and_drop nc command d g dm1 in
           case r of
             Inr out \<Rightarrow> (Inr out, dm2)
           | Inl err \<Rightarrow>
               if error_is_transient (rz_text err)
               then
                 (case open_fresh nc ssh_load is_utf8 router dm2 of
                    (Inl e, dm3) \<Rightarrow> (Inl e, dm3)
                  | (Inr fresh, dm3) \<Rightarrow>
                      (let (r2, dm4) = cli_and_drop nc command (the (pd_dev fresh)) fresh dm3
                       in (map_err Rustez r2, dm4)))
               else (Inl (Rustez err), dm2)))"

section \<open>Retries\<close>

text \<open>The state in which attempt \<open>Suc i\<close> of a retried operation starts.\<close>

primrec attempt_state ::
    "('s \<Rightarrow> 's) \<Rightarrow> (nat \<Rightarrow> 's \<Rightarrow> 'a jres \<times> 's) \<Rightarrow> 's \<Rightarrow> nat \<Rightarrow> 's" where
  "attempt_state sleep op s 0 = s"
| "attempt_state sleep op s (Suc i) = sleep (snd (op (Suc i) (attempt_state sleep op s i)))"

definition transient_failure :: "'a jres \<Rightarrow> bool" where
  "transient_failure r = (case r of Inl e \<Rightarrow> error_is_transient (error_to_string e) | Inr _ \<Rightarrow> False)"

lemma transient_failure_simps [simp]:
  "transient_failure (Inr v) = False"
  "transient_failure (Inl e) = error_is_transient (error_to_string e)"
  by (simp_all add: transient_failure_def)

lemma retry_transient_from_step:
  "retry_transient_from m sleep op a s =
     (if Suc a < m \<and> transient_failure (fst (op (Suc a) s))
      then retry_transient_from m sleep op (Suc a) (sleep (snd (op (Suc a) s)))
      else op (Suc a) s)"
  by (subst retry_transient_from.simps) (auto split: prod.splits sum.splits)

lemma retry_transient_from_spec:
  "\<exists>k\<ge>a. (k < m \<or> k = a)
     \<and> retry_transient_from m sleep op a (attempt_state sleep op s a) =
         op (Suc k) (attempt_state sleep op s k)
     \<and> (\<forall>i. a \<le> i \<and> i < k \<longrightarrow> transient_failure (fst (op (Suc i) (attempt_state sleep op s i))))
     \<and> (Suc k < m \<longrightarrow> \<not> transient_failure (fst (op (Suc k) (attempt_state sleep op s k))))"
proof (induction "m - a" arbitrary: a rule: less_induct)
  case less
  let ?r = "op (Suc a) (attempt_state sleep op s a)"
  show ?case
  proof (cases "Suc a < m \<and> transient_failure (fst ?r)")
    case True
    then have "m - Suc a < m - a" by (auto intro: diff_less_mono2)
    from less.hyps [OF this] obtain k where k: "k \<ge> Suc a" "k < m \<or> k = Suc a"
      "retry_transient_from m sleep op (Suc a) (attempt_state sleep op s (Suc a)) =
         op (Suc k) (attempt_state sleep op s k)"
      "\<And>i. Suc a \<le> i \<Longrightarrow> i < k \<Longrightarrow> transient_failure (fst (op (Suc i) (attempt_state sleep op s i)))"
      "Suc k < m \<Longrightarrow> \<not> transient_failure (fst (op (Suc k) (attempt_state sleep op s k)))"
      by blast
    have "transient_failure (fst (op (Suc i) (attempt_state sleep op s i)))" if "a \<le> i" "i < k" for i
      using that True k(4) by (cases "i = a") auto
    moreover have "retry_transient_from m sleep op a (attempt_state sleep op s a) =
        op (Suc k) (attempt_state sleep op s k)"
      using True k(3) by (subst retry_transient_from_step) simp
    moreover have "k < m" using k(2) True by auto
    moreover have "a \<le> k" using k(1) by simp
    ultimately show ?thesis using k(5) by blast
  next
    case False
    then have "retry_transient_from m sleep op a (attempt_state sleep op s a) = ?r"
      by (subst retry_transient_from_step) (metis False)
    with False show ?thesis by (intro exI [of _ a]) auto
  qed
qed

text \<open>
  A retried operation answers with the result of one of its attempts, never the attempt after
  the configured maximum; every attempt before it failed with a transient error, and unless it is
  the last one allowed, it succeeded or failed with an error that is not transient.
\<close>

theorem retry_transient_spec:
  "\<exists>k. k < max 1 m
     \<and> retry_transient m sleep op s = op (Suc k) (attempt_state sleep op s k)
     \<and> list_all (\<lambda>i. transient_failure (fst (op (Suc i) (attempt_state sleep op s i)))) [0..<k]
     \<and> \<not> (Suc k < m \<and> transient_failure (fst (op (Suc k) (attempt_state sleep op s k))))"
proof -
  from retry_transient_from_spec [of 0 m sleep op s] obtain k where
    "k < m \<or> k = 0"
    "retry_transient_from m sleep op 0 s = op (Suc k) (attempt_state sleep op s k)"
    "\<forall>i. i < k \<longrightarrow> transient_failure (fst (op (Suc i) (attempt_state sleep op s i)))"
    "Suc k < m \<longrightarrow> \<not> transient_failure (fst (op (Suc k) (attempt_state sleep op s k)))"
    by auto
  then show ?thesis
    by (intro exI [of _ k]) (auto simp: retry_transient_def list_all_iff)
qed

section \<open>Who owns a session\<close>

lemma in_remove_key [simp]: "(k', v) \<in> set (remove_key k al) \<longleftrightarrow> (k', v) \<in> set al \<and> k' \<noteq> k"
  by (auto simp: remove_key_def)

lemma map_of_remove_key [simp]: "map_of (remove_key k al) = (map_of al)(k := None)"
  by (induction al) (auto simp: remove_key_def fun_eq_iff)

lemma map_of_insert_key [simp]: "map_of (insert_key k v al) = (map_of al)(k \<mapsto> v)"
  by (simp add: insert_key_def)

lemma keys_remove_key: "map fst (remove_key k al) = filter (\<lambda>k'. k' \<noteq> k) (map fst al)"
  by (induction al) (auto simp: remove_key_def)

lemma keys_filter: "map fst (filter (\<lambda>(k, v). P v) al) = map fst (filter (P \<circ> snd) al)"
  by (induction al) auto

lemma distinct_keys_remove [simp]: "distinct (map fst al) \<Longrightarrow> distinct (map fst (remove_key k al))"
  by (simp add: keys_remove_key)

lemma distinct_keys_insert [simp]: "distinct (map fst al) \<Longrightarrow> distinct (map fst (insert_key k v al))"
  by (simp add: insert_key_def keys_remove_key)

lemma distinct_keys_filter: "distinct (map fst al) \<Longrightarrow> distinct (map fst (filter P al))"
  by (simp add: distinct_map_filter)

lemma mset_remove_key_None:
  "map_of al k = None \<Longrightarrow> remove_key k al = al"
  by (auto simp: remove_key_def map_of_eq_None_iff filter_id_conv intro: rev_image_eqI)

lemma mset_remove_key_Some:
  "distinct (map fst al) \<Longrightarrow> map_of al k = Some v \<Longrightarrow>
     mset al = add_mset (k, v) (mset (remove_key k al))"
proof (induction al)
  case (Cons a al)
  obtain k' v' where [simp]: "a = (k', v')" by force
  show ?case
  proof (cases "k' = k")
    case True
    with Cons.prems have "map_of al k = None" by (auto simp: map_of_eq_None_iff)
    with True Cons.prems show ?thesis
      using mset_remove_key_None [of al k] by (simp add: remove_key_def)
  next
    case False
    with Cons show ?thesis by (simp add: remove_key_def)
  qed
qed simp

text \<open>
  The sessions the pool is responsible for: pooled ones, ones waiting to be closed, and ones whose
  return is scheduled. The tables are well formed when no router name has two entries.
\<close>

definition pool_sessions :: "'d session_pool \<Rightarrow> 'd multiset" where
  "pool_sessions p =
     mset (map (pe_device \<circ> snd) (slots p)) + mset (closing p) + mset (map snd (returning p))"

definition pool_wf :: "'d session_pool \<Rightarrow> bool" where
  "pool_wf p \<longleftrightarrow> distinct (map fst (slots p)) \<and> distinct (map fst (taints p))"

definition guard_sessions :: "'d pooled_device list \<Rightarrow> 'd multiset" where
  "guard_sessions gs = mset (concat (map (\<lambda>g. case pd_dev g of None \<Rightarrow> [] | Some d \<Rightarrow> [d]) gs))"

lemma slot_sessions:
  assumes "pool_wf p" "map_of (slots p) name = Some e"
  shows "image_mset (pe_device \<circ> snd) (mset (slots p)) =
    add_mset (pe_device e) (image_mset (pe_device \<circ> snd) (mset (remove_key name (slots p))))"
proof -
  from assms have "mset (slots p) = add_mset (name, e) (mset (remove_key name (slots p)))"
    by (simp add: pool_wf_def mset_remove_key_Some)
  then show ?thesis by simp
qed

lemma mset_filter_split: "mset (map f (filter P xs)) + mset (map f (filter (\<lambda>x. \<not> P x) xs)) = mset (map f xs)"
  by (induction xs) auto

lemma pool_sessions_evict [simp]: "pool_sessions (evict_expired t p) = pool_sessions p"
proof -
  have "mset (map (pe_device \<circ> snd) (slots p)) =
      mset (map (pe_device \<circ> snd) (filter (\<lambda>(_, e). entry_expired p t e) (slots p)))
    + mset (map (pe_device \<circ> snd) (filter (\<lambda>(_, e). \<not> entry_expired p t e) (slots p)))"
    using mset_filter_split [of "pe_device \<circ> snd" "\<lambda>(_, e). entry_expired p t e" "slots p"]
    by (simp add: case_prod_unfold)
  then show ?thesis by (simp add: pool_sessions_def evict_expired_def)
qed

lemma pool_wf_evict [simp]: "pool_wf p \<Longrightarrow> pool_wf (evict_expired t p)"
  by (simp add: pool_wf_def evict_expired_def distinct_keys_filter)

lemma pool_sessions_checkout:
  "pool_wf p \<Longrightarrow> try_checkout alive t name p = (r, p') \<Longrightarrow>
     pool_sessions p = pool_sessions p' + (case r of None \<Rightarrow> {#} | Some d \<Rightarrow> {#d#})"
  by (auto simp: try_checkout_def pool_sessions_def slot_sessions Let_def split: option.splits if_splits)

lemma pool_wf_checkout:
  "pool_wf p \<Longrightarrow> try_checkout alive t name p = (r, p') \<Longrightarrow> pool_wf p'"
  by (auto simp: try_checkout_def pool_wf_def Let_def split: option.splits if_splits)

lemma pool_sessions_return [simp]:
  "pool_wf p \<Longrightarrow> pool_sessions (return_session alive t name d p) = add_mset d (pool_sessions p)"
  by (auto simp: return_session_def pool_sessions_def insert_key_def slot_sessions Let_def
      mset_remove_key_None split: option.splits)

lemma pool_wf_return [simp]: "pool_wf p \<Longrightarrow> pool_wf (return_session alive t name d p)"
  by (auto simp: return_session_def pool_wf_def Let_def split: option.splits)

lemma invalidate_keeps:
  "pool_wf p \<Longrightarrow> pool_wf (invalidate names p) \<and> pool_sessions (invalidate names p) = pool_sessions p"
proof (induction names p rule: invalidate.induct)
  case (2 name names p)
  have "pool_wf q \<and> pool_sessions q = pool_sessions p"
    if "q = (case map_of (slots p) name of
          Some e \<Rightarrow> p\<lparr>slots := remove_key name (slots p), closing := closing p @ [pe_device e]\<rparr>
        | None \<Rightarrow> p)" for q
  proof (cases "map_of (slots p) name")
    case (Some e)
    with that 2(2) slot_sessions [OF 2(2) Some] show ?thesis
      by (simp add: pool_sessions_def pool_wf_def)
  qed (use that 2(2) in simp)
  with 2(1) show ?case by simp
qed simp

lemma taints_keep [simp]:
  "pool_sessions (record_cleanup_taint t r ph p) = pool_sessions p"
  "pool_sessions (clear_cleanup_taint r p) = pool_sessions p"
  "pool_wf p \<Longrightarrow> pool_wf (record_cleanup_taint t r ph p)"
  "pool_wf p \<Longrightarrow> pool_wf (clear_cleanup_taint r p)"
  by (simp_all add: record_cleanup_taint_def clear_cleanup_taint_def pool_sessions_def pool_wf_def)

lemma drop_guard_keeps:
  "pool_sessions (drop_guard nc w g p) = pool_sessions p + guard_sessions [g]"
  "pool_wf p \<Longrightarrow> pool_wf (drop_guard nc w g p)"
  by (auto simp: drop_guard_def pool_sessions_def pool_wf_def guard_sessions_def split: option.splits)

section \<open>The contract of a session store\<close>

text \<open>
  What the manager relies on: the store accounts for the sessions it holds, handing one out
  removes it and taking one back adds it.
\<close>

locale session_store =
  fixes wf :: "'s \<Rightarrow> bool"
    and held :: "'s \<Rightarrow> 'd multiset"
    and take_out :: "'s \<Rightarrow> 'd option \<times> 's"
    and give_back :: "'d \<Rightarrow> 's \<Rightarrow> 's"
  assumes take_wf: "wf s \<Longrightarrow> take_out s = (r, s') \<Longrightarrow> wf s'"
    and take_held: "wf s \<Longrightarrow> take_out s = (r, s') \<Longrightarrow> held s = held s' + (case r of None \<Rightarrow> {#} | Some d \<Rightarrow> {#d#})"
    and give_wf: "wf s \<Longrightarrow> wf (give_back d s)"
    and give_held: "wf s \<Longrightarrow> held (give_back d s) = add_mset d (held s)"
begin

lemma taken_is_gone:
  assumes "wf s" "take_out s = (Some d, s')" "\<And>x. count (held s) x \<le> 1"
  shows "d \<notin># held s'"
proof -
  have "count (held s') d + 1 \<le> 1"
    using assms(3) [of d] take_held [OF assms(1,2)] by simp
  then show ?thesis by (simp add: not_in_iff)
qed

lemma swap_held:
  assumes "wf s" "take_out s = (Some d, s')"
  shows "held (give_back d s') = held s"
  using take_held [OF assms] give_held [OF take_wf [OF assms]] by simp

end

interpretation router_pool: session_store pool_wf pool_sessions
  "try_checkout alive t name" "return_session alive' t' name'"
  by unfold_locales (simp_all add: pool_wf_checkout pool_sessions_checkout)

section \<open>Interleavings\<close>

text \<open>
  The tasks that share the pool: the world of flags, the pool, and the guards that are alive. A
  step is one operation of some task; a guard can be dropped, a scheduled return or close can run,
  and a fresh session can appear at any moment. Only the holder of a guard can change the flags of
  its session.
\<close>

type_synonym ('d, 'w) pool_state = "'w \<times> 'd session_pool \<times> 'd pooled_device list"

inductive pool_step :: "('d, 'w) netconf \<Rightarrow> ('d, 'w) pool_state \<Rightarrow> ('d, 'w) pool_state \<Rightarrow> bool"
  for nc where
  checkout: "try_checkout (\<lambda>d. nc_alive nc d w) t name p = (Some d, p') \<Longrightarrow>
     pool_step nc (w, p, gs) (w, p', \<lparr>pd_dev = Some d, router_name = name, reuse_allowed = True\<rparr> # gs)"
| checkout_none: "try_checkout (\<lambda>d. nc_alive nc d w) t name p = (None, p') \<Longrightarrow>
     pool_step nc (w, p, gs) (w, p', gs)"
| connect: "d \<notin># pool_sessions p + guard_sessions gs \<Longrightarrow>
     pool_step nc (w, p, gs) (w, p, \<lparr>pd_dev = Some d, router_name = name, reuse_allowed = True\<rparr> # gs)"
| reuse: "pool_step nc (w, p, xs @ g # ys) (w, p, xs @ g\<lparr>reuse_allowed := b\<rparr> # ys)"
| closed_by_holder: "pool_step nc (w, p, xs @ g # ys) (w, p, xs @ g\<lparr>pd_dev := None\<rparr> # ys)"
| drop: "pool_step nc (w, p, xs @ g # ys) (w, drop_guard nc w g p, xs @ ys)"
| close_task: "closing p = xs @ d # ys \<Longrightarrow>
     pool_step nc (w, p, gs) (w, p\<lparr>closing := xs @ ys\<rparr>, gs)"
| return_task: "returning p = xs @ (name, d) # ys \<Longrightarrow>
     pool_step nc (w, p, gs)
       (w, return_session (\<lambda>d. nc_alive nc d w) t name d (p\<lparr>returning := xs @ ys\<rparr>), gs)"
| evict: "pool_step nc (w, p, gs) (w, evict_expired t p, gs)"
| invalidated: "pool_step nc (w, p, gs) (w, invalidate names p, gs)"
| taint: "pool_step nc (w, p, gs) (w, record_cleanup_taint t r ph p, gs)"
| untaint: "pool_step nc (w, p, gs) (w, clear_cleanup_taint r p, gs)"
| world: "(\<And>d. d \<notin># guard_sessions gs \<Longrightarrow>
       nc_db_open nc d w' = nc_db_open nc d w \<and> nc_touched nc d w' = nc_touched nc d w) \<Longrightarrow>
     pool_step nc (w, p, gs) (w', p, gs)"

text \<open>The sessions a checkout could still hand out.\<close>

definition poolable :: "'d session_pool \<Rightarrow> 'd list" where
  "poolable p = map (pe_device \<circ> snd) (slots p) @ map snd (returning p)"

definition pool_inv :: "('d, 'w) netconf \<Rightarrow> ('d, 'w) pool_state \<Rightarrow> bool" where
  "pool_inv nc s = (case s of (w, p, gs) \<Rightarrow>
     pool_wf p \<and> (\<forall>d. count (pool_sessions p + guard_sessions gs) d \<le> 1)
     \<and> (\<forall>d\<in>set (poolable p). \<not> nc_db_open nc d w \<and> \<not> nc_touched nc d w))"

lemma guard_sessions_Cons:
  "guard_sessions (g # gs) = guard_sessions [g] + guard_sessions gs"
  by (simp add: guard_sessions_def)

lemma guard_sessions_mid:
  "guard_sessions (xs @ g # ys) = guard_sessions [g] + guard_sessions (xs @ ys)"
  by (simp add: guard_sessions_def)

lemma guard_sessions_new [simp]:
  "guard_sessions [\<lparr>pd_dev = Some d, router_name = n, reuse_allowed = b\<rparr>] = {#d#}"
  by (simp add: guard_sessions_def)

lemma guard_sessions_upd [simp]:
  "guard_sessions [g\<lparr>reuse_allowed := b\<rparr>] = guard_sessions [g]"
  "guard_sessions [g\<lparr>pd_dev := None\<rparr>] = {#}"
  by (simp_all add: guard_sessions_def)

lemma poolable_in_sessions: "d \<in> set (poolable p) \<Longrightarrow> d \<in># pool_sessions p"
  by (auto simp: poolable_def pool_sessions_def)

lemma slot_in_poolable: "map_of (slots p) n = Some e \<Longrightarrow> pe_device e \<in> set (poolable p)"
  by (auto simp: poolable_def dest!: map_of_SomeD intro: rev_image_eqI)

lemma set_remove_key: "set (remove_key k al) \<subseteq> set al"
  by (auto simp: remove_key_def)

lemma poolable_checkout:
  "try_checkout alive t name p = (r, p') \<Longrightarrow> set (poolable p') \<subseteq> set (poolable p)"
  using set_remove_key [of name "slots p"]
  by (auto simp: try_checkout_def poolable_def Let_def split: option.splits if_splits)

lemma poolable_evict: "set (poolable (evict_expired t p)) \<subseteq> set (poolable p)"
  by (auto simp: evict_expired_def poolable_def)

lemma poolable_invalidate: "set (poolable (invalidate names p)) \<subseteq> set (poolable p)"
proof (induction names p rule: invalidate.induct)
  case (2 name names p)
  have "set (poolable (case map_of (slots p) name of
          Some e \<Rightarrow> p\<lparr>slots := remove_key name (slots p), closing := closing p @ [pe_device e]\<rparr>
        | None \<Rightarrow> p)) \<subseteq> set (poolable p)"
    using set_remove_key [of name "slots p"] by (auto simp: poolable_def split: option.splits)
  with 2 show ?case by simp
qed simp

lemma poolable_return:
  "set (poolable (return_session alive t name d p)) \<subseteq> insert d (set (poolable p))"
  using set_remove_key [of name "slots p"]
  by (auto simp: return_session_def poolable_def insert_key_def Let_def split: option.splits)

lemma poolable_taints [simp]:
  "poolable (record_cleanup_taint t r ph p) = poolable p"
  "poolable (clear_cleanup_taint r p) = poolable p"
  by (simp_all add: record_cleanup_taint_def clear_cleanup_taint_def poolable_def)

lemma poolable_drop:
  "d \<in> set (poolable (drop_guard nc w g p)) \<Longrightarrow>
     d \<in> set (poolable p) \<or> \<not> nc_db_open nc d w \<and> \<not> nc_touched nc d w"
  by (auto simp: drop_guard_def poolable_def should_pool_def split: option.splits if_splits)

lemma pool_inv_transfer:
  assumes "pool_inv nc (w, p, gs)" "pool_wf p'"
    and "pool_sessions p' + guard_sessions gs' \<subseteq># pool_sessions p + guard_sessions gs"
    and "\<And>d. d \<in> set (poolable p') \<Longrightarrow>
      d \<in> set (poolable p) \<or> \<not> nc_db_open nc d w \<and> \<not> nc_touched nc d w"
  shows "pool_inv nc (w, p', gs')"
proof -
  have "count (pool_sessions p' + guard_sessions gs') d \<le> 1" for d
    using assms(1) mset_subset_eq_count [OF assms(3), of d]
    unfolding pool_inv_def by (metis (mono_tags, lifting) case_prod_conv le_trans)
  with assms show ?thesis unfolding pool_inv_def by auto
qed

lemma pool_step_inv:
  assumes "pool_step nc s s'" "pool_inv nc s"
  shows "pool_inv nc s'"
  using assms
proof (induction rule: pool_step.induct)
  case (checkout w t name p d p' gs)
  then have "pool_wf p" by (simp add: pool_inv_def)
  from checkout(2) show ?case
    by (rule pool_inv_transfer)
      (use checkout(1) \<open>pool_wf p\<close> in \<open>auto simp: guard_sessions_Cons [of _ gs] pool_sessions_checkout [OF \<open>pool_wf p\<close> checkout(1)]
        intro: pool_wf_checkout dest: poolable_checkout [THEN subsetD]\<close>)
next
  case (checkout_none w t name p p' gs)
  then have "pool_wf p" by (simp add: pool_inv_def)
  from checkout_none(2) show ?case
    by (rule pool_inv_transfer)
      (use checkout_none(1) \<open>pool_wf p\<close> in \<open>auto simp: pool_sessions_checkout [OF \<open>pool_wf p\<close> checkout_none(1)]
        intro: pool_wf_checkout dest: poolable_checkout [THEN subsetD]\<close>)
next
  case (connect d p gs w name)
  then show ?case
    by (auto simp: pool_inv_def guard_sessions_Cons [of _ gs] not_in_iff)
next
  case (reuse w p xs g ys b)
  then show ?case by (simp add: pool_inv_def guard_sessions_mid)
next
  case (closed_by_holder w p xs g ys)
  then show ?case
    by (rule pool_inv_transfer)
      (use closed_by_holder in \<open>auto simp: guard_sessions_mid [of xs _ ys] pool_inv_def\<close>)
next
  case (drop w p xs g ys)
  then show ?case
    by (rule pool_inv_transfer)
      (use drop in \<open>auto simp: guard_sessions_mid [of xs g] drop_guard_keeps pool_inv_def ac_simps
        dest: poolable_drop\<close>)
next
  case (close_task p xs d ys w gs)
  from close_task(2) show ?case
    by (rule pool_inv_transfer)
      (use close_task in \<open>auto simp: pool_inv_def pool_wf_def pool_sessions_def poolable_def\<close>)
next
  case (return_task p xs name d ys w gs t)
  let ?q = "p\<lparr>returning := xs @ ys\<rparr>"
  have wf: "pool_wf ?q" using return_task by (simp add: pool_inv_def pool_wf_def)
  have "add_mset d (pool_sessions ?q) = pool_sessions p"
    using return_task(1) by (simp add: pool_sessions_def)
  moreover have "insert d (set (poolable ?q)) = set (poolable p)"
    using return_task(1) by (auto simp: poolable_def)
  ultimately show ?case
    by (intro pool_inv_transfer [OF return_task(2)])
      (use wf poolable_return in \<open>fastforce+\<close>)
next
  case (evict w p gs t)
  then show ?case
    by (rule pool_inv_transfer)
      (use evict in \<open>auto simp: pool_inv_def dest: poolable_evict [THEN subsetD]\<close>)
next
  case (invalidated w p gs names)
  then show ?case
    by (rule pool_inv_transfer)
      (use invalidated in \<open>auto simp: pool_inv_def invalidate_keeps dest: poolable_invalidate [THEN subsetD]\<close>)
next
  case (taint w p gs t r ph)
  then show ?case by (simp add: pool_inv_def)
next
  case (untaint w p gs r)
  then show ?case by (simp add: pool_inv_def)
next
  case (world gs w' w p)
  have "d \<notin># guard_sessions gs" if "d \<in> set (poolable p)" for d
  proof -
    have "count (pool_sessions p) d + count (guard_sessions gs) d \<le> 1"
      using world(2) by (simp add: pool_inv_def)
    moreover have "0 < count (pool_sessions p) d" using poolable_in_sessions [OF that] by simp
    ultimately have "count (guard_sessions gs) d = 0" by linarith
    then show ?thesis by (simp add: not_in_iff)
  qed
  with world show ?case by (auto simp: pool_inv_def)
qed

lemma pool_steps_inv: "(pool_step nc)\<^sup>*\<^sup>* s s' \<Longrightarrow> pool_inv nc s \<Longrightarrow> pool_inv nc s'"
  by (induction rule: rtranclp_induct) (auto intro: pool_step_inv)

lemma pool_inv_new: "pool_inv nc (w, new_pool, [])"
  by (simp add: pool_inv_def pool_wf_def new_pool_def pool_sessions_def guard_sessions_def poolable_def)

section \<open>Properties\<close>

text \<open>
  C5. However the tasks that share the pool interleave, no session is ever owned twice: a session
  in a live guard is in no other guard, not pooled, not scheduled for a return and not being
  closed; and every session the pool could hand out has no open configuration database and no
  candidate flagged dirty.
\<close>

theorem pool_never_shares_a_session:
  assumes "(pool_step nc)\<^sup>*\<^sup>* (w0, new_pool, []) (w, p, gs)"
  shows "pool_wf p
    \<and> (\<forall>d. count (pool_sessions p + guard_sessions gs) d \<le> 1)
    \<and> list_all (\<lambda>d. \<not> nc_db_open nc d w \<and> \<not> nc_touched nc d w) (poolable p)"
  using pool_steps_inv [OF assms pool_inv_new] by (simp add: pool_inv_def list_all_iff)

definition lab_guard :: "nat \<Rightarrow> nat pooled_device" where
  "lab_guard d = \<lparr>pd_dev = Some d, router_name = ''r1'', reuse_allowed = True\<rparr>"

lemma lab_run:
  "(pool_step lab_nc)\<^sup>*\<^sup>* ((0, []), new_pool, [])
     ((0, []), new_pool\<lparr>slots := [(''r1'', \<lparr>pe_device = 7, returned_at = 10\<rparr>)]\<rparr>, [lab_guard 8])"
proof -
  let ?w = "(0, []) :: lab"
  have 1: "pool_step lab_nc (?w, new_pool, []) (?w, new_pool, [lab_guard 7])"
    unfolding lab_guard_def
    by (rule pool_step.connect) (simp add: new_pool_def pool_sessions_def guard_sessions_def)
  have 2: "pool_step lab_nc (?w, new_pool, [lab_guard 7]) (?w, new_pool\<lparr>returning := [(''r1'', 7)]\<rparr>, [])"
    using pool_step.drop [of lab_nc ?w new_pool "[]" "lab_guard 7" "[]"]
    by (simp add: drop_guard_def lab_guard_def should_pool_def new_pool_def)
  have 3: "pool_step lab_nc (?w, new_pool\<lparr>returning := [(''r1'', 7)]\<rparr>, [])
      (?w, new_pool\<lparr>slots := [(''r1'', \<lparr>pe_device = 7, returned_at = 10\<rparr>)]\<rparr>, [])"
    using pool_step.return_task [of "new_pool\<lparr>returning := [(''r1'', 7)]\<rparr>" "[]" "''r1''" 7 "[]" lab_nc ?w "[]" 10]
    by (simp add: return_session_def insert_key_def remove_key_def new_pool_def)
  have 4: "pool_step lab_nc (?w, new_pool\<lparr>slots := [(''r1'', \<lparr>pe_device = 7, returned_at = 10\<rparr>)]\<rparr>, [])
      (?w, new_pool\<lparr>slots := [(''r1'', \<lparr>pe_device = 7, returned_at = 10\<rparr>)]\<rparr>, [lab_guard 8])"
    unfolding lab_guard_def
    by (rule pool_step.connect) (simp add: new_pool_def pool_sessions_def guard_sessions_def)
  from 1 2 3 4 show ?thesis by (meson converse_rtranclp_into_rtranclp rtranclp.rtrancl_refl)
qed

theorem pool_never_shares_a_session_witness:
  "pool_wf (new_pool\<lparr>slots := [(''r1'', \<lparr>pe_device = 7 :: nat, returned_at = 10\<rparr>)]\<rparr>)
    \<and> (\<forall>d. count (pool_sessions (new_pool\<lparr>slots := [(''r1'', \<lparr>pe_device = 7, returned_at = 10\<rparr>)]\<rparr>)
               + guard_sessions [lab_guard 8]) d \<le> 1)
    \<and> list_all (\<lambda>d. \<not> nc_db_open lab_nc d (0, []) \<and> \<not> nc_touched lab_nc d (0, []))
        (poolable (new_pool\<lparr>slots := [(''r1'', \<lparr>pe_device = 7, returned_at = 10\<rparr>)]\<rparr>))"
  by (rule pool_never_shares_a_session [OF lab_run])

text \<open>
  A checkout hands out a session exactly when the router has a pooled one that has not been
  idle longer than the limit and is alive; it leaves every other router's entry alone and the
  router with none.
\<close>

theorem try_checkout_hands_out_iff:
  "try_checkout alive t name p = (Some d, p') \<longleftrightarrow>
     (\<exists>e. map_of (slots p) name = Some e \<and> pe_device e = d
        \<and> t - returned_at e \<le> idle_timeout p \<and> alive d
        \<and> p' = p\<lparr>slots := remove_key name (slots p)\<rparr>
        \<and> map_of (slots p') = (map_of (slots p))(name := None))"
  by (auto simp: try_checkout_def entry_expired_def Let_def split: option.splits if_splits)

text \<open>
  Giving up the candidate lock: a confirmed release means the unlock was acknowledged on a
  session whose candidate is not flagged, and the guard keeps the session and may be pooled again;
  in every other case in which a session's candidate was flagged the guard no longer owns it, and
  a release reported as unverified is a close that was acknowledged within the budget.
\<close>

theorem release_lock_outcome:
  assumes "release_lock nc budget g w = Some (r, g', w')"
  shows "case r of
      Inr LockConfirmed \<Rightarrow>
        (\<exists>d. pd_dev g = Some d \<and> \<not> nc_touched nc d w \<and> says (nc_unlock nc d w) = Inr ()
           \<and> g' = allow_reuse g)
    | Inr ClosedUnverified \<Rightarrow>
        (\<exists>d n. pd_dev g = Some d \<and> nc_touched nc d w \<and> says (nc_close nc d w) = Inr ()
           \<and> takes (nc_close nc d w) = Some n \<and> n \<le> budget \<and> pd_dev g' = None)
    | Inl _ \<Rightarrow> reuse_allowed g' = reuse_allowed g
        \<and> (is_some_and (\<lambda>d. nc_touched nc d w) (pd_dev g) = (pd_dev g' = None))"
  using assms
  by (auto simp: release_lock_def close_within_def is_some_and_def and_then_def map_err_def Let_def
      split: if_splits option.splits sum.splits)

theorem release_lock_outcome_witness:
  "release_lock lab_nc 5000 (lab_guard 3) (4, []) =
     Some (Inr LockConfirmed, lab_guard 3, (4, [''unlock'']))
   \<and> (\<exists>d. pd_dev (lab_guard 3) = Some d \<and> \<not> nc_touched lab_nc d (4, [])
        \<and> says (nc_unlock lab_nc d (4, [])) = Inr () \<and> lab_guard 3 = allow_reuse (lab_guard 3))"
proof -
  have r: "release_lock lab_nc 5000 (lab_guard 3) (4, []) =
     Some (Inr LockConfirmed, lab_guard 3, (4, [''unlock'']))"
    by (simp add: release_lock_def is_some_and_def lab_guard_def lab_nc_def lab_reply_def allow_reuse_def)
  from release_lock_outcome [OF r] r show ?thesis by simp
qed

text \<open>
  A device whose world also counts the CLI commands it was sent.
\<close>

definition counting :: "nat \<Rightarrow> ('a, 'e, 'w) answer \<Rightarrow> ('a, 'e, 'w \<times> nat) answer" where
  "counting n a = \<lparr>takes = takes a, says = says a, after = (after a, n), dropped = (dropped a, n)\<rparr>"

definition counted :: "('d, 'w) netconf \<Rightarrow> ('d, 'w \<times> nat) netconf" where
  "counted nc = \<lparr>
     nc_open = \<lambda>cp w. (fst (nc_open nc cp (fst w)), (snd (nc_open nc cp (fst w)), snd w)),
     nc_alive = \<lambda>d w. nc_alive nc d (fst w),
     nc_db_open = \<lambda>d w. nc_db_open nc d (fst w),
     nc_touched = \<lambda>d w. nc_touched nc d (fst w),
     nc_close = \<lambda>d w. counting (snd w) (nc_close nc d (fst w)),
     nc_config = \<lambda>d w. nc_config nc d (fst w), nc_rpc = \<lambda>d w. nc_rpc nc d (fst w),
     nc_lock = \<lambda>d w. counting (snd w) (nc_lock nc d (fst w)),
     nc_unlock = \<lambda>d w. counting (snd w) (nc_unlock nc d (fst w)),
     nc_load = \<lambda>c a d w. counting (snd w) (nc_load nc c a d (fst w)),
     nc_rollback = \<lambda>n d w. counting (snd w) (nc_rollback nc n d (fst w)),
     nc_diff = \<lambda>d w. counting (snd w) (nc_diff nc d (fst w)),
     nc_commit_check = \<lambda>d w. counting (snd w) (nc_commit_check nc d (fst w)),
     nc_commit_with_comment = \<lambda>c d w. counting (snd w) (nc_commit_with_comment nc c d (fst w)),
     nc_commit_confirmed = \<lambda>m d w. counting (snd w) (nc_commit_confirmed nc m d (fst w)),
     nc_call_xml = \<lambda>x d w. counting (snd w) (nc_call_xml nc x d (fst w)),
     nc_cli = \<lambda>c d w. counting (Suc (snd w)) (nc_cli nc c d (fst w))\<rparr>"

lemma attempt_state_keeps:
  assumes "\<And>a s. f (snd (op a s)) = f s" "\<And>s. f (sleep s) = f s"
  shows "f (attempt_state sleep op s i) = f s"
  by (induction i) (simp_all add: assms)

lemma retry_transient_keeps:
  assumes "\<And>a s. f (snd (op a s)) = f s" "\<And>s. f (sleep s) = f s"
  shows "f (snd (retry_transient m sleep op s)) = f s"
proof -
  from retry_transient_from_spec [of 0 m sleep op s] obtain k where
    "retry_transient_from m sleep op 0 s = op (Suc k) (attempt_state sleep op s k)"
    by auto
  then show ?thesis
    using attempt_state_keeps [of f op sleep, OF assms] by (simp add: retry_transient_def assms(1))
qed

lemma connect_fresh_counted:
  "snd (ext (snd (connect_fresh (counted nc) ssh_load is_utf8 router dm))) = snd (ext dm)"
proof (cases "inv_get (dm_inventory dm) router")
  case (Inr entry)
  have "snd (fst (snd (retry_transient m (\<lambda>(w, t). (w, t + b))
      (\<lambda>_. connect_attempt (counted nc) ssh_load is_utf8 hk router entry) s))) = snd (fst s)" for m b hk s
    by (rule retry_transient_keeps [where f = "\<lambda>s. snd (fst s)"])
      (auto simp: connect_attempt_def counted_def Let_def split: sum.splits prod.splits)
  from this [of CONNECT_MAX_ATTEMPTS CONNECT_RETRY_BACKOFF "host_key_policy dm" "(ext dm, now dm)"] Inr
  show ?thesis by (simp add: connect_fresh_def case_prod_unfold Let_def)
qed (simp add: connect_fresh_def)

lemma open_dev_counted:
  "snd (ext (snd (open_dev (counted nc) ssh_load is_utf8 router dm))) = snd (ext dm)"
  by (auto simp: open_dev_def connect_fresh_counted split: prod.splits option.splits)

lemma open_fresh_counted:
  "snd (ext (snd (open_fresh (counted nc) ssh_load is_utf8 router dm))) = snd (ext dm)"
  by (simp add: open_fresh_def connect_fresh_counted)

lemma cli_and_drop_counted:
  "snd (ext (snd (cli_and_drop (counted nc) command d g dm))) = Suc (snd (ext dm))"
  by (simp add: cli_and_drop_def drop_dev_def counted_def counting_def)

text \<open>
  Running a CLI command sends it to the device at most twice; when the answer is a success it
  was sent at least once, and a command whose first answer is not a transient error is sent exactly
  once.
\<close>

theorem run_cli_sends_at_most_twice:
  "case run_cli (counted nc) ssh_load is_utf8 router command dm of (r, dm') \<Rightarrow>
     snd (ext dm') \<le> snd (ext dm) + 2
     \<and> (snd (ext dm') = snd (ext dm) + (case open_dev (counted nc) ssh_load is_utf8 router dm of
          (Inl _, _) \<Rightarrow> 0
        | (Inr g, dm1) \<Rightarrow>
            (case says (nc_cli nc command (the (pd_dev g)) (fst (ext dm1))) of
               Inr _ \<Rightarrow> 1
             | Inl e \<Rightarrow>
                 if error_is_transient (rz_text e)
                 then (if is_ok (fst (open_fresh (counted nc) ssh_load is_utf8 router
                              (snd (cli_and_drop (counted nc) command (the (pd_dev g)) g dm1))))
                       then 2 else 1)
                 else 1)))"
proof (cases "open_dev (counted nc) ssh_load is_utf8 router dm")
  case (Pair r1 dm1)
  then have e1: "snd (ext dm1) = snd (ext dm)" using open_dev_counted by (metis snd_conv)
  show ?thesis
  proof (cases r1)
    case (Inl e)
    with Pair e1 show ?thesis by (simp add: run_cli_def)
  next
    case (Inr g)
    obtain r2 dm2 where c: "cli_and_drop (counted nc) command (the (pd_dev g)) g dm1 = (r2, dm2)"
      by force
    then have e2: "snd (ext dm2) = Suc (snd (ext dm))"
      using cli_and_drop_counted e1 by (metis snd_conv)
    from c have r2: "r2 = says (nc_cli nc command (the (pd_dev g)) (fst (ext dm1)))"
      by (auto simp: cli_and_drop_def counted_def counting_def)
    obtain r3 dm3 where f: "open_fresh (counted nc) ssh_load is_utf8 router dm2 = (r3, dm3)" by force
    then have e3: "snd (ext dm3) = Suc (snd (ext dm))" using open_fresh_counted e2 by (metis snd_conv)
    have e4: "snd (ext (snd (cli_and_drop (counted nc) command d g' dm3))) = Suc (Suc (snd (ext dm)))"
      for d g' using cli_and_drop_counted e3 by metis
    from Pair Inr c r2 f e2 e3 e4 show ?thesis
      by (simp add: run_cli_def case_prod_unfold Let_def split: sum.splits)
  qed
qed

end
