(* ===== verification/Candidate_Txn.thy ===== *)
theory Candidate_Txn
  imports Device_Pool
begin

text \<open>
  \<^verbatim>\<open>rust-junosmcp-core/src/tools/candidate_transaction.rs\<close>: one locked edit of a device's
  candidate configuration, from the lock to the cleanup.

  Time is in milliseconds. The cancellation token is the moment it fires, if it ever does. A
  future is its \<^typ>\<open>('a, 'e, 'w) answer\<close>: awaiting it under a deadline gives its result if it is
  ready by then, and otherwise drops it, which leaves the other side in the \<^const>\<open>dropped\<close> state.
  An unbounded await of an answer that never comes is \<open>Hangs\<close>; a panic is \<open>Panics\<close>.
\<close>

section \<open>Budgets\<close>

definition DEFAULT_CLEANUP_TIMEOUT_SECS :: u64 where
  "DEFAULT_CLEANUP_TIMEOUT_SECS = 30"

text \<open>The server-wide knob, an atomic in the source, and its reading as a duration.\<close>

type_synonym cleanup_knob = u64

definition set_cleanup_timeout_secs :: "u64 \<Rightarrow> cleanup_knob \<Rightarrow> cleanup_knob" where
  "set_cleanup_timeout_secs secs k = secs"

definition cleanup_timeout :: "cleanup_knob \<Rightarrow> nat" where
  "cleanup_timeout k = 1000 * unat k"



section \<open>Requests and results\<close>

datatype candidate_mode =
  DryRun | CommitCheck | CommitWithComment string | CommitConfirmed u32 | Discard

record candidate_request =
  payload :: "config_payload option"
  rollback_source :: "u32 option"
  req_mode :: candidate_mode
  req_load_action :: load_action

datatype check_outcome = Valid | Invalid string | CheckFailed string

datatype candidate_result =
  RDryRun string
| RCommitCheck string check_outcome
| RCommitted string
| RCommitFailed string string
| RDiscarded

record 'b candidate_backend =
  cb_lock :: "'b \<Rightarrow> (unit, jmcp_error, 'b) answer"
  cb_load :: "config_payload \<Rightarrow> load_action \<Rightarrow> 'b \<Rightarrow> (unit, jmcp_error, 'b) answer"
  cb_load_rollback :: "u32 \<Rightarrow> 'b \<Rightarrow> (unit, jmcp_error, 'b) answer"
  cb_diff :: "'b \<Rightarrow> (string, jmcp_error, 'b) answer"
  cb_commit_check :: "'b \<Rightarrow> (unit, jmcp_error, 'b) answer"
  cb_commit_with_comment :: "string \<Rightarrow> 'b \<Rightarrow> (unit, jmcp_error, 'b) answer"
  cb_commit_confirmed :: "u32 \<Rightarrow> 'b \<Rightarrow> (unit, jmcp_error, 'b) answer"
  cb_rollback :: "'b \<Rightarrow> (unit, jmcp_error, 'b) answer"
  cb_unlock :: "'b \<Rightarrow> (unit, jmcp_error, 'b) answer"

text \<open>The implementation of the trait by the session's configuration manager.\<close>

definition into_jmcp :: "('a \<Rightarrow> 'c) \<Rightarrow> ('a, rustez_error, 'w) answer \<Rightarrow> ('c, jmcp_error, 'w) answer" where
  "into_jmcp f a =
     \<lparr>takes = takes a, says = (case says a of Inl e \<Rightarrow> Inl (Rustez e) | Inr v \<Rightarrow> Inr (f v)),
      after = after a, dropped = dropped a\<rparr>"

definition config_manager :: "('d, 'w) netconf \<Rightarrow> 'd \<Rightarrow> 'w candidate_backend" where
  "config_manager nc d = \<lparr>
     cb_lock = \<lambda>w. into_jmcp id (nc_lock nc d w),
     cb_load = \<lambda>p act w. into_jmcp (\<lambda>_. ()) (nc_load nc p act d w),
     cb_load_rollback = \<lambda>v w. into_jmcp id (nc_rollback nc v d w),
     cb_diff = \<lambda>w. into_jmcp (\<lambda>x. case x of None \<Rightarrow> '''' | Some s \<Rightarrow> s) (nc_diff nc d w),
     cb_commit_check = \<lambda>w. into_jmcp id (nc_commit_check nc d w),
     cb_commit_with_comment = \<lambda>c w. into_jmcp id (nc_commit_with_comment nc c d w),
     cb_commit_confirmed = \<lambda>s w. into_jmcp id (nc_commit_confirmed nc s d w),
     cb_rollback = \<lambda>w. into_jmcp id (nc_rollback nc 0 d w),
     cb_unlock = \<lambda>w. into_jmcp id (nc_unlock nc d w)\<rparr>"

record execution =
  ex_result :: "candidate_result jres"
  ex_reusable :: bool

record cleanup_failures =
  cf_rollback :: "string option"
  cf_unlock :: "string option"

definition cf_is_empty :: "cleanup_failures \<Rightarrow> bool" where
  "cf_is_empty c \<longleftrightarrow> cf_rollback c = None \<and> cf_unlock c = None"

section \<open>Awaiting\<close>

datatype 'a run = Returns 'a | Hangs | Panics

definition is_cancelled :: "nat option \<Rightarrow> nat \<Rightarrow> bool" where
  "is_cancelled ct t = (case ct of None \<Rightarrow> False | Some c \<Rightarrow> c \<le> t)"

definition ensure_active :: "nat \<Rightarrow> nat \<Rightarrow> nat option \<Rightarrow> nat \<Rightarrow> unit jres" where
  "ensure_active deadline operation_timeout ct t =
     (if is_cancelled ct t then Inl Cancelled
      else if deadline \<le> t then Inl (Timeout operation_timeout)
      else Inr ())"

text \<open>When a future awaited under a budget is ready in time, after how long.\<close>

definition ready_within :: "nat \<Rightarrow> ('a, 'e, 'w) answer \<Rightarrow> nat option" where
  "ready_within budget a = (case takes a of None \<Rightarrow> None | Some n \<Rightarrow> if n \<le> budget then Some n else None)"

text \<open>
  One awaited step: refused outright when the call is cancelled or late; otherwise whichever comes
  first of the cancellation (which wins a tie), the result and the deadline.
\<close>

definition run_step ::
    "nat \<Rightarrow> nat \<Rightarrow> nat option \<Rightarrow> ('b \<Rightarrow> ('a, jmcp_error, 'b) answer) \<Rightarrow> nat \<times> 'b \<Rightarrow> 'a jres \<times> nat \<times> 'b" where
  "run_step deadline operation_timeout ct fut s =
     (case ensure_active deadline operation_timeout ct (fst s) of
        Inl e \<Rightarrow> (Inl e, s)
      | Inr _ \<Rightarrow>
          (let a = fut (snd s);
               remaining = deadline - fst s;
               ends = fst s + (case ready_within remaining a of Some n \<Rightarrow> n | None \<Rightarrow> remaining)
           in if is_cancelled ct ends then (Inl Cancelled, the ct, dropped a)
              else case ready_within remaining a of
                     Some n \<Rightarrow> (says a, fst s + n, after a)
                   | None \<Rightarrow> (Inl (Timeout operation_timeout), deadline, dropped a)))"

text \<open>An await with no bound.\<close>

definition await_sent ::
    "('b \<Rightarrow> ('a, jmcp_error, 'b) answer) \<Rightarrow> nat \<times> 'b \<Rightarrow> ('a jres \<times> nat \<times> 'b) run" where
  "await_sent fut s =
     (let a = fut (snd s) in
      case takes a of None \<Rightarrow> Hangs | Some n \<Rightarrow> Returns (says a, fst s + n, after a))"

definition cleanup_step ::
    "nat \<Rightarrow> ('b \<Rightarrow> (unit, jmcp_error, 'b) answer) \<Rightarrow> nat \<times> 'b \<Rightarrow> (string + unit) \<times> nat \<times> 'b" where
  "cleanup_step budget fut s =
     (let a = fut (snd s) in
      case ready_within budget a of
        Some n \<Rightarrow> (map_err error_to_string (says a), fst s + n, after a)
      | None \<Rightarrow> (Inl (''cleanup timed out after '' @ duration_debug budget), fst s + budget, dropped a))"

definition err_of :: "'e + 'a \<Rightarrow> 'e option" where
  "err_of r = (case r of Inl e \<Rightarrow> Some e | Inr _ \<Rightarrow> None)"

definition cleanup ::
    "'b candidate_backend \<Rightarrow> bool \<Rightarrow> nat \<Rightarrow> nat \<times> 'b \<Rightarrow> cleanup_failures \<times> nat \<times> 'b" where
  "cleanup B rollback_required budget s =
     (let (rb, s1) = (if rollback_required
                      then (let (r, s') = cleanup_step budget (cb_rollback B) s in (err_of r, s'))
                      else (None, s));
          (ul, s2) = cleanup_step budget (cb_unlock B) s1
      in (\<lparr>cf_rollback = rb, cf_unlock = err_of ul\<rparr>, s2))"

definition combine ::
    "candidate_result jres \<Rightarrow> cleanup_failures \<Rightarrow> string option \<Rightarrow> candidate_result jres" where
  "combine outcome c reported_primary =
     (if cf_is_empty c then outcome
      else
        (let primary = (case outcome of Inl e \<Rightarrow> error_to_string e
                        | Inr _ \<Rightarrow> (case reported_primary of None \<Rightarrow> ''none'' | Some p \<Rightarrow> p))
         in Inl (CandidateCleanupFailed primary
              (case cf_rollback c of None \<Rightarrow> ''ok'' | Some x \<Rightarrow> x)
              (case cf_unlock c of None \<Rightarrow> ''ok'' | Some x \<Rightarrow> x))))"

section \<open>Commit-check verdicts\<close>

definition is_config_rejection :: "error_tag \<Rightarrow> bool" where
  "is_config_rejection tag =
     (case tag of
        OperationFailed \<Rightarrow> True | InvalidValue \<Rightarrow> True | MissingElement \<Rightarrow> True
      | BadElement \<Rightarrow> True | UnknownElement \<Rightarrow> True | MissingAttribute \<Rightarrow> True
      | BadAttribute \<Rightarrow> True | UnknownAttribute \<Rightarrow> True | DataMissing \<Rightarrow> True
      | DataExists \<Rightarrow> True | _ \<Rightarrow> False)"

definition classify_check_error :: "jmcp_error \<Rightarrow> check_outcome" where
  "classify_check_error e =
     (case e of
        Rustez boxed \<Rightarrow>
          (case rz_kind boxed of
             RzNetconf (NetconfRpc (ServerError tag)) \<Rightarrow>
               if is_config_rejection tag then Invalid (error_to_string e)
               else CheckFailed (error_to_string e)
           | _ \<Rightarrow> CheckFailed (error_to_string e))
      | _ \<Rightarrow> CheckFailed (error_to_string e))"

section \<open>The transaction\<close>

definition commit_result :: "string \<Rightarrow> unit jres \<Rightarrow> candidate_result jres \<times> bool" where
  "commit_result diff r =
     (case r of
        Inr _ \<Rightarrow> (Inr (RCommitted diff), True)
      | Inl e \<Rightarrow> (Inr (RCommitFailed diff (error_to_string e)), False))"

text \<open>The load step: an archived configuration or the payload.\<close>

definition load_step ::
    "'b candidate_backend \<Rightarrow> candidate_request \<Rightarrow> nat \<Rightarrow> nat \<Rightarrow> nat option \<Rightarrow> nat \<times> 'b
      \<Rightarrow> unit jres \<times> nat \<times> 'b" where
  "load_step B req deadline operation_timeout ct s =
     (case rollback_source req of
        Some version \<Rightarrow> run_step deadline operation_timeout ct (cb_load_rollback B version) s
      | None \<Rightarrow>
          (case payload req of
             None \<Rightarrow> (Inl (Validation ''candidate transaction requires a configuration payload''), s)
           | Some pl \<Rightarrow> run_step deadline operation_timeout ct (cb_load B pl (req_load_action req)) s))"

text \<open>A commit is sent only while the call is active, and is then awaited without a bound.\<close>

definition commit_step ::
    "('b \<Rightarrow> (unit, jmcp_error, 'b) answer) \<Rightarrow> string \<Rightarrow> nat \<Rightarrow> nat \<Rightarrow> nat option \<Rightarrow> nat \<times> 'b
      \<Rightarrow> (candidate_result jres \<times> bool \<times> nat \<times> 'b) run" where
  "commit_step fut diff deadline operation_timeout ct s =
     (case ensure_active deadline operation_timeout ct (fst s) of
        Inl e \<Rightarrow> Returns (Inl e, False, s)
      | Inr _ \<Rightarrow>
          (case await_sent fut s of
             Returns (r, s') \<Rightarrow> (let (res, c) = commit_result diff r in Returns (res, c, s'))
           | Hangs \<Rightarrow> Hangs | Panics \<Rightarrow> Panics))"

definition mode_step ::
    "'b candidate_backend \<Rightarrow> candidate_mode \<Rightarrow> string \<Rightarrow> nat \<Rightarrow> nat \<Rightarrow> nat option \<Rightarrow> nat \<times> 'b
      \<Rightarrow> (candidate_result jres \<times> bool \<times> nat \<times> 'b) run" where
  "mode_step B md diff deadline operation_timeout ct s =
     (case md of
        DryRun \<Rightarrow> Returns (Inr (RDryRun diff), False, s)
      | CommitCheck \<Rightarrow>
          (case run_step deadline operation_timeout ct (cb_commit_check B) s of
             (Inr _, s') \<Rightarrow> Returns (Inr (RCommitCheck diff Valid), False, s')
           | (Inl e, s') \<Rightarrow>
               if is_dropped_rpc e then Returns (Inl e, False, s')
               else Returns (Inr (RCommitCheck diff (classify_check_error e)), False, s'))
      | CommitWithComment comment \<Rightarrow>
          commit_step (cb_commit_with_comment B comment) diff deadline operation_timeout ct s
      | CommitConfirmed seconds \<Rightarrow>
          commit_step (cb_commit_confirmed B seconds) diff deadline operation_timeout ct s
      | Discard \<Rightarrow> Panics)"

text \<open>The result, whether the commit was acknowledged, and the state afterwards.\<close>

definition primary_operation ::
    "'b candidate_backend \<Rightarrow> candidate_request \<Rightarrow> nat \<Rightarrow> nat \<Rightarrow> nat option \<Rightarrow> nat \<times> 'b
      \<Rightarrow> (candidate_result jres \<times> bool \<times> nat \<times> 'b) run" where
  "primary_operation B req deadline operation_timeout ct s =
     (case load_step B req deadline operation_timeout ct s of
        (Inl e, s1) \<Rightarrow> Returns (Inl e, False, s1)
      | (Inr _, s1) \<Rightarrow>
          (case run_step deadline operation_timeout ct (cb_diff B) s1 of
             (Inl e, s2) \<Rightarrow> Returns (Inl e, False, s2)
           | (Inr diff, s2) \<Rightarrow> mode_step B (req_mode req) diff deadline operation_timeout ct s2))"

definition reported_primary_of :: "candidate_result jres \<Rightarrow> string option" where
  "reported_primary_of outcome =
     (case outcome of
        Inr (RCommitted _) \<Rightarrow> Some ''commit succeeded''
      | Inr (RCommitCheck _ (Invalid e)) \<Rightarrow> Some e
      | Inr (RCommitCheck _ (CheckFailed e)) \<Rightarrow> Some e
      | Inr (RCommitFailed _ e) \<Rightarrow> Some e
      | _ \<Rightarrow> None)"

definition execute ::
    "'b candidate_backend \<Rightarrow> candidate_request \<Rightarrow> nat \<Rightarrow> nat \<Rightarrow> nat \<Rightarrow> nat option \<Rightarrow> nat \<times> 'b
      \<Rightarrow> (execution \<times> nat \<times> 'b) run" where
  "execute B req deadline operation_timeout budget ct s =
     (if req_mode req = Discard
      then
        (case run_step deadline operation_timeout ct (cb_rollback B) s of
           (Inr _, s1) \<Rightarrow> Returns (\<lparr>ex_result = Inr RDiscarded, ex_reusable = True\<rparr>, s1)
         | (Inl e, s1) \<Rightarrow> Returns (\<lparr>ex_result = Inl e, ex_reusable = False\<rparr>, s1))
      else
        (case run_step deadline operation_timeout ct (cb_lock B) s of
           (Inl primary, s1) \<Rightarrow>
             if is_dropped_rpc primary
             then (let (c, s2) = cleanup B True budget s1 in
                   Returns (\<lparr>ex_result = combine (Inl primary) c None, ex_reusable = False\<rparr>, s2))
             else Returns (\<lparr>ex_result = Inl primary, ex_reusable = False\<rparr>, s1)
         | (Inr _, s1) \<Rightarrow>
             (case primary_operation B req deadline operation_timeout ct s1 of
                Hangs \<Rightarrow> Hangs
              | Panics \<Rightarrow> Panics
              | Returns (outcome, committed, s2) \<Rightarrow>
                  (let primary_rpc_was_dropped = (case outcome of Inl e \<Rightarrow> is_dropped_rpc e | Inr _ \<Rightarrow> False);
                       (c, s3) = cleanup B (\<not> committed) budget s2
                   in Returns (\<lparr>ex_result = combine outcome c (reported_primary_of outcome),
                                ex_reusable = cf_is_empty c \<and> \<not> primary_rpc_was_dropped\<rparr>, s3)))))"

section \<open>A whole call\<close>

text \<open>
  Opening the session awaits the connection, under the same deadline: how long it takes and what
  the world is when it is abandoned come from outside, like the cancellation.
\<close>

record 'w call_env =
  cancel_at :: "nat option"
  open_takes :: "nat option"
  open_lost :: "'w \<Rightarrow> 'w"

definition open_future ::
    "('d, 'w) netconf \<Rightarrow> ssh_config_loader \<Rightarrow> (string \<Rightarrow> bool) \<Rightarrow> 'w call_env \<Rightarrow> string
      \<Rightarrow> ('d, 'w) device_manager \<Rightarrow> ('d pooled_device, jmcp_error, ('d, 'w) device_manager) answer" where
  "open_future nc ssh_load is_utf8 env router dm =
     (let (r, dm') = open_dev nc ssh_load is_utf8 router dm in
      \<lparr>takes = open_takes env, says = r, after = dm',
       dropped = dm\<lparr>pool := snd (try_checkout (\<lambda>d. nc_alive nc d (ext dm)) (now dm) router (pool dm)),
                    ext := open_lost env (ext dm)\<rparr>\<rparr>)"

definition cleanup_phases :: "candidate_result jres \<Rightarrow> string list" where
  "cleanup_phases r =
     (case r of
        Inl (CandidateCleanupFailed _ rollback unlock) \<Rightarrow>
          (if rollback \<noteq> ''ok'' then [''rollback='' @ rollback] else [])
          @ (if unlock \<noteq> ''ok'' then [''unlock='' @ unlock] else [])
      | _ \<Rightarrow> [])"

definition note_cleanup_failure ::
    "string \<Rightarrow> candidate_result jres \<Rightarrow> ('d, 'w) device_manager \<Rightarrow> ('d, 'w) device_manager" where
  "note_cleanup_failure router r dm =
     (let ph = cleanup_phases r in
      if ph \<noteq> []
      then dm\<lparr>pool := record_cleanup_taint (now dm) router (str_join ''; '' ph) (pool dm)\<rparr>
      else dm)"

definition run_candidate ::
    "('d, 'w) netconf \<Rightarrow> ssh_config_loader \<Rightarrow> (string \<Rightarrow> bool) \<Rightarrow> cleanup_knob \<Rightarrow> 'w call_env \<Rightarrow> string
      \<Rightarrow> candidate_request \<Rightarrow> nat \<Rightarrow> ('d, 'w) device_manager
      \<Rightarrow> (candidate_result jres \<times> ('d, 'w) device_manager) run" where
  "run_candidate nc ssh_load is_utf8 knob env router req timeout dm =
     (let deadline = now dm + timeout; ct = cancel_at env; budget = cleanup_timeout knob in
      case run_step deadline timeout ct (open_future nc ssh_load is_utf8 env router) (now dm, dm) of
        (Inl e, t1, dm1) \<Rightarrow> Returns (Inl e, dm1\<lparr>now := t1\<rparr>)
      | (Inr g0, t1, dm1) \<Rightarrow>
          (let g = prevent_reuse g0; d = the (pd_dev g) in
           case nc_config nc d (ext dm1) of
             Inl e \<Rightarrow> Returns (Inl (Rustez e), drop_dev nc g (dm1\<lparr>now := t1\<rparr>))
           | Inr _ \<Rightarrow>
               (case execute (config_manager nc d) req deadline timeout budget ct (t1, ext dm1) of
                  Hangs \<Rightarrow> Hangs
                | Panics \<Rightarrow> Panics
                | Returns (ex, t2, w2) \<Rightarrow>
                    (let dm2 = dm1\<lparr>ext := w2, now := t2\<rparr>;
                         (g', dm3) =
                           (if ex_reusable ex
                            then (allow_reuse g, dm2\<lparr>pool := clear_cleanup_taint router (pool dm2)\<rparr>)
                            else
                              (let a = nc_close nc d w2 in
                               case ready_within budget a of
                                 Some n \<Rightarrow> (g, dm2\<lparr>ext := after a, now := t2 + n\<rparr>)
                               | None \<Rightarrow> (g, dm2\<lparr>ext := dropped a, now := t2 + budget\<rparr>)))
                     in Returns (ex_result ex, drop_dev nc g' (note_cleanup_failure router (ex_result ex) dm3))))))"

section \<open>What the device sees\<close>

text \<open>
  The requests of one transaction, each with its fate: acknowledged, refused, or abandoned before
  its answer came. \<open>traced\<close> is any backend with a log of the requests sent to it.
\<close>

datatype request =
  QLock | QLoad config_payload load_action | QLoadRollback u32 | QDiff | QCheck
| QCommit string | QCommitConfirmed u32 | QRollback | QUnlock

datatype fate = Acked | Refused | Abandoned

type_synonym request_log = "(request \<times> fate) list"

definition logged ::
    "request \<Rightarrow> ('b \<Rightarrow> ('a, jmcp_error, 'b) answer) \<Rightarrow> 'b \<times> request_log
      \<Rightarrow> ('a, jmcp_error, 'b \<times> request_log) answer" where
  "logged q fut b =
     (let a = fut (fst b) in
      \<lparr>takes = takes a, says = says a,
       after = (after a, snd b @ [(q, if is_ok (says a) then Acked else Refused)]),
       dropped = (dropped a, snd b @ [(q, Abandoned)])\<rparr>)"

definition traced :: "'b candidate_backend \<Rightarrow> ('b \<times> request_log) candidate_backend" where
  "traced B = \<lparr>
     cb_lock = logged QLock (cb_lock B),
     cb_load = \<lambda>p act. logged (QLoad p act) (cb_load B p act),
     cb_load_rollback = \<lambda>v. logged (QLoadRollback v) (cb_load_rollback B v),
     cb_diff = logged QDiff (cb_diff B),
     cb_commit_check = logged QCheck (cb_commit_check B),
     cb_commit_with_comment = \<lambda>c. logged (QCommit c) (cb_commit_with_comment B c),
     cb_commit_confirmed = \<lambda>m. logged (QCommitConfirmed m) (cb_commit_confirmed B m),
     cb_rollback = logged QRollback (cb_rollback B),
     cb_unlock = logged QUnlock (cb_unlock B)\<rparr>"

text \<open>
  The protocol a transaction is to follow, as an automaton over the log: where it may go next, and
  the ends at which it may stop. \<open>Reverting\<close> needs a rollback before the unlock; \<open>Committed\<close> must
  not be rolled back. A call that is late or cancelled before its lock is sent goes from \<open>Idle\<close>
  straight to the rollback and the unlock.
\<close>

datatype phase = Idle | Locked | Loaded | Diffed | Reverting | Committed | Unlocking | Released | Ended

definition after_commit :: "fate \<Rightarrow> phase option" where
  "after_commit f = (case f of Acked \<Rightarrow> Some Committed | Refused \<Rightarrow> Some Reverting | Abandoned \<Rightarrow> None)"

definition when_ok :: "bool \<Rightarrow> fate \<Rightarrow> phase \<Rightarrow> phase option" where
  "when_ok b f ph = (if b then Some (if f = Acked then ph else Reverting) else None)"

definition protocol :: "candidate_request \<Rightarrow> phase \<Rightarrow> request \<times> fate \<Rightarrow> phase option" where
  "protocol req ph qf = (case qf of (q, f) \<Rightarrow>
     (case q of
        QLock \<Rightarrow>
          if ph = Idle \<and> req_mode req \<noteq> Discard
          then Some (case f of Acked \<Rightarrow> Locked | Refused \<Rightarrow> Ended | Abandoned \<Rightarrow> Reverting) else None
      | QLoad p act \<Rightarrow>
          when_ok (ph = Locked \<and> rollback_source req = None \<and> payload req = Some p \<and> req_load_action req = act) f Loaded
      | QLoadRollback v \<Rightarrow> when_ok (ph = Locked \<and> rollback_source req = Some v) f Loaded
      | QDiff \<Rightarrow> when_ok (ph = Loaded) f Diffed
      | QCheck \<Rightarrow> when_ok (ph = Diffed \<and> req_mode req = CommitCheck) f Reverting
      | QCommit c \<Rightarrow> if ph = Diffed \<and> req_mode req = CommitWithComment c then after_commit f else None
      | QCommitConfirmed m \<Rightarrow> if ph = Diffed \<and> req_mode req = CommitConfirmed m then after_commit f else None
      | QRollback \<Rightarrow>
          if ph = Idle \<and> req_mode req = Discard then Some Ended
          else if ph \<in> {Idle, Locked, Loaded, Diffed, Reverting} then Some Unlocking else None
      | QUnlock \<Rightarrow> if ph \<in> {Unlocking, Committed} then Some Released else None))"

fun follows :: "candidate_request \<Rightarrow> phase \<Rightarrow> request_log \<Rightarrow> phase option" where
  "follows req ph [] = Some ph"
| "follows req ph (q # qs) = (case protocol req ph q of None \<Rightarrow> None | Some ph' \<Rightarrow> follows req ph' qs)"

lemma follows_append:
  "follows req ph (xs @ ys) =
     (case follows req ph xs of None \<Rightarrow> None | Some ph' \<Rightarrow> follows req ph' ys)"
  by (induction xs arbitrary: ph) (auto split: option.splits)

definition no_abandoned :: "request_log \<Rightarrow> bool" where
  "no_abandoned m \<longleftrightarrow> Abandoned \<notin> snd ` set m"

lemma no_abandoned_simps [simp]:
  "no_abandoned []"
  "no_abandoned (x # m) \<longleftrightarrow> snd x \<noteq> Abandoned \<and> no_abandoned m"
  "no_abandoned (m @ m') \<longleftrightarrow> no_abandoned m \<and> no_abandoned m'"
  by (auto simp: no_abandoned_def)

section \<open>Every backend\<close>

text \<open>
  What the transaction code relies on in a backend: no error the backend reports is one of the two
  by which the code says it dropped the request itself.
\<close>

definition own_errors :: "('b \<Rightarrow> ('a, jmcp_error, 'b) answer) \<Rightarrow> bool" where
  "own_errors f \<longleftrightarrow> (\<forall>b e. says (f b) = Inl e \<longrightarrow> \<not> is_dropped_rpc e)"

locale candidate_device =
  fixes B :: "'b candidate_backend"
  assumes lock_errors: "own_errors (cb_lock B)"
    and load_errors: "own_errors (cb_load B p act)"
    and load_rollback_errors: "own_errors (cb_load_rollback B v)"
    and diff_errors: "own_errors (cb_diff B)"
    and check_errors: "own_errors (cb_commit_check B)"

lemma run_step_logged:
  assumes "run_step dl ot ct (logged q f) (t, b, l) = (r, t', b', l')"
    and "own_errors f"
  shows "case r of
      Inr _ \<Rightarrow> l' = l @ [(q, Acked)]
    | Inl e \<Rightarrow> if is_dropped_rpc e then l' = l \<or> l' = l @ [(q, Abandoned)] else l' = l @ [(q, Refused)]"
  using assms
  by (auto simp: run_step_def logged_def own_errors_def ensure_active_def ready_within_def Let_def
      split: if_splits option.splits sum.splits)

lemma await_sent_logged:
  assumes "await_sent (logged q f) (t, b, l) = Returns (r, t', b', l')"
  shows "l' = l @ [(q, if is_ok r then Acked else Refused)]"
  using assms by (auto simp: await_sent_def logged_def Let_def split: option.splits)

lemma cleanup_step_logged:
  assumes "cleanup_step budget (logged q f) (t, b, l) = (r, t', b', l')"
  shows "\<exists>f. l' = l @ [(q, f)] \<and> (err_of r = None \<longleftrightarrow> f = Acked)"
  using assms
  by (auto simp: cleanup_step_def logged_def err_of_def Let_def map_err_def
      split: option.splits sum.splits)

lemma cleanup_traced:
  assumes "cleanup (traced B) rb budget (t, b, l) = (c, t', b', l')"
  shows "\<exists>m f. l' = l @ m @ [(QUnlock, f)] \<and> (cf_unlock c = None \<longleftrightarrow> f = Acked)
    \<and> (if rb then \<exists>f'. m = [(QRollback, f')] \<and> (cf_rollback c = None \<longleftrightarrow> f' = Acked)
       else m = [] \<and> cf_rollback c = None)"
proof -
  have [simp]: "cb_rollback (traced B) = logged QRollback (cb_rollback B)"
    "cb_unlock (traced B) = logged QUnlock (cb_unlock B)"
    by (simp_all add: traced_def)
  show ?thesis
  proof (cases rb)
    case True
    obtain r1 t1 b1 l1 where 1: "cleanup_step budget (logged QRollback (cb_rollback B)) (t, b, l) = (r1, t1, b1, l1)"
      by (metis surj_pair)
    obtain r2 t2 b2 l2 where 2: "cleanup_step budget (logged QUnlock (cb_unlock B)) (t1, b1, l1) = (r2, t2, b2, l2)"
      by (metis surj_pair)
    from True 1 2 assms have c: "c = \<lparr>cf_rollback = err_of r1, cf_unlock = err_of r2\<rparr>" "l' = l2"
      by (simp_all add: cleanup_def)
    from cleanup_step_logged [OF 1] cleanup_step_logged [OF 2] c True show ?thesis by auto
  next
    case False
    obtain r2 t2 b2 l2 where 2: "cleanup_step budget (logged QUnlock (cb_unlock B)) (t, b, l) = (r2, t2, b2, l2)"
      by (metis surj_pair)
    from False 2 assms have c: "c = \<lparr>cf_rollback = None, cf_unlock = err_of r2\<rparr>" "l' = l2"
      by (simp_all add: cleanup_def)
    from cleanup_step_logged [OF 2] c False show ?thesis by auto
  qed
qed

lemma traced_ops [simp]:
  "cb_lock (traced B) = logged QLock (cb_lock B)"
  "cb_load (traced B) p act = logged (QLoad p act) (cb_load B p act)"
  "cb_load_rollback (traced B) v = logged (QLoadRollback v) (cb_load_rollback B v)"
  "cb_diff (traced B) = logged QDiff (cb_diff B)"
  "cb_commit_check (traced B) = logged QCheck (cb_commit_check B)"
  "cb_commit_with_comment (traced B) c = logged (QCommit c) (cb_commit_with_comment B c)"
  "cb_commit_confirmed (traced B) m = logged (QCommitConfirmed m) (cb_commit_confirmed B m)"
  "cb_rollback (traced B) = logged QRollback (cb_rollback B)"
  "cb_unlock (traced B) = logged QUnlock (cb_unlock B)"
  by (simp_all add: traced_def)

definition is_commit :: "request \<Rightarrow> bool" where
  "is_commit q = (case q of QCommit _ \<Rightarrow> True | QCommitConfirmed _ \<Rightarrow> True | _ \<Rightarrow> False)"

definition is_load :: "request \<Rightarrow> bool" where
  "is_load q = (case q of QLoad _ _ \<Rightarrow> True | QLoadRollback _ \<Rightarrow> True | _ \<Rightarrow> False)"

definition commit_acked :: "request_log \<Rightarrow> bool" where
  "commit_acked m \<longleftrightarrow> list_ex (\<lambda>(q, f). is_commit q \<and> f = Acked) m"

lemmas protocol_simps = protocol_def when_ok_def after_commit_def is_commit_def is_load_def

lemma is_commit_simps [simp]:
  "is_commit (QCommit c)" "is_commit (QCommitConfirmed m)" "\<not> is_commit QLock" "\<not> is_commit (QLoad p a)"
  "\<not> is_commit (QLoadRollback v)" "\<not> is_commit QDiff" "\<not> is_commit QCheck"
  "\<not> is_commit QRollback" "\<not> is_commit QUnlock"
  by (simp_all add: is_commit_def)

lemma protocol_to:
  "protocol req ph x = Some Idle \<Longrightarrow> False"
  "protocol req ph x = Some Locked \<Longrightarrow> ph = Idle \<and> x = (QLock, Acked)"
  "protocol req ph x = Some Loaded \<Longrightarrow> ph = Locked \<and> (\<exists>q. x = (q, Acked) \<and> is_load q)"
  "protocol req ph x = Some Diffed \<Longrightarrow> ph = Loaded \<and> x = (QDiff, Acked)"
  "protocol req ph x = Some Committed \<Longrightarrow> ph = Diffed \<and> (\<exists>q. x = (q, Acked) \<and> is_commit q)"
  "protocol req ph x = Some Released \<Longrightarrow> ph \<in> {Unlocking, Committed} \<and> (\<exists>f. x = (QUnlock, f))"
  by (auto simp: protocol_simps split: prod.splits request.splits if_splits fate.splits)

lemma protocol_commit:
  "protocol req ph (q, f) = Some ph' \<Longrightarrow> is_commit q \<Longrightarrow>
     ph = Diffed \<and> (ph' = Committed \<longleftrightarrow> f = Acked) \<and> ph' \<in> {Committed, Reverting} \<and> f \<noteq> Abandoned
     \<and> (q = QCommitConfirmed m \<longrightarrow> req_mode req = CommitConfirmed m)
     \<and> (q = QCommit c \<longrightarrow> req_mode req = CommitWithComment c)"
  by (auto simp: protocol_simps split: request.splits if_splits fate.splits)

lemma protocol_from_Committed: "protocol req Committed x = Some ph \<Longrightarrow> ph = Released"
  and protocol_from_Released: "protocol req Released x = None"
  by (auto simp: protocol_simps split: prod.splits request.splits if_splits)

lemma follows_Released: "follows req Released m = Some ph \<Longrightarrow> m = []"
  by (cases m) (simp_all add: protocol_from_Released)

lemma commit_acked_phase:
  assumes "follows req ph m = Some ph'"
  shows "(commit_acked m \<longrightarrow> ph' \<in> {Committed, Released}) \<and> (ph' = Committed \<longrightarrow> ph = Committed \<or> commit_acked m)"
  using assms
proof (induction m arbitrary: ph)
  case Nil
  then show ?case by (simp add: commit_acked_def)
next
  case (Cons x m)
  obtain q f where x: "x = (q, f)" by force
  from Cons.prems obtain p where p: "protocol req ph x = Some p" "follows req p m = Some ph'"
    by (auto split: option.splits)
  note IH = Cons.IH [OF p(2)]
  show ?case
  proof (cases "p = Committed")
    case True
    from protocol_to(5) [of req ph x] p True have acked: "commit_acked (x # m)" by (auto simp: commit_acked_def)
    have "ph' \<in> {Committed, Released}"
    proof (cases m)
      case (Cons y ys)
      with p(2) True obtain p2 where "protocol req Committed y = Some p2" "follows req p2 ys = Some ph'"
        by (auto split: option.splits)
      with protocol_from_Committed [of req y p2] follows_Released [of req ys ph'] show ?thesis by auto
    qed (use p True in auto)
    with acked show ?thesis by simp
  next
    case False
    have "\<not> (is_commit q \<and> f = Acked)" using protocol_commit [of req ph q f p] p(1) x False by auto
    with False IH x show ?thesis by (auto simp: commit_acked_def)
  qed
qed

text \<open>What a stretch of the log says of the part of the transaction that produced it.\<close>

definition stretch ::
    "candidate_request \<Rightarrow> phase \<Rightarrow> request_log \<Rightarrow> phase set \<Rightarrow> 'a jres \<Rightarrow> phase \<Rightarrow> bool" where
  "stretch req ph m phs r ph' \<longleftrightarrow>
     follows req ph m = Some ph' \<and> ph' \<in> phs
     \<and> (no_abandoned m \<or> (\<exists>e. r = Inl e \<and> is_dropped_rpc e))"

lemma stretch_mono: "stretch req ph m P r ph' \<Longrightarrow> P \<subseteq> Q \<Longrightarrow> stretch req ph m Q r ph'"
  by (auto simp: stretch_def)

lemma commit_step_traced:
  assumes "commit_step (logged q f) diff dl ot ct (t, b, l) = Returns (r, c, t', b', l')"
    and "\<And>f. protocol req Diffed (q, f) = after_commit f"
  shows "\<exists>m ph. l' = l @ m \<and> stretch req Diffed m {Diffed, Reverting, Committed} r ph
    \<and> (ph = Committed \<longleftrightarrow> c) \<and> (c \<longleftrightarrow> r = Inr (RCommitted diff)) \<and> (c \<or> (\<forall>d. r \<noteq> Inr (RCommitted d)))"
proof (cases "ensure_active dl ot ct t")
  case (Inl e)
  with assms(1) have "l' = l" "r = Inl e" "\<not> c" by (simp_all add: commit_step_def)
  then show ?thesis by (intro exI [of _ "[]"] exI [of _ Diffed]) (simp add: stretch_def)
next
  case (Inr u)
  with assms(1) obtain r0 where r0: "await_sent (logged q f) (t, b, l) = Returns (r0, t', b', l')"
    "commit_result diff r0 = (r, c)"
    by (auto simp: commit_step_def split: run.splits prod.splits)
  from await_sent_logged [OF r0(1)] r0(2) assms(2) show ?thesis
    by (cases r0) (auto simp: commit_result_def stretch_def after_commit_def
        intro!: exI [of _ "[(q, _)]"])
qed

lemma run_step_stretch:
  assumes run: "run_step dl ot ct (logged q f) (t, b, l) = (r, t', b', l')"
    and honest: "own_errors f"
    and next_phase: "\<And>fate. protocol req ph (q, fate) = Some (if fate = Acked then ph' else Reverting)"
  shows "\<exists>m p. l' = l @ m \<and> stretch req ph m {ph, ph', Reverting} r p \<and> (is_ok r \<longrightarrow> p = ph')
    \<and> (is_ok r \<or> p \<noteq> ph' \<or> ph' \<in> {ph, Reverting})"
proof (cases r)
  case (Inr v)
  have "l' = l @ [(q, Acked)]"
    using run_step_logged [OF run honest] by (simp add: Inr)
  with Inr show ?thesis
    by (intro exI [of _ "[(q, Acked)]"] exI [of _ ph']) (simp add: stretch_def next_phase)
next
  case (Inl e)
  have l': "if is_dropped_rpc e then l' = l \<or> l' = l @ [(q, Abandoned)] else l' = l @ [(q, Refused)]"
    using run_step_logged [OF run honest] by (simp add: Inl)
  then consider "l' = l" | fate where "l' = l @ [(q, fate)]" "fate \<noteq> Acked" "fate = Abandoned \<longrightarrow> is_dropped_rpc e"
    by (auto split: if_splits)
  then show ?thesis
  proof cases
    case 1
    with Inl show ?thesis by (intro exI [of _ "[]"] exI [of _ ph]) (simp add: stretch_def)
  next
    case 2
    with Inl show ?thesis
      by (intro exI [of _ "[(q, fate)]"] exI [of _ Reverting]) (auto simp: stretch_def next_phase)
  qed
qed

context candidate_device
begin

lemma load_step_traced:
  assumes "load_step (traced B) req dl ot ct (t, b, l) = (r, t', b', l')"
  shows "\<exists>m ph. l' = l @ m \<and> stretch req Locked m {Locked, Loaded, Reverting} r ph
    \<and> (is_ok r \<longrightarrow> ph = Loaded)"
proof (cases "rollback_source req")
  case (Some v)
  with assms have "run_step dl ot ct (logged (QLoadRollback v) (cb_load_rollback B v)) (t, b, l) = (r, t', b', l')"
    by (simp add: load_step_def)
  from run_step_stretch [of _ _ _ _ _ _ _ _ _ _ _ _ req Locked Loaded,
      OF this load_rollback_errors] Some
  show ?thesis by (simp add: protocol_def when_ok_def) (blast intro: stretch_mono)
next
  case None
  show ?thesis
  proof (cases "payload req")
    case payload_None: None
    with None assms have "l' = l" "r = Inl (Validation ''candidate transaction requires a configuration payload'')"
      by (simp_all add: load_step_def)
    then show ?thesis by (intro exI [of _ "[]"] exI [of _ Locked]) (simp add: stretch_def)
  next
    case (Some p)
    let ?act = "req_load_action req"
    from None Some assms
    have "run_step dl ot ct (logged (QLoad p ?act) (cb_load B p ?act)) (t, b, l) = (r, t', b', l')"
      by (simp add: load_step_def)
    from run_step_stretch [of _ _ _ _ _ _ _ _ _ _ _ _ req Locked Loaded,
        OF this load_errors] None Some
    show ?thesis by (simp add: protocol_def when_ok_def) (blast intro: stretch_mono)
  qed
qed

lemma diff_step_traced:
  assumes "run_step dl ot ct (cb_diff (traced B)) (t, b, l) = (r, t', b', l')"
  shows "\<exists>m ph. l' = l @ m \<and> stretch req Loaded m {Loaded, Diffed, Reverting} r ph
    \<and> (is_ok r \<longrightarrow> ph = Diffed)"
  using run_step_stretch [of _ _ _ _ _ _ _ _ _ _ _ _ req Loaded Diffed,
      OF assms [simplified] diff_errors]
  by (simp add: protocol_def when_ok_def) (blast intro: stretch_mono)

lemma mode_step_traced:
  assumes "mode_step (traced B) (req_mode req) diff dl ot ct (t, b, l) = Returns (r, c, t', b', l')"
  shows "\<exists>m ph. l' = l @ m \<and> stretch req Diffed m {Diffed, Reverting, Committed} r ph
    \<and> (ph = Committed \<longleftrightarrow> c) \<and> (c \<longleftrightarrow> r = Inr (RCommitted diff)) \<and> (c \<or> (\<forall>d. r \<noteq> Inr (RCommitted d)))"
proof (cases "req_mode req")
  case DryRun
  with assms show ?thesis
    by (intro exI [of _ "[]"] exI [of _ Diffed]) (auto simp: mode_step_def stretch_def)
next
  case CommitCheck
  obtain r0 t1 b1 l1 where 1: "run_step dl ot ct (logged QCheck (cb_commit_check B)) (t, b, l) = (r0, t1, b1, l1)"
    by (metis surj_pair)
  with CommitCheck assms have r: "l' = l1" "\<not> c"
    "r = (case r0 of Inr _ \<Rightarrow> Inr (RCommitCheck diff Valid)
        | Inl e \<Rightarrow> if is_dropped_rpc e then Inl e else Inr (RCommitCheck diff (classify_check_error e)))"
    by (auto simp: mode_step_def split: sum.splits if_splits)
  from run_step_stretch [of _ _ _ _ _ _ _ _ _ _ _ _ req Diffed Reverting,
      OF 1 check_errors] CommitCheck
  obtain m ph where "l1 = l @ m" "stretch req Diffed m {Diffed, Reverting} r0 ph"
    by (auto simp: protocol_def when_ok_def)
  with r show ?thesis
    by (intro exI [of _ m] exI [of _ ph]) (auto simp: stretch_def split: sum.splits)
next
  case (CommitWithComment x)
  with assms commit_step_traced [of "QCommit x" "cb_commit_with_comment B x"] show ?thesis
    by (simp add: mode_step_def protocol_def)
next
  case (CommitConfirmed x)
  with assms commit_step_traced [of "QCommitConfirmed x" "cb_commit_confirmed B x"] show ?thesis
    by (simp add: mode_step_def protocol_def)
next
  case Discard
  with assms show ?thesis by (simp add: mode_step_def)
qed

lemma primary_operation_traced:
  assumes "primary_operation (traced B) req dl ot ct (t, b, l) = Returns (r, c, t', b', l')"
  shows "\<exists>m ph. l' = l @ m
    \<and> stretch req Locked m {Locked, Loaded, Diffed, Reverting, Committed} r ph
    \<and> (ph = Committed \<longleftrightarrow> c) \<and> (c \<longleftrightarrow> (\<exists>d. r = Inr (RCommitted d)))"
proof -
  obtain r1 t1 b1 l1 where 1: "load_step (traced B) req dl ot ct (t, b, l) = (r1, t1, b1, l1)"
    by (metis surj_pair)
  from load_step_traced [OF 1] obtain m1 p1 where m1: "l1 = l @ m1"
    "stretch req Locked m1 {Locked, Loaded, Reverting} r1 p1" "is_ok r1 \<longrightarrow> p1 = Loaded" by blast
  show ?thesis
  proof (cases r1)
    case (Inl e)
    with 1 assms have "r = Inl e" "\<not> c" "l' = l1" by (auto simp: primary_operation_def)
    with m1 Inl show ?thesis by (intro exI [of _ m1] exI [of _ p1]) (auto simp: stretch_def)
  next
    case (Inr u)
    obtain r2 t2 b2 l2 where 2: "run_step dl ot ct (cb_diff (traced B)) (t1, b1, l1) = (r2, t2, b2, l2)"
      by (metis surj_pair)
    from diff_step_traced [OF 2] obtain m2 p2 where m2: "l2 = l1 @ m2"
      "stretch req Loaded m2 {Loaded, Diffed, Reverting} r2 p2" "is_ok r2 \<longrightarrow> p2 = Diffed" by blast
    from m1 Inr have f1: "follows req Locked m1 = Some Loaded" "no_abandoned m1"
      by (auto simp: stretch_def)
    show ?thesis
    proof (cases r2)
      case (Inl e)
      with 1 2 Inr assms have "r = Inl e" "\<not> c" "l' = l2" by (auto simp: primary_operation_def)
      with m1 m2 f1 Inl show ?thesis
        by (intro exI [of _ "m1 @ m2"] exI [of _ p2]) (auto simp: stretch_def follows_append)
    next
      case Inr2: (Inr diff)
      with 1 2 Inr assms
      have "mode_step (traced B) (req_mode req) diff dl ot ct (t2, b2, l2) = Returns (r, c, t', b', l')"
        by (simp add: primary_operation_def)
      from mode_step_traced [OF this] obtain m3 p3 where m3: "l' = l2 @ m3"
        "stretch req Diffed m3 {Diffed, Reverting, Committed} r p3"
        "p3 = Committed \<longleftrightarrow> c" "c \<longleftrightarrow> r = Inr (RCommitted diff)" "c \<or> (\<forall>d. r \<noteq> Inr (RCommitted d))" by blast
      from m2 Inr2 have f2: "follows req Loaded m2 = Some Diffed" "no_abandoned m2"
        by (auto simp: stretch_def)
      from m1(1) m2(1) m3 f1 f2 show ?thesis
        by (intro exI [of _ "m1 @ m2 @ m3"] exI [of _ p3]) (auto simp: stretch_def follows_append)
    qed
  qed
qed

lemma execute_discard_traced:
  assumes "execute (traced B) req dl ot budget ct (t, b, l) = Returns (ex, t', b', l')"
    and "req_mode req = Discard"
    and "own_errors (cb_rollback B)"
  shows "\<exists>m. l' = l @ m \<and> (m = [] \<or> (\<exists>f. m = [(QRollback, f)]))
    \<and> (ex_reusable ex \<longleftrightarrow> m = [(QRollback, Acked)]) \<and> (ex_reusable ex \<longleftrightarrow> ex_result ex = Inr RDiscarded)
    \<and> (\<forall>d. ex_result ex \<noteq> Inr (RCommitted d))"
proof -
  obtain r t1 b1 l1 where 1: "run_step dl ot ct (logged QRollback (cb_rollback B)) (t, b, l) = (r, t1, b1, l1)"
    by (metis surj_pair)
  from run_step_logged [OF 1 assms(3)] 1 assms(1,2) show ?thesis
    by (cases r) (auto simp: execute_def split: if_splits)
qed

lemma execute_locked_traced:
  assumes run: "execute (traced B) req dl ot budget ct (t, b, l) = Returns (ex, t', b', l')"
    and "req_mode req \<noteq> Discard"
  shows "\<exists>m ph. l' = l @ m \<and> follows req Idle m = Some ph \<and> ph \<in> {Ended, Released}
    \<and> (ex_reusable ex \<longrightarrow> no_abandoned m \<and> last m = (QUnlock, Acked))
    \<and> (\<forall>d. ex_result ex = Inr (RCommitted d) \<longrightarrow> commit_acked m \<and> last m = (QUnlock, Acked))
    \<and> (commit_acked m \<longrightarrow> (\<exists>d. ex_result ex = Inr (RCommitted d))
         \<or> (\<exists>u. ex_result ex = Inl (CandidateCleanupFailed ''commit succeeded'' ''ok'' u)))"
proof -
  obtain r1 t1 b1 l1 where 1: "run_step dl ot ct (logged QLock (cb_lock B)) (t, b, l) = (r1, t1, b1, l1)"
    by (metis surj_pair)
  note l1 = run_step_logged [OF 1 lock_errors]
  show ?thesis
  proof (cases r1)
    case (Inl e)
    show ?thesis
    proof (cases "is_dropped_rpc e")
      case False
      with Inl l1 1 assms have "l' = l @ [(QLock, Refused)]" "\<not> ex_reusable ex" "ex_result ex = Inl e"
        by (auto simp: execute_def)
      with assms(2) show ?thesis
        by (intro exI [of _ "[(QLock, Refused)]"] exI [of _ Ended])
          (auto simp: protocol_def commit_acked_def)
    next
      case True
      obtain c t2 b2 l2 where 2: "cleanup (traced B) True budget (t1, b1, l1) = (c, t2, b2, l2)"
        by (metis surj_pair)
      with True Inl 1 assms have r: "l' = l2" "\<not> ex_reusable ex" "ex_result ex = combine (Inl e) c None"
        by (auto simp: execute_def)
      from cleanup_traced [OF 2] obtain f f' where f: "l2 = l1 @ [(QRollback, f'), (QUnlock, f)]" by auto
      from l1 Inl True consider "l1 = l" | "l1 = l @ [(QLock, Abandoned)]" by auto
      then obtain m where m: "l' = l @ m" "m = [(QRollback, f'), (QUnlock, f)]
          \<or> m = [(QLock, Abandoned), (QRollback, f'), (QUnlock, f)]" using r f by cases auto
      then have "follows req Idle m = Some Released" "\<not> commit_acked m"
        using assms(2) by (auto simp: protocol_def commit_acked_def)
      with m(1) r show ?thesis
        by (intro exI [of _ m] exI [of _ Released]) (auto simp: combine_def split: if_splits)
    qed
  next
    case (Inr u)
    from 1 Inr run assms(2) obtain r2 c2 t2 b2 l2 where
      2: "primary_operation (traced B) req dl ot ct (t1, b1, l1) = Returns (r2, c2, t2, b2, l2)"
      by (auto simp: execute_def split: run.splits)
    obtain c t3 b3 l3 where 3: "cleanup (traced B) (\<not> c2) budget (t2, b2, l2) = (c, t3, b3, l3)"
      by (metis surj_pair)
    from 1 2 3 Inr run assms(2) have r: "l' = l3" "ex_result ex = combine r2 c (reported_primary_of r2)"
      "ex_reusable ex \<longleftrightarrow> cf_is_empty c \<and> \<not> (case r2 of Inl e \<Rightarrow> is_dropped_rpc e | Inr _ \<Rightarrow> False)"
      by (auto simp: execute_def)
    from primary_operation_traced [OF 2] obtain m2 p2 where m2: "l2 = l1 @ m2"
      "stretch req Locked m2 {Locked, Loaded, Diffed, Reverting, Committed} r2 p2"
      "p2 = Committed \<longleftrightarrow> c2" "c2 \<longleftrightarrow> (\<exists>d. r2 = Inr (RCommitted d))" by blast
    from cleanup_traced [OF 3] obtain m3 f where m3: "l3 = l2 @ m3 @ [(QUnlock, f)]"
      "cf_unlock c = None \<longleftrightarrow> f = Acked"
      "if \<not> c2 then \<exists>f'. m3 = [(QRollback, f')] \<and> (cf_rollback c = None \<longleftrightarrow> f' = Acked)
       else m3 = [] \<and> cf_rollback c = None" by (elim exE conjE) (rule that)
    let ?m = "(QLock, Acked) # m2 @ m3 @ [(QUnlock, f)]"
    have fm: "follows req Idle ?m = Some Released"
    proof -
      from m2(2) have "follows req Locked m2 = Some p2" by (simp add: stretch_def)
      moreover have "follows req p2 (m3 @ [(QUnlock, f)]) = Some Released"
        using m2(2,3) m3(3) by (cases c2) (auto simp: stretch_def protocol_def)
      ultimately show ?thesis using assms(2) by (simp add: follows_append protocol_def)
    qed
    have ca: "commit_acked ?m \<longleftrightarrow> c2"
      using m2(2,3) m3(3) commit_acked_phase [of req Locked m2 p2]
      by (auto simp: stretch_def commit_acked_def split: if_splits)
    have na: "ex_reusable ex \<Longrightarrow> no_abandoned ?m"
      using m2(2) m3 r(3) by (cases r2) (auto simp: stretch_def cf_is_empty_def split: if_splits)
    have u: "cf_is_empty c \<Longrightarrow> f = Acked" using m3(2) by (simp add: cf_is_empty_def)
    have l': "l' = l @ ?m" using r(1) m3(1) m2(1) l1 Inr by simp
    have res: "commit_acked ?m \<Longrightarrow> (\<exists>d. ex_result ex = Inr (RCommitted d))
         \<or> (\<exists>u. ex_result ex = Inl (CandidateCleanupFailed ''commit succeeded'' ''ok'' u))"
      using ca m2(4) m3(3) r(2) by (auto simp: combine_def reported_primary_of_def)
    have com: "ex_result ex = Inr (RCommitted d) \<Longrightarrow> c2 \<and> cf_is_empty c" for d
      using m2(4) r(2) by (auto simp: combine_def split: if_splits)
    have reus: "ex_reusable ex \<Longrightarrow> cf_is_empty c" using r(3) by simp
    have "last ?m = (QUnlock, f)" by simp
    with l' fm ca na u res com reus show ?thesis
      by (intro exI [of _ ?m] exI [of _ Released]) blast
  qed
qed

end

lemma own_errors_into_jmcp [simp]: "own_errors (\<lambda>w. into_jmcp f (g w))"
  by (auto simp: own_errors_def into_jmcp_def split: sum.splits)

interpretation cm: candidate_device "config_manager nc d"
  by unfold_locales (simp_all add: config_manager_def)

lemma config_manager_rollback_errors [simp]: "own_errors (cb_rollback (config_manager nc d))"
  by (simp add: config_manager_def)

section \<open>Logs the protocol accepts\<close>

lemma follows_snoc:
  "follows req ph (m @ [x]) = Some ph' \<longleftrightarrow> (\<exists>p. follows req ph m = Some p \<and> protocol req p x = Some ph')"
  by (auto simp: follows_append split: option.splits)

lemma follows_to_Idle: "follows req Idle m = Some Idle \<Longrightarrow> m = []"
  by (cases m rule: rev_cases) (auto simp: follows_snoc dest: protocol_to)

lemma follows_to_Locked: "follows req Idle m = Some Locked \<Longrightarrow> m = [(QLock, Acked)]"
  by (cases m rule: rev_cases) (auto simp: follows_snoc dest!: protocol_to(2) follows_to_Idle)

lemma follows_to_Loaded:
  "follows req Idle m = Some Loaded \<Longrightarrow> \<exists>q. is_load q \<and> m = [(QLock, Acked), (q, Acked)]"
  by (cases m rule: rev_cases) (auto simp: follows_snoc dest!: protocol_to(3) follows_to_Locked)

lemma follows_to_Diffed:
  "follows req Idle m = Some Diffed \<Longrightarrow> \<exists>q. is_load q \<and> m = [(QLock, Acked), (q, Acked), (QDiff, Acked)]"
  by (cases m rule: rev_cases) (auto simp: follows_snoc dest!: protocol_to(4) follows_to_Loaded)

lemma protocol_rank:
  "protocol req ph x = Some Unlocking \<Longrightarrow> \<exists>f. x = (QRollback, f)"
  "protocol req ph x = Some Reverting \<Longrightarrow> ph \<in> {Idle, Locked, Loaded, Diffed} \<and> snd x \<noteq> Acked \<or> ph = Diffed \<and> x = (QCheck, Acked)"
  by (auto simp: protocol_simps split: prod.splits request.splits if_splits fate.splits)

lemma protocol_no_way_back:
  "protocol req ph x = Some ph' \<Longrightarrow> ph \<in> {Reverting, Committed, Unlocking, Released, Ended} \<Longrightarrow>
     ph' \<in> {Unlocking, Released} \<and> fst x \<in> {QRollback, QUnlock}"
  by (auto simp: protocol_simps split: prod.splits request.splits if_splits fate.splits)

lemma follows_tail:
  "follows req ph m = Some ph' \<Longrightarrow> ph \<in> {Reverting, Committed, Unlocking, Released, Ended} \<Longrightarrow>
     list_all (\<lambda>x. fst x \<in> {QRollback, QUnlock}) m"
proof (induction m arbitrary: ph)
  case (Cons x m)
  from Cons.prems(1) obtain p where p: "protocol req ph x = Some p" "follows req p m = Some ph'"
    by (auto split: option.splits)
  from protocol_no_way_back [OF p(1) Cons.prems(2)] Cons.IH [OF p(2)] show ?case by auto
qed simp

lemma follows_commit:
  assumes "follows req Idle (pre @ (q, f) # post) = Some ph" "is_commit q"
  shows "(\<exists>ld. is_load ld \<and> pre = [(QLock, Acked), (ld, Acked), (QDiff, Acked)])
    \<and> list_all (\<lambda>x. fst x \<in> {QRollback, QUnlock}) post
    \<and> (f = Acked \<longrightarrow> list_all (\<lambda>x. fst x = QUnlock) post)
    \<and> (case q of QCommit c \<Rightarrow> req_mode req = CommitWithComment c
        | QCommitConfirmed m \<Rightarrow> req_mode req = CommitConfirmed m | _ \<Rightarrow> False)"
proof -
  from assms(1) obtain p1 p2 where p: "follows req Idle pre = Some p1" "protocol req p1 (q, f) = Some p2"
    "follows req p2 post = Some ph" by (auto simp: follows_append split: option.splits)
  from protocol_commit [OF p(2) assms(2)] have pc: "p1 = Diffed" "p2 = Committed \<longleftrightarrow> f = Acked"
    "p2 \<in> {Committed, Reverting}" by auto
  have md: "case q of QCommit c \<Rightarrow> req_mode req = CommitWithComment c
        | QCommitConfirmed m \<Rightarrow> req_mode req = CommitConfirmed m | _ \<Rightarrow> False"
    using protocol_commit [OF p(2) assms(2)] assms(2) by (auto simp: is_commit_def split: request.splits)
  have "list_all (\<lambda>x. fst x = QUnlock) post" if "f = Acked"
  proof (cases post)
    case (Cons y ys)
    with p(3) pc(2) that obtain p3 where y: "protocol req Committed y = Some p3" "follows req p3 ys = Some ph"
      by (auto split: option.splits)
    have "p3 = Released" using y(1) by (rule protocol_from_Committed)
    with y protocol_to(6) [of req Committed y] follows_Released [of req ys ph] Cons show ?thesis by auto
  qed simp
  with follows_to_Diffed [of req pre] p pc md follows_tail [OF p(3)] show ?thesis by auto
qed

lemma follows_released_last:
  assumes "follows req Idle m = Some Released"
  shows "\<exists>pre f. m = pre @ [(QUnlock, f)]
    \<and> (commit_acked m \<or> (\<exists>pre' f'. pre = pre' @ [(QRollback, f')]))"
proof (cases m rule: rev_cases)
  case (snoc pre x)
  with assms obtain p where p: "follows req Idle pre = Some p" "protocol req p x = Some Released"
    by (auto simp: follows_snoc)
  from protocol_to(6) [OF p(2)] obtain f where f: "p \<in> {Unlocking, Committed}" "x = (QUnlock, f)" by auto
  show ?thesis
  proof (cases "p = Committed")
    case True
    with commit_acked_phase [OF p(1)] have "commit_acked pre" by simp
    with snoc f show ?thesis by (auto simp: commit_acked_def)
  next
    case False
    with f p(1) show ?thesis using snoc
      by (cases pre rule: rev_cases) (auto simp: follows_snoc dest!: protocol_rank(1))
  qed
qed (use assms in simp)

lemma execute_log:
  assumes "execute (traced (config_manager nc d)) req dl ot budget ct (t, w, []) = Returns (ex, t', w', m)"
  shows "\<exists>ph. follows req Idle m = Some ph
    \<and> (ph \<in> {Ended, Released} \<or> m = [] \<and> req_mode req = Discard)
    \<and> (ex_reusable ex \<longrightarrow> no_abandoned m \<and> m \<noteq> [] \<and> snd (last m) = Acked)
    \<and> (\<forall>d. ex_result ex = Inr (RCommitted d) \<longrightarrow> commit_acked m \<and> last m = (QUnlock, Acked))
    \<and> (commit_acked m \<longrightarrow> (\<exists>d. ex_result ex = Inr (RCommitted d))
         \<or> (\<exists>u. ex_result ex = Inl (CandidateCleanupFailed ''commit succeeded'' ''ok'' u)))"
proof (cases "req_mode req = Discard")
  case True
  from cm.execute_discard_traced [OF assms True] obtain f where
    "m = [] \<or> m = [(QRollback, f)]" "ex_reusable ex \<longleftrightarrow> m = [(QRollback, Acked)]"
    "\<forall>d. ex_result ex \<noteq> Inr (RCommitted d)" by auto
  with True show ?thesis by (auto simp: protocol_def commit_acked_def)
next
  case False
  from cm.execute_locked_traced [OF assms False] obtain ph where ph:
    "follows req Idle m = Some ph" "ph \<in> {Ended, Released}"
    "ex_reusable ex \<longrightarrow> no_abandoned m \<and> last m = (QUnlock, Acked)"
    "\<forall>d. ex_result ex = Inr (RCommitted d) \<longrightarrow> commit_acked m \<and> last m = (QUnlock, Acked)"
    "commit_acked m \<longrightarrow> (\<exists>d. ex_result ex = Inr (RCommitted d))
         \<or> (\<exists>u. ex_result ex = Inl (CandidateCleanupFailed ''commit succeeded'' ''ok'' u))"
    by auto
  from ph(1,2) have "m \<noteq> []" by auto
  with ph show ?thesis by auto
qed

section \<open>Properties\<close>

text \<open>A dry run and a commit on the scripted device.\<close>

definition set_request :: "candidate_mode \<Rightarrow> candidate_request" where
  "set_request md = \<lparr>payload = Some (PayloadSet ''set system host-name r1''), rollback_source = None,
     req_mode = md, req_load_action = LoadSet\<rparr>"

definition lab_execute ::
    "candidate_mode \<Rightarrow> (execution \<times> nat \<times> lab \<times> request_log) run" where
  "lab_execute md =
     execute (traced (config_manager lab_nc 0)) (set_request md) 1000 1000 30000 None (0, (1, []), [])"

definition lab_log :: "candidate_mode \<Rightarrow> request_log" where
  "lab_log md = [(QLock, Acked), (QLoad (PayloadSet ''set system host-name r1'') LoadSet, Acked), (QDiff, Acked)]
     @ (case md of CommitWithComment c \<Rightarrow> [(QCommit c, Acked), (QUnlock, Acked)]
        | _ \<Rightarrow> [(QRollback, Acked), (QUnlock, Acked)])"

lemmas lab_eval = lab_execute_def lab_log_def set_request_def execute_def run_step_def ensure_active_def
  is_cancelled_def logged_def traced_def config_manager_def into_jmcp_def lab_nc_def lab_reply_def
  ready_within_def primary_operation_def load_step_def mode_step_def commit_step_def commit_result_def
  await_sent_def cleanup_def cleanup_step_def err_of_def combine_def cf_is_empty_def

lemma lab_commit:
  "lab_execute (CommitWithComment ''c'') =
     Returns (\<lparr>ex_result = Inr (RCommitted ''''), ex_reusable = True\<rparr>, 25,
       (1, [''lock'', ''load'', ''diff'', ''commit'', ''unlock'']), lab_log (CommitWithComment ''c''))"
  by (simp add: lab_eval)

lemma lab_dry_run:
  "lab_execute DryRun =
     Returns (\<lparr>ex_result = Inr (RDryRun ''''), ex_reusable = True\<rparr>, 25,
       (1, [''lock'', ''load'', ''diff'', ''rollback'', ''unlock'']), lab_log DryRun)"
  by (simp add: lab_eval)

text \<open>
  C1. Whatever the device answers, however late, and whenever the call is cancelled, the requests a
  transaction sends follow the protocol: discard sends at most its rollback and never locks; every
  other mode sends the lock first and ends either because the device refused it or with an unlock,
  a load only under the lock, a commit only after a load and a diff that were acknowledged.
\<close>

theorem execute_follows_protocol:
  assumes "execute (traced (config_manager nc d)) req dl ot budget ct (t, w, []) = Returns (ex, t', w', m)"
  shows "follows req Idle m \<in> {Some Ended, Some Released} \<or> m = [] \<and> req_mode req = Discard"
  using execute_log [OF assms] by auto

theorem execute_follows_protocol_witness:
  "follows (set_request DryRun) Idle (lab_log DryRun) \<in> {Some Ended, Some Released}
     \<or> lab_log DryRun = [] \<and> req_mode (set_request DryRun) = Discard"
  by (rule execute_follows_protocol [OF lab_dry_run [unfolded lab_execute_def]])

text \<open>
  C7. A commit is sent at most once, only in the mode that asks for it and with its argument, and
  only after exactly a lock, a load and a diff that were all acknowledged; after it come only the
  rollback and the unlock, and after an acknowledged commit only the unlock.
\<close>

theorem commit_only_after_lock_load_diff:
  assumes "execute (traced (config_manager nc d)) req dl ot budget ct (t, w, []) = Returns (ex, t', w', m)"
    and "m = pre @ (q, f) # post" "is_commit q"
  shows "(\<exists>ld. is_load ld \<and> pre = [(QLock, Acked), (ld, Acked), (QDiff, Acked)])
    \<and> list_all (\<lambda>x. fst x \<in> {QRollback, QUnlock}) post
    \<and> (f = Acked \<longrightarrow> list_all (\<lambda>x. fst x = QUnlock) post)
    \<and> (case q of QCommit c \<Rightarrow> req_mode req = CommitWithComment c
        | QCommitConfirmed n \<Rightarrow> req_mode req = CommitConfirmed n | _ \<Rightarrow> False)"
proof -
  from execute_log [OF assms(1)] obtain ph where "follows req Idle (pre @ (q, f) # post) = Some ph"
    using assms(2) by blast
  with assms(3) show ?thesis by (intro follows_commit)
qed

theorem commit_only_after_lock_load_diff_witness:
  "(\<exists>ld. is_load ld \<and> take 3 (lab_log (CommitWithComment ''c'')) = [(QLock, Acked), (ld, Acked), (QDiff, Acked)])
    \<and> list_all (\<lambda>x. fst x \<in> {QRollback, QUnlock}) [(QUnlock, Acked)]"
proof -
  have split: "lab_log (CommitWithComment ''c'') =
      take 3 (lab_log (CommitWithComment ''c'')) @ (QCommit ''c'', Acked) # [(QUnlock, Acked)]"
    by (simp add: lab_log_def)
  from commit_only_after_lock_load_diff [OF lab_commit [unfolded lab_execute_def] split] show ?thesis by simp
qed

text \<open>
  C11. A lock that was acknowledged is always given back: the last request of the transaction is the
  unlock, and unless a commit was acknowledged the candidate was reverted just before it.
\<close>

theorem acquired_lock_is_given_back:
  assumes "execute (traced (config_manager nc d)) req dl ot budget ct (t, w, []) = Returns (ex, t', w', m)"
    and "(QLock, Acked) \<in> set m"
  shows "\<exists>pre f. m = pre @ [(QUnlock, f)]
    \<and> (commit_acked m \<or> (\<exists>pre' f'. pre = pre' @ [(QRollback, f')]))"
proof -
  from execute_log [OF assms(1)] assms(2) obtain ph where ph: "follows req Idle m = Some ph" "ph \<in> {Ended, Released}"
    by auto
  have "ph \<noteq> Ended"
  proof
    assume "ph = Ended"
    with ph(1) have "\<exists>x. m = [x] \<and> x \<noteq> (QLock, Acked)"
      by (cases m rule: rev_cases)
        (auto simp: follows_snoc protocol_simps split: request.splits if_splits fate.splits
          dest!: follows_to_Idle)
    with assms(2) show False by auto
  qed
  with ph show ?thesis using follows_released_last [of req m] by simp
qed

theorem acquired_lock_is_given_back_witness:
  "\<exists>pre f. lab_log DryRun = pre @ [(QUnlock, f)]
    \<and> (commit_acked (lab_log DryRun) \<or> (\<exists>pre' f'. pre = pre' @ [(QRollback, f')]))"
  by (rule acquired_lock_is_given_back [OF lab_dry_run [unfolded lab_execute_def]]) (simp add: lab_log_def)

text \<open>
  C29. The report about a commit is true: a transaction that answers that it committed sent a commit
  that was acknowledged and released the lock, and a transaction whose commit was acknowledged
  answers that it committed, or that the commit succeeded and only the unlock failed.
\<close>

theorem commit_is_reported_truthfully:
  assumes "execute (traced (config_manager nc d)) req dl ot budget ct (t, w, []) = Returns (ex, t', w', m)"
  shows "(if \<exists>diff. ex_result ex = Inr (RCommitted diff) then commit_acked m \<and> last m = (QUnlock, Acked)
          else if commit_acked m
          then \<exists>u. ex_result ex = Inl (CandidateCleanupFailed ''commit succeeded'' ''ok'' u)
          else True)"
  using execute_log [OF assms] by auto

theorem commit_is_reported_truthfully_witness:
  "commit_acked (lab_log (CommitWithComment ''c''))
     \<and> last (lab_log (CommitWithComment ''c'')) = (QUnlock, Acked)"
  using commit_is_reported_truthfully [OF lab_commit [unfolded lab_execute_def]] by simp

text \<open>
  A session is declared reusable only when no request of the transaction was abandoned and its
  last request, the unlock or for a discard the rollback, was acknowledged.
\<close>

theorem reusable_only_if_nothing_abandoned:
  assumes "execute (traced (config_manager nc d)) req dl ot budget ct (t, w, []) = Returns (ex, t', w', m)"
    and "ex_reusable ex"
  shows "no_abandoned m \<and> m \<noteq> [] \<and> snd (last m) = Acked"
  using execute_log [OF assms(1)] assms(2) by blast

theorem reusable_only_if_nothing_abandoned_witness:
  "no_abandoned (lab_log DryRun) \<and> lab_log DryRun \<noteq> [] \<and> snd (last (lab_log DryRun)) = Acked"
  by (rule reusable_only_if_nothing_abandoned [OF lab_dry_run [unfolded lab_execute_def]]) simp

text \<open>
  A call that is already late or cancelled when it comes to take the lock never sends the lock,
  but it still sends the rollback and the unlock.
\<close>

theorem late_call_rolls_back_without_lock:
  assumes "dl \<le> t \<or> is_cancelled ct t" "req_mode req \<noteq> Discard"
  shows "\<exists>ex t' w' f f'. execute (traced (config_manager nc d)) req dl ot budget ct (t, w, []) =
    Returns (ex, t', w', [(QRollback, f), (QUnlock, f')])"
proof -
  obtain e where e: "ensure_active dl ot ct t = Inl e" "is_dropped_rpc e"
    using assms(1) by (cases "is_cancelled ct t") (auto simp: ensure_active_def)
  obtain c t' w' m where c: "cleanup (traced (config_manager nc d)) True budget (t, w, []) = (c, t', w', m)"
    by (metis surj_pair)
  from cleanup_traced [OF c] obtain f f' where "m = [(QRollback, f), (QUnlock, f')]" by auto
  with e c assms(2) show ?thesis by (simp add: execute_def run_step_def)
qed

theorem late_call_rolls_back_without_lock_witness:
  "\<exists>ex t' w' f f'. execute (traced (config_manager lab_nc 0)) (set_request DryRun) 10 10 30000 None (10, (1, []), []) =
    Returns (ex, t', w', [(QRollback, f), (QUnlock, f')])"
  by (rule late_call_rolls_back_without_lock) (simp_all add: set_request_def)

text \<open>
  A failed commit check is called invalid exactly when the device answered with one of the ten
  error tags that reject the content of the configuration; everything else is inconclusive.
\<close>

theorem check_is_invalid_iff_content_rejected:
  "(\<exists>why. classify_check_error e = Invalid why) \<longleftrightarrow>
     (\<exists>tag msg. e = Rustez (RustEzError (RzNetconf (NetconfRpc (ServerError tag))) msg)
        \<and> tag \<in> {OperationFailed, InvalidValue, MissingElement, BadElement, UnknownElement,
                  MissingAttribute, BadAttribute, UnknownAttribute, DataMissing, DataExists})"
proof (cases "\<exists>r. e = Rustez r")
  case True
  then obtain k msg where "e = Rustez (RustEzError k msg)" by (metis rustez_error.exhaust)
  then show ?thesis
    by (auto simp: classify_check_error_def is_config_rejection_def
        split: rustez_kind.splits netconf_error.splits rpc_error.splits error_tag.splits if_splits)
next
  case False
  then show ?thesis by (cases e) (simp_all add: classify_check_error_def)
qed

section \<open>How long a transaction takes\<close>











section \<open>A whole call: time, taint and session\<close>

lemma now_kept [simp]:
  "now (drop_dev nc g dm) = now dm"
  "now (note_cleanup_failure router x dm) = now dm"
  by (simp_all add: drop_dev_def note_cleanup_failure_def Let_def)

lemma connect_fresh_guard:
  "connect_fresh nc ssh_load is_utf8 router dm = (Inr g, dm') \<Longrightarrow>
     (\<exists>d. g = \<lparr>pd_dev = Some d, router_name = router, reuse_allowed = True\<rparr>) \<and> pool dm' = pool dm"
  by (auto simp: connect_fresh_def split: sum.splits prod.splits)

lemma open_dev_guard:
  "open_dev nc ssh_load is_utf8 router dm = (Inr g, dm') \<Longrightarrow>
     \<exists>d. g = \<lparr>pd_dev = Some d, router_name = router, reuse_allowed = True\<rparr>"
  by (auto simp: open_dev_def split: prod.splits option.splits dest!: connect_fresh_guard)



definition lab_dm :: "(nat, lab) device_manager" where
  "lab_dm = \<lparr>dm_inventory = \<lparr>devices = [(''r1'', sample_entry)], blocklist_defaults = None, source_path = ''d''\<rparr>,
     inventory_path = ''d'', inventory_hash = '''', inventory_readonly = False,
     allow_password_auth_add = False, host_key_policy = ''accept-all'', pool = new_pool, ext = (0, []), now = 0\<rparr>"

definition lab_env :: "lab call_env" where
  "lab_env = \<lparr>cancel_at = None, open_takes = Some 40, open_lost = id\<rparr>"


lemma combine_ok: "is_ok (combine r c p) \<Longrightarrow> cf_is_empty c \<and> is_ok r"
  by (auto simp: combine_def Let_def split: if_splits)

lemma execute_ok_reusable:
  assumes "execute B req dl ot budget ct s = Returns (ex, s')" "is_ok (ex_result ex)"
  shows "ex_reusable ex"
  using assms
  by (auto simp: execute_def Let_def is_ok_iff split: if_splits sum.splits run.splits prod.splits
      dest!: arg_cong [of "combine _ _ _" "Inr _" is_ok] combine_ok)

lemma execute_reusable_result:
  assumes "execute B req dl ot budget ct s = Returns (ex, s')" "ex_reusable ex" "ex_result ex = Inl e"
  shows "\<not> is_dropped_rpc e"
  using assms
  by (auto simp: execute_def combine_def Let_def split: if_splits sum.splits run.splits prod.splits)

lemma open_dev_pool:
  "open_dev nc ssh_load is_utf8 router dm = (r, dm') \<Longrightarrow>
     returning (pool dm') = returning (pool dm)"
  by (auto simp: open_dev_def connect_fresh_def try_checkout_def Let_def
      split: prod.splits option.splits sum.splits if_splits)

lemma try_checkout_returning: "returning (snd (try_checkout alive t name p)) = returning p"
  by (auto simp: try_checkout_def Let_def split: option.splits)

lemma retry_transient_attempt: "\<exists>k s'. retry_transient m sleep op s = op k s'"
proof -
  from retry_transient_from_spec [of 0 m sleep op s] obtain k where
    "retry_transient_from m sleep op 0 (attempt_state sleep op s 0) = op (Suc k) (attempt_state sleep op s k)"
    by (elim exE conjE) (rule that)
  then show ?thesis by (auto simp: retry_transient_def intro!: exI)
qed

lemma open_dev_error:
  "open_dev nc ssh_load is_utf8 router dm = (Inl e, dm') \<Longrightarrow> cleanup_phases (Inl e) = []"
proof -
  have att: "cleanup_phases (Inl e) = []" if "connect_attempt nc ssh_load is_utf8 hk router entry s = (Inl e, s')"
    for hk entry s s' e
    using that by (auto simp: connect_attempt_def connect_params_def cleanup_phases_def and_then_def map_err_def Let_def
        split: sum.splits prod.splits option.splits auth_config.splits if_splits)
  have ret: "cleanup_phases (Inl e) = []"
    if "retry_transient m sl (\<lambda>_. connect_attempt nc ssh_load is_utf8 hk router entry) s = (Inl e, s')"
    for m sl hk entry s s' e
  proof -
    have "\<exists>s''. connect_attempt nc ssh_load is_utf8 hk router entry s'' = (Inl e, s')"
      using retry_transient_attempt [of m sl "\<lambda>_. connect_attempt nc ssh_load is_utf8 hk router entry" s] that
      by metis
    then obtain s'' where "connect_attempt nc ssh_load is_utf8 hk router entry s'' = (Inl e, s')" ..
    then show ?thesis by (rule att)
  qed
  show "open_dev nc ssh_load is_utf8 router dm = (Inl e, dm') \<Longrightarrow> cleanup_phases (Inl e) = []"
    by (auto simp: open_dev_def connect_fresh_def inv_get_def cleanup_phases_def
        split: prod.splits option.splits sum.splits dest!: ret)
qed

lemma open_step:
  assumes "run_step dl ot ct (open_future nc ssh_load is_utf8 env router) (t, dm) = (r, t1, dm1)"
  shows "returning (pool dm1) = returning (pool dm) \<and> (\<forall>e. r = Inl e \<longrightarrow> cleanup_phases (Inl e) = [])
    \<and> (\<forall>g. r = Inr g \<longrightarrow> (\<exists>d. g = \<lparr>pd_dev = Some d, router_name = router, reuse_allowed = True\<rparr>))"
proof -
  obtain ro dmo where o: "open_dev nc ssh_load is_utf8 router dm = (ro, dmo)" by force
  have "dm1 = dm \<or> dm1 = dmo \<or> returning (pool dm1) = returning (pool dm)"
    using assms o by (auto simp: run_step_def open_future_def try_checkout_returning Let_def
        split: if_splits option.splits sum.splits)
  then have "returning (pool dm1) = returning (pool dm)" using open_dev_pool [OF o] by auto
  moreover have "r = ro \<or> r = Inl Cancelled \<or> r = Inl (Timeout ot)"
    using assms o by (auto simp: run_step_def open_future_def ensure_active_def Let_def
        split: if_splits option.splits sum.splits)
  ultimately show ?thesis
    using o open_dev_error [of nc ssh_load is_utf8 router dm] open_dev_guard [of nc ssh_load is_utf8 router dm]
    by (auto simp: cleanup_phases_def)
qed

lemma note_cleanup_failure_taint:
  "check_cleanup_taint router (pool (note_cleanup_failure router r dm)) =
     (if cleanup_phases r \<noteq> [] then Some (str_join ''; '' (cleanup_phases r))
      else check_cleanup_taint router (pool dm))"
  by (simp add: note_cleanup_failure_def check_cleanup_taint_def record_cleanup_taint_def Let_def)

lemma drop_dev_taint [simp]:
  "check_cleanup_taint router (pool (drop_dev nc g dm)) = check_cleanup_taint router (pool dm)"
  by (auto simp: drop_dev_def drop_guard_def check_cleanup_taint_def split: option.splits)

text \<open>
  A call whose cleanup failed leaves a mark on its router that names the phases that failed; a
  call that succeeds leaves the router without a mark, whatever it had before.
\<close>

theorem failed_cleanup_leaves_a_taint:
  assumes "run_candidate nc ssh_load is_utf8 knob env router req timeout dm = Returns (r, dm')"
  shows "if cleanup_phases r \<noteq> []
    then check_cleanup_taint router (pool dm') = Some (str_join ''; '' (cleanup_phases r))
    else if is_ok r then check_cleanup_taint router (pool dm') = None else True"
proof -
  let ?dl = "now dm + timeout" and ?budget = "cleanup_timeout knob"
  obtain r1 t1 dm1 where 1: "run_step ?dl timeout (cancel_at env)
      (open_future nc ssh_load is_utf8 env router) (now dm, dm) = (r1, t1, dm1)" by (metis surj_pair)
  show ?thesis
  proof (cases r1)
    case (Inl e)
    with 1 assms open_step [OF 1] show ?thesis by (auto simp: run_candidate_def)
  next
    case (Inr g)
    let ?d = "the (pd_dev (prevent_reuse g))"
    show ?thesis
    proof (cases "nc_config nc ?d (ext dm1)")
      case (Inl e)
      with 1 Inr assms show ?thesis by (auto simp: run_candidate_def cleanup_phases_def)
    next
      case (Inr u)
      with 1 \<open>r1 = Inr g\<close> assms obtain ex t2 w2 where
        2: "execute (config_manager nc ?d) req ?dl timeout ?budget (cancel_at env) (t1, ext dm1) = Returns (ex, t2, w2)"
        by (auto simp: run_candidate_def Let_def split: run.splits)
      obtain g' dm3 where
        3: "r = ex_result ex" "dm' = drop_dev nc g' (note_cleanup_failure router r dm3)"
           "ex_reusable ex \<Longrightarrow> check_cleanup_taint router (pool dm3) = None"
        using 1 2 Inr \<open>r1 = Inr g\<close> assms
        by (auto simp: run_candidate_def Let_def check_cleanup_taint_def clear_cleanup_taint_def
            split: if_splits option.splits)
      from 3 execute_ok_reusable [OF 2] show ?thesis by (auto simp: note_cleanup_failure_taint)
    qed
  qed
qed

theorem failed_cleanup_leaves_a_taint_witness:
  "check_cleanup_taint ''r1'' (pool (case run_candidate lab_nc (\<lambda>_. Inl '''') (\<lambda>_. True) 30 lab_env ''r1''
       (set_request DryRun) 60000 lab_dm of Returns (r, dm') \<Rightarrow> dm' | _ \<Rightarrow> lab_dm)) = None"
proof -
  obtain dm' where "run_candidate lab_nc (\<lambda>_. Inl '''') (\<lambda>_. True) 30 lab_env ''r1''
       (set_request DryRun) 60000 lab_dm = Returns (Inr (RDryRun ''''), dm')"
    by (simp add: run_candidate_def open_future_def open_dev_def connect_fresh_def retry_transient_def
        retry_transient_from.simps connect_attempt_def connect_params_def sample_entry_def lab_dm_def lab_env_def
        inv_get_def try_checkout_def new_pool_def cleanup_timeout_def prevent_reuse_def lab_eval Let_def)
  from failed_cleanup_leaves_a_taint [OF this] this show ?thesis by (simp add: cleanup_phases_def)
qed

end
