(* ===== verification/Fingerprint.thy ===== *)
theory Fingerprint
  imports Helpers
begin

text \<open>
  How the candidate configuration is fingerprinted
  (\<^verbatim>\<open>rust-junosmcp-core/src/junos_transaction.rs\<close>): the \<^verbatim>\<open>junos:\<close> attributes of opening
  tags are stripped, lines are trimmed, empty lines dropped, and the rest is hashed. The hash
  function is a parameter.
\<close>

section \<open>Stripping attributes\<close>

definition JUNOS :: string where "JUNOS = ''junos:''"

text \<open>The position just past the attribute at the head of the text.\<close>

definition find_attr_end :: "string \<Rightarrow> nat" where
  "find_attr_end s =
     (let eq = length (takeWhile (\<lambda>c. c \<noteq> CHR ''='') s) in
      if length s \<le> eq then length s
      else if length s \<le> Suc eq then length s
      else
        (let i = Suc eq; quote = s ! i in
         if quote \<noteq> DQ \<and> quote \<noteq> SQ
         then i + length (takeWhile (\<lambda>c. \<not> is_ascii_whitespace c \<and> c \<noteq> CHR ''>'') (drop i s))
         else
           (let j = Suc i + length (takeWhile (\<lambda>c. c \<noteq> quote) (drop (Suc i) s))
            in if j < length s then Suc j else j)))"

lemma find_attr_end_pos: "s \<noteq> [] \<Longrightarrow> 0 < find_attr_end s"
  by (auto simp: find_attr_end_def Let_def)

function strip_junos_from_tag_content :: "string \<Rightarrow> string" where
  "strip_junos_from_tag_content rest =
     (case str_find JUNOS rest of
        None \<Rightarrow> rest
      | Some pos \<Rightarrow>
          (let r = drop pos rest in
           take pos rest
           @ strip_junos_from_tag_content (dropWhile (\<lambda>c. c = SP) (drop (find_attr_end r) r))))"
  by pat_completeness auto
termination
proof (relation "measure length", goal_cases)
  case 1
  show ?case by simp
next
  case (2 rest pos r)
  have "pos + length JUNOS \<le> length rest" using 2 by (intro str_find_bound) simp
  then have "r \<noteq> []" using 2 by (simp add: JUNOS_def)
  then have "0 < find_attr_end r" by (rule find_attr_end_pos)
  then have "length (drop (find_attr_end r) r) < length r" using \<open>r \<noteq> []\<close> by simp
  then have "length (dropWhile (\<lambda>c. c = SP) (drop (find_attr_end r) r)) < length r"
    using length_dropWhile_le le_less_trans by blast
  with 2 show ?case by simp
qed

declare strip_junos_from_tag_content.simps [simp del]

definition is_opening :: "string \<Rightarrow> bool" where
  "is_opening tag_content \<longleftrightarrow>
     \<not> (starts_with ''/'' tag_content \<or> starts_with ''!'' tag_content \<or> starts_with ''?'' tag_content)"

function simple_strip_junos_attrs :: "string \<Rightarrow> string" where
  "simple_strip_junos_attrs rest =
     (case find_char CHR ''<'' rest of
        None \<Rightarrow> rest
      | Some open_tag_start \<Rightarrow>
          (let r = drop open_tag_start rest in
           take open_tag_start rest
           @ (case find_char CHR ''>'' r of
                None \<Rightarrow> r
              | Some tag_end \<Rightarrow>
                  (let tag_with_brackets = take (Suc tag_end) r;
                       tag_content = drop 1 (take tag_end r)
                   in (if is_opening tag_content
                       then ''<'' @ strip_junos_from_tag_content tag_content @ ''>''
                       else tag_with_brackets)
                      @ simple_strip_junos_attrs (drop (Suc tag_end) r)))))"
  by pat_completeness auto
termination
proof (relation "measure length", goal_cases)
  case 1
  show ?case by simp
next
  case (2 rest i r tag_end)
  from 2(1) have "i < length rest" using find_char_bound by force
  with 2 show ?case by simp
qed

declare simple_strip_junos_attrs.simps [simp del]

section \<open>Normalising and hashing\<close>

definition config_lines :: "string \<Rightarrow> string list" where
  "config_lines stripped = filter (\<lambda>l. l \<noteq> []) (map str_trim (str_lines stripped))"

definition normalise_candidate_for_fingerprint :: "string \<Rightarrow> string" where
  "normalise_candidate_for_fingerprint xml =
     str_join [NL] (config_lines (simple_strip_junos_attrs xml))"

text \<open>\<open>sha256_hex\<close> is the hash in lowercase hexadecimal.\<close>

definition fingerprint_of :: "(string \<Rightarrow> string) \<Rightarrow> string \<Rightarrow> string" where
  "fingerprint_of sha256_hex candidate_xml =
     ''sha256:'' @ sha256_hex (normalise_candidate_for_fingerprint candidate_xml)"

section \<open>Lemmas\<close>

lemma drop_length_append: "drop (length xs) (xs @ ys) = ys"
  by simp

lemma find_attr_end_quoted:
  assumes "CHR ''='' \<notin> set n" and "q = DQ \<or> q = SQ" and "q \<notin> set v"
  shows "find_attr_end (n @ ''='' @ [q] @ v @ [q] @ r) = length (n @ ''='' @ [q] @ v @ [q])"
proof -
  let ?s = "n @ ''='' @ [q] @ v @ [q] @ r"
  have 1: "takeWhile (\<lambda>c. c \<noteq> CHR ''='') ?s = n"
    using assms(1) by (auto simp: takeWhile_append2 intro!: takeWhile_append2 [THEN trans])
  have 2: "?s ! Suc (length n) = q" by (simp add: nth_append)
  have 3: "takeWhile (\<lambda>c. c \<noteq> q) (drop (Suc (Suc (length n))) ?s) = v"
    using assms(3) by (auto simp: takeWhile_append2 intro!: takeWhile_append2 [THEN trans])
  show ?thesis
    using 1 2 3 assms(2) by (auto simp: find_attr_end_def Let_def)
qed

text \<open>The prefix has no border, so an occurrence cannot straddle the end of a text without one.\<close>

lemma prefix_JUNOS_append:
  "prefix JUNOS (a @ JUNOS @ x) \<Longrightarrow> a = [] \<or> prefix JUNOS a"
proof -
  assume p: "prefix JUNOS (a @ JUNOS @ x)"
  show ?thesis
  proof (cases "length a < 6")
    case True
    then have "length a = 0 \<or> length a = 1 \<or> length a = 2 \<or> length a = 3 \<or> length a = 4 \<or> length a = 5"
      by linarith
    with p show ?thesis
      by (auto simp: JUNOS_def length_Suc_conv numeral_eq_Suc)
  next
    case False
    with p show ?thesis
      by (intro disjI2 prefix_length_prefix [of JUNOS "a @ JUNOS @ x" a]) (simp_all add: JUNOS_def)
  qed
qed

lemma str_find_JUNOS_append:
  "\<not> str_contains JUNOS a \<Longrightarrow> str_find JUNOS (a @ JUNOS @ x) = Some (length a)"
proof (induction a)
  case Nil
  then show ?case by (simp add: JUNOS_def)
next
  case (Cons c a)
  have "\<not> prefix JUNOS (c # a)" using Cons.prems by (auto simp: str_contains_def)
  then have "\<not> prefix JUNOS ((c # a) @ JUNOS @ x)" using prefix_JUNOS_append by blast
  moreover have "\<not> str_contains JUNOS a"
    using Cons.prems by (auto simp: str_contains_def split: if_splits)
  ultimately show ?case using Cons.IH by simp
qed

lemma strip_tag_step:
  assumes "\<not> str_contains JUNOS a" and "X = JUNOS @ y"
  shows "strip_junos_from_tag_content (a @ X)
    = a @ strip_junos_from_tag_content (dropWhile (\<lambda>c. c = SP) (drop (find_attr_end X) X))"
  using str_find_JUNOS_append [OF assms(1), of y] assms(2)
  by (subst strip_junos_from_tag_content.simps) (simp add: Let_def)

lemma strip_tag_attr:
  assumes "\<not> str_contains JUNOS a" and "CHR ''='' \<notin> set n" and "q = DQ \<or> q = SQ" and "q \<notin> set v"
  shows "strip_junos_from_tag_content (a @ JUNOS @ n @ ''='' @ [q] @ v @ [q] @ r)
    = a @ strip_junos_from_tag_content (dropWhile (\<lambda>c. c = SP) r)"
proof -
  have "CHR ''='' \<notin> set (JUNOS @ n)" using assms(2) by (simp add: JUNOS_def)
  then have fe: "find_attr_end ((JUNOS @ n) @ ''='' @ [q] @ v @ [q] @ r)
      = length ((JUNOS @ n) @ ''='' @ [q] @ v @ [q])"
    using assms(3,4) by (rule find_attr_end_quoted)
  have "drop (find_attr_end ((JUNOS @ n) @ ''='' @ [q] @ v @ [q] @ r))
      (((JUNOS @ n) @ ''='' @ [q] @ v @ [q]) @ r) = r"
    by (simp only: fe drop_length_append)
  then have e: "drop (find_attr_end (JUNOS @ n @ ''='' @ [q] @ v @ [q] @ r))
      (JUNOS @ n @ ''='' @ [q] @ v @ [q] @ r) = r"
    by (simp only: append_assoc)
  show ?thesis
    by (subst strip_tag_step [OF assms(1) refl]) (simp only: e)
qed

lemma strip_tag_unchanged: "\<not> str_contains JUNOS t \<Longrightarrow> strip_junos_from_tag_content t = t"
  by (subst strip_junos_from_tag_content.simps) (auto simp: str_contains_def)

lemma simple_strip_text: "CHR ''<'' \<notin> set t \<Longrightarrow> simple_strip_junos_attrs t = t"
  by (subst simple_strip_junos_attrs.simps) (simp add: find_char_None_iff [THEN iffD2])

text \<open>One step of the scan: the text before a tag is copied, the tag is rewritten.\<close>

lemma simple_strip_tag:
  assumes "CHR ''<'' \<notin> set pre" and "CHR ''>'' \<notin> set t"
  shows "simple_strip_junos_attrs (pre @ ''<'' @ t @ ''>'' @ post) =
    pre @ ''<'' @ (if is_opening t then strip_junos_from_tag_content t else t) @ ''>''
    @ simple_strip_junos_attrs post"
proof -
  have 1: "find_char CHR ''<'' (pre @ ''<'' @ t @ ''>'' @ post) = Some (length pre)"
    using find_char_append [OF assms(1)] by simp
  have 2: "find_char CHR ''>'' (''<'' @ t @ ''>'' @ post) = Some (Suc (length t))"
    using find_char_append [OF assms(2)] by simp
  show ?thesis
    by (subst simple_strip_junos_attrs.simps) (simp add: 1 [simplified] 2 [simplified])
qed

lemma config_lines_ok: "l \<in> set (config_lines s) \<Longrightarrow> NL \<notin> set l \<and> l \<noteq> []"
  using set_str_trim str_lines_no_nl by (fastforce simp: config_lines_def)

lemma join_config_lines_inject:
  assumes "str_join [NL] (config_lines u) = str_join [NL] (config_lines w)"
  shows "config_lines u = config_lines w"
proof (rule str_join_nl_inject)
  show "\<forall>l\<in>set (config_lines u). NL \<notin> set l \<and> l \<noteq> []" by (simp add: config_lines_ok)
  show "\<forall>l\<in>set (config_lines w). NL \<notin> set l \<and> l \<noteq> []" by (simp add: config_lines_ok)
qed (rule assms)

section \<open>Properties\<close>

text \<open>
  C30. The fingerprint does not see the value of a \<^verbatim>\<open>junos:\<close> attribute: changing it (as the device
  does with \<^verbatim>\<open>junos:changed-seconds\<close> on every read) anywhere in an opening tag leaves the
  normalised text, and so the fingerprint, the same.
\<close>

theorem fingerprint_ignores_junos_attribute:
  assumes "CHR ''<'' \<notin> set pre"
    and "is_opening (a @ JUNOS)" and "\<not> str_contains JUNOS a" and "CHR ''>'' \<notin> set (a @ n @ r)"
    and "CHR ''='' \<notin> set n" and "{DQ, CHR ''>''} \<inter> (set v \<union> set v') = {}"
  shows "fingerprint_of h (pre @ ''<'' @ (a @ JUNOS @ n @ ''='' @ [DQ] @ v @ [DQ] @ r) @ ''>'' @ post)
    = fingerprint_of h (pre @ ''<'' @ (a @ JUNOS @ n @ ''='' @ [DQ] @ v' @ [DQ] @ r) @ ''>'' @ post)"
proof -
  have op: "is_opening (a @ JUNOS @ x)" for x
    using assms(2) by (cases a) (auto simp: is_opening_def starts_with_def JUNOS_def)
  have strip: "simple_strip_junos_attrs
        (pre @ ''<'' @ (a @ JUNOS @ n @ ''='' @ [DQ] @ w @ [DQ] @ r) @ ''>'' @ post)
      = pre @ ''<'' @ (a @ strip_junos_from_tag_content (dropWhile (\<lambda>c. c = SP) r)) @ ''>''
        @ simple_strip_junos_attrs post"
    if "{DQ, CHR ''>''} \<inter> set w = {}" for w
  proof -
    have gt: "CHR ''>'' \<notin> set (a @ JUNOS @ n @ ''='' @ [DQ] @ w @ [DQ] @ r)"
      using assms(4) that by (simp add: JUNOS_def)
    have "strip_junos_from_tag_content (a @ JUNOS @ n @ ''='' @ [DQ] @ w @ [DQ] @ r)
        = a @ strip_junos_from_tag_content (dropWhile (\<lambda>c. c = SP) r)"
      using assms(3,5) that by (intro strip_tag_attr) auto
    then show ?thesis
      using simple_strip_tag [OF assms(1) gt] op by simp
  qed
  show ?thesis
    unfolding fingerprint_of_def normalise_candidate_for_fingerprint_def
    using strip [of v] strip [of v'] assms(6) by auto
qed

theorem fingerprint_ignores_junos_attribute_witness:
  "fingerprint_of id (''<configuration '' @ JUNOS @ ''changed-seconds='' @ [DQ] @ ''17'' @ [DQ] @ ''>x'')
   = fingerprint_of id (''<configuration '' @ JUNOS @ ''changed-seconds='' @ [DQ] @ ''42'' @ [DQ] @ ''>x'')"
proof -
  have 1: "is_opening (''configuration '' @ JUNOS)" by code_simp
  have 2: "\<not> str_contains JUNOS ''configuration ''" by code_simp
  show ?thesis
    using fingerprint_ignores_junos_attribute [of "[]" "''configuration ''" "''changed-seconds''" "[]"
        "''17''" "''42''" id "''x''"] 1 2
    by simp
qed

text \<open>
  Normalising loses nothing but that: two candidates have the same normalised text exactly
  when, after the attributes are stripped, they have the same non-blank lines, trimmed, in the
  same order. In particular a reordered configuration normalises differently.
\<close>

theorem normalise_eq_iff_same_lines:
  "normalise_candidate_for_fingerprint x = normalise_candidate_for_fingerprint y \<longleftrightarrow>
     config_lines (simple_strip_junos_attrs x) = config_lines (simple_strip_junos_attrs y)"
  unfolding normalise_candidate_for_fingerprint_def
  using join_config_lines_inject by auto

text \<open>
  C32. Only attributes are stripped: a \<^verbatim>\<open>junos:\<close> in the text between two tags survives, because
  the scan copies everything up to the next tag and rewrites tag contents only.
\<close>

theorem element_text_preserved:
  assumes "CHR ''<'' \<notin> set pre" and "CHR ''>'' \<notin> set t" and "CHR ''<'' \<notin> set txt"
    and "CHR ''>'' \<notin> set t'"
  shows "\<exists>t1 t2. simple_strip_junos_attrs (pre @ ''<'' @ t @ ''>'' @ txt @ ''<'' @ t' @ ''>'' @ post)
    = pre @ ''<'' @ t1 @ ''>'' @ txt @ ''<'' @ t2 @ ''>'' @ simple_strip_junos_attrs post"
proof (intro exI)
  show "simple_strip_junos_attrs (pre @ ''<'' @ t @ ''>'' @ txt @ ''<'' @ t' @ ''>'' @ post)
    = pre @ ''<'' @ (if is_opening t then strip_junos_from_tag_content t else t) @ ''>'' @ txt
      @ ''<'' @ (if is_opening t' then strip_junos_from_tag_content t' else t') @ ''>''
      @ simple_strip_junos_attrs post"
    by (simp only: simple_strip_tag [OF assms(1,2)] simple_strip_tag [OF assms(3,4)])
qed

theorem element_text_preserved_witness:
  "\<exists>t1 t2. simple_strip_junos_attrs (''<description>junos:foo</description>'')
    = ''<'' @ t1 @ ''>'' @ ''junos:foo'' @ ''<'' @ t2 @ ''>''"
  using element_text_preserved [of "[]" "''description''" "''junos:foo''" "''/description''" "[]"]
  by (simp add: simple_strip_text)

end
