(* ===== verification/Junos_Txn.thy ===== *)
theory Junos_Txn
  imports Candidate_Txn Fingerprint
begin

text \<open>
  \<^verbatim>\<open>rust-junosmcp-core/src/junos_transaction.rs\<close>: the Junos side of the change-set
  life cycle (lock, fingerprint, stage, validate, commit, confirm, rollback, release), over the
  session pool and the NETCONF client. The candidate lock lives in a session: the transaction owns
  the session between lock and stage, and the staged handle owns it afterwards.

  Requests are awaited without a bound here, except where the source gives a budget; the client
  library bounds each of them, and the model takes its eventual answer. The types of the change-set
  library that cross the interface are given with the constructors the source uses. Time of day is
  an argument.
\<close>

section \<open>Actions\<close>

record config_payload_spec =
  ps_text :: string
  ps_format :: "string option"
  ps_mode :: "string option"

record junos_action =
  ja_payload :: "config_payload_spec option"
  ja_rollback_source :: "u32 option"

definition validate_shape :: "junos_action \<Rightarrow> nat \<Rightarrow> string + unit" where
  "validate_shape act i =
     (case (ja_payload act, ja_rollback_source act) of
        (Some _, None) \<Rightarrow> Inr ()
      | (None, Some _) \<Rightarrow> Inr ()
      | (None, None) \<Rightarrow>
          Inl (''action '' @ show_nat i @ '' has neither `payload` nor `rollback_source`; ''
            @ ''exactly one is required. If you meant to load configuration, the field is `payload`, ''
            @ ''an object of the form {'' @ [CHR 34] @ ''text'' @ [CHR 34] @ '': '' @ [CHR 34] @ ''<config>''
            @ [CHR 34] @ '', '' @ [CHR 34] @ ''format'' @ [CHR 34] @ '': '' @ [CHR 34] @ ''set'' @ [CHR 34]
            @ ''|'' @ [CHR 34] @ ''text'' @ [CHR 34] @ ''|'' @ [CHR 34] @ ''xml'' @ [CHR 34] @ ''}'')
      | (Some _, Some _) \<Rightarrow>
          Inl (''action '' @ show_nat i @ '' sets both `payload` and `rollback_source`; exactly one is required''))"

text \<open>The same check once more when staging, before anything reaches the device.\<close>

fun check_actions :: "nat \<Rightarrow> junos_action list \<Rightarrow> unit jres" where
  "check_actions i [] = Inr ()"
| "check_actions i (act # acts) =
     (case (ja_payload act, ja_rollback_source act) of
        (Some _, Some _) \<Rightarrow>
          Inl (Validation (''action '' @ show_nat i @ '' has both payload and rollback_source; exactly one is required''))
      | (None, None) \<Rightarrow>
          Inl (Validation (''action '' @ show_nat i @ '' has neither payload nor rollback_source''))
      | _ \<Rightarrow> check_actions (Suc i) acts)"

datatype resolved_action = ResRollback u32 | ResLoad config_payload load_action

text \<open>The last branch is unreachable in the source: the check above comes first.\<close>

definition resolve_action :: "junos_action \<Rightarrow> resolved_action jres" where
  "resolve_action act =
     (case ja_rollback_source act of
        Some n \<Rightarrow> Inr (ResRollback n)
      | None \<Rightarrow>
          (case ja_payload act of
             Some spec \<Rightarrow>
               (let fmt = (case ps_format spec of None \<Rightarrow> ''set'' | Some f \<Rightarrow> f) in
                and_then (build_config_payload (ps_text spec) (Some fmt)) (\<lambda>pl.
                and_then (parse_load_mode (ps_mode spec)) (\<lambda>md.
                and_then (resolve_load_action fmt md) (\<lambda>act. Inr (ResLoad pl act)))))
           | None \<Rightarrow> Inl (Validation ''exactly-one validation already checked this'')))"

section \<open>Attribution\<close>

datatype actor_type = Human | Agent | UnknownActor

record agent_identity =
  provider :: string
  provider_tier :: string
  model_id :: string

text \<open>The principal, the tier and the request id are the text they print.\<close>

record attribution =
  change_ref :: "string option"
  principal :: string
  on_behalf_of :: "string option"
  attr_actor_type :: actor_type
  attr_agent :: "agent_identity option"
  request_id :: string
  approver :: "string option"
  change_set_id :: "string option"

definition CHANGE_SET_ID_COMMENT_PREFIX :: nat where "CHANGE_SET_ID_COMMENT_PREFIX = 16"
definition MAX_APPROVER_IN_COMMENT :: nat where "MAX_APPROVER_IN_COMMENT = 64"

definition actor_type_str :: "actor_type \<Rightarrow> string" where
  "actor_type_str a = (case a of Human \<Rightarrow> ''human'' | Agent \<Rightarrow> ''agent'' | UnknownActor \<Rightarrow> ''unknown'')"

definition agent_info :: "attribution \<Rightarrow> string" where
  "agent_info at =
     (case attr_agent at of
        None \<Rightarrow> ''''
      | Some ag \<Rightarrow>
          '' via '' @ provider ag @ ''-'' @ provider_tier ag
          @ (if model_id ag = [] then '''' else '' model='' @ model_id ag))"

definition approval_info :: "attribution \<Rightarrow> string" where
  "approval_info at =
     (case approver at of
        None \<Rightarrow> ''''
      | Some ap \<Rightarrow>
          if length ap > MAX_APPROVER_IN_COMMENT
          then '' approved-by='' @ take_chars MAX_APPROVER_IN_COMMENT ap @ ''...''
          else '' approved-by='' @ ap)"

definition change_set_info :: "attribution \<Rightarrow> string" where
  "change_set_info at =
     (case change_set_id at of
        None \<Rightarrow> '''' | Some cid \<Rightarrow> '' change-set='' @ take_chars CHANGE_SET_ID_COMMENT_PREFIX cid)"

definition format_attribution :: "attribution \<Rightarrow> string" where
  "format_attribution at =
     (case change_ref at of None \<Rightarrow> ''no-change-ref'' | Some r \<Rightarrow> r)
     @ '' by '' @ principal at @ '' ('' @ actor_type_str (attr_actor_type at) @ '') on-behalf-of=''
     @ (case on_behalf_of at of None \<Rightarrow> ''self'' | Some b \<Rightarrow> b)
     @ agent_info at @ '' request.id='' @ request_id at @ approval_info at @ change_set_info at"

section \<open>Outcomes\<close>

datatype commit_outcome =
  Reconciled bool "string option" "string option"
| Indeterminate string
| AwaitingConfirmation "string option" u64 "string option"
| Detached string

record rollback_outcome =
  ro_succeeded :: bool
  ro_details :: "string option"

datatype rollback_ref = Archive u32 | CandidateRevert | CustomRef string

datatype unlock_outcome = UnlockReleased

record junos_validation =
  jv_valid :: bool
  jv_details :: "string option"

definition uncertainty_needles :: "string list" where
  "uncertainty_needles =
     [''timeout'', ''timed out'', ''connection closed'', ''connection reset'', ''broken pipe'',
      ''unexpected eof'', ''channel closed'', ''connection lost'', ''commit status unknown'']"

definition is_transport_uncertainty :: "rustez_error \<Rightarrow> bool" where
  "is_transport_uncertainty e =
     (case rz_kind e of
        RzNetconf (NetconfRpc (ServerError _)) \<Rightarrow> False
      | RzNetconf (NetconfRpc CommitUnknown) \<Rightarrow> True
      | RzNetconf (NetconfRpc ParseError) \<Rightarrow> True
      | RzNetconf NetconfTransport \<Rightarrow> True
      | RzNetconf NetconfFraming \<Rightarrow> True
      | RzNetconf NetconfProtocol \<Rightarrow> True
      | RzSshConfig \<Rightarrow> True | RzFacts \<Rightarrow> True | RzConfig \<Rightarrow> True
      | RzXmlParse \<Rightarrow> True
      | _ \<Rightarrow>
          (let err_str = to_ascii_lowercase (rz_text e)
           in list_ex (\<lambda>n. str_contains n err_str) uncertainty_needles))"

section \<open>Confirmed commits\<close>

text \<open>The window, in milliseconds, as whole minutes.\<close>

definition junos_confirm_minutes :: "nat \<Rightarrow> u32 jres" where
  "junos_confirm_minutes timeout =
     (let seconds = timeout div 1000 in
      if seconds < 60
      then Inl (Validation (''confirm timeout must be at least 60 seconds; Junos schedules the rollback in whole ''
             @ ''minutes and cannot honour '' @ show_nat seconds @ ''s''))
      else if seconds mod 60 \<noteq> 0
      then Inl (Validation (''confirm timeout must be a whole number of minutes; Junos cannot honour ''
             @ show_nat seconds @ ''s''))
      else if seconds div 60 < 2 ^ 32 then Inr (of_nat (seconds div 60))
      else Inl (Validation ''confirm timeout is implausibly large''))"

definition escape_xml_text :: "string \<Rightarrow> string" where
  "escape_xml_text v =
     replace_char CHR ''>'' ''&gt;'' (replace_char CHR ''<'' ''&lt;'' (replace_char CHR ''&'' ''&amp;'' v))"



section \<open>The transaction and the staged handle\<close>

record 'd junos_transaction =
  jt_router :: string
  locked_session :: "'d pooled_device option"

record 'd junos_staged =
  js_router :: string
  js_diff :: string
  js_session :: "'d pooled_device option"

definition new_transaction :: "string \<Rightarrow> 'd junos_transaction" where
  "new_transaction router = \<lparr>jt_router = router, locked_session = None\<rparr>"

text \<open>Everything the operations read from outside the transaction.\<close>

record ('d, 'w) junos_env =
  je_nc :: "('d, 'w) netconf"
  je_ssh :: ssh_config_loader
  je_utf8 :: "string \<Rightarrow> bool"
  je_knob :: cleanup_knob
  je_sha :: "string \<Rightarrow> string"
  je_unix_now :: u64

definition je_open ::
    "('d, 'w) junos_env \<Rightarrow> string \<Rightarrow> ('d, 'w) device_manager
      \<Rightarrow> 'd pooled_device jres \<times> ('d, 'w) device_manager" where
  "je_open E router dm = open_dev (je_nc E) (je_ssh E) (je_utf8 E) router dm"

definition je_release_lock ::
    "('d, 'w) junos_env \<Rightarrow> 'd pooled_device \<Rightarrow> 'w \<Rightarrow> lock_release jres \<times> 'd pooled_device \<times> 'w" where
  "je_release_lock E g w = the (release_lock (je_nc E) (cleanup_timeout (je_knob E)) g w)"

definition jt_lock ::
    "('d, 'w) junos_env \<Rightarrow> 'd junos_transaction \<Rightarrow> ('d, 'w) device_manager
      \<Rightarrow> unit jres \<times> 'd junos_transaction \<times> ('d, 'w) device_manager" where
  "jt_lock E tx dm =
     (case locked_session tx of
        Some _ \<Rightarrow> (Inr (), tx, dm)
      | None \<Rightarrow>
          (case je_open E (jt_router tx) dm of
             (Inl e, dm1) \<Rightarrow> (Inl e, tx, dm1)
           | (Inr g0, dm1) \<Rightarrow>
               (let g = prevent_reuse g0; d = the (pd_dev g) in
                case nc_config (je_nc E) d (ext dm1) of
                  Inl e \<Rightarrow> (Inl (Rustez e), tx, drop_dev (je_nc E) g dm1)
                | Inr _ \<Rightarrow>
                    (let a = nc_lock (je_nc E) d (ext dm1); dm2 = dm1\<lparr>ext := after a\<rparr> in
                     case says a of
                       Inl e \<Rightarrow> (Inl (Rustez e), tx, drop_dev (je_nc E) (allow_reuse g) dm2)
                     | Inr _ \<Rightarrow> (Inr (), tx\<lparr>locked_session := Some g\<rparr>, dm2)))))"

definition jt_unlock ::
    "('d, 'w) junos_env \<Rightarrow> 'd junos_transaction \<Rightarrow> ('d, 'w) device_manager
      \<Rightarrow> unlock_outcome jres \<times> 'd junos_transaction \<times> ('d, 'w) device_manager" where
  "jt_unlock E tx dm =
     (case locked_session tx of
        None \<Rightarrow> (Inr UnlockReleased, tx, dm)
      | Some g \<Rightarrow>
          (let (r, g', w) = je_release_lock E g (ext dm) in
           (and_then r (\<lambda>_. Inr UnlockReleased), tx\<lparr>locked_session := None\<rparr>,
            drop_dev (je_nc E) g' (dm\<lparr>ext := w\<rparr>))))"

definition CANDIDATE_RPC :: string where
  "CANDIDATE_RPC = ''<get-configuration database='' @ [CHR 34] @ ''candidate'' @ [CHR 34] @ ''/>''"

definition read_candidate ::
    "('d, 'w) junos_env \<Rightarrow> 'd \<Rightarrow> 'w \<Rightarrow> string jres \<times> 'w" where
  "read_candidate E d w =
     (case nc_rpc (je_nc E) d w of
        Inl e \<Rightarrow> (Inl (Rustez e), w)
      | Inr _ \<Rightarrow> (let a = nc_call_xml (je_nc E) CANDIDATE_RPC d w in (map_err Rustez (says a), after a)))"

definition jt_fingerprint ::
    "('d, 'w) junos_env \<Rightarrow> 'd junos_transaction \<Rightarrow> ('d, 'w) device_manager
      \<Rightarrow> string jres \<times> ('d, 'w) device_manager" where
  "jt_fingerprint E tx dm =
     (case locked_session tx of
        Some g \<Rightarrow>
          (let (r, w) = read_candidate E (the (pd_dev g)) (ext dm) in
           (and_then r (\<lambda>xml. Inr (fingerprint_of (je_sha E) xml)), dm\<lparr>ext := w\<rparr>))
      | None \<Rightarrow>
          (case je_open E (jt_router tx) dm of
             (Inl e, dm1) \<Rightarrow> (Inl e, dm1)
           | (Inr g, dm1) \<Rightarrow>
               (let (r, w) = read_candidate E (the (pd_dev g)) (ext dm1) in
                (and_then r (\<lambda>xml. Inr (fingerprint_of (je_sha E) xml)),
                 drop_dev (je_nc E) g (dm1\<lparr>ext := w\<rparr>)))))"

section \<open>Staging\<close>

definition load_resolved ::
    "('d, 'w) netconf \<Rightarrow> 'd \<Rightarrow> resolved_action \<Rightarrow> 'w \<Rightarrow> (unit, rustez_error, 'w) answer" where
  "load_resolved nc d ra w =
     (case ra of ResRollback n \<Rightarrow> nc_rollback nc n d w | ResLoad pl act \<Rightarrow> nc_load nc pl act d w)"

text \<open>The loads one after the other: the number that went in before the first that failed.\<close>

fun load_all ::
    "('d, 'w) netconf \<Rightarrow> 'd \<Rightarrow> resolved_action list \<Rightarrow> nat \<Rightarrow> 'w \<Rightarrow> (rustez_error \<times> nat) option \<times> 'w" where
  "load_all nc d [] loaded w = (None, w)"
| "load_all nc d (ra # ras) loaded w =
     (let a = load_resolved nc d ra w in
      case says a of
        Inl e \<Rightarrow> (Some (e, loaded), after a)
      | Inr _ \<Rightarrow> load_all nc d ras (Suc loaded) (after a))"

definition partial_error :: "rustez_error \<Rightarrow> nat \<Rightarrow> string option \<Rightarrow> string option \<Rightarrow> jmcp_error" where
  "partial_error e loaded revert_err unlock_err =
     (case (revert_err, unlock_err) of
        (Some r, Some u) \<Rightarrow> CandidateCleanupFailed (rz_text e) r u
      | (Some r, None) \<Rightarrow> CandidateCleanupFailed (rz_text e) r ''ok''
      | (None, Some u) \<Rightarrow> CandidateCleanupFailed (rz_text e) (if loaded > 0 then ''ok'' else ''skipped'') u
      | (None, None) \<Rightarrow> Rustez e)"

text \<open>After a load failed: revert what was loaded, give up the lock, and say what failed.\<close>

definition undo_partial_stage ::
    "('d, 'w) junos_env \<Rightarrow> 'd \<Rightarrow> rustez_error \<Rightarrow> nat \<Rightarrow> 'd pooled_device \<Rightarrow> 'w
      \<Rightarrow> jmcp_error \<times> 'd pooled_device \<times> 'w" where
  "undo_partial_stage E d e loaded g w =
     (let (revert_err, w1) =
            (if loaded > 0
             then (let a = nc_rollback (je_nc E) 0 d w in
                   (case says a of Inl re \<Rightarrow> Some (rz_text re) | Inr _ \<Rightarrow> None, after a))
             else (None, w));
          (r, g', w2) = je_release_lock E g w1;
          unlock_err = (case r of Inl ue \<Rightarrow> Some (error_to_string ue) | Inr _ \<Rightarrow> None)
      in (partial_error e loaded revert_err unlock_err, g', w2))"

definition stage_on ::
    "('d, 'w) junos_env \<Rightarrow> string \<Rightarrow> resolved_action list \<Rightarrow> bool \<Rightarrow> 'd pooled_device \<Rightarrow> ('d, 'w) device_manager
      \<Rightarrow> 'd junos_staged jres \<times> ('d, 'w) device_manager" where
  "stage_on E router ras already_locked g dm =
     (let nc = je_nc E; d = the (pd_dev g) in
      case nc_config nc d (ext dm) of
        Inl e \<Rightarrow> (Inl (Rustez e), drop_dev nc g dm)
      | Inr _ \<Rightarrow>
          (let (lock_result, w1) =
                 (if already_locked then (Inr (), ext dm)
                  else (let a = nc_lock nc d (ext dm) in (says a, after a)))
           in case lock_result of
                Inl e \<Rightarrow> (Inl (Rustez e), drop_dev nc (allow_reuse g) (dm\<lparr>ext := w1\<rparr>))
              | Inr _ \<Rightarrow>
                  (case load_all nc d ras 0 w1 of
                     (Some (e, loaded), w2) \<Rightarrow>
                       (let (err, g', w3) = undo_partial_stage E d e loaded g w2
                        in (Inl err, drop_dev nc g' (dm\<lparr>ext := w3\<rparr>)))
                   | (None, w2) \<Rightarrow>
                       (let a = nc_diff nc d w2 in
                        case says a of
                          Inl e \<Rightarrow> (Inl (Rustez e), drop_dev nc g (dm\<lparr>ext := after a\<rparr>))
                        | Inr diff \<Rightarrow>
                            (Inr \<lparr>js_router = router, js_diff = (case diff of None \<Rightarrow> '''' | Some x \<Rightarrow> x),
                                  js_session = Some g\<rparr>,
                             dm\<lparr>ext := after a\<rparr>)))))"

definition jt_stage ::
    "('d, 'w) junos_env \<Rightarrow> junos_action list \<Rightarrow> 'd junos_transaction \<Rightarrow> ('d, 'w) device_manager
      \<Rightarrow> 'd junos_staged jres \<times> 'd junos_transaction \<times> ('d, 'w) device_manager" where
  "jt_stage E acts tx dm =
     (case and_then (check_actions 0 acts) (\<lambda>_. try_map resolve_action acts) of
        Inl e \<Rightarrow> (Inl e, tx, dm)
      | Inr ras \<Rightarrow>
          (case locked_session tx of
             Some g \<Rightarrow>
               (let (r, dm') = stage_on E (jt_router tx) ras True g dm
                in (r, tx\<lparr>locked_session := None\<rparr>, dm'))
           | None \<Rightarrow>
               (case je_open E (jt_router tx) dm of
                  (Inl e, dm1) \<Rightarrow> (Inl e, tx, dm1)
                | (Inr g, dm1) \<Rightarrow>
                    (let (r, dm') = stage_on E (jt_router tx) ras False (prevent_reuse g) dm1
                     in (r, tx, dm')))))"

section \<open>Validate, commit, confirm, release\<close>

definition no_session_error :: jmcp_error where
  "no_session_error = Validation ''staged transaction has no session; already consumed?''"

definition jt_validate ::
    "('d, 'w) junos_env \<Rightarrow> 'd junos_staged \<Rightarrow> ('d, 'w) device_manager
      \<Rightarrow> junos_validation jres \<times> ('d, 'w) device_manager" where
  "jt_validate E st dm =
     (case js_session st of
        None \<Rightarrow> (Inl no_session_error, dm)
      | Some g \<Rightarrow>
          (let nc = je_nc E; d = the (pd_dev g) in
           case nc_config nc d (ext dm) of
             Inl e \<Rightarrow> (Inl (Rustez e), dm)
           | Inr _ \<Rightarrow>
               (let a = nc_commit_check nc d (ext dm); dm' = dm\<lparr>ext := after a\<rparr> in
                case says a of
                  Inr _ \<Rightarrow> (Inr \<lparr>jv_valid = True, jv_details = None\<rparr>, dm')
                | Inl e \<Rightarrow>
                    (case classify_check_error (Rustez e) of
                       Valid \<Rightarrow> (Inr \<lparr>jv_valid = True, jv_details = None\<rparr>, dm')
                     | Invalid details \<Rightarrow> (Inr \<lparr>jv_valid = False, jv_details = Some details\<rparr>, dm')
                     | CheckFailed details \<Rightarrow>
                         (Inl (Validation (''commit-check could not reach a verdict: '' @ details)), dm')))))"





definition jt_confirm_commit ::
    "('d, 'w) junos_env \<Rightarrow> attribution \<Rightarrow> 'd junos_transaction \<Rightarrow> ('d, 'w) device_manager
      \<Rightarrow> commit_outcome jres \<times> ('d, 'w) device_manager" where
  "jt_confirm_commit E at tx dm =
     (case je_open E (jt_router tx) dm of
        (Inl e, dm1) \<Rightarrow> (Inl e, dm1)
      | (Inr g, dm1) \<Rightarrow>
          (let nc = je_nc E; d = the (pd_dev g) in
           case nc_config nc d (ext dm1) of
             Inl e \<Rightarrow> (Inl (Rustez e), drop_dev nc g dm1)
           | Inr _ \<Rightarrow>
               (let a = nc_commit_with_comment nc (''Confirming commit: '' @ format_attribution at) d (ext dm1);
                    outcome = (case says a of
                        Inr _ \<Rightarrow> Reconciled True None (Some ''confirming commit succeeded'')
                      | Inl e \<Rightarrow> Reconciled False None (Some (rz_text e)))
                in (Inr outcome, dm1\<lparr>ext := after (nc_close nc d (after a))\<rparr>))))"

text \<open>
  Releasing the staged handle: a session that is reusable goes back to the pool, any other is closed
  under the cleanup budget. \<^verbatim>\<open>close_now\<close> consumes the guard.
\<close>

definition js_release ::
    "('d, 'w) junos_env \<Rightarrow> 'd junos_staged \<Rightarrow> ('d, 'w) device_manager
      \<Rightarrow> bool \<times> 'd junos_staged \<times> ('d, 'w) device_manager" where
  "js_release E st dm =
     (case js_session st of
        None \<Rightarrow> (True, st, dm)
      | Some g \<Rightarrow>
          (let st' = st\<lparr>js_session := None\<rparr>; nc = je_nc E in
           if is_reusable nc (ext dm) g then (True, st', drop_dev nc g dm)
           else
             (case close_within nc (cleanup_timeout (je_knob E)) g (ext dm) of
                (Some (Inr _), _, w) \<Rightarrow> (True, st', dm\<lparr>ext := w\<rparr>)
              | (_, _, w) \<Rightarrow> (False, st', dm\<lparr>ext := w\<rparr>))))"

section \<open>Rollback\<close>

definition archive_rollback_on ::
    "('d, 'w) junos_env \<Rightarrow> u32 \<Rightarrow> 'd \<Rightarrow> 'd pooled_device \<Rightarrow> 'w
      \<Rightarrow> rollback_outcome jres \<times> 'd pooled_device \<times> 'w" where
  "archive_rollback_on E n d g w =
     (let nc = je_nc E; lk = nc_lock nc d w in
      case says lk of
        Inl e \<Rightarrow> (Inl (Rustez e), allow_reuse g, after lk)
      | Inr _ \<Rightarrow>
          (let ld = nc_rollback nc n d (after lk) in
           case says ld of
             Inl e \<Rightarrow>
               (let rv = nc_rollback nc 0 d (after ld); (_, g', w') = je_release_lock E g (after rv)
                in (Inl (Rustez e), g', w'))
           | Inr _ \<Rightarrow>
               (let cm = nc_commit_with_comment nc (''rollback to archive '' @ show_nat (unat n)) d (after ld) in
                case says cm of
                  Inr _ \<Rightarrow>
                    (let (_, g', w') = je_release_lock E g (after cm)
                     in (Inr \<lparr>ro_succeeded = True,
                              ro_details = Some (''rollback to archive '' @ show_nat (unat n) @ '' committed'')\<rparr>, g', w'))
                | Inl e \<Rightarrow>
                    (let rv = nc_rollback nc 0 d (after cm); (_, g', w') = je_release_lock E g (after rv)
                     in (Inr \<lparr>ro_succeeded = False, ro_details = Some (rz_text e)\<rparr>, g', w')))))"

definition candidate_revert_on ::
    "('d, 'w) netconf \<Rightarrow> 'd \<Rightarrow> 'w \<Rightarrow> rollback_outcome jres \<times> 'w" where
  "candidate_revert_on nc d w =
     (let a = nc_rollback nc 0 d w in
      (case says a of
         Inr _ \<Rightarrow> Inr \<lparr>ro_succeeded = True, ro_details = Some ''candidate reverted (rollback 0)''\<rparr>
       | Inl e \<Rightarrow>
           if is_transport_uncertainty e
           then Inl (Validation (''candidate revert (rollback 0) outcome unknown: '' @ rz_text e))
           else Inr \<lparr>ro_succeeded = False, ro_details = Some (rz_text e)\<rparr>,
       after a))"

definition jt_rollback ::
    "('d, 'w) junos_env \<Rightarrow> rollback_ref \<Rightarrow> 'd junos_transaction \<Rightarrow> ('d, 'w) device_manager
      \<Rightarrow> rollback_outcome jres \<times> ('d, 'w) device_manager" where
  "jt_rollback E ref tx dm =
     (case ref of
        CustomRef target \<Rightarrow>
          (Inl (Validation (''custom rollback target '' @ [CHR 39] @ target @ [CHR 39] @ '' is not supported on Junos'')), dm)
      | Archive n \<Rightarrow>
          (case je_open E (jt_router tx) dm of
             (Inl e, dm1) \<Rightarrow> (Inl e, dm1)
           | (Inr g0, dm1) \<Rightarrow>
               (let nc = je_nc E; g = prevent_reuse g0; d = the (pd_dev g) in
                case nc_config nc d (ext dm1) of
                  Inl e \<Rightarrow> (Inl (Rustez e), drop_dev nc g dm1)
                | Inr _ \<Rightarrow>
                    (let (r, g', w) = archive_rollback_on E n d g (ext dm1)
                     in (r, drop_dev nc g' (dm1\<lparr>ext := w\<rparr>)))))
      | CandidateRevert \<Rightarrow>
          (case je_open E (jt_router tx) dm of
             (Inl e, dm1) \<Rightarrow> (Inl e, dm1)
           | (Inr g, dm1) \<Rightarrow>
               (let nc = je_nc E; d = the (pd_dev g) in
                case nc_config nc d (ext dm1) of
                  Inl e \<Rightarrow> (Inl (Rustez e), drop_dev nc g dm1)
                | Inr _ \<Rightarrow>
                    (let (r, w) = candidate_revert_on nc d (ext dm1)
                     in (r, drop_dev nc g (dm1\<lparr>ext := w\<rparr>))))))"

section \<open>Contracts\<close>

text \<open>
  The lock as the change-set coordinator uses it: once taken it is held, taking it again changes
  nothing, and after an unlock nothing is held, whether or not the device confirmed it.
\<close>

locale lock_owner =
  fixes held :: "'t \<Rightarrow> bool"
    and lock :: "'t \<Rightarrow> 's \<Rightarrow> unit jres \<times> 't \<times> 's"
    and unlock :: "'t \<Rightarrow> 's \<Rightarrow> unlock_outcome jres \<times> 't \<times> 's"
  assumes lock_held: "lock t s = (Inr u, t', s') \<Longrightarrow> held t'"
    and lock_again: "held t \<Longrightarrow> lock t s = (Inr (), t, s)"
    and lock_error: "lock t s = (Inl e, t', s') \<Longrightarrow> t' = t \<and> \<not> held t"
    and unlock_held: "unlock t s = (r, t', s') \<Longrightarrow> \<not> held t'"
    and unlock_free: "\<not> held t \<Longrightarrow> unlock t s = (Inr UnlockReleased, t, s)"
begin

lemma lock_idempotent: "lock t s = (Inr u, t', s') \<Longrightarrow> lock t' s'' = (Inr (), t', s'')"
  by (rule lock_again) (rule lock_held)

lemma unlock_idempotent: "unlock t s = (r, t', s') \<Longrightarrow> unlock t' s'' = (Inr UnlockReleased, t', s'')"
  by (rule unlock_free) (rule unlock_held)

lemma failed_lock_holds_nothing: "lock t s = (Inl e, t', s') \<Longrightarrow> \<not> held t'"
  using lock_error by blast

end

text \<open>
  The documented contract of \<^verbatim>\<open>ReleaseStaged\<close>: afterwards the handle holds no session, and
  releasing a handle that holds none succeeds and does nothing.
\<close>

locale release_staged =
  fixes holds :: "'h \<Rightarrow> bool"
    and release :: "'h \<Rightarrow> 's \<Rightarrow> bool \<times> 'h \<times> 's"
  assumes release_drops: "release h s = (b, h', s') \<Longrightarrow> \<not> holds h'"
    and release_empty: "\<not> holds h \<Longrightarrow> release h s = (True, h, s)"
begin

lemma release_twice:
  "release h s = (b, h', s') \<Longrightarrow> release h' s'' = (True, h', s'')"
  by (rule release_empty) (rule release_drops)

end

interpretation junos_lock: lock_owner "\<lambda>tx. locked_session tx \<noteq> None" "jt_lock E" "jt_unlock E"
  by unfold_locales
    (auto simp: jt_lock_def jt_unlock_def Let_def split: option.splits prod.splits sum.splits)

interpretation junos_release: release_staged "\<lambda>st. js_session st \<noteq> None" "js_release E"
  by unfold_locales
    (auto simp: js_release_def Let_def split: option.splits prod.splits sum.splits if_splits)

section \<open>Lemmas\<close>

lemma release_lock_total: "pd_dev g = Some d \<Longrightarrow> \<exists>x. release_lock nc budget g w = Some x"
  by (auto simp: release_lock_def close_within_def Let_def split: option.splits sum.splits prod.splits)

lemma escape_cons:
  "escape_xml_text (c # cs) =
     (if c = CHR ''&'' then ''&amp;'' else if c = CHR ''<'' then ''&lt;''
      else if c = CHR ''>'' then ''&gt;'' else [c]) @ escape_xml_text cs"
  by (simp add: escape_xml_text_def replace_char_def)

lemma escape_Nil [simp]: "escape_xml_text [] = []"
  by (simp add: escape_xml_text_def replace_char_def)

lemma check_actions_ok: "is_ok (check_actions i acts) \<longleftrightarrow> list_all (\<lambda>a. is_ok (validate_shape a j)) acts"
  by (induction acts arbitrary: i)
    (auto simp: validate_shape_def split: option.splits)

lemma junos_confirm_minutes_Inr_iff:
  "junos_confirm_minutes t = Inr m \<longleftrightarrow> t div 1000 = 60 * unat m \<and> 1 \<le> unat m"
proof
  assume "junos_confirm_minutes t = Inr m"
  then have *: "60 \<le> t div 1000" "t div 1000 mod 60 = 0" "t div 1000 div 60 < 2 ^ 32"
    "m = of_nat (t div 1000 div 60)"
    by (auto simp: junos_confirm_minutes_def Let_def split: if_splits)
  then have "unat m = t div 1000 div 60" by (simp add: unat_of_nat)
  moreover have "1 \<le> t div 1000 div 60" using *(1) by (simp add: less_eq_div_iff_mult_less_eq)
  ultimately show "t div 1000 = 60 * unat m \<and> 1 \<le> unat m"
    using *(2) by (metis mod_0_imp_dvd dvd_mult_div_cancel)
next
  assume *: "t div 1000 = 60 * unat m \<and> 1 \<le> unat m"
  have "unat m < 2 ^ 32" using unsigned_less [of m] by simp
  with * show "junos_confirm_minutes t = Inr m"
    by (simp add: junos_confirm_minutes_def)
qed

section \<open>Properties\<close>

text \<open>
  The confirmed-commit window the device gets is the window that was asked for: a timeout is
  accepted exactly when it is a positive whole number of minutes that fits, and the minutes sent
  times sixty are its seconds.
\<close>

theorem confirm_window_is_exact:
  "junos_confirm_minutes t = Inr m \<longleftrightarrow> t div 1000 = 60 * unat m \<and> 1 \<le> unat m"
  by (rule junos_confirm_minutes_Inr_iff)

text \<open>
  Minutes that pass the argument check survive the trip through seconds: the window the
  operator asked for in minutes is the one Junos is told.
\<close>

theorem confirm_minutes_round_trip:
  assumes "confirm_timeout_to_secs mins = Inr secs"
  shows "junos_confirm_minutes (1000 * unat secs) = Inr mins"
proof -
  from assms have "mins \<noteq> 0" "unat secs = unat mins * 60"
    by (simp_all add: confirm_timeout_to_secs_Inr_iff)
  moreover from this have "1 \<le> unat mins" by (simp add: Suc_le_eq unat_gt_0)
  ultimately show ?thesis by (simp add: junos_confirm_minutes_Inr_iff)
qed

theorem confirm_minutes_round_trip_witness:
  "junos_confirm_minutes (1000 * unat (300 :: u32)) = Inr 5"
  by (rule confirm_minutes_round_trip)
    (simp add: confirm_timeout_to_secs_def checked_mul_def)

text \<open>A decoder for the three entities, the inverse the device applies.\<close>

fun unescape_xml_text :: "string \<Rightarrow> string" where
  "unescape_xml_text [] = []"
| "unescape_xml_text (c # cs) =
     (if starts_with ''&amp;'' (c # cs) then CHR ''&'' # unescape_xml_text (drop 4 cs)
      else if starts_with ''&lt;'' (c # cs) then CHR ''<'' # unescape_xml_text (drop 3 cs)
      else if starts_with ''&gt;'' (c # cs) then CHR ''>'' # unescape_xml_text (drop 3 cs)
      else c # unescape_xml_text cs)"

text \<open>
  A commit comment cannot break out of the request it is put in: the escaped text has no angle
  bracket, so no tag can begin or end in it, and the device reads back exactly the comment.
\<close>

theorem escaped_comment_is_inert:
  "CHR ''<'' \<notin> set (escape_xml_text v) \<and> CHR ''>'' \<notin> set (escape_xml_text v)
   \<and> unescape_xml_text (escape_xml_text v) = v"
proof (induction v)
  case (Cons c cs)
  then show ?case by (auto simp: escape_cons starts_with_def)
qed simp

text \<open>
  Staging refuses a change set with a malformed action, one that names both a payload and an
  archive or neither, before anything reaches the device: no session is opened, no lock is taken
  and the transaction is as it was.
\<close>

theorem malformed_actions_never_reach_the_device:
  assumes "\<not> list_all (\<lambda>act. is_ok (validate_shape act 0)) acts"
  shows "\<exists>msg. jt_stage E acts tx dm = (Inl (Validation msg), tx, dm)"
proof -
  have "\<exists>msg. check_actions i acts = Inl (Validation msg)" if "\<not> is_ok (check_actions i acts)" for i
    using that by (induction acts arbitrary: i) (auto split: option.splits)
  with assms obtain msg where "check_actions 0 acts = Inl (Validation msg)"
    using check_actions_ok [of 0 acts 0] by blast
  then show ?thesis by (simp add: jt_stage_def)
qed

definition lab_je :: "(nat, lab) junos_env" where
  "lab_je = \<lparr>je_nc = lab_nc, je_ssh = (\<lambda>_. Inl ''''), je_utf8 = (\<lambda>_. True), je_knob = 30,
     je_sha = id, je_unix_now = 1000\<rparr>"

definition host_name_action :: junos_action where
  "host_name_action = \<lparr>ja_payload = Some \<lparr>ps_text = ''set system host-name r1'', ps_format = None, ps_mode = None\<rparr>,
     ja_rollback_source = None\<rparr>"

theorem malformed_actions_never_reach_the_device_witness:
  "\<exists>msg. jt_stage lab_je [host_name_action, host_name_action\<lparr>ja_rollback_source := Some 3\<rparr>]
     (new_transaction ''r1'') lab_dm = (Inl (Validation msg), new_transaction ''r1'', lab_dm)"
  by (rule malformed_actions_never_reach_the_device)
    (simp add: validate_shape_def host_name_action_def)


definition plain_attribution :: attribution where
  "plain_attribution = \<lparr>change_ref = None, principal = ''ops'', on_behalf_of = None, attr_actor_type = Human,
     attr_agent = None, request_id = ''q1'', approver = Some ''eve'', change_set_id = None\<rparr>"

definition lab_staged :: "nat junos_staged" where
  "lab_staged = \<lparr>js_router = ''r1'', js_diff = '''', js_session = Some (prevent_reuse (lab_guard 0))\<rparr>"


text \<open>
  The session that holds the candidate lock is never given to anyone else: after a lock and a
  successful staging the handle owns the very session the lock was taken on, it is not allowed back
  into the pool, and dropping the handle closes it.
\<close>

theorem locked_session_is_never_pooled:
  assumes "jt_lock E (new_transaction router) dm = (Inr (), tx, dm1)"
    and "jt_stage E acts tx dm1 = (Inr st, tx', dm2)"
  shows "js_session st = locked_session tx \<and> locked_session tx' = None
    \<and> (\<exists>g d. js_session st = Some g \<and> pd_dev g = Some d \<and> \<not> reuse_allowed g
         \<and> (\<forall>w p. returning (drop_guard nc w g p) = returning p \<and> slots (drop_guard nc w g p) = slots p
              \<and> closing (drop_guard nc w g p) = closing p @ [d]))"
proof -
  from assms(1) obtain g0 g dm0 where g: "je_open E router dm = (Inr g0, dm0)" "g = prevent_reuse g0"
    "tx = (new_transaction router)\<lparr>locked_session := Some g\<rparr>"
    by (auto simp: jt_lock_def new_transaction_def Let_def split: prod.splits sum.splits)
  from g(1) obtain d where d: "pd_dev g = Some d" "\<not> reuse_allowed g"
    using open_dev_guard g(2) by (fastforce simp: je_open_def prevent_reuse_def)
  from assms(2) g(3) have st: "js_session st = Some g" "locked_session tx' = None"
    by (auto simp: jt_stage_def stage_on_def Let_def split: sum.splits prod.splits option.splits)
  from st g(3) d show ?thesis
    by (auto simp: drop_guard_def should_pool_def)
qed

lemma lab_open:
  "je_open lab_je ''r1'' lab_dm = (Inr (lab_guard 0), lab_dm\<lparr>ext := (1, [''open''])\<rparr>)"
  by (simp add: je_open_def open_dev_def connect_fresh_def retry_transient_def
      retry_transient_from.simps connect_attempt_def connect_params_def sample_entry_def lab_dm_def lab_je_def
      lab_nc_def inv_get_def try_checkout_def new_pool_def lab_guard_def Let_def)

theorem locked_session_is_never_pooled_witness:
  "\<exists>st g. fst (jt_stage lab_je [host_name_action] \<lparr>jt_router = ''r1'', locked_session = Some (prevent_reuse (lab_guard 0))\<rparr>
        (lab_dm\<lparr>ext := (1, [''open'', ''lock''])\<rparr>)) = Inr st
     \<and> js_session st = Some g \<and> pd_dev g = Some 0 \<and> \<not> reuse_allowed g
     \<and> returning (drop_guard lab_nc (1, []) g new_pool) = returning new_pool"
proof -
  let ?tx = "\<lparr>jt_router = ''r1'', locked_session = Some (prevent_reuse (lab_guard 0))\<rparr>"
  let ?dm = "lab_dm\<lparr>ext := (1, [''open'', ''lock''])\<rparr>"
  have 1: "jt_lock lab_je (new_transaction ''r1'') lab_dm = (Inr (), ?tx, ?dm)"
    using lab_open by (simp add: jt_lock_def new_transaction_def lab_je_def lab_nc_def lab_reply_def lab_guard_def
        prevent_reuse_def Let_def)
  obtain st tx' dm2 where 2: "jt_stage lab_je [host_name_action] ?tx ?dm = (Inr st, tx', dm2)"
    by (simp add: jt_stage_def host_name_action_def resolve_action_def build_config_payload_def parse_load_mode_def
        resolve_load_action_def stage_on_def lab_je_def lab_nc_def lab_reply_def load_resolved_def Let_def)
  from locked_session_is_never_pooled [OF 1 2, of lab_nc] 2 show ?thesis
    by (auto simp: prevent_reuse_def lab_guard_def)
qed

text \<open>
  Releasing a staged handle leaves it without a session. It answers true only when the session
  went back to the pool fit for reuse, when the close was acknowledged within the cleanup budget,
  or when there was nothing to release.
\<close>

theorem staged_release_is_honest:
  assumes "js_release E st dm = (ok, st', dm')"
  shows "js_session st' = None \<and>
    (case js_session st of
       None \<Rightarrow> ok \<and> dm' = dm
     | Some g \<Rightarrow> ok \<longrightarrow>
         is_reusable (je_nc E) (ext dm) g \<or> pd_dev g = None
         \<or> (\<exists>d n. pd_dev g = Some d \<and> says (nc_close (je_nc E) d (ext dm)) = Inr ()
              \<and> takes (nc_close (je_nc E) d (ext dm)) = Some n \<and> n \<le> cleanup_timeout (je_knob E)))"
  using assms junos_release.release_drops [of E st dm ok st' dm']
  by (auto simp: js_release_def close_within_def Let_def map_err_def
      split: option.splits sum.splits if_splits)

theorem staged_release_is_honest_witness:
  "js_session (fst (snd (js_release lab_je lab_staged lab_dm))) = None"
proof -
  obtain ok st' dm' where r: "js_release lab_je lab_staged lab_dm = (ok, st', dm')" by (metis surj_pair)
  from staged_release_is_honest [OF r] r show ?thesis by simp
qed

text \<open>
  A diff that fails after every action was loaded leaves staging without the cleanup a failed
  load gets: no rollback and no unlock is sent, and the session, still holding the lock, goes to the
  task that closes it.
\<close>

theorem failed_diff_skips_cleanup:
  assumes "nc_config (je_nc E) d (ext dm) = Inr ()" "pd_dev g = Some d" "\<not> reuse_allowed g"
    and "load_all (je_nc E) d ras 0 (ext dm) = (None, w)"
    and "says (nc_diff (je_nc E) d w) = Inl e"
  shows "stage_on E router ras True g dm =
    (Inl (Rustez e), dm\<lparr>ext := after (nc_diff (je_nc E) d w),
                        pool := (pool dm)\<lparr>closing := closing (pool dm) @ [d]\<rparr>\<rparr>)"
  using assms by (simp add: stage_on_def drop_dev_def drop_guard_def should_pool_def)

text \<open>A scripted device whose diff and whose commit lose the connection.\<close>

definition lost_error :: rustez_error where
  "lost_error = RustEzError (RzNetconf (NetconfRpc CommitUnknown)) ''connection lost''"

definition flaky_nc :: "(nat, lab) netconf" where
  "flaky_nc = lab_nc\<lparr>nc_diff := \<lambda>d w. \<lparr>takes = Some 5, says = Inl lost_error, after = w, dropped = w\<rparr>,
     nc_commit_with_comment := \<lambda>c d w. \<lparr>takes = Some 5, says = Inl lost_error, after = w, dropped = w\<rparr>\<rparr>"

theorem failed_diff_skips_cleanup_witness:
  "stage_on (lab_je\<lparr>je_nc := flaky_nc\<rparr>) ''r1'' [] True (prevent_reuse (lab_guard 0)) lab_dm =
    (Inl (Rustez lost_error), lab_dm\<lparr>pool := new_pool\<lparr>closing := [0]\<rparr>\<rparr>)"
  using failed_diff_skips_cleanup [of "lab_je\<lparr>je_nc := flaky_nc\<rparr>" 0 lab_dm "prevent_reuse (lab_guard 0)" "[]"
      "ext lab_dm" lost_error "''r1''"]
  by (simp add: flaky_nc_def lab_je_def lab_nc_def prevent_reuse_def lab_guard_def lab_dm_def new_pool_def)

text \<open>
  A confirming commit whose answer is lost is reported as a known failure, although the device
  may have accepted it: the error that the plain commit reports as indeterminate is here a
  reconciled failure.
\<close>

theorem lost_confirming_commit_reported_as_failure:
  assumes "je_open E (jt_router tx) dm = (Inr g, dm1)" "pd_dev g = Some d"
    and "nc_config (je_nc E) d (ext dm1) = Inr ()"
    and "says (nc_commit_with_comment (je_nc E) (''Confirming commit: '' @ format_attribution at) d (ext dm1)) = Inl e"
    and "rz_kind e = RzNetconf (NetconfRpc CommitUnknown)"
  shows "fst (jt_confirm_commit E at tx dm) = Inr (Reconciled False None (Some (rz_text e)))
    \<and> is_transport_uncertainty e"
  using assms by (simp add: jt_confirm_commit_def is_transport_uncertainty_def Let_def)

theorem lost_confirming_commit_reported_as_failure_witness:
  "fst (jt_confirm_commit (lab_je\<lparr>je_nc := flaky_nc\<rparr>) plain_attribution (new_transaction ''r1'') lab_dm) =
     Inr (Reconciled False None (Some ''connection lost''))"
proof -
  have 1: "je_open (lab_je\<lparr>je_nc := flaky_nc\<rparr>) (jt_router (new_transaction ''r1'' :: nat junos_transaction)) lab_dm =
      (Inr (lab_guard 0), lab_dm\<lparr>ext := (1, [''open''])\<rparr>)"
    by (simp add: je_open_def new_transaction_def open_dev_def connect_fresh_def retry_transient_def
        retry_transient_from.simps connect_attempt_def connect_params_def sample_entry_def lab_dm_def lab_je_def
        flaky_nc_def lab_nc_def inv_get_def try_checkout_def new_pool_def lab_guard_def Let_def)
  have "fst (jt_confirm_commit (lab_je\<lparr>je_nc := flaky_nc\<rparr>) plain_attribution (new_transaction ''r1'') lab_dm) =
     Inr (Reconciled False None (Some (rz_text lost_error))) \<and> is_transport_uncertainty lost_error"
    by (rule lost_confirming_commit_reported_as_failure [OF 1, of 0])
      (simp_all add: lab_guard_def flaky_nc_def lab_nc_def lab_je_def lost_error_def)
  then show ?thesis by (simp add: lost_error_def)
qed

lemma length_take_chars_ascii:
  "list_all (\<lambda>c. byte c < 128) s \<Longrightarrow> length (take_chars n s) \<le> n"
  by (simp add: take_chars_def list_all_iff utf8_chars_ascii take_map o_def concat_map_singleton)

text \<open>
  The two-person evidence adds at most 108 bytes to a commit comment, however long the
  approver's name and the change-set identifier are (both plain ASCII).
\<close>

theorem approval_evidence_is_bounded:
  assumes "\<And>ap. approver at = Some ap \<Longrightarrow> list_all (\<lambda>c. byte c < 128) ap"
    and "\<And>cid. change_set_id at = Some cid \<Longrightarrow> list_all (\<lambda>c. byte c < 128) cid"
  shows "length (format_attribution at)
    \<le> length (format_attribution (at\<lparr>approver := None, change_set_id := None\<rparr>)) + 108"
proof -
  have "length (approval_info at) \<le> 80"
    using assms(1) length_take_chars_ascii [of _ 64]
    by (cases "approver at") (auto simp: approval_info_def MAX_APPROVER_IN_COMMENT_def)
  moreover have "length (change_set_info at) \<le> 28"
    using assms(2) length_take_chars_ascii [of _ 16]
    by (cases "change_set_id at") (auto simp: change_set_info_def CHANGE_SET_ID_COMMENT_PREFIX_def)
  ultimately show ?thesis
    by (simp add: format_attribution_def approval_info_def [of "at\<lparr>approver := None, change_set_id := None\<rparr>"]
        change_set_info_def [of "at\<lparr>approver := None, change_set_id := None\<rparr>"]
        agent_info_def [of "at\<lparr>approver := None, change_set_id := None\<rparr>"] agent_info_def [of at])
qed

theorem approval_evidence_is_bounded_witness:
  "length (format_attribution plain_attribution)
    \<le> length (format_attribution (plain_attribution\<lparr>approver := None, change_set_id := None\<rparr>)) + 108"
  by (rule approval_evidence_is_bounded) (simp_all add: plain_attribution_def byte_def)

end
