(* ===== verification/Commit_Recovery.thy ===== *)
theory Commit_Recovery
  imports Junos_Txn
begin

text \<open>
  \<^verbatim>\<open>rust-junosmcp-core/src/changeset_recovery.rs\<close>: asking the devices about commits this
  process may have sent before it died, and settling the records the device vouches for. Also the
  small sink of \<^verbatim>\<open>junos_commit_metadata.rs\<close>.

  The store of operation records belongs to the change-set library and is a parameter: reading one
  record and updating one. The probes run concurrently; the order in which their results arrive,
  when, and what other tasks do to the store in between are arguments of the sweep. An operation
  record carries the fields this code reads or writes.
\<close>

section \<open>Commit metadata\<close>

record commit_metadata_sink = sink_comment :: "string option"

definition new_sink :: commit_metadata_sink where "new_sink = \<lparr>sink_comment = None\<rparr>"

definition sink_attach :: "string \<Rightarrow> commit_metadata_sink \<Rightarrow> commit_metadata_sink" where
  "sink_attach line s = s\<lparr>sink_comment := Some line\<rparr>"

definition take_comment :: "commit_metadata_sink \<Rightarrow> string option \<times> commit_metadata_sink" where
  "take_comment s = (sink_comment s, s\<lparr>sink_comment := None\<rparr>)"

section \<open>Records and outcomes\<close>

datatype lifecycle_state =
  StStaged | StValidated | StCommitting | StCommitted | StDiscarded | StFailed | StIndeterminate

definition lifecycle_terminal :: "lifecycle_state \<Rightarrow> bool" where
  "lifecycle_terminal s \<longleftrightarrow> s = StCommitted \<or> s = StDiscarded"

record operation_record =
  op_id :: string
  op_owner :: string
  op_device :: string
  op_state :: lifecycle_state
  op_current :: string
  op_attribution :: "attribution option"
  op_config_lock_held :: bool
  op_details :: "string option"
  op_rollback_deadline :: "u64 option"

datatype lock_probe_result = ProvenFree | NotProven

datatype reprobe_outcome =
  LogCommitted | CommittedProvisional | LogNotFound | Unreachable string

definition REPROBE_DEVICE_TIMEOUT :: nat where "REPROBE_DEVICE_TIMEOUT = 20000"
definition REPROBE_SWEEP_TIMEOUT :: nat where "REPROBE_SWEEP_TIMEOUT = 120000"

section \<open>Reading the commit log\<close>

definition commit_log_contains_request_id :: "string \<Rightarrow> string \<Rightarrow> bool" where
  "commit_log_contains_request_id commit_log rid =
     (if rid = [] then False else str_contains (''request.id='' @ rid) commit_log)"

fun offsets_from :: "nat \<Rightarrow> string list \<Rightarrow> nat list" where
  "offsets_from n [] = []"
| "offsets_from n (l # ls) = n # offsets_from (n + length l) ls"

definition line_offsets :: "string \<Rightarrow> (nat \<times> string) list" where
  "line_offsets s = zip (offsets_from 0 (split_inclusive s)) (str_lines s)"

text \<open>A header: a number at the very start of the line, followed by whitespace.\<close>

definition is_entry_header :: "string \<Rightarrow> bool" where
  "is_entry_header line =
     ((case find_ws (trim_start line) of
         None \<Rightarrow> False
       | Some i \<Rightarrow> (let first = take i (trim_start line) in first \<noteq> [] \<and> list_all is_ascii_digit first))
      \<and> \<not> starts_with [SP] line)"

fun entry_scan ::
    "string \<Rightarrow> string \<Rightarrow> (nat \<times> string) list \<Rightarrow> nat option \<Rightarrow> nat option \<Rightarrow> bool \<Rightarrow> string option" where
  "entry_scan commit_log needle [] current start hit =
     (if hit then map_option (\<lambda>from. trim_end (drop from commit_log)) start else None)"
| "entry_scan commit_log needle ((off, line) # rest) current start hit =
     (if is_entry_header line \<and> hit
      then map_option (\<lambda>from. trim_end (take (off - from) (drop from commit_log))) start
      else
        (let current' = (if is_entry_header line then Some off else current) in
         if str_contains needle line
         then entry_scan commit_log needle rest current'
                (case current' of Some c \<Rightarrow> Some c | None \<Rightarrow> Some off) True
         else entry_scan commit_log needle rest current' start hit))"

definition commit_entry_for_request_id :: "string \<Rightarrow> string \<Rightarrow> string option" where
  "commit_entry_for_request_id commit_log rid =
     (if rid = [] then None
      else entry_scan commit_log (''request.id='' @ rid) (line_offsets commit_log) None None False)"

definition entry_is_confirmed_commit :: "string \<Rightarrow> bool" where
  "entry_is_confirmed_commit entry =
     (case str_lines entry of [] \<Rightarrow> False | header # _ \<Rightarrow> str_contains ''commit confirmed'' header)"

text \<open>
  One device asked. How long the command takes, and the manager's state when it is abandoned, come
  from outside.
\<close>

record ('d, 'w) probe_times =
  cli_takes :: "nat option"
  cli_lost :: "('d, 'w) device_manager \<Rightarrow> ('d, 'w) device_manager"
  lock_takes :: "nat option"
  lock_lost :: "('d, 'w) device_manager \<Rightarrow> ('d, 'w) device_manager"
  unlock_takes :: "nat option"
  unlock_lost :: "('d, 'w) device_manager \<Rightarrow> ('d, 'w) device_manager"

definition in_time :: "nat \<Rightarrow> nat option \<Rightarrow> bool" where
  "in_time budget t = (case t of None \<Rightarrow> False | Some n \<Rightarrow> n \<le> budget)"

text \<open>What a commit log that was read says about a record.\<close>

definition outcome_from_log :: "operation_record \<Rightarrow> string \<Rightarrow> string \<Rightarrow> reprobe_outcome" where
  "outcome_from_log rec rid commit_log =
     (case commit_entry_for_request_id commit_log rid of
        None \<Rightarrow> LogNotFound
      | Some entry \<Rightarrow>
          if op_rollback_deadline rec \<noteq> None \<or> entry_is_confirmed_commit entry
          then CommittedProvisional else LogCommitted)"

definition reprobe_operation ::
    "('d, 'w) junos_env \<Rightarrow> ('d, 'w) probe_times \<Rightarrow> operation_record \<Rightarrow> ('d, 'w) device_manager
      \<Rightarrow> reprobe_outcome \<times> ('d, 'w) device_manager" where
  "reprobe_operation E T rec dm =
     (case op_attribution rec of
        None \<Rightarrow> (LogNotFound, dm)
      | Some at \<Rightarrow>
          if in_time REPROBE_DEVICE_TIMEOUT (cli_takes T)
          then
            (case run_cli (je_nc E) (je_ssh E) (je_utf8 E) (op_device rec) ''show system commit'' dm of
               (Inl e, dm') \<Rightarrow> (Unreachable (error_to_string e), dm')
             | (Inr output, dm') \<Rightarrow> (outcome_from_log rec (request_id at) output, dm'))
          else (Unreachable (''device did not answer within '' @ show_nat (REPROBE_DEVICE_TIMEOUT div 1000) @ ''s''),
                cli_lost T dm))"

definition is_reprobe_candidate :: "operation_record \<Rightarrow> bool" where
  "is_reprobe_candidate rec \<longleftrightarrow> op_state rec = StIndeterminate \<and> op_attribution rec \<noteq> None"

definition settle_from_outcome ::
    "operation_record \<Rightarrow> reprobe_outcome \<Rightarrow> lock_probe_result \<Rightarrow> operation_record option" where
  "settle_from_outcome rec outcome lock_probe =
     (case outcome of
        LogCommitted \<Rightarrow>
          Some (rec\<lparr>op_state := StCommitted,
                    op_config_lock_held := (case lock_probe of ProvenFree \<Rightarrow> False | NotProven \<Rightarrow> op_config_lock_held rec),
                    op_details := Some (''re-probed after restart: the device'' @ [SQ] @ ''s commit log carries request.id=''
                      @ (case op_attribution rec of None \<Rightarrow> ''<none>'' | Some a \<Rightarrow> request_id a)
                      @ '', so the commit landed before this process died; ''
                      @ (case lock_probe of ProvenFree \<Rightarrow> ''the lock was proven free and returned''
                         | NotProven \<Rightarrow> ''the lock state could not be verified''))\<rparr>)
      | CommittedProvisional \<Rightarrow> None
      | LogNotFound \<Rightarrow> None
      | Unreachable _ \<Rightarrow> None)"

text \<open>Proving the lock free: take it and give it back, each within the cleanup budget.\<close>

definition probe_lock_freedom ::
    "('d, 'w) junos_env \<Rightarrow> ('d, 'w) probe_times \<Rightarrow> string \<Rightarrow> ('d, 'w) device_manager
      \<Rightarrow> lock_probe_result \<times> ('d, 'w) device_manager" where
  "probe_lock_freedom E T device dm =
     (let budget = cleanup_timeout (je_knob E) in
      if \<not> in_time budget (lock_takes T) then (NotProven, lock_lost T dm)
      else
        (case jt_lock E (new_transaction device) dm of
           (Inl _, _, dm1) \<Rightarrow> (NotProven, dm1)
         | (Inr _, tx, dm1) \<Rightarrow>
             if \<not> in_time budget (unlock_takes T) then (NotProven, unlock_lost T dm1)
             else
               (case jt_unlock E tx dm1 of
                  (Inr UnlockReleased, _, dm2) \<Rightarrow> (ProvenFree, dm2)
                | (Inl _, _, dm2) \<Rightarrow> (NotProven, dm2))))"

section \<open>The sweep\<close>

record sweep_summary =
  sw_candidates :: nat
  sw_settled :: nat
  sw_provisional :: nat
  sw_not_found :: nat
  sw_unreachable :: nat
  sw_write_failed :: nat
  sw_timed_out :: bool

definition empty_summary :: sweep_summary where
  "empty_summary = \<lparr>sw_candidates = 0, sw_settled = 0, sw_provisional = 0, sw_not_found = 0,
     sw_unreachable = 0, sw_write_failed = 0, sw_timed_out = False\<rparr>"

record ('c, 'd, 'w) coordinator =
  co_operations :: "'c \<Rightarrow> operation_record list"
  co_record :: "string \<Rightarrow> string \<Rightarrow> string \<Rightarrow> 'c \<Rightarrow> string + operation_record"
  co_update :: "operation_record \<Rightarrow> 'c \<Rightarrow> (string + unit) \<times> 'c"

definition still_a_candidate ::
    "('c, 'd, 'w) coordinator \<Rightarrow> operation_record \<Rightarrow> 'c \<Rightarrow> operation_record option" where
  "still_a_candidate C rec c =
     (case co_record C (op_id rec) (op_owner rec) (op_device rec) c of
        Inl _ \<Rightarrow> None
      | Inr current \<Rightarrow> if is_reprobe_candidate current then Some current else None)"

text \<open>
  A probe result that arrives: when, the record and its outcome (or nothing, if the task died), what
  other tasks did to the store before it was handled, and, while its lock is being probed, what they
  do meanwhile, how long the lock probe takes and what it finds.
\<close>

record 'c arrival =
  ar_at :: nat
  ar_joined :: "(operation_record \<times> reprobe_outcome) option"
  ar_before :: "'c \<Rightarrow> 'c"
  ar_during :: "'c \<Rightarrow> 'c"
  ar_probe_takes :: nat
  ar_lock_probe :: lock_probe_result

definition handle_committed ::
    "('c, 'd, 'w) coordinator \<Rightarrow> nat \<Rightarrow> 'c arrival \<Rightarrow> operation_record \<Rightarrow> nat \<Rightarrow> sweep_summary \<times> 'c
      \<Rightarrow> nat \<times> sweep_summary \<times> 'c" where
  "handle_committed C deadline ar rec t s =
     (case still_a_candidate C rec (snd s) of
        None \<Rightarrow> (t, s)
      | Some current \<Rightarrow>
          (let remaining = deadline - t;
               late = (ar_probe_takes ar > remaining);
               t' = (if late then t + remaining else t + ar_probe_takes ar);
               lp = (if late then NotProven else ar_lock_probe ar);
               sm = (if late then (fst s)\<lparr>sw_timed_out := True\<rparr> else fst s);
               c = ar_during ar (snd s)
           in case settle_from_outcome current LogCommitted lp of
                None \<Rightarrow> (t', sm, c)
              | Some settled \<Rightarrow>
                  (case co_update C settled c of
                     (Inl _, c') \<Rightarrow> (t', sm\<lparr>sw_write_failed := Suc (sw_write_failed sm)\<rparr>, c')
                   | (Inr _, c') \<Rightarrow> (t', sm\<lparr>sw_settled := Suc (sw_settled sm)\<rparr>, c'))))"

fun sweep_loop ::
    "('c, 'd, 'w) coordinator \<Rightarrow> nat \<Rightarrow> 'c arrival list \<Rightarrow> nat \<Rightarrow> sweep_summary \<times> 'c \<Rightarrow> sweep_summary \<times> 'c" where
  "sweep_loop C deadline [] t s =
     (if deadline \<le> t then ((fst s)\<lparr>sw_timed_out := True\<rparr>, snd s) else s)"
| "sweep_loop C deadline (ar # ars) t s =
     (if deadline \<le> t \<or> deadline < ar_at ar then ((fst s)\<lparr>sw_timed_out := True\<rparr>, snd s)
      else
        (let t1 = max t (ar_at ar); sm = fst s; c = ar_before ar (snd s) in
         case ar_joined ar of
           None \<Rightarrow> sweep_loop C deadline ars t1 (sm\<lparr>sw_unreachable := Suc (sw_unreachable sm)\<rparr>, c)
         | Some (rec, outcome) \<Rightarrow>
             (case outcome of
                LogCommitted \<Rightarrow>
                  (let (t2, s') = handle_committed C deadline ar rec t1 (sm, c)
                   in sweep_loop C deadline ars t2 s')
              | CommittedProvisional \<Rightarrow>
                  sweep_loop C deadline ars t1 (sm\<lparr>sw_provisional := Suc (sw_provisional sm)\<rparr>, c)
              | LogNotFound \<Rightarrow>
                  sweep_loop C deadline ars t1 (sm\<lparr>sw_not_found := Suc (sw_not_found sm)\<rparr>, c)
              | Unreachable _ \<Rightarrow>
                  sweep_loop C deadline ars t1 (sm\<lparr>sw_unreachable := Suc (sw_unreachable sm)\<rparr>, c))))"

definition sweep_candidates :: "('c, 'd, 'w) coordinator \<Rightarrow> nat \<Rightarrow> 'c \<Rightarrow> operation_record list" where
  "sweep_candidates C rotation c =
     (let cs = filter is_reprobe_candidate (co_operations C c)
      in if cs = [] then [] else rotate (rotation mod length cs) cs)"

definition sweep_crashed_commits ::
    "('c, 'd, 'w) coordinator \<Rightarrow> (operation_record list \<Rightarrow> 'c arrival list) \<Rightarrow> nat \<Rightarrow> nat \<Rightarrow> 'c
      \<Rightarrow> sweep_summary \<times> 'c" where
  "sweep_crashed_commits C arrivals rotation t c =
     (let cs = sweep_candidates C rotation c; sm = empty_summary\<lparr>sw_candidates := length cs\<rparr> in
      if cs = [] then (sm, c)
      else sweep_loop C (t + REPROBE_SWEEP_TIMEOUT) (arrivals cs) t (sm, c))"

section \<open>Lemmas\<close>

lemma sublist_sep:
  assumes "x \<notin> set n"
  shows "sublist n (a @ x # b) \<longleftrightarrow> sublist n a \<or> sublist n b"
proof
  assume "sublist n (a @ x # b)"
  then consider "sublist n a" | "sublist n (x # b)"
    | n1 n2 where "n = n1 @ n2" "suffix n1 a" "prefix n2 (x # b)"
    by (auto simp: sublist_append)
  then show "sublist n a \<or> sublist n b"
  proof cases
    case 2
    then consider "prefix n (x # b)" | "sublist n b" by (auto simp: sublist_Cons_right)
    then show ?thesis using assms by cases (auto simp: prefix_Cons)
  next
    case 3
    with assms have "n2 = []" by (auto simp: prefix_Cons)
    with 3 show ?thesis by (simp add: suffix_imp_sublist)
  qed simp
next
  assume "sublist n a \<or> sublist n b"
  moreover have "sublist b (x # b)" by (simp add: sublist_Cons_right)
  ultimately show "sublist n (a @ x # b)" by (auto simp: sublist_append intro: sublist_order.order.trans)
qed

lemma sublist_snoc_sep: "x \<notin> set n \<Longrightarrow> sublist n (a @ [x]) \<longleftrightarrow> sublist n a"
  using sublist_sep [of x n a "[]"] by auto

lemma sublist_strip_line_end:
  assumes "NL \<notin> set n" "CR \<notin> set n"
  shows "sublist n (strip_line_end l) \<longleftrightarrow> sublist n l"
proof (cases "l \<noteq> [] \<and> last l = NL")
  case True
  then have l: "l = butlast l @ [NL]" by (metis append_butlast_last_id)
  have 1: "sublist n l \<longleftrightarrow> sublist n (butlast l)" using assms(1) l by (metis sublist_snoc_sep)
  show ?thesis
  proof (cases "butlast l \<noteq> [] \<and> last (butlast l) = CR")
    case cr: True
    then have "butlast l = butlast (butlast l) @ [CR]" by (metis append_butlast_last_id)
    then have "sublist n (butlast l) \<longleftrightarrow> sublist n (butlast (butlast l))"
      using assms(2) by (metis sublist_snoc_sep)
    with True cr 1 show ?thesis by (simp add: strip_line_end_def Let_def)
  next
    case False
    with True 1 show ?thesis by (auto simp: strip_line_end_def Let_def)
  qed
qed (auto simp: strip_line_end_def)

lemma sublist_split_inclusive:
  assumes "NL \<notin> set n" "n \<noteq> []"
  shows "sublist n s \<longleftrightarrow> (\<exists>l\<in>set (split_inclusive s). sublist n l)"
proof (induction s rule: length_induct)
  case (1 s)
  show ?case
  proof (cases "NL \<in> set s")
    case False
    then show ?thesis using assms split_inclusive_last [of s] by (cases "s = []") auto
  next
    case True
    then obtain a b where s: "s = a @ NL # b" "NL \<notin> set a" by (metis split_list_first)
    then have "split_inclusive s = (a @ [NL]) # split_inclusive b" by (simp add: split_inclusive_line)
    moreover have "length b < length s" using s by simp
    ultimately show ?thesis
      using 1 s assms sublist_sep [of NL n a b] sublist_snoc_sep [of NL n a] by auto
  qed
qed

lemma str_contains_iff_line:
  assumes "NL \<notin> set n" "CR \<notin> set n" "n \<noteq> []"
  shows "str_contains n s \<longleftrightarrow> list_ex (str_contains n) (str_lines s)"
  using sublist_split_inclusive [OF assms(1,3), of s] sublist_strip_line_end [OF assms(1,2)]
  by (auto simp: str_contains_iff list_ex_iff str_lines_def)

lemma length_offsets_from: "length (offsets_from n ls) = length ls"
  by (induction ls arbitrary: n) auto

lemma map_snd_line_offsets: "map snd (line_offsets s) = str_lines s"
  by (simp add: line_offsets_def length_offsets_from str_lines_def)

lemma entry_scan_Some_iff:
  assumes "hit \<longrightarrow> start \<noteq> None"
  shows "entry_scan commit_log needle ls current start hit \<noteq> None \<longleftrightarrow>
    hit \<or> list_ex (str_contains needle) (map snd ls)"
  using assms
proof (induction commit_log needle ls current start hit rule: entry_scan.induct)
  case (2 commit_log needle off line rest current start hit)
  then show ?case by (auto simp: Let_def split: option.splits if_splits)
qed auto

section \<open>A store that keeps a log\<close>








section \<open>Properties\<close>

text \<open>
  Searching the commit log entry by entry finds a request identifier exactly when the plain
  search of the whole log does (for an identifier with no line break, as every UUID is).
\<close>

theorem entry_search_agrees_with_plain_search:
  assumes "NL \<notin> set rid" "CR \<notin> set rid"
  shows "commit_entry_for_request_id commit_log rid \<noteq> None \<longleftrightarrow> commit_log_contains_request_id commit_log rid"
proof (cases "rid = []")
  case False
  have n: "NL \<notin> set (''request.id='' @ rid)" "CR \<notin> set (''request.id='' @ rid)" "''request.id='' @ rid \<noteq> []"
    using assms by auto
  show ?thesis
    unfolding commit_entry_for_request_id_def commit_log_contains_request_id_def
    using False entry_scan_Some_iff [of False None commit_log "''request.id='' @ rid" "line_offsets commit_log" None]
      str_contains_iff_line [OF n, of commit_log]
    by (simp only: map_snd_line_offsets if_False not_False_eq_True) simp
qed (simp add: commit_entry_for_request_id_def commit_log_contains_request_id_def)

theorem entry_search_agrees_with_plain_search_witness:
  "commit_entry_for_request_id ''0 by ops request.id=a1'' ''a1'' \<noteq> None
     \<longleftrightarrow> commit_log_contains_request_id ''0 by ops request.id=a1'' ''a1''"
  by (rule entry_search_agrees_with_plain_search) simp_all

text \<open>
  A re-probe says that the commit took effect only when the record names a request, carries no
  rollback deadline, the device answered in time, and its log has an entry with that request that
  is not marked as a confirmed commit; a provisional commit is never reported as settled.
\<close>

theorem reprobe_committed_needs_evidence:
  assumes "reprobe_operation E T rec dm = (LogCommitted, dm')"
  shows "\<exists>at output entry. op_attribution rec = Some at \<and> op_rollback_deadline rec = None
    \<and> in_time REPROBE_DEVICE_TIMEOUT (cli_takes T)
    \<and> fst (run_cli (je_nc E) (je_ssh E) (je_utf8 E) (op_device rec) ''show system commit'' dm) = Inr output
    \<and> commit_entry_for_request_id output (request_id at) = Some entry
    \<and> \<not> entry_is_confirmed_commit entry"
  using assms
  by (auto simp: reprobe_operation_def outcome_from_log_def
      split: option.splits if_splits prod.splits sum.splits)

text \<open>A crashed commit, and a device whose commit log carries it.\<close>

definition crashed :: operation_record where
  "crashed = \<lparr>op_id = ''o1'', op_owner = ''ops'', op_device = ''r1'', op_state = StIndeterminate, op_current = [],
     op_attribution = Some plain_attribution, op_config_lock_held = True, op_details = None,
     op_rollback_deadline = None\<rparr>"

definition logging_je :: "(nat, lab) junos_env" where
  "logging_je = lab_je\<lparr>je_nc := lab_nc\<lparr>nc_cli := \<lambda>c d. lab_reply c ''0 ops request.id=q1''\<rparr>\<rparr>"

definition prompt_times :: "(nat, lab) probe_times" where
  "prompt_times = \<lparr>cli_takes = Some 10, cli_lost = id, lock_takes = Some 10, lock_lost = id,
     unlock_takes = Some 10, unlock_lost = id\<rparr>"

theorem reprobe_committed_needs_evidence_witness:
  "\<exists>output entry. fst (run_cli (je_nc logging_je) (je_ssh logging_je) (je_utf8 logging_je) ''r1''
         ''show system commit'' lab_dm) = Inr output
     \<and> commit_entry_for_request_id output ''q1'' = Some entry \<and> \<not> entry_is_confirmed_commit entry"
proof -
  have ent: "commit_entry_for_request_id ''0 ops request.id=q1'' ''q1'' = Some ''0 ops request.id=q1''"
    "\<not> entry_is_confirmed_commit ''0 ops request.id=q1''" by code_simp+
  have "\<exists>dm'. reprobe_operation logging_je prompt_times crashed lab_dm = (LogCommitted, dm')"
    using ent
    by (simp add: reprobe_operation_def outcome_from_log_def crashed_def plain_attribution_def prompt_times_def
        in_time_def REPROBE_DEVICE_TIMEOUT_def run_cli_def open_dev_def connect_fresh_def retry_transient_def
        retry_transient_from.simps connect_attempt_def connect_params_def sample_entry_def lab_dm_def logging_je_def
        lab_je_def lab_nc_def lab_reply_def inv_get_def try_checkout_def new_pool_def cli_and_drop_def Let_def)
  then obtain dm' where "reprobe_operation logging_je prompt_times crashed lab_dm = (LogCommitted, dm')" ..
  from reprobe_committed_needs_evidence [OF this] show ?thesis
    by (auto simp: crashed_def plain_attribution_def)
qed


text \<open>A store that is one record, and one arrival for it.\<close>

definition one_record :: "(operation_record, nat, lab) coordinator" where
  "one_record = \<lparr>co_operations = \<lambda>r. [r], co_record = \<lambda>i ow dv r. Inr r,
     co_update = \<lambda>r _. (Inr (), r)\<rparr>"

definition hit_arrival :: "('c \<Rightarrow> 'c) \<Rightarrow> 'c arrival" where
  "hit_arrival f = \<lparr>ar_at = 30, ar_joined = Some (crashed, LogCommitted), ar_before = id, ar_during = f,
     ar_probe_takes = 20, ar_lock_probe = ProvenFree\<rparr>"



text \<open>
  The re-read that is to keep the sweep from writing over a newer verdict comes before the lock
  probe, not after it: a record that another task settles while the lock is being probed, here as
  discarded, is overwritten as committed.
\<close>

theorem sweep_can_overwrite_a_settled_record:
  "\<exists>ar. ar_joined ar = Some (crashed, LogCommitted)
     \<and> lifecycle_terminal (op_state (ar_during ar (ar_before ar crashed)))
     \<and> op_state (ar_during ar (ar_before ar crashed)) = StDiscarded
     \<and> op_state (snd (sweep_loop one_record 120000 [ar] 0 (empty_summary, crashed))) = StCommitted"
  by (rule exI [of _ "hit_arrival (\<lambda>r. r\<lparr>op_state := StDiscarded\<rparr>)"])
    (simp add: hit_arrival_def handle_committed_def still_a_candidate_def one_record_def lifecycle_terminal_def
      is_reprobe_candidate_def crashed_def settle_from_outcome_def empty_summary_def)

text \<open>
  A lock is called proven free only after it was taken, with the device acknowledging the lock,
  and given up again without an error, both within the cleanup budget.
\<close>

theorem lock_proven_free_was_taken_and_returned:
  assumes "probe_lock_freedom E T device dm = (ProvenFree, dm')"
  shows "\<exists>tx dm1 g. jt_lock E (new_transaction device) dm = (Inr (), tx, dm1) \<and> locked_session tx = Some g
    \<and> is_ok (fst (je_release_lock E g (ext dm1)))
    \<and> in_time (cleanup_timeout (je_knob E)) (lock_takes T)
    \<and> in_time (cleanup_timeout (je_knob E)) (unlock_takes T)"
proof -
  from assms obtain tx dm1 tx2 where l: "jt_lock E (new_transaction device) dm = (Inr (), tx, dm1)"
    "jt_unlock E tx dm1 = (Inr UnlockReleased, tx2, dm')"
    "in_time (cleanup_timeout (je_knob E)) (lock_takes T)"
    "in_time (cleanup_timeout (je_knob E)) (unlock_takes T)"
    by (auto simp: probe_lock_freedom_def Let_def
        split: if_splits prod.splits sum.splits unlock_outcome.splits)
  from junos_lock.lock_held [OF l(1)] obtain g where "locked_session tx = Some g" by auto
  with l show ?thesis
    by (auto simp: jt_unlock_def Let_def flow_simps is_ok_iff split: prod.splits)
qed

theorem lock_proven_free_was_taken_and_returned_witness:
  "\<exists>tx dm1 g. jt_lock lab_je (new_transaction ''r1'') lab_dm = (Inr (), tx, dm1) \<and> locked_session tx = Some g
    \<and> is_ok (fst (je_release_lock lab_je g (ext dm1)))"
proof -
  have "\<exists>dm'. probe_lock_freedom lab_je prompt_times ''r1'' lab_dm = (ProvenFree, dm')"
    using lab_open
    by (simp add: probe_lock_freedom_def prompt_times_def in_time_def jt_lock_def jt_unlock_def new_transaction_def
        je_release_lock_def release_lock_def is_some_and_def lab_je_def lab_nc_def lab_reply_def lab_guard_def
        prevent_reuse_def cleanup_timeout_def Let_def)
  then obtain dm' where "probe_lock_freedom lab_je prompt_times ''r1'' lab_dm = (ProvenFree, dm')" ..
  from lock_proven_free_was_taken_and_returned [OF this] show ?thesis by blast
qed

end
