(* ===== verification/Changeset_Tools.thy ===== *)
theory Changeset_Tools
  imports Policy_Rs Commit_Recovery
begin

text \<open>
  \<^verbatim>\<open>rust-junosmcp-core/src/tools/changeset.rs\<close>: the change-set tools (create, approve, cancel,
  apply, confirm, status, list) and the clean-up after an apply that failed past staging. The
  coordinator they drive is the crate \<^verbatim>\<open>mecmcp_changeset\<close>, which is not part of the repository:
  its operations are the fields of the record \<open>changeset_coordinator\<close>, over an abstract store; the
  operations that are handed the device transaction act on it, on the staged handle and on the
  device manager as well. Cancellation is the coordinator's business and shows as an error of the
  operation it interrupts. Each tool is one step on the store: what other tasks do to the
  store between two of its awaits is not part of this model.

  A JSON value is a tree; the keys of an object are looked up, their order means nothing.
\<close>

section \<open>JSON results\<close>

datatype json = JNull | JBool bool | JNat nat | JStr string | JList "json list" | JObj "(string \<times> json) list"

definition jopt :: "string option \<Rightarrow> json" where
  "jopt x = (case x of None \<Rightarrow> JNull | Some s \<Rightarrow> JStr s)"

text \<open>\<^verbatim>\<open>Map::extend\<close>: the later value of a key wins.\<close>

definition extend_obj :: "(string \<times> json) list \<Rightarrow> (string \<times> json) list \<Rightarrow> (string \<times> json) list" where
  "extend_obj obj flds = flds @ filter (\<lambda>(k, _). k \<notin> fst ` set flds) obj"

section \<open>The coordinator's records\<close>

text \<open>
  Of the states of a change set this code writes one, \<^verbatim>\<open>Failed\<close>; the others are those its
  comments name.
\<close>

datatype change_set_state =
  CsPlanned | CsApproved | CsApplying | CsApplied | CsFailed | CsCancelled | CsExpired

record approval_evidence = ap_approver :: "string option"

text \<open>An action is stored as JSON text.\<close>

record change_set_record =
  cs_id :: string
  cs_device :: string
  cs_owner :: string
  cs_state :: change_set_state
  cs_operation_id :: "string option"
  cs_approval :: "approval_evidence option"
  cs_actions :: "string list"

record plan_result =
  pr_change_set_id :: string
  pr_digest :: string
  pr_state :: change_set_state

record waive_result = plan_result +
  wv_approver :: "string option"
  wv_approval_waiver :: json

record 'h apply_output =
  ao_operation_id :: string
  ao_after_fingerprint :: string
  ao_staged :: 'h

record apply_request =
  rq_change_set_id :: string
  rq_device :: string
  rq_endpoint :: string
  rq_principal :: string
  rq_expected_digest :: string
  rq_expected_fingerprint :: string
  rq_primary_action :: string
  rq_primary_target :: "string option"
  rq_config_authority :: "string option"
  rq_attribution :: attribution

text \<open>Which operation, on which device, for whom, and the candidate fingerprint it expects.\<close>

record op_ref =
  or_operation_id :: string
  or_device :: string
  or_principal :: string
  or_fingerprint :: string

text \<open>
  The coordinator, over its store of type \<open>'c\<close>, a transaction \<open>'t\<close>, a staged handle \<open>'h\<close> and the
  state \<open>'s\<close> they act on. The last fields are conversions of the libraries: the decoding of a stored
  action, the \<^verbatim>\<open>Debug\<close> text of a state and of a commit outcome, the JSON of a life-cycle state
  and of a record.
\<close>

record ('c, 't, 'h, 's) changeset_coordinator = "('c, 't, 's) coordinator" +
  cc_lab_mode :: bool
  cc_change_set :: "string \<Rightarrow> string \<Rightarrow> 'c \<Rightarrow> string + change_set_record"
  cc_update_change_set :: "change_set_record \<Rightarrow> 'c \<Rightarrow> (string + unit) \<times> 'c"
  cc_change_sets :: "'c \<Rightarrow> change_set_record list"
  cc_create :: "string \<Rightarrow> junos_action list \<Rightarrow> string \<Rightarrow> string \<Rightarrow> string \<Rightarrow> 'c \<Rightarrow> (string + plan_result) \<times> 'c"
  cc_waive :: "string \<Rightarrow> string \<Rightarrow> string \<Rightarrow> string \<Rightarrow> 'c \<Rightarrow> (string + waive_result) \<times> 'c"
  cc_approve :: "string \<Rightarrow> string \<Rightarrow> string \<Rightarrow> string \<Rightarrow> actor_type \<Rightarrow> 'c \<Rightarrow> (string + plan_result) \<times> 'c"
  cc_cancel :: "string \<Rightarrow> string \<Rightarrow> string \<Rightarrow> 'c \<Rightarrow> (string + plan_result) \<times> 'c"
  cc_apply :: "apply_request \<Rightarrow> 't \<Rightarrow> 's \<Rightarrow> 'c \<Rightarrow> (string + 'h apply_output) \<times> 't \<times> 's \<times> 'c"
  cc_diff :: "op_ref \<Rightarrow> 't \<Rightarrow> 'h \<Rightarrow> 's \<Rightarrow> 'c \<Rightarrow> (string + string) \<times> 't \<times> 'h \<times> 's \<times> 'c"
  cc_validate :: "op_ref \<Rightarrow> 't \<Rightarrow> 'h \<Rightarrow> 's \<Rightarrow> 'c \<Rightarrow> (string + junos_validation) \<times> 't \<times> 'h \<times> 's \<times> 'c"
  cc_commit :: "op_ref \<Rightarrow> string \<Rightarrow> attribution \<Rightarrow> nat option \<Rightarrow> 't \<Rightarrow> 'h \<Rightarrow> 's \<Rightarrow> 'c
    \<Rightarrow> (string + commit_outcome) \<times> 't \<times> 'h \<times> 's \<times> 'c"
  cc_status :: "string \<Rightarrow> string \<Rightarrow> 'c \<Rightarrow> string + json"
  cc_status_with_actions :: "string \<Rightarrow> string \<Rightarrow> 'c \<Rightarrow> string + json"
  cc_from_value :: "string \<Rightarrow> string + junos_action"
  cc_state_debug :: "change_set_state \<Rightarrow> string"
  cc_outcome_debug :: "commit_outcome \<Rightarrow> string"
  cc_lifecycle_json :: "lifecycle_state \<Rightarrow> json"
  cc_record_json :: "change_set_record \<Rightarrow> json"

section \<open>After a failed apply\<close>

datatype abandon_outcome = CandidateNotCommitted | CommitOutcomeUnknown

record abandon =
  ab_change_set_id :: string
  ab_device :: string
  ab_principal :: string
  ab_operation_id :: string
  ab_pre_stage_fingerprint :: string
  ab_reason :: string
  ab_outcome :: abandon_outcome

text \<open>
  What the clean-up asks of a transaction and of a staged handle: each request as the answer it
  eventually gets, how long that takes, and the state left behind when it is abandoned first.
\<close>

record ('t, 'h, 's) device_txn =
  dt_release :: "'h \<Rightarrow> 's \<Rightarrow> bool \<times> 'h \<times> 's"
  dt_lock :: "'t \<Rightarrow> 's \<Rightarrow> (unit, jmcp_error, 't \<times> 's) answer"
  dt_fingerprint :: "'t \<Rightarrow> 's \<Rightarrow> (string, jmcp_error, 't \<times> 's) answer"
  dt_unlock :: "'t \<Rightarrow> 's \<Rightarrow> (unlock_outcome, jmcp_error, 't \<times> 's) answer"

datatype probe_error = ProbeFailed jmcp_error | TimedOut

definition probe :: "nat \<Rightarrow> ('a, jmcp_error, 'w) answer \<Rightarrow> (probe_error + 'a) \<times> 'w" where
  "probe budget a =
     (if in_time budget (takes a) then (map_err ProbeFailed (says a), after a)
      else (Inl TimedOut, dropped a))"

definition probe_error_to_string :: "probe_error \<Rightarrow> string" where
  "probe_error_to_string e =
     (case e of ProbeFailed err \<Rightarrow> error_to_string err | TimedOut \<Rightarrow> ''timed out inside the cleanup budget'')"

definition settle_change_set ::
    "('c, 't, 'h, 's) changeset_coordinator \<Rightarrow> string \<Rightarrow> string \<Rightarrow> 'c \<Rightarrow> 'c" where
  "settle_change_set C cid device c =
     (case cc_change_set C cid device c of
        Inr cs \<Rightarrow> snd (cc_update_change_set C (cs\<lparr>cs_state := CsFailed\<rparr>) c)
      | Inl _ \<Rightarrow> c)"

text \<open>
  The probes that justify calling the candidate discarded, under one lock: whether both facts are
  established, and the record with the fingerprint that was read.
\<close>

definition prove_reverted ::
    "('t, 'h, 's) device_txn \<Rightarrow> nat \<Rightarrow> string \<Rightarrow> operation_record \<Rightarrow> 't \<Rightarrow> 's
      \<Rightarrow> bool \<times> operation_record \<times> 't \<times> 's" where
  "prove_reverted D budget pre_stage_fingerprint rec tx s =
     (case probe budget (dt_lock D tx s) of
        (Inl _, tx1, s1) \<Rightarrow> (False, rec, tx1, s1)
      | (Inr _, tx1, s1) \<Rightarrow>
          (let (observed, tx2, s2) = probe budget (dt_fingerprint D tx1 s1);
               (unlocked, tx3, s3) = probe budget (dt_unlock D tx2 s2);
               returned = (unlocked = Inr UnlockReleased)
           in case observed of
                Inr current \<Rightarrow>
                  if current = pre_stage_fingerprint
                  then (returned, rec\<lparr>op_current := current\<rparr>, tx3, s3)
                  else (False, rec, tx3, s3)
              | Inl _ \<Rightarrow> (False, rec, tx3, s3)))"

definition settled_record :: "abandon_outcome \<Rightarrow> string \<Rightarrow> operation_record \<Rightarrow> operation_record" where
  "settled_record outcome reason rec =
     (case outcome of
        CandidateNotCommitted \<Rightarrow>
          rec\<lparr>op_config_lock_held := False,
              op_details := Some (''candidate discarded with the staged session after a failed apply: '' @ reason),
              op_state := StDiscarded\<rparr>
      | CommitOutcomeUnknown \<Rightarrow>
          rec\<lparr>op_details := Some (''commit outcome unknown after a failed apply; verify the device ''
                @ ''and settle with `state resolve`: '' @ reason),
              op_state := StIndeterminate\<rparr>)"

definition abandon_failed_apply ::
    "('c, 't, 'h, 's) changeset_coordinator \<Rightarrow> ('t, 'h, 's) device_txn \<Rightarrow> nat \<Rightarrow> abandon
      \<Rightarrow> 't \<times> 'h \<times> 's \<times> 'c \<Rightarrow> 't \<times> 'h \<times> 's \<times> 'c" where
  "abandon_failed_apply C D budget ab = (\<lambda>(tx, st, s, c).
     let (released, st1, s1) = dt_release D st s;
         settle = settle_change_set C (ab_change_set_id ab) (ab_device ab)
     in if \<not> released then (tx, st1, s1, settle c)
        else
          (case co_record C (ab_operation_id ab) (ab_principal ab) (ab_device ab) c of
             Inl _ \<Rightarrow> (tx, st1, s1, settle c)
           | Inr rec \<Rightarrow>
               (let outcome =
                      (if ab_outcome ab = CommitOutcomeUnknown
                          \<and> \<not> (op_state rec = StCommitting \<or> op_state rec = StIndeterminate)
                       then CandidateNotCommitted else ab_outcome ab);
                    (settled, rec1, tx1, s2) =
                      (if outcome = CommitOutcomeUnknown then (True, rec, tx, s1)
                       else prove_reverted D budget (ab_pre_stage_fingerprint ab) rec tx s1)
                in if \<not> settled then (tx1, st1, s2, settle c)
                   else (tx1, st1, s2,
                         settle (snd (co_update C (settled_record outcome (ab_reason ab) rec1) c))))))"

section \<open>Planning\<close>

definition approver_for_commit :: "change_set_record \<Rightarrow> string option" where
  "approver_for_commit rec = Option.bind (cs_approval rec) ap_approver"

definition format_or_set :: "config_payload_spec \<Rightarrow> string" where
  "format_or_set p = (case ps_format p of None \<Rightarrow> ''set'' | Some f \<Rightarrow> f)"

text \<open>The first loop over the actions; the value says whether an override is requested.\<close>

fun check_plan_shape :: "nat \<Rightarrow> junos_action list \<Rightarrow> bool \<Rightarrow> bool jres" where
  "check_plan_shape index [] requests_override = Inr requests_override"
| "check_plan_shape index (act # acts) requests_override =
     and_then (map_err Validation (validate_shape act index)) (\<lambda>_.
       case ja_payload act of
         None \<Rightarrow> check_plan_shape (Suc index) acts requests_override
       | Some p \<Rightarrow>
           and_then (build_config_payload [] (Some (format_or_set p))) (\<lambda>_.
           and_then (parse_load_mode (ps_mode p)) (\<lambda>requested_mode.
           and_then (resolve_load_action (format_or_set p) requested_mode) (\<lambda>_.
             check_plan_shape (Suc index) acts (requested_mode = Override \<or> requests_override)))))"

text \<open>The configuration gate of every tool that loads text: the policy's decision as a result.\<close>

definition check_config_gate ::
    "'a policy_lib \<Rightarrow> 'a policy \<Rightarrow> string \<Rightarrow> string \<Rightarrow> string \<Rightarrow> string \<Rightarrow> unit jres" where
  "check_config_gate PL pol tool device fmt text =
     and_then (check_config PL pol device fmt text) (\<lambda>d.
       case d of
         Allow \<Rightarrow> Inr ()
       | Deny rule source line_number \<Rightarrow>
           Inl (Denied tool device (cr_pattern rule) (pl_source_str PL source) (excerpt text) line_number)
       | DenyAllowlist _ _ _ \<Rightarrow> Inl (ConfigDomainAllowlistInvariant tool device))"

definition check_payload_policy ::
    "'a policy_lib \<Rightarrow> 'a policy \<Rightarrow> string \<Rightarrow> string \<Rightarrow> config_payload_spec \<Rightarrow> unit jres" where
  "check_payload_policy PL pol tool device p =
     check_config_gate PL pol tool device (format_or_set p) (ps_text p)"

fun check_plan_policy ::
    "'a policy_lib \<Rightarrow> 'a policy \<Rightarrow> string \<Rightarrow> string \<Rightarrow> junos_action list \<Rightarrow> unit jres" where
  "check_plan_policy PL pol tool device [] = Inr ()"
| "check_plan_policy PL pol tool device (act # acts) =
     (case ja_payload act of
        None \<Rightarrow> check_plan_policy PL pol tool device acts
      | Some p \<Rightarrow>
          and_then (check_payload_policy PL pol tool device p) (\<lambda>_. check_plan_policy PL pol tool device acts))"

record create_args =
  ca_device :: string
  ca_expected_fingerprint :: string
  ca_actions :: "junos_action list"

definition POLICY_SIGNATURE :: string where "POLICY_SIGNATURE = ''junos-default-v1''"

definition create_change_set ::
    "'a policy_lib \<Rightarrow> 'a policy \<Rightarrow> ('c, 't, 'h, 's) changeset_coordinator \<Rightarrow> inventory \<Rightarrow> attribution
      \<Rightarrow> create_args \<Rightarrow> 'c \<Rightarrow> json jres \<times> 'c" where
  "create_change_set PL pol C iv at args c =
     (case and_then (inv_get iv (ca_device args)) (\<lambda>_.
           and_then (check_plan_shape 0 (ca_actions args) False) (\<lambda>requests_override.
             if requests_override \<and> cc_lab_mode C
             then Inl (OverrideRequiresHumanApproval ''create_junos_change_set'')
             else check_plan_policy PL pol ''create_junos_change_set'' (ca_device args) (ca_actions args))) of
        Inl e \<Rightarrow> (Inl e, c)
      | Inr _ \<Rightarrow>
          (case cc_create C (ca_device args) (ca_actions args) (principal at) (ca_expected_fingerprint args)
                  POLICY_SIGNATURE c of
             (Inl e, c1) \<Rightarrow> (Inl (Validation e), c1)
           | (Inr res, c1) \<Rightarrow>
               if cc_lab_mode C
               then
                 (case cc_waive C (pr_change_set_id res) (ca_device args) (principal at) (pr_digest res) c1 of
                    (Inl e, c2) \<Rightarrow> (Inl (Validation e), c2)
                  | (Inr w, c2) \<Rightarrow>
                      (Inr (JObj [(''change_set_id'', JStr (pr_change_set_id w)),
                                  (''plan_digest'', JStr (pr_digest w)),
                                  (''state'', JStr (cc_state_debug C (pr_state w))),
                                  (''approver'', jopt (wv_approver w)),
                                  (''approval_waiver'', wv_approval_waiver w),
                                  (''message'', JStr (''change set created and approval waived: this server runs in lab mode, ''
                                      @ ''so no second principal reviewed it''))]), c2))
               else
                 (Inr (JObj [(''change_set_id'', JStr (pr_change_set_id res)),
                             (''plan_digest'', JStr (pr_digest res)),
                             (''state'', JStr (cc_state_debug C (pr_state res))),
                             (''message'', JStr ''change set created; awaiting approval by a second principal'')]), c1)))"

definition approve_change_set ::
    "('c, 't, 'h, 's) changeset_coordinator \<Rightarrow> inventory \<Rightarrow> attribution \<Rightarrow> string \<Rightarrow> string \<Rightarrow> string
      \<Rightarrow> 'c \<Rightarrow> json jres \<times> 'c" where
  "approve_change_set C iv at cid device expected_digest c =
     (case inv_get iv device of
        Inl e \<Rightarrow> (Inl e, c)
      | Inr _ \<Rightarrow>
          (case cc_approve C cid device (principal at) expected_digest (attr_actor_type at) c of
             (Inl e, c1) \<Rightarrow> (Inl (Validation e), c1)
           | (Inr res, c1) \<Rightarrow>
               (Inr (JObj [(''change_set_id'', JStr cid),
                           (''state'', JStr (cc_state_debug C (pr_state res))),
                           (''digest'', JStr (pr_digest res)),
                           (''message'', JStr ''change set approved; ready to apply'')]), c1)))"

definition cancel_change_set ::
    "('c, 't, 'h, 's) changeset_coordinator \<Rightarrow> inventory \<Rightarrow> attribution \<Rightarrow> string \<Rightarrow> string
      \<Rightarrow> 'c \<Rightarrow> json jres \<times> 'c" where
  "cancel_change_set C iv at cid device c =
     (case inv_get iv device of
        Inl e \<Rightarrow> (Inl e, c)
      | Inr _ \<Rightarrow>
          (case cc_cancel C cid device (principal at) c of
             (Inl e, c1) \<Rightarrow> (Inl (Validation e), c1)
           | (Inr res, c1) \<Rightarrow>
               (Inr (JObj [(''change_set_id'', JStr cid),
                           (''state'', JStr (cc_state_debug C (pr_state res))),
                           (''digest'', JStr (pr_digest res)),
                           (''message'', JStr ''change set cancelled'')]), c1)))"

section \<open>Applying\<close>

text \<open>
  What an apply reads from outside: the device side, how long its clean-up requests take, the
  process-wide settings, the policy, and the library call that names the change set and its approver
  in an attribution.
\<close>

record ('a, 'd, 'w) tool_env =
  te_je :: "('d, 'w) junos_env"
  te_times :: "('d, 'w) probe_times"
  te_knobs :: knobs
  te_pl :: "'a policy_lib"
  te_policy :: "'a policy"
  te_with_change_set :: "string \<Rightarrow> string option \<Rightarrow> attribution \<Rightarrow> attribution"

text \<open>The Junos transaction as the clean-up sees it. The fingerprint is one read through the session.\<close>

definition junos_txn ::
    "('d, 'w) junos_env \<Rightarrow> ('d, 'w) probe_times
      \<Rightarrow> ('d junos_transaction, 'd junos_staged, ('d, 'w) device_manager) device_txn" where
  "junos_txn E T =
     \<lparr>dt_release = js_release E,
      dt_lock = \<lambda>tx dm. (case jt_lock E tx dm of (r, tx', dm') \<Rightarrow>
        \<lparr>takes = lock_takes T, says = r, after = (tx', dm'), dropped = (tx, lock_lost T dm)\<rparr>),
      dt_fingerprint = \<lambda>tx dm. (case jt_fingerprint E tx dm of (r, dm') \<Rightarrow>
        \<lparr>takes = cli_takes T, says = r, after = (tx, dm'), dropped = (tx, cli_lost T dm)\<rparr>),
      dt_unlock = \<lambda>tx dm. (case jt_unlock E tx dm of (r, tx', dm') \<Rightarrow>
        \<lparr>takes = unlock_takes T, says = r, after = (tx', dm'),
         dropped = (tx\<lparr>locked_session := None\<rparr>, unlock_lost T dm)\<rparr>)\<rparr>"

record apply_args =
  aa_change_set_id :: string
  aa_expected_digest :: string
  aa_expected_fingerprint :: string
  aa_device :: string
  aa_confirm_timeout_mins :: "u32 option"

definition resolve_confirm :: "knobs \<Rightarrow> u32 option \<Rightarrow> (u32 \<times> u32) option jres" where
  "resolve_confirm k mins =
     (case resolve_confirm_timeout k mins of
        Confirmed m \<Rightarrow> and_then (confirm_timeout_to_secs m) (\<lambda>secs. Inr (Some (m, secs)))
      | OptedOut \<Rightarrow> Inr None)"

text \<open>The stored actions, each decoded, checked against the policy and resolved to its load mode.\<close>

fun recheck_actions ::
    "(string \<Rightarrow> string + junos_action) \<Rightarrow> 'a policy_lib \<Rightarrow> 'a policy \<Rightarrow> string \<Rightarrow> string list \<Rightarrow> string list jres" where
  "recheck_actions decode PL pol device [] = Inr []"
| "recheck_actions decode PL pol device (v # vs) =
     and_then (map_err (\<lambda>e. Validation (''failed to deserialize action: '' @ e)) (decode v)) (\<lambda>act.
       case ja_payload act of
         None \<Rightarrow> recheck_actions decode PL pol device vs
       | Some p \<Rightarrow>
           and_then (check_payload_policy PL pol ''apply_junos_change_set'' device p) (\<lambda>_.
           and_then (parse_load_mode (ps_mode p)) (\<lambda>requested_mode.
           and_then (resolve_load_action (format_or_set p) requested_mode) (\<lambda>load_action.
           and_then (recheck_actions decode PL pol device vs) (\<lambda>modes.
             Inr (load_action_as_str load_action # modes))))))"

definition primary_action :: "string list \<Rightarrow> string" where
  "primary_action modes =
     (case modes of
        m # rest \<Rightarrow> if list_all (\<lambda>x. x = m) rest then m else ''mixed''
      | [] \<Rightarrow> ''merge'')"

definition authority_warning :: "device_entry \<Rightarrow> (string \<times> json) list" where
  "authority_warning entry =
     (if \<not> is_local (config_authority entry)
      then [(''config_authority_warning'', JStr (ownership_warning (authority_str (config_authority entry))))]
      else [])"

text \<open>Everything before the first request that stages something.\<close>

definition prepare_apply ::
    "('a, 'd, 'w) tool_env \<Rightarrow> ('c, 't, 'h, 's) changeset_coordinator \<Rightarrow> inventory \<Rightarrow> apply_args \<Rightarrow> 'c
      \<Rightarrow> (device_entry \<times> (u32 \<times> u32) option \<times> change_set_record \<times> string list) jres" where
  "prepare_apply TE C iv args c =
     and_then (inv_get iv (aa_device args)) (\<lambda>entry.
     and_then (resolve_confirm (te_knobs TE) (aa_confirm_timeout_mins args)) (\<lambda>confirm.
     and_then (map_err Validation (cc_change_set C (aa_change_set_id args) (aa_device args) c)) (\<lambda>rec.
     and_then (recheck_actions (cc_from_value C) (te_pl TE) (te_policy TE) (aa_device args) (cs_actions rec)) (\<lambda>modes.
       Inr (entry, confirm, rec, modes)))))"

text \<open>A failure past staging: clean up, and return the error that brought it about.\<close>

definition fail_apply ::
    "('c, 't, 'h, 's) changeset_coordinator \<Rightarrow> ('t, 'h, 's) device_txn \<Rightarrow> nat \<Rightarrow> apply_args \<Rightarrow> string \<Rightarrow> string
      \<Rightarrow> string \<Rightarrow> abandon_outcome \<Rightarrow> 't \<times> 'h \<times> 's \<times> 'c \<Rightarrow> json jres \<times> 't \<times> 'h \<times> 's \<times> 'c" where
  "fail_apply C D budget args prin oid reason outcome z =
     (Inl (Validation reason),
      abandon_failed_apply C D budget
        \<lparr>ab_change_set_id = aa_change_set_id args, ab_device = aa_device args, ab_principal = prin,
         ab_operation_id = oid, ab_pre_stage_fingerprint = aa_expected_fingerprint args,
         ab_reason = reason, ab_outcome = outcome\<rparr> z)"

definition or_no_details :: "string option \<Rightarrow> string" where
  "or_no_details d = (case d of None \<Rightarrow> ''no details'' | Some x \<Rightarrow> x)"

definition report_commit ::
    "('c, 't, 'h, 's) changeset_coordinator \<Rightarrow> ('t, 'h, 's) device_txn \<Rightarrow> nat \<Rightarrow> apply_args \<Rightarrow> string \<Rightarrow> string
      \<Rightarrow> (string \<times> json) list \<Rightarrow> commit_outcome \<Rightarrow> 't \<times> 'h \<times> 's \<times> 'c \<Rightarrow> json jres \<times> 't \<times> 'h \<times> 's \<times> 'c" where
  "report_commit C D budget args prin oid warning outcome z =
     (let ids = [(''change_set_id'', JStr (aa_change_set_id args)), (''operation_id'', JStr oid)] in
      case outcome of
        Reconciled succeeded _ details \<Rightarrow>
          if succeeded
          then (Inr (JObj (ids @ [(''state'', JStr ''Applied''), (''commit_outcome'', JStr ''Reconciled''),
                  (''details'', jopt details), (''message'', JStr ''change set applied and committed successfully'')]
                  @ warning)), z)
          else fail_apply C D budget args prin oid (''commit failed: '' @ or_no_details details) CandidateNotCommitted z
      | Indeterminate why \<Rightarrow>
          fail_apply C D budget args prin oid
            (''commit outcome indeterminate, manual reconciliation required: '' @ why) CommitOutcomeUnknown z
      | Detached job_id \<Rightarrow>
          (Inr (JObj (ids @ [(''state'', JStr ''Committing''), (''commit_outcome'', JStr ''Detached''),
             (''job_id'', JStr job_id), (''message'', JStr ''commit detached, poll for completion'')] @ warning)), z)
      | AwaitingConfirmation _ deadline details \<Rightarrow>
          (Inr (JObj (ids @ [(''state'', JStr ''AwaitingConfirmation''),
             (''commit_outcome'', JStr ''AwaitingConfirmation''),
             (''rollback_deadline_unix'', JNat (unat deadline)), (''details'', jopt details),
             (''message'', JStr ''commit awaiting confirmation; auto-rollback pending'')] @ warning)), z))"

text \<open>Diff, validate and commit, for an operation that is staged.\<close>

definition finish_apply ::
    "('c, 't, 'h, 's) changeset_coordinator \<Rightarrow> ('t, 'h, 's) device_txn \<Rightarrow> nat \<Rightarrow> apply_args \<Rightarrow> attribution
      \<Rightarrow> nat option \<Rightarrow> (string \<times> json) list \<Rightarrow> string \<Rightarrow> 'h apply_output \<Rightarrow> 't \<Rightarrow> 's \<Rightarrow> 'c
      \<Rightarrow> json jres \<times> 't \<times> 'h \<times> 's \<times> 'c" where
  "finish_apply C D budget args at confirm_timeout warning prin out tx s c =
     (let oid = ao_operation_id out;
          ref = \<lparr>or_operation_id = oid, or_device = aa_device args, or_principal = prin,
                 or_fingerprint = ao_after_fingerprint out\<rparr> in
      case cc_diff C ref tx (ao_staged out) s c of
        (Inl reason, z) \<Rightarrow> fail_apply C D budget args prin oid reason CandidateNotCommitted z
      | (Inr _, tx1, st1, s1, c1) \<Rightarrow>
          (case cc_validate C ref tx1 st1 s1 c1 of
             (Inl reason, z) \<Rightarrow> fail_apply C D budget args prin oid reason CandidateNotCommitted z
           | (Inr validation, tx2, st2, s2, c2) \<Rightarrow>
               if \<not> jv_valid validation
               then fail_apply C D budget args prin oid
                      (''configuration validation failed: '' @ or_no_details (jv_details validation))
                      CandidateNotCommitted (tx2, st2, s2, c2)
               else
                 (case cc_commit C ref POLICY_SIGNATURE at confirm_timeout tx2 st2 s2 c2 of
                    (Inl reason, z) \<Rightarrow> fail_apply C D budget args prin oid reason CommitOutcomeUnknown z
                  | (Inr outcome, z) \<Rightarrow> report_commit C D budget args prin oid warning outcome z)))"

text \<open>A transaction and a staged handle going out of scope give up the sessions they still own.\<close>

definition drop_session :: "('d, 'w) junos_env \<Rightarrow> 'd pooled_device option \<Rightarrow> ('d, 'w) device_manager \<Rightarrow> ('d, 'w) device_manager" where
  "drop_session E g dm = (case g of None \<Rightarrow> dm | Some g \<Rightarrow> drop_dev (je_nc E) g dm)"

type_synonym ('c, 'd, 'w) junos_coordinator =
  "('c, 'd junos_transaction, 'd junos_staged, ('d, 'w) device_manager) changeset_coordinator"

definition apply_request_for ::
    "('a, 'd, 'w) tool_env \<Rightarrow> attribution \<Rightarrow> apply_args \<Rightarrow> device_entry \<Rightarrow> change_set_record \<Rightarrow> string list
      \<Rightarrow> apply_request" where
  "apply_request_for TE at args entry rec modes =
     \<lparr>rq_change_set_id = aa_change_set_id args, rq_device = aa_device args,
      rq_endpoint = ''junos://'' @ ip entry @ '':'' @ show_nat (unat (port entry)),
      rq_principal = principal at,
      rq_expected_digest = aa_expected_digest args, rq_expected_fingerprint = aa_expected_fingerprint args,
      rq_primary_action = primary_action modes, rq_primary_target = None,
      rq_config_authority = Some (authority_str (config_authority entry)),
      rq_attribution = te_with_change_set TE (aa_change_set_id args) (approver_for_commit rec) at\<rparr>"

definition apply_change_set ::
    "('a, 'd, 'w) tool_env \<Rightarrow> ('c, 'd, 'w) junos_coordinator \<Rightarrow> attribution \<Rightarrow> apply_args
      \<Rightarrow> ('d, 'w) device_manager \<Rightarrow> 'c \<Rightarrow> json jres \<times> ('d, 'w) device_manager \<times> 'c" where
  "apply_change_set TE C at args dm c =
     (case prepare_apply TE C (dm_inventory dm) args c of
        Inl e \<Rightarrow> (Inl e, dm, c)
      | Inr (entry, confirm, rec, modes) \<Rightarrow>
          (let E = te_je TE; rq = apply_request_for TE at args entry rec modes in
           case cc_apply C rq (new_transaction (aa_device args)) dm c of
             (Inl e, tx, dm1, c1) \<Rightarrow> (Inl (Validation e), drop_session E (locked_session tx) dm1, c1)
           | (Inr out, tx, dm1, c1) \<Rightarrow>
               (let (r, tx', st', dm2, c2) =
                      finish_apply C (junos_txn E (te_times TE)) (cleanup_timeout (je_knob E)) args
                        (rq_attribution rq) (map_option (\<lambda>(_, secs). unat secs * 1000) confirm)
                        (authority_warning entry) (principal at) out tx dm1 c1
                in (r, drop_session E (locked_session tx') (drop_session E (js_session st') dm2), c2))))"

section \<open>Confirming and reading back\<close>

definition confirm_change_set ::
    "('d, 'w) junos_env \<Rightarrow> ('c, 'd, 'w) junos_coordinator \<Rightarrow> attribution \<Rightarrow> string \<Rightarrow> string
      \<Rightarrow> ('d, 'w) device_manager \<Rightarrow> 'c \<Rightarrow> json jres \<times> ('d, 'w) device_manager \<times> 'c" where
  "confirm_change_set E C at oid device dm c =
     (case inv_get (dm_inventory dm) device of
        Inl e \<Rightarrow> (Inl e, dm, c)
      | Inr _ \<Rightarrow>
          (case co_record C oid (principal at) device c of
             Inl e \<Rightarrow> (Inl (Validation e), dm, c)
           | Inr rec \<Rightarrow>
               (case op_rollback_deadline rec of
                  None \<Rightarrow>
                    (Inl (Validation (''operation '' @ oid @ '' has no pending confirmation; it was not committed with a confirm window'')),
                     dm, c)
                | Some deadline \<Rightarrow>
                    if je_unix_now E \<ge> deadline
                    then (Inl (Validation (''the confirmation window for operation '' @ oid @ '' closed at ''
                             @ show_nat (unat deadline) @ ''; the device has already rolled the change back'')), dm, c)
                    else
                      (case jt_confirm_commit E at (new_transaction device) dm of
                         (Inl e, dm1) \<Rightarrow> (Inl e, dm1, c)
                       | (Inr (Reconciled True _ details), dm1) \<Rightarrow>
                           (case co_update C (rec\<lparr>op_state := StCommitted, op_rollback_deadline := None,
                                                  op_details := details\<rparr>) c of
                              (Inl e, c1) \<Rightarrow> (Inl (Validation e), dm1, c1)
                            | (Inr _, c1) \<Rightarrow>
                                (Inr (JObj [(''operation_id'', JStr oid), (''device'', JStr device),
                                   (''state'', JStr ''Committed''), (''details'', jopt details),
                                   (''message'', JStr ''confirming commit accepted; the automatic rollback is cancelled'')]),
                                 dm1, c1))
                       | (Inr other, dm1) \<Rightarrow>
                           (Inr (JObj [(''operation_id'', JStr oid), (''device'', JStr device),
                              (''state'', JStr ''Committing''), (''commit_outcome'', JStr (cc_outcome_debug C other)),
                              (''rollback_deadline_unix'', JNat (unat deadline)),
                              (''message'', JStr (''the confirming commit did not report success; ''
                                 @ ''the rollback timer is still running''))]), dm1, c)))))"

definition derive_commit_confirmation ::
    "('c, 't, 'h, 's) changeset_coordinator \<Rightarrow> string \<Rightarrow> string \<Rightarrow> u64 \<Rightarrow> 'c \<Rightarrow> (string \<times> json) list" where
  "derive_commit_confirmation C cid device unix_now c =
     (case cc_change_set C cid device c of
        Inl _ \<Rightarrow> []
      | Inr cs \<Rightarrow>
          (case cs_operation_id cs of
             None \<Rightarrow> []
           | Some oid \<Rightarrow>
               (case co_record C oid (cs_owner cs) device c of
                  Inl _ \<Rightarrow> []
                | Inr operation \<Rightarrow>
                    (let flds = [(''operation_id'', JStr (op_id operation)),
                                   (''operation_state'', cc_lifecycle_json C (op_state operation))] in
                     case op_rollback_deadline operation of
                       Some deadline \<Rightarrow>
                         if op_state operation = StDiscarded
                         then flds @ [(''commit_confirmation'', JStr ''discarded'')]
                         else if op_state operation = StCommitted \<and> unix_now \<ge> deadline
                         then flds @ [(''commit_confirmation'', JStr ''indeterminate'')]
                         else flds @ [(''rollback_deadline_unix'', JNat (unat deadline)),
                                        (''commit_confirmation'',
                                         JStr (if unix_now < deadline then ''awaiting_confirmation''
                                               else ''presumed_auto_reverted''))]
                     | None \<Rightarrow>
                         if op_state operation = StCommitted
                         then flds @ [(''commit_confirmation'', JStr ''committed'')]
                         else flds))))"

definition merge_status ::
    "('c, 't, 'h, 's) changeset_coordinator \<Rightarrow> string \<Rightarrow> string \<Rightarrow> u64 \<Rightarrow> 'c \<Rightarrow> string + json \<Rightarrow> json jres" where
  "merge_status C cid device unix_now c status =
     and_then (map_err Validation status) (\<lambda>v.
       case v of
         JObj obj \<Rightarrow> Inr (JObj (extend_obj obj (derive_commit_confirmation C cid device unix_now c)))
       | _ \<Rightarrow> Inl (Validation ''status is not an object''))"

definition get_change_set_status ::
    "('c, 't, 'h, 's) changeset_coordinator \<Rightarrow> string \<Rightarrow> string \<Rightarrow> u64 \<Rightarrow> 'c \<Rightarrow> json jres" where
  "get_change_set_status C cid device unix_now c =
     merge_status C cid device unix_now c (cc_status C cid device c)"

definition get_change_set_status_with_actions ::
    "('c, 't, 'h, 's) changeset_coordinator \<Rightarrow> string \<Rightarrow> string \<Rightarrow> u64 \<Rightarrow> 'c \<Rightarrow> json jres" where
  "get_change_set_status_with_actions C cid device unix_now c =
     merge_status C cid device unix_now c (cc_status_with_actions C cid device c)"

definition list_change_sets ::
    "('c, 't, 'h, 's) changeset_coordinator \<Rightarrow> inventory \<Rightarrow> string option \<Rightarrow> 'c \<Rightarrow> json" where
  "list_change_sets C iv device_filter c =
     JList (map (cc_record_json C)
       (filter (\<lambda>rec. \<not> (case device_filter of Some d \<Rightarrow> cs_device rec \<noteq> d | None \<Rightarrow> False)
                 \<and> is_ok (inv_get iv (cs_device rec)))
         (cc_change_sets C c)))"

definition get_candidate_fingerprint ::
    "('d, 'w) junos_env \<Rightarrow> string \<Rightarrow> ('d, 'w) device_manager \<Rightarrow> json jres \<times> ('d, 'w) device_manager" where
  "get_candidate_fingerprint E device dm =
     (case jt_fingerprint E (new_transaction device) dm of
        (Inl e, dm') \<Rightarrow> (Inl (Validation (error_to_string e)), dm')
      | (Inr fp, dm') \<Rightarrow>
          (Inr (JObj [(''device'', JStr device), (''candidate_fingerprint'', JStr fp)]), dm'))"

section \<open>What the clean-up establishes\<close>

text \<open>
  The proof that the candidate is back: within the budget the lock was granted, the fingerprint read
  under it is the one from before staging, and the lock was given back.
\<close>

definition revert_proven :: "('t, 'h, 's) device_txn \<Rightarrow> nat \<Rightarrow> string \<Rightarrow> 't \<Rightarrow> 's \<Rightarrow> bool" where
  "revert_proven D budget pre tx s \<longleftrightarrow>
     (\<exists>tx1 s1 tx2 s2. probe budget (dt_lock D tx s) = (Inr (), tx1, s1)
        \<and> probe budget (dt_fingerprint D tx1 s1) = (Inr pre, tx2, s2)
        \<and> fst (probe budget (dt_unlock D tx2 s2)) = Inr UnlockReleased)"

lemma probe_Inr_iff [flow_simps]:
  "probe budget a = (Inr v, w) \<longleftrightarrow> in_time budget (takes a) \<and> says a = Inr v \<and> w = after a"
  by (auto simp: probe_def flow_simps split: if_splits)

lemma prove_reverted_spec:
  assumes "prove_reverted D budget pre rec tx s = (settled, rec1, tx1, s1)" and settled
  shows "revert_proven D budget pre tx s \<and> rec1 = rec\<lparr>op_current := pre\<rparr>"
proof -
  obtain l tx1 s1 where l: "probe budget (dt_lock D tx s) = (l, tx1, s1)" by (metis surj_pair)
  obtain f tx2 s2 where f: "probe budget (dt_fingerprint D tx1 s1) = (f, tx2, s2)" by (metis surj_pair)
  from assms l f show ?thesis
    by (auto simp: prove_reverted_def revert_proven_def Let_def split: sum.splits if_splits prod.splits)
qed

text \<open>What may be written about an operation whose apply failed.\<close>

definition honest_verdict ::
    "('t, 'h, 's) device_txn \<Rightarrow> nat \<Rightarrow> abandon \<Rightarrow> 't \<Rightarrow> 's \<Rightarrow> operation_record \<Rightarrow> operation_record \<Rightarrow> bool" where
  "honest_verdict D budget ab tx s rec r \<longleftrightarrow>
     (case op_state r of
        StDiscarded \<Rightarrow>
          revert_proven D budget (ab_pre_stage_fingerprint ab) tx s
          \<and> op_current r = ab_pre_stage_fingerprint ab \<and> \<not> op_config_lock_held r
          \<and> \<not> (ab_outcome ab = CommitOutcomeUnknown \<and> (op_state rec = StCommitting \<or> op_state rec = StIndeterminate))
      | StIndeterminate \<Rightarrow>
          ab_outcome ab = CommitOutcomeUnknown \<and> (op_state rec = StCommitting \<or> op_state rec = StIndeterminate)
          \<and> op_config_lock_held r = op_config_lock_held rec \<and> op_current r = op_current rec
      | _ \<Rightarrow> False)"

lemma abandon_store:
  assumes "dt_release D st s = (released, st1, s1)"
    and "abandon_failed_apply C D budget ab (tx, st, s, c) = (tx', st', s', c')"
  shows "\<exists>c1. c' = settle_change_set C (ab_change_set_id ab) (ab_device ab) c1
    \<and> (c1 = c \<or> released \<and>
        (\<exists>rec r. co_record C (ab_operation_id ab) (ab_principal ab) (ab_device ab) c = Inr rec
           \<and> honest_verdict D budget ab tx s1 rec r \<and> c1 = snd (co_update C r c)))"
proof -
  let ?settle = "settle_change_set C (ab_change_set_id ab) (ab_device ab)"
  show ?thesis
  proof (cases "released \<and> is_ok (co_record C (ab_operation_id ab) (ab_principal ab) (ab_device ab) c)")
    case False
    then have "c' = ?settle c"
      using assms by (auto simp: abandon_failed_apply_def is_ok_def Let_def split: sum.splits)
    then show ?thesis by blast
  next
    case True
    then obtain rec where rec: "co_record C (ab_operation_id ab) (ab_principal ab) (ab_device ab) c = Inr rec"
      by (auto simp: is_ok_iff)
    obtain settled rec1 tx1 s2 where p:
        "prove_reverted D budget (ab_pre_stage_fingerprint ab) rec tx s1 = (settled, rec1, tx1, s2)"
      by (metis surj_pair)
    consider (unproven) "c' = ?settle c"
      | (gone) "settled" "c' = ?settle (snd (co_update C (settled_record CandidateNotCommitted (ab_reason ab) rec1) c))"
          "\<not> (ab_outcome ab = CommitOutcomeUnknown \<and> (op_state rec = StCommitting \<or> op_state rec = StIndeterminate))"
      | (unknown) "c' = ?settle (snd (co_update C (settled_record CommitOutcomeUnknown (ab_reason ab) rec) c))"
          "ab_outcome ab = CommitOutcomeUnknown" "op_state rec = StCommitting \<or> op_state rec = StIndeterminate"
      using assms rec p True
      by (cases "ab_outcome ab") (auto simp: abandon_failed_apply_def Let_def split: if_splits)
    then show ?thesis
    proof cases
      case unproven
      then show ?thesis by blast
    next
      case gone
      from prove_reverted_spec [OF p gone(1)] gone(3)
      have "honest_verdict D budget ab tx s1 rec (settled_record CandidateNotCommitted (ab_reason ab) rec1)"
        by (simp add: honest_verdict_def settled_record_def)
      with gone(2) rec True show ?thesis by blast
    next
      case unknown
      then have "honest_verdict D budget ab tx s1 rec (settled_record CommitOutcomeUnknown (ab_reason ab) rec)"
        by (simp add: honest_verdict_def settled_record_def)
      with unknown(1) rec True show ?thesis by blast
    qed
  qed
qed

section \<open>Change sets never left claiming success\<close>

text \<open>
  What the coordinator's documentation promises of its store: a change set is found under its own
  identifiers, an update that was written is read back, writing an operation leaves change sets alone,
  and the operations past staging keep a readable change set readable.
\<close>

definition keeps_readable ::
    "('c, 't, 'h, 's) changeset_coordinator \<Rightarrow> 'c \<Rightarrow> 'c \<Rightarrow> bool" where
  "keeps_readable C c c' \<longleftrightarrow>
     (\<forall>i d. is_ok (cc_change_set C i d c) \<longrightarrow> is_ok (cc_change_set C i d c'))"

definition store_laws :: "('c, 't, 'h, 's) changeset_coordinator \<Rightarrow> bool" where
  "store_laws C \<longleftrightarrow>
     (\<forall>i d c cs. cc_change_set C i d c = Inr cs \<longrightarrow> cs_id cs = i \<and> cs_device cs = d)
     \<and> (\<forall>cs c. cc_change_set C (cs_id cs) (cs_device cs) (snd (cc_update_change_set C cs c)) = Inr cs)
     \<and> (\<forall>r c i d. cc_change_set C i d (snd (co_update C r c)) = cc_change_set C i d c)
     \<and> (\<forall>ref tx st s c. keeps_readable C c (snd (snd (snd (snd (cc_diff C ref tx st s c))))))
     \<and> (\<forall>ref tx st s c. keeps_readable C c (snd (snd (snd (snd (cc_validate C ref tx st s c))))))
     \<and> (\<forall>ref sig at t tx st s c. keeps_readable C c (snd (snd (snd (snd (cc_commit C ref sig at t tx st s c))))))"

definition marked_failed :: "('c, 't, 'h, 's) changeset_coordinator \<Rightarrow> string \<Rightarrow> string \<Rightarrow> 'c \<Rightarrow> bool" where
  "marked_failed C cid device c \<longleftrightarrow>
     (case cc_change_set C cid device c of Inr cs \<Rightarrow> cs_state cs = CsFailed | Inl _ \<Rightarrow> False)"

lemma store_laws_read_back:
  "store_laws C \<Longrightarrow>
     cc_change_set C (cs_id cs) (cs_device cs) (snd (cc_update_change_set C cs c)) = Inr cs"
  by (simp add: store_laws_def)

lemma settle_marks_failed:
  assumes "store_laws C" and "is_ok (cc_change_set C cid device c)"
  shows "marked_failed C cid device (settle_change_set C cid device c)"
proof -
  from assms(2) obtain cs where cs: "cc_change_set C cid device c = Inr cs" by (auto simp: is_ok_iff)
  with assms(1) have i: "cs_id cs = cid" "cs_device cs = device" by (auto simp: store_laws_def)
  have "cc_change_set C (cs_id (cs\<lparr>cs_state := CsFailed\<rparr>)) (cs_device (cs\<lparr>cs_state := CsFailed\<rparr>))
      (snd (cc_update_change_set C (cs\<lparr>cs_state := CsFailed\<rparr>) c)) = Inr (cs\<lparr>cs_state := CsFailed\<rparr>)"
    using store_laws_read_back [OF assms(1)] .
  with cs i show ?thesis by (simp add: settle_change_set_def marked_failed_def)
qed

lemma abandon_marks_failed:
  assumes "store_laws C" and "is_ok (cc_change_set C (ab_change_set_id ab) (ab_device ab) c)"
    and "abandon_failed_apply C D budget ab (tx, st, s, c) = (tx', st', s', c')"
  shows "marked_failed C (ab_change_set_id ab) (ab_device ab) c'"
proof -
  obtain released st1 s1 where rel: "dt_release D st s = (released, st1, s1)" by (metis surj_pair)
  from abandon_store [OF rel assms(3)] obtain c1 where
      c': "c' = settle_change_set C (ab_change_set_id ab) (ab_device ab) c1" and
      c1: "c1 = c \<or> (\<exists>r. c1 = snd (co_update C r c))" by blast
  have "cc_change_set C (ab_change_set_id ab) (ab_device ab) c1
      = cc_change_set C (ab_change_set_id ab) (ab_device ab) c"
    using c1 assms(1) by (auto simp: store_laws_def)
  with assms(1,2) c' show ?thesis by (simp add: settle_marks_failed)
qed

lemma fail_apply_marks_failed:
  assumes "store_laws C" and "is_ok (cc_change_set C (aa_change_set_id args) (aa_device args) c)"
    and "fail_apply C D budget args prin oid reason outcome (tx, st, s, c) = (r, tx', st', s', c')"
  shows "marked_failed C (aa_change_set_id args) (aa_device args) c'"
proof -
  let ?ab = "\<lparr>ab_change_set_id = aa_change_set_id args, ab_device = aa_device args, ab_principal = prin,
         ab_operation_id = oid, ab_pre_stage_fingerprint = aa_expected_fingerprint args,
         ab_reason = reason, ab_outcome = outcome\<rparr>"
  from assms(3) have "abandon_failed_apply C D budget ?ab (tx, st, s, c) = (tx', st', s', c')"
    by (simp add: fail_apply_def)
  from abandon_marks_failed [OF assms(1) _ this] assms(2) show ?thesis by simp
qed

lemma report_commit_failed:
  assumes "store_laws C" and "is_ok (cc_change_set C (aa_change_set_id args) (aa_device args) c)"
    and "report_commit C D budget args prin oid warning outcome (tx, st, s, c) = (Inl e, tx', st', s', c')"
  shows "marked_failed C (aa_change_set_id args) (aa_device args) c'"
proof -
  from assms(3) obtain reason oc where
    "fail_apply C D budget args prin oid reason oc (tx, st, s, c) = (Inl e, tx', st', s', c')"
    by (auto simp: report_commit_def Let_def split: commit_outcome.splits if_splits)
  from fail_apply_marks_failed [OF assms(1,2) this] show ?thesis .
qed

lemma readable_step:
  assumes "keeps_readable C c (snd (snd (snd (snd x))))" and "x = (r, tx', st', s', c')"
    and "is_ok (cc_change_set C i d c)"
  shows "is_ok (cc_change_set C i d c')"
  using assms by (auto simp: keeps_readable_def)

lemma finish_apply_failed:
  assumes L: "store_laws C" and ok: "is_ok (cc_change_set C (aa_change_set_id args) (aa_device args) c)"
    and F: "finish_apply C D budget args at t warning prin out tx s c = (Inl e, tx', st', s', c')"
  shows "marked_failed C (aa_change_set_id args) (aa_device args) c'"
proof -
  let ?ref = "\<lparr>or_operation_id = ao_operation_id out, or_device = aa_device args, or_principal = prin,
                 or_fingerprint = ao_after_fingerprint out\<rparr>"
  note fail = fail_apply_marks_failed [OF L]
  obtain d tx1 st1 s1 c1 where d: "cc_diff C ?ref tx (ao_staged out) s c = (d, tx1, st1, s1, c1)"
    by (metis surj_pair)
  obtain v tx2 st2 s2 c2 where v: "cc_validate C ?ref tx1 st1 s1 c1 = (v, tx2, st2, s2, c2)"
    by (metis surj_pair)
  obtain m tx3 st3 s3 c3 where m: "cc_commit C ?ref POLICY_SIGNATURE at t tx2 st2 s2 c2 = (m, tx3, st3, s3, c3)"
    by (metis surj_pair)
  have ok1: "is_ok (cc_change_set C (aa_change_set_id args) (aa_device args) c1)"
    using L by (intro readable_step [OF _ d ok]) (simp add: store_laws_def)
  have ok2: "is_ok (cc_change_set C (aa_change_set_id args) (aa_device args) c2)"
    using L by (intro readable_step [OF _ v ok1]) (simp add: store_laws_def)
  have ok3: "is_ok (cc_change_set C (aa_change_set_id args) (aa_device args) c3)"
    using L by (intro readable_step [OF _ m ok2]) (simp add: store_laws_def)
  show ?thesis
    using F d v m
    by (auto simp: finish_apply_def Let_def split: sum.splits if_splits
        intro: fail [OF ok1] fail [OF ok2] fail [OF ok3] report_commit_failed [OF L ok3])
qed

section \<open>Checks before staging\<close>

text \<open>What an action that is to be loaded has passed.\<close>

definition mode_ok :: "junos_action \<Rightarrow> bool" where
  "mode_ok act \<longleftrightarrow>
     (case ja_payload act of
        None \<Rightarrow> True
      | Some p \<Rightarrow> is_ok (and_then (parse_load_mode (ps_mode p)) (resolve_load_action (format_or_set p))))"

definition policy_ok :: "'a policy_lib \<Rightarrow> 'a policy \<Rightarrow> string \<Rightarrow> junos_action \<Rightarrow> bool" where
  "policy_ok PL pol device act \<longleftrightarrow>
     (case ja_payload act of
        None \<Rightarrow> True
      | Some p \<Rightarrow> check_config PL pol device (format_or_set p) (ps_text p) = Inr Allow)"

definition exactly_one :: "junos_action \<Rightarrow> bool" where
  "exactly_one act \<longleftrightarrow> (ja_payload act = None) \<noteq> (ja_rollback_source act = None)"

definition asks_override :: "junos_action \<Rightarrow> bool" where
  "asks_override act \<longleftrightarrow>
     (case ja_payload act of None \<Rightarrow> False | Some p \<Rightarrow> parse_load_mode (ps_mode p) = Inr Override)"

lemma check_config_gate_Inr_iff:
  "check_config_gate PL pol tool device fmt text = Inr u \<longleftrightarrow> check_config PL pol device fmt text = Inr Allow"
  by (cases "check_config PL pol device fmt text") (auto simp: check_config_gate_def split: decision.splits)

lemma check_payload_policy_Inr_iff:
  "check_payload_policy PL pol tool device p = Inr u \<longleftrightarrow>
     check_config PL pol device (format_or_set p) (ps_text p) = Inr Allow"
  by (simp add: check_payload_policy_def check_config_gate_Inr_iff)

lemma validate_shape_Inr_iff: "validate_shape act i = Inr u \<longleftrightarrow> exactly_one act"
  by (auto simp: validate_shape_def exactly_one_def split: option.splits)

lemma recheck_actions_ok:
  "recheck_actions decode PL pol device vs = Inr modes \<Longrightarrow>
     list_all (\<lambda>v. case decode v of Inr act \<Rightarrow> policy_ok PL pol device act \<and> mode_ok act | Inl _ \<Rightarrow> False) vs"
proof (induction vs arbitrary: modes)
  case Nil
  show ?case by simp
next
  case (Cons v vs)
  from Cons.prems obtain act where act: "decode v = Inr act" by (auto simp: flow_simps)
  from Cons.prems act have "policy_ok PL pol device act \<and> mode_ok act
      \<and> (\<exists>modes. recheck_actions decode PL pol device vs = Inr modes)"
    by (auto simp: flow_simps policy_ok_def mode_ok_def check_payload_policy_Inr_iff split: option.splits)
  with act Cons.IH show ?case by auto
qed

lemma check_plan_shape_Inr:
  "check_plan_shape i acts ov = Inr b \<Longrightarrow>
     (b \<longleftrightarrow> ov \<or> list_ex asks_override acts) \<and> list_all exactly_one acts \<and> list_all mode_ok acts"
proof (induction acts arbitrary: i ov)
  case Nil
  then show ?case by simp
next
  case (Cons act acts)
  then have "exactly_one act \<and> mode_ok act \<and>
      check_plan_shape (Suc i) acts (asks_override act \<or> ov) = Inr b"
    by (auto simp: flow_simps asks_override_def mode_ok_def validate_shape_Inr_iff split: option.splits)
  with Cons.IH show ?case by auto
qed

lemma check_plan_policy_Inr:
  "check_plan_policy PL pol tool device acts = Inr () \<Longrightarrow> list_all (policy_ok PL pol device) acts"
  by (induction acts) (auto simp: flow_simps check_payload_policy_Inr_iff policy_ok_def split: option.splits)

section \<open>A concrete store\<close>

text \<open>
  One change set and one operation, kept as a pair. Applying marks the change set applied and touches
  no device; validation finds the configuration invalid.
\<close>

type_synonym lab_store = "change_set_record \<times> operation_record"

definition no_session :: "nat junos_staged" where
  "no_session = \<lparr>js_router = ''r1'', js_diff = [], js_session = None\<rparr>"

definition lab_plan :: plan_result where
  "lab_plan = \<lparr>pr_change_set_id = ''cs1'', pr_digest = ''d1'', pr_state = CsPlanned\<rparr>"

definition lab_coord :: "(lab_store, nat, lab) junos_coordinator" where
  "lab_coord = \<lparr>co_operations = \<lambda>c. [snd c], co_record = \<lambda>i ow dv c. Inr (snd c),
     co_update = \<lambda>r c. (Inr (), (fst c, r)), cc_lab_mode = False,
     cc_change_set = \<lambda>i d c. if i = cs_id (fst c) \<and> d = cs_device (fst c) then Inr (fst c) else Inl ''unknown'',
     cc_update_change_set = \<lambda>cs c. (Inr (), (cs, snd c)), cc_change_sets = \<lambda>c. [fst c],
     cc_create = \<lambda>dv acts ow fp sig c. (Inr lab_plan, c),
     cc_waive = \<lambda>i d p dg c. (Inl ''not in lab mode'', c),
     cc_approve = \<lambda>i d p dg a c. (Inr lab_plan, c), cc_cancel = \<lambda>i d p c. (Inr lab_plan, c),
     cc_apply = \<lambda>rq tx dm c. (Inr \<lparr>ao_operation_id = op_id (snd c), ao_after_fingerprint = ''f2'', ao_staged = no_session\<rparr>,
       tx, dm, ((fst c)\<lparr>cs_state := CsApplied\<rparr>, snd c)),
     cc_diff = \<lambda>r tx st s c. (Inr [], tx, st, s, c),
     cc_validate = \<lambda>r tx st s c. (Inr \<lparr>jv_valid = False, jv_details = None\<rparr>, tx, st, s, c),
     cc_commit = \<lambda>r sig at t tx st s c. (Inr (Reconciled True None None), tx, st, s, c),
     cc_status = \<lambda>i d c. Inr (JObj []), cc_status_with_actions = \<lambda>i d c. Inr (JObj []),
     cc_from_value = \<lambda>v. Inr host_name_action, cc_state_debug = \<lambda>_. ''Planned'', cc_outcome_debug = \<lambda>_. [],
     cc_lifecycle_json = \<lambda>_. JNull, cc_record_json = \<lambda>_. JNull\<rparr>"

definition lab_cs :: change_set_record where
  "lab_cs = \<lparr>cs_id = ''cs1'', cs_device = ''r1'', cs_owner = ''ops'', cs_state = CsApproved,
     cs_operation_id = Some ''o1'', cs_approval = Some \<lparr>ap_approver = Some ''eve''\<rparr>, cs_actions = [''a'']\<rparr>"

definition lab_op :: operation_record where
  "lab_op = crashed\<lparr>op_state := StValidated\<rparr>"

definition open_engine :: "string engine_policy" where
  "open_engine = \<lparr>ep_mode = Allowlist,
     ep_commands = \<lparr>cd_blocklist = \<lparr>dr_defaults = [], dr_device_specific = Map.empty\<rparr>,
       cd_allowlist = \<lparr>al_entries = [], al_allowed_pipes = []\<rparr>\<rparr>,
     ep_config = \<lparr>dr_defaults = [], dr_device_specific = Map.empty\<rparr>,
     ep_pfe = \<lparr>cd_blocklist = \<lparr>dr_defaults = [], dr_device_specific = Map.empty\<rparr>,
       cd_allowlist = \<lparr>al_entries = [], al_allowed_pipes = []\<rparr>\<rparr>\<rparr>"

definition open_policy :: "string policy" where
  "open_policy = \<lparr>per_device = Map.empty, default_policy = open_engine, command_mode = Allowlist,
     default_commands_count = 0, default_config_count = 0, default_pfe_commands_count = 0, devices_with_rules = 0\<rparr>"

definition lab_te :: "(string, nat, lab) tool_env" where
  "lab_te = \<lparr>te_je = lab_je, te_times = prompt_times, te_knobs = default_knobs, te_pl = toy_engine,
     te_policy = open_policy, te_with_change_set = \<lambda>cid ap at. at\<lparr>change_set_id := Some cid, approver := ap\<rparr>\<rparr>"

definition lab_args :: apply_args where
  "lab_args = \<lparr>aa_change_set_id = ''cs1'', aa_expected_digest = ''d1'', aa_expected_fingerprint = ''f1'',
     aa_device = ''r1'', aa_confirm_timeout_mins = None\<rparr>"

lemma open_policy_allows:
  "check_config toy_engine open_policy r ''set'' text = Inr Allow"
  by (simp add: check_config_def open_policy_def policy_for_def toy_engine_def open_engine_def toy_rules_for_def
      toy_check_config_def toy_evaluate_def split: option.splits)

lemma lab_coord_simps:
  "co_record lab_coord = (\<lambda>i ow dv c. Inr (snd c))"
  "co_update lab_coord = (\<lambda>r c. (Inr (), (fst c, r)))"
  "cc_change_set lab_coord =
     (\<lambda>i d c. if i = cs_id (fst c) \<and> d = cs_device (fst c) then Inr (fst c) else Inl ''unknown'')"
  "cc_update_change_set lab_coord = (\<lambda>cs c. (Inr (), (cs, snd c)))"
  "cc_apply lab_coord = (\<lambda>rq tx dm c. (Inr \<lparr>ao_operation_id = op_id (snd c), ao_after_fingerprint = ''f2'',
     ao_staged = no_session\<rparr>, tx, dm, ((fst c)\<lparr>cs_state := CsApplied\<rparr>, snd c)))"
  "cc_diff lab_coord = (\<lambda>r tx st s c. (Inr [], tx, st, s, c))"
  "cc_validate lab_coord = (\<lambda>r tx st s c. (Inr \<lparr>jv_valid = False, jv_details = None\<rparr>, tx, st, s, c))"
  "cc_commit lab_coord = (\<lambda>r sig at t tx st s c. (Inr (Reconciled True None None), tx, st, s, c))"
  "cc_lab_mode lab_coord = False"
  by (simp_all add: lab_coord_def)

lemma lab_coord_laws: "store_laws lab_coord"
  by (simp add: store_laws_def lab_coord_def keeps_readable_def)

lemma lab_prepare:
  "prepare_apply lab_te lab_coord (dm_inventory lab_dm) lab_args (lab_cs, lab_op)
     = Inr (sample_entry, Some (10, 600), lab_cs, [''set''])"
  using open_policy_allows [of "''r1''" "''set system host-name r1''"]
  by (simp add: prepare_apply_def lab_te_def lab_coord_def lab_args_def lab_cs_def lab_dm_def inv_get_def
      resolve_confirm_def resolve_confirm_timeout_def default_knobs_def confirm_timeout_to_secs_def checked_mul_def
      host_name_action_def format_or_set_def check_payload_policy_def check_config_gate_def parse_load_mode_def
      resolve_load_action_def load_action_as_str_def)

lemma lab_apply_fails:
  "fst (apply_change_set lab_te lab_coord plain_attribution lab_args lab_dm (lab_cs, lab_op))
     = Inl (Validation ''configuration validation failed: no details'')"
  by (simp add: apply_change_set_def lab_prepare finish_apply_def fail_apply_def or_no_details_def Let_def
      lab_coord_simps split: prod.splits)

end
