(* ===== verification/Changeset_Safety.thy ===== *)
theory Changeset_Safety
  imports Changeset_Tools
begin

text \<open>
  The properties of the change-set tools: what a failed apply may leave on record, what an apply, a
  plan and a confirmation have to pass before anything is touched, and what is reported.
\<close>

section \<open>Failed applies\<close>

text \<open>
  C2. What is recorded of an apply that failed past staging. The change set is always settled last. The
  operation is written at most once, only after the staged session's release was confirmed, and only
  as one of two things: as discarded, when it is certain that no commit was under way and the probes
  proved the revert (the lock was granted, the fingerprint read under it equals the one from
  before staging, and the lock was given back, each within the clean-up budget), with the lock flag
  cleared and that fingerprint recorded; or as indeterminate, when the commit's outcome is unknown
  and the record shows it had been reached, with the lock flag and the fingerprint left alone.
\<close>

theorem failed_apply_is_recorded_honestly:
  assumes "dt_release D st s = (released, st1, s1)"
    and "abandon_failed_apply C D budget ab (tx, st, s, c) = (tx', st', s', c')"
  shows "\<exists>c1. c' = settle_change_set C (ab_change_set_id ab) (ab_device ab) c1
    \<and> (c1 = c \<or> released \<and>
        (\<exists>rec r. co_record C (ab_operation_id ab) (ab_principal ab) (ab_device ab) c = Inr rec
           \<and> c1 = snd (co_update C r c)
           \<and> (case op_state r of
                StDiscarded \<Rightarrow>
                  revert_proven D budget (ab_pre_stage_fingerprint ab) tx s1
                  \<and> op_current r = ab_pre_stage_fingerprint ab \<and> \<not> op_config_lock_held r
                  \<and> \<not> (ab_outcome ab = CommitOutcomeUnknown
                        \<and> (op_state rec = StCommitting \<or> op_state rec = StIndeterminate))
              | StIndeterminate \<Rightarrow>
                  ab_outcome ab = CommitOutcomeUnknown
                  \<and> (op_state rec = StCommitting \<or> op_state rec = StIndeterminate)
                  \<and> op_config_lock_held r = op_config_lock_held rec \<and> op_current r = op_current rec
              | _ \<Rightarrow> False)))"
  using abandon_store [OF assms] unfolding honest_verdict_def by blast

definition lab_abandon :: "string \<Rightarrow> abandon_outcome \<Rightarrow> abandon" where
  "lab_abandon pre oc = \<lparr>ab_change_set_id = ''cs1'', ab_device = ''r1'', ab_principal = ''ops'', ab_operation_id = ''o1'',
     ab_pre_stage_fingerprint = pre, ab_reason = ''boom'', ab_outcome = oc\<rparr>"

lemma lab_release: "js_release E no_session dm = (True, no_session, dm)"
  by (simp add: js_release_def no_session_def)

lemma lab_proves_revert:
  "\<exists>tx1 s1. prove_reverted (junos_txn lab_je prompt_times) (cleanup_timeout (je_knob lab_je)) (fingerprint_of id ''<ok/>'')
     lab_op (new_transaction ''r1'') lab_dm = (True, lab_op\<lparr>op_current := fingerprint_of id ''<ok/>''\<rparr>, tx1, s1)"
  using lab_open
  by (simp add: prove_reverted_def junos_txn_def probe_def prompt_times_def in_time_def jt_lock_def jt_unlock_def
      jt_fingerprint_def read_candidate_def new_transaction_def je_release_lock_def release_lock_def is_some_and_def
      lab_je_def lab_nc_def lab_reply_def lab_guard_def prevent_reuse_def cleanup_timeout_def Let_def)

lemma settle_lab: "snd (settle_change_set lab_coord i d c) = snd c"
  by (simp add: settle_change_set_def lab_coord_simps)

theorem failed_apply_is_recorded_honestly_witness:
  "\<exists>tx' s' r. abandon_failed_apply lab_coord (junos_txn lab_je prompt_times) (cleanup_timeout (je_knob lab_je))
       (lab_abandon (fingerprint_of id ''<ok/>'') CandidateNotCommitted)
       (new_transaction ''r1'', no_session, lab_dm, (lab_cs, lab_op))
       = (tx', no_session, s', (lab_cs\<lparr>cs_state := CsFailed\<rparr>, r))
     \<and> op_state r = StDiscarded \<and> revert_proven (junos_txn lab_je prompt_times) (cleanup_timeout (je_knob lab_je))
         (fingerprint_of id ''<ok/>'') (new_transaction ''r1'') lab_dm"
proof -
  let ?D = "junos_txn lab_je prompt_times"
  let ?pre = "fingerprint_of id ''<ok/>''"
  let ?r = "settled_record CandidateNotCommitted ''boom'' (lab_op\<lparr>op_current := ?pre\<rparr>)"
  obtain tx1 s1 where p: "prove_reverted ?D (cleanup_timeout (je_knob lab_je)) ?pre lab_op (new_transaction ''r1'') lab_dm
      = (True, lab_op\<lparr>op_current := ?pre\<rparr>, tx1, s1)" using lab_proves_revert by blast
  have rel: "dt_release ?D no_session lab_dm = (True, no_session, lab_dm)"
    by (simp add: junos_txn_def lab_release)
  have a: "abandon_failed_apply lab_coord ?D (cleanup_timeout (je_knob lab_je)) (lab_abandon ?pre CandidateNotCommitted)
       (new_transaction ''r1'', no_session, lab_dm, (lab_cs, lab_op))
       = (tx1, no_session, s1, (lab_cs\<lparr>cs_state := CsFailed\<rparr>, ?r))"
    using p by (simp add: abandon_failed_apply_def rel lab_coord_simps lab_abandon_def settle_change_set_def lab_cs_def)
  have st: "op_state ?r = StDiscarded" by (simp add: settled_record_def)
  have "\<exists>c1. (lab_cs\<lparr>cs_state := CsFailed\<rparr>, ?r) = settle_change_set lab_coord ''cs1'' ''r1'' c1
      \<and> (c1 = (lab_cs, lab_op) \<or> op_state (snd c1) = StIndeterminate
          \<or> revert_proven ?D (cleanup_timeout (je_knob lab_je)) ?pre (new_transaction ''r1'') lab_dm)"
    using failed_apply_is_recorded_honestly [OF rel a]
    by (elim exE conjE disjE; intro exI conjI; (assumption)?)
      (auto simp: lab_abandon_def lab_coord_simps split: lifecycle_state.splits)
  then obtain c1 where
      c1: "(lab_cs\<lparr>cs_state := CsFailed\<rparr>, ?r) = settle_change_set lab_coord ''cs1'' ''r1'' c1"
    and why: "c1 = (lab_cs, lab_op) \<or> op_state (snd c1) = StIndeterminate
          \<or> revert_proven ?D (cleanup_timeout (je_knob lab_je)) ?pre (new_transaction ''r1'') lab_dm"
    by blast
  have "snd c1 = ?r" using c1 by (metis settle_lab snd_conv)
  moreover have "op_state lab_op \<noteq> StDiscarded" by (simp add: lab_op_def)
  ultimately show ?thesis using why st a by auto
qed

lemma apply_marks_failed:
  assumes "store_laws C"
    and "prepare_apply TE C (dm_inventory dm) args c = Inr (entry, confirm, rec, modes)"
    and "cc_apply C (apply_request_for TE at args entry rec modes) (new_transaction (aa_device args)) dm c
      = (Inr out, tx, dm1, c1)"
    and "is_ok (cc_change_set C (aa_change_set_id args) (aa_device args) c1)"
    and "apply_change_set TE C at args dm c = (Inl e, dm', c')"
  shows "marked_failed C (aa_change_set_id args) (aa_device args) c'"
proof -
  from assms(2,3,5) obtain D b at' t w prin tx' st' s' where
    "finish_apply C D b args at' t w prin out tx dm1 c1 = (Inl e, tx', st', s', c')"
    by (auto simp: apply_change_set_def Let_def split: prod.splits)
  from finish_apply_failed [OF assms(1,4) this] show ?thesis .
qed


lemma lab_apply_run:
  obtains e dm' c' where
    "apply_change_set lab_te lab_coord plain_attribution lab_args lab_dm (lab_cs, lab_op) = (Inl e, dm', c')"
    "cc_apply lab_coord (apply_request_for lab_te plain_attribution lab_args sample_entry lab_cs [''set''])
      (new_transaction (aa_device lab_args)) lab_dm (lab_cs, lab_op)
    = (Inr \<lparr>ao_operation_id = op_id lab_op, ao_after_fingerprint = ''f2'', ao_staged = no_session\<rparr>,
       new_transaction (aa_device lab_args), lab_dm, (lab_cs\<lparr>cs_state := CsApplied\<rparr>, lab_op))"
    "is_ok (cc_change_set lab_coord (aa_change_set_id lab_args) (aa_device lab_args)
      (lab_cs\<lparr>cs_state := CsApplied\<rparr>, lab_op))"
proof -
  obtain dm' c' where f: "apply_change_set lab_te lab_coord plain_attribution lab_args lab_dm (lab_cs, lab_op)
      = (Inl (Validation ''configuration validation failed: no details''), dm', c')"
    using lab_apply_fails by (metis prod.collapse)
  show thesis
    by (rule that [OF f]) (simp_all add: lab_coord_simps lab_args_def lab_cs_def)
qed


lemma lab_apply_changes:
  "snd (apply_change_set lab_te lab_coord plain_attribution lab_args lab_dm (lab_cs, lab_op)) \<noteq> (lab_dm, (lab_cs, lab_op))"
proof (rule lab_apply_run)
  fix e dm' c'
  assume f: "apply_change_set lab_te lab_coord plain_attribution lab_args lab_dm (lab_cs, lab_op) = (Inl e, dm', c')"
    and st: "cc_apply lab_coord (apply_request_for lab_te plain_attribution lab_args sample_entry lab_cs [''set''])
      (new_transaction (aa_device lab_args)) lab_dm (lab_cs, lab_op)
    = (Inr \<lparr>ao_operation_id = op_id lab_op, ao_after_fingerprint = ''f2'', ao_staged = no_session\<rparr>,
       new_transaction (aa_device lab_args), lab_dm, (lab_cs\<lparr>cs_state := CsApplied\<rparr>, lab_op))"
    and ok: "is_ok (cc_change_set lab_coord (aa_change_set_id lab_args) (aa_device lab_args)
      (lab_cs\<lparr>cs_state := CsApplied\<rparr>, lab_op))"
  from apply_marks_failed [OF lab_coord_laws lab_prepare st ok f]
  have "c' \<noteq> (lab_cs, lab_op)"
    by (auto simp: marked_failed_def lab_coord_simps lab_args_def lab_cs_def)
  with f show ?thesis by simp
qed

section \<open>Before anything is touched\<close>

text \<open>
  C20. An apply that changes anything, on the device side or in the store, has passed every check
  first: the device is in the inventory, the confirm window is acceptable, the change set
  exists, and each of its stored actions decodes, and if it carries configuration, the policy in force now
  allows that text on that device and its load mode is valid for its format.
\<close>

theorem apply_checks_before_touching:
  assumes "snd (apply_change_set TE C at args dm c) \<noteq> (dm, c)"
  shows "is_ok (inv_get (dm_inventory dm) (aa_device args))
    \<and> is_ok (resolve_confirm (te_knobs TE) (aa_confirm_timeout_mins args))
    \<and> (\<exists>rec. cc_change_set C (aa_change_set_id args) (aa_device args) c = Inr rec
        \<and> list_all (\<lambda>v. case cc_from_value C v of
             Inr act \<Rightarrow> policy_ok (te_pl TE) (te_policy TE) (aa_device args) act \<and> mode_ok act
           | Inl _ \<Rightarrow> False) (cs_actions rec))"
proof -
  obtain entry confirm rec modes where "prepare_apply TE C (dm_inventory dm) args c = Inr (entry, confirm, rec, modes)"
    using assms by (cases "prepare_apply TE C (dm_inventory dm) args c") (auto simp: apply_change_set_def)
  then show ?thesis
    by (auto simp: prepare_apply_def and_then_eq_Inr map_err_eq_Inr is_ok_iff dest: recheck_actions_ok)
qed

theorem apply_checks_before_touching_witness:
  "is_ok (inv_get (dm_inventory lab_dm) ''r1'') \<and> policy_ok toy_engine open_policy ''r1'' host_name_action"
  using apply_checks_before_touching [OF lab_apply_changes]
  by (simp add: lab_te_def lab_args_def lab_coord_def lab_cs_def)

text \<open>
  C26. A plan is stored only after every check: the device is known, each action carries exactly one
  of a payload and a rollback source, each payload's load mode is valid for its format and its text is
  allowed by the policy, and no action asks for the mode \<^verbatim>\<open>override\<close> on a server that waives
  approval. Otherwise the store is unchanged and an error is returned.
\<close>

theorem plan_is_checked_before_stored:
  assumes "create_change_set PL pol C iv at args c = (r, c')" and "is_ok r \<or> c' \<noteq> c"
  shows "is_ok (inv_get iv (ca_device args)) \<and> list_all exactly_one (ca_actions args)
    \<and> list_all mode_ok (ca_actions args) \<and> list_all (policy_ok PL pol (ca_device args)) (ca_actions args)
    \<and> \<not> (cc_lab_mode C \<and> list_ex asks_override (ca_actions args))"
proof -
  from assms obtain ov where d: "is_ok (inv_get iv (ca_device args))"
    and s: "check_plan_shape 0 (ca_actions args) False = Inr ov"
    and l: "\<not> (ov \<and> cc_lab_mode C)"
    and p: "check_plan_policy PL pol ''create_junos_change_set'' (ca_device args) (ca_actions args) = Inr ()"
    by (cases "inv_get iv (ca_device args)"; cases "check_plan_shape 0 (ca_actions args) False")
      (auto simp: create_change_set_def split: sum.splits if_splits)
  from check_plan_shape_Inr [OF s] check_plan_policy_Inr [OF p] d l show ?thesis by auto
qed

definition lab_create :: create_args where
  "lab_create = \<lparr>ca_device = ''r1'', ca_expected_fingerprint = ''f1'', ca_actions = [host_name_action]\<rparr>"

theorem plan_is_checked_before_stored_witness:
  "list_all exactly_one [host_name_action] \<and> list_all (policy_ok toy_engine open_policy ''r1'') [host_name_action]"
proof -
  obtain r c' where cr: "create_change_set toy_engine open_policy lab_coord (dm_inventory lab_dm) plain_attribution lab_create
      (lab_cs, lab_op) = (r, c')" by (metis surj_pair)
  have "is_ok r \<or> c' \<noteq> (lab_cs, lab_op)"
    using cr open_policy_allows [of "''r1''" "''set system host-name r1''"]
    by (auto simp: create_change_set_def lab_create_def lab_dm_def inv_get_def lab_coord_def validate_shape_def
      host_name_action_def format_or_set_def build_config_payload_def check_payload_policy_def check_config_gate_def parse_load_mode_def
      resolve_load_action_def)
  from plan_is_checked_before_stored [OF cr this] show ?thesis by (simp add: lab_create_def)
qed

text \<open>
  Confirming acts only inside the window and only for the owner: if anything changes, the record
  found for this operation, this caller and this device carries a rollback deadline that lies in the future; and
  the store changes only after the device acknowledged the confirming commit.
\<close>

theorem confirm_acts_only_inside_the_window:
  assumes "confirm_change_set E C at oid device dm c = (r, dm', c')" and "(dm', c') \<noteq> (dm, c)"
  shows "\<exists>rec deadline. co_record C oid (principal at) device c = Inr rec
    \<and> op_rollback_deadline rec = Some deadline \<and> je_unix_now E < deadline
    \<and> (if c' = c then True
       else \<exists>det. fst (jt_confirm_commit E at (new_transaction device) dm) = Inr (Reconciled True None (Some det)))"
proof -
  obtain res dm1 where cm: "jt_confirm_commit E at (new_transaction device) dm = (res, dm1)" by (metis surj_pair)
  have ok: "m = None \<and> det \<noteq> None" if "res = Inr (Reconciled True m det)" for m det
    using cm that by (auto simp: jt_confirm_commit_def Let_def split: prod.splits sum.splits)
  from assms obtain rec deadline where rec: "co_record C oid (principal at) device c = Inr rec"
    and dl: "op_rollback_deadline rec = Some deadline" "je_unix_now E < deadline"
    by (auto simp: confirm_change_set_def split: sum.splits option.splits if_splits)
  from assms(1) rec dl cm have "c' = c \<or> (\<exists>m det. res = Inr (Reconciled True m det))"
    by (auto simp: confirm_change_set_def split: sum.splits option.splits if_splits commit_outcome.splits bool.splits prod.splits)
  with ok have "c' = c \<or> (\<exists>det. res = Inr (Reconciled True None (Some det)))" by blast
  with rec dl cm show ?thesis by auto
qed

definition pending_op :: operation_record where
  "pending_op = lab_op\<lparr>op_state := StCommitting, op_rollback_deadline := Some 1600\<rparr>"

theorem confirm_acts_only_inside_the_window_witness:
  "\<exists>det. fst (jt_confirm_commit lab_je plain_attribution (new_transaction ''r1'') lab_dm)
     = Inr (Reconciled True None (Some det))"
proof -
  obtain r dm' c' where cf: "confirm_change_set lab_je lab_coord plain_attribution ''o1'' ''r1'' lab_dm (lab_cs, pending_op)
      = (r, dm', c')" by (metis surj_pair)
  have k: "\<exists>dm1. jt_confirm_commit lab_je plain_attribution (new_transaction ''r1'') lab_dm
      = (Inr (Reconciled True None (Some ''confirming commit succeeded'')), dm1)"
    using lab_open
    by (simp add: jt_confirm_commit_def new_transaction_def lab_je_def lab_nc_def lab_reply_def lab_guard_def Let_def)
  have "op_state (snd c') = StCommitted"
    using cf k lab_open
    by (auto simp: confirm_change_set_def lab_dm_def inv_get_def lab_coord_simps pending_op_def lab_je_def)
  then have n: "c' \<noteq> (lab_cs, pending_op)" by (auto simp: pending_op_def)
  then have "(dm', c') \<noteq> (lab_dm, (lab_cs, pending_op))" by simp
  from confirm_acts_only_inside_the_window [OF cf this] n show ?thesis by auto
qed

section \<open>Reports\<close>

text \<open>
  What the status says about a confirmed commit. Without a deadline on record the only verdict ever given is
  that the operation committed, and only for a record in that state. While the deadline is ahead
  the verdict is that confirmation is awaited, with the deadline, unless the change was discarded:
  a record resolved as committed does not hide a rollback that is still counting down. Once the deadline
  has passed no verdict claims the change is live.
\<close>

theorem open_confirm_window_is_never_hidden:
  assumes "map_of (derive_commit_confirmation C cid device t c) ''commit_confirmation'' = Some v"
  shows "\<exists>cs oid operation. cc_change_set C cid device c = Inr cs \<and> cs_operation_id cs = Some oid
    \<and> co_record C oid (cs_owner cs) device c = Inr operation
    \<and> (case op_rollback_deadline operation of
         None \<Rightarrow> op_state operation = StCommitted \<and> v = JStr ''committed''
       | Some deadline \<Rightarrow>
           if op_state operation = StDiscarded then v = JStr ''discarded''
           else if t < deadline
           then v = JStr ''awaiting_confirmation''
             \<and> map_of (derive_commit_confirmation C cid device t c) ''rollback_deadline_unix'' = Some (JNat (unat deadline))
           else v = JStr (if op_state operation = StCommitted then ''indeterminate'' else ''presumed_auto_reverted''))"
proof -
  from assms obtain cs oid operation where l: "cc_change_set C cid device c = Inr cs" "cs_operation_id cs = Some oid"
    "co_record C oid (cs_owner cs) device c = Inr operation"
    by (auto simp: derive_commit_confirmation_def split: sum.splits option.splits)
  with assms show ?thesis
    by (auto simp: derive_commit_confirmation_def Let_def split: option.splits if_splits)
qed

theorem open_confirm_window_is_never_hidden_witness:
  "map_of (derive_commit_confirmation lab_coord ''cs1'' ''r1'' 1000 (lab_cs, pending_op\<lparr>op_state := StCommitted\<rparr>))
     ''commit_confirmation'' = Some (JStr ''awaiting_confirmation'')"
proof -
  obtain v where v: "map_of (derive_commit_confirmation lab_coord ''cs1'' ''r1'' 1000
      (lab_cs, pending_op\<lparr>op_state := StCommitted\<rparr>)) ''commit_confirmation'' = Some v"
    by (auto simp: derive_commit_confirmation_def Let_def lab_coord_def lab_cs_def pending_op_def)
  from open_confirm_window_is_never_hidden [OF v] v show ?thesis
    by (auto simp: lab_coord_simps pending_op_def)
qed






end
