(* ===== verification/Config_Tools.thy ===== *)
theory Config_Tools
  imports Changeset_Tools
begin

text \<open>
  The tools of \<^verbatim>\<open>rust-junosmcp-core/src/tools\<close> that run one candidate transaction:
  \<^verbatim>\<open>load_commit.rs\<close>, \<^verbatim>\<open>commit_check.rs\<close>, \<^verbatim>\<open>rollback_config.rs\<close>, \<^verbatim>\<open>discard_candidate.rs\<close>,
  \<^verbatim>\<open>template.rs\<close>, and \<^verbatim>\<open>confirm_commit.rs\<close>. Each handler is split where the source starts
  the transaction: the checks that build the request, and what is made of the result. An
  \<^verbatim>\<open>unreachable!\<close> is \<open>Panics\<close>. The JSON parser, the template engine and the policy engine are
  parameters. Timeouts are given in seconds.
\<close>

section \<open>Running the transaction\<close>



text \<open>Commit-confirmed unless the caller passes 0; the value is the mode and the minutes.\<close>

definition commit_mode_for :: "knobs \<Rightarrow> u32 option \<Rightarrow> string \<Rightarrow> (candidate_mode \<times> u32 option) jres" where
  "commit_mode_for k mins comment =
     (case resolve_confirm_timeout k mins of
        Confirmed m \<Rightarrow> and_then (confirm_timeout_to_secs m) (\<lambda>secs. Inr (CommitConfirmed secs, Some m))
      | OptedOut \<Rightarrow> Inr (CommitWithComment comment, None))"



section \<open>load_and_commit_config\<close>

record load_commit_args =
  lc_device :: string
  lc_config_text :: string
  lc_config_format :: string
  lc_mode :: string
  lc_commit_comment :: string
  lc_confirm_timeout_mins :: "u32 option"
  lc_timeout :: u64

definition prepare_load_commit ::
    "('a, 'd, 'w) tool_env \<Rightarrow> bool \<Rightarrow> load_commit_args \<Rightarrow> inventory
      \<Rightarrow> (string option \<times> candidate_request \<times> u32 option) jres" where
  "prepare_load_commit TE allow_plane_owned_writes args iv =
     and_then (validate_input_length ''config_text'' (lc_config_text args)) (\<lambda>_.
     and_then (inv_get iv (lc_device args)) (\<lambda>entry.
     and_then (check_plane_owned_operation ''load_and_commit_config'' (lc_device args) (config_authority entry)
                 allow_plane_owned_writes) (\<lambda>warning.
     and_then (check_config_gate (te_pl TE) (te_policy TE) ''load_and_commit_config'' (lc_device args)
                 (lc_config_format args) (lc_config_text args)) (\<lambda>_.
     and_then (parse_load_mode (Some (lc_mode args))) (\<lambda>load_mode.
     and_then (refuse_override_outside_changeset ''load_and_commit_config'' load_mode) (\<lambda>_.
     and_then (resolve_load_action (lc_config_format args) load_mode) (\<lambda>load_action.
     and_then (build_config_payload (lc_config_text args) (Some (lc_config_format args))) (\<lambda>pl.
     and_then (commit_mode_for (te_knobs TE) (lc_confirm_timeout_mins args) (lc_commit_comment args)) (\<lambda>(md, confirmed).
       Inr (warning, \<lparr>payload = Some pl, rollback_source = None, req_mode = md, req_load_action = load_action\<rparr>,
            confirmed))))))))))"



section \<open>commit_check_config\<close>

record commit_check_args =
  cca_device :: string
  cca_config_text :: string
  cca_config_format :: string
  cca_timeout :: u64

definition prepare_commit_check ::
    "('a, 'd, 'w) tool_env \<Rightarrow> commit_check_args \<Rightarrow> inventory \<Rightarrow> candidate_request jres" where
  "prepare_commit_check TE args iv =
     and_then (validate_input_length ''config_text'' (cca_config_text args)) (\<lambda>_.
     and_then (inv_get iv (cca_device args)) (\<lambda>_.
     and_then (check_config_gate (te_pl TE) (te_policy TE) ''commit_check_config'' (cca_device args)
                 (cca_config_format args) (cca_config_text args)) (\<lambda>_.
     and_then (resolve_load_action (cca_config_format args) Merge) (\<lambda>load_action.
     and_then (build_config_payload (cca_config_text args) (Some (cca_config_format args))) (\<lambda>pl.
       Inr \<lparr>payload = Some pl, rollback_source = None, req_mode = CommitCheck, req_load_action = load_action\<rparr>)))))"




section \<open>rollback_config\<close>

record rollback_config_args =
  rc_device :: string
  rc_version :: i64
  rc_commit :: bool
  rc_confirm_timeout_mins :: "u32 option"
  rc_commit_comment :: "string option"
  rc_timeout :: u64

definition prepare_rollback_config ::
    "('a, 'd, 'w) tool_env \<Rightarrow> bool \<Rightarrow> rollback_config_args \<Rightarrow> inventory
      \<Rightarrow> (string option \<times> u32 \<times> candidate_request \<times> u32 option) jres" where
  "prepare_rollback_config TE allow_plane_owned_writes args iv =
     and_then (inv_get iv (rc_device args)) (\<lambda>entry.
     and_then (if rc_commit args
               then check_plane_owned_operation ''rollback_config'' (rc_device args) (config_authority entry)
                      allow_plane_owned_writes
               else Inr None) (\<lambda>warning.
     and_then (validate_rollback_version (rc_version args)) (\<lambda>version.
     and_then (if \<not> rc_commit args then Inr (DryRun, None)
               else commit_mode_for (te_knobs TE) (rc_confirm_timeout_mins args)
                      (case rc_commit_comment args of Some cm \<Rightarrow> cm
                       | None \<Rightarrow> ''rollback to '' @ show_nat (unat version) @ '' via rollback_config'')) (\<lambda>(md, confirmed).
       Inr (warning, version,
            \<lparr>payload = None, rollback_source = Some version, req_mode = md, req_load_action = Merge\<rparr>, confirmed)))))"



section \<open>discard_candidate and confirm_commit\<close>


definition discard_request :: candidate_request where
  "discard_request = \<lparr>payload = None, rollback_source = None, req_mode = Discard, req_load_action = Merge\<rparr>"


text \<open>The handler takes a timeout and does not use it.\<close>

definition confirm_commit_tool ::
    "('d, 'w) junos_env \<Rightarrow> (commit_outcome \<Rightarrow> string) \<Rightarrow> attribution \<Rightarrow> string \<Rightarrow> u64 \<Rightarrow> ('d, 'w) device_manager
      \<Rightarrow> json jres \<times> ('d, 'w) device_manager" where
  "confirm_commit_tool E outcome_debug at device timeout dm =
     (case inv_get (dm_inventory dm) device of
        Inl e \<Rightarrow> (Inl e, dm)
      | Inr _ \<Rightarrow>
          (case jt_confirm_commit E at (new_transaction device) dm of
             (Inl e, dm') \<Rightarrow> (Inl e, dm')
           | (Inr (Reconciled succeeded _ details), dm') \<Rightarrow>
               (if succeeded
                then Inr (JObj [(''device'', JStr device), (''confirmed'', JBool True), (''details'', jopt details),
                       (''message'', JStr ''confirming commit accepted; any pending automatic rollback is cancelled'')])
                else Inl (Validation (''confirming commit failed: '' @ or_no_details details)), dm')
           | (Inr other, dm') \<Rightarrow>
               (Inr (JObj [(''device'', JStr device), (''confirmed'', JBool False),
                  (''commit_outcome'', JStr (outcome_debug other)),
                  (''message'', JStr (''the confirming commit did not report a definite outcome; if a rollback window ''
                     @ ''is open on the device it may still be running''))]), dm')))"

section \<open>render_and_apply_j2_template\<close>

definition MAX_TEMPLATE_BYTES :: nat where "MAX_TEMPLATE_BYTES = 65536"

text \<open>
  The libraries the tool calls: the JSON parser, with the text of its error, and the template engine
  with strict undefined variables, which compiles a template (or reports a syntax error) and renders it.
\<close>

record template_lib =
  tl_json :: "string \<Rightarrow> string + json"
  tl_template :: "string \<Rightarrow> string + (json \<Rightarrow> string + string)"

definition limit_error :: "string \<Rightarrow> string \<Rightarrow> string" where
  "limit_error what input =
     what @ '' exceeds '' @ show_nat MAX_TEMPLATE_BYTES @ ''-byte limit ('' @ show_nat (length input) @ '' bytes)''"

definition parse_vars :: "template_lib \<Rightarrow> string \<Rightarrow> json jres" where
  "parse_vars L input =
     (if length input > MAX_TEMPLATE_BYTES then Inl (TemplateVars (limit_error ''vars_content'' input))
      else
        and_then (map_err (\<lambda>e. TemplateVars (''JSON parse failed: '' @ e)) (tl_json L input)) (\<lambda>parsed.
          case parsed of
            JObj _ \<Rightarrow> Inr parsed
          | _ \<Rightarrow> Inl (TemplateVars ''vars_content must deserialize to a top-level JSON object'')))"

definition render :: "template_lib \<Rightarrow> string \<Rightarrow> json \<Rightarrow> string jres" where
  "render L template_content vars =
     (if length template_content > MAX_TEMPLATE_BYTES
      then Inl (TemplateSyntax (limit_error ''template_content'' template_content))
      else
        and_then (map_err TemplateSyntax (tl_template L template_content)) (\<lambda>tmpl.
          map_err TemplateRender (tmpl vars)))"

definition detect_format :: "string \<Rightarrow> string" where
  "detect_format rendered =
     (if starts_with ''<'' (trim_start rendered) then ''xml''
      else if list_ex (\<lambda>line. starts_with ''set '' (trim_start line) \<or> starts_with ''delete '' (trim_start line))
                (str_lines rendered)
      then ''set''
      else ''text'')"

record template_args =
  ta_template_content :: string
  ta_vars_content :: string
  ta_device_name :: "string option"
  ta_device_names :: "string list option"
  ta_apply_config :: bool
  ta_commit_comment :: string
  ta_dry_run :: bool
  ta_config_format :: "string option"
  ta_mode :: string
  ta_confirm_timeout_mins :: "u32 option"
  ta_timeout :: u64

definition resolve_devices :: "template_args \<Rightarrow> string list jres" where
  "resolve_devices args =
     (case (ta_device_name args, ta_device_names args) of
        (Some _, Some _) \<Rightarrow> Inl (Validation ''specify exactly one of `device_name` or `device_names`'')
      | (Some one, None) \<Rightarrow> Inr [one]
      | (None, Some many) \<Rightarrow> if many = [] then Inl (Validation ''`device_names` cannot be empty'') else Inr many
      | (None, None) \<Rightarrow> Inr [])"

text \<open>Everything up to the decision whether to apply: the devices, the text, its format, the load action.\<close>

definition prepare_template ::
    "template_lib \<Rightarrow> ('a, 'd, 'w) tool_env \<Rightarrow> template_args \<Rightarrow> inventory
      \<Rightarrow> (string list \<times> string \<times> string \<times> load_action) jres" where
  "prepare_template L TE args iv =
     and_then (resolve_devices args) (\<lambda>devs.
     and_then (try_map (inv_get iv) devs) (\<lambda>_.
     and_then (parse_vars L (ta_vars_content args)) (\<lambda>vars.
     and_then (render L (ta_template_content args) vars) (\<lambda>rendered.
     and_then (case ta_config_format args of
                 Some f \<Rightarrow> if f = ''set'' \<or> f = ''text'' \<or> f = ''xml'' then Inr f else Inl (BadFormat f)
               | None \<Rightarrow> Inr (detect_format rendered)) (\<lambda>fmt.
     and_then (parse_load_mode (Some (ta_mode args))) (\<lambda>load_mode.
     and_then (refuse_override_outside_changeset ''render_and_apply_j2_template'' load_mode) (\<lambda>_.
     and_then (resolve_load_action fmt load_mode) (\<lambda>load_action.
       if fmt \<noteq> ''set'' \<and> list_ex (has_config_rules_for (te_pl TE) (te_policy TE)) devs
       then Inl (TemplateFormatMismatch fmt)
       else Inr (devs, rendered, fmt, load_action)))))))))"



definition prepare_commit_one ::
    "('a, 'd, 'w) tool_env \<Rightarrow> template_args \<Rightarrow> config_payload \<Rightarrow> load_action
      \<Rightarrow> (candidate_request \<times> u32 option) jres" where
  "prepare_commit_one TE args pl load_action =
     and_then (if ta_dry_run args then Inr (DryRun, None)
               else commit_mode_for (te_knobs TE) (ta_confirm_timeout_mins args) (ta_commit_comment args)) (\<lambda>(md, confirmed).
       Inr (\<lparr>payload = Some pl, rollback_source = None, req_mode = md, req_load_action = load_action\<rparr>, confirmed))"







section \<open>Results fit their requests\<close>








section \<open>Termination of the handlers\<close>











section \<open>Properties\<close>


definition lab_load :: load_commit_args where
  "lab_load = \<lparr>lc_device = ''r1'', lc_config_text = ''set system host-name r1'', lc_config_format = ''set'',
     lc_mode = ''merge'', lc_commit_comment = ''c'', lc_confirm_timeout_mins = None, lc_timeout = 60\<rparr>"



text \<open>
  C28. The direct tools commit provisionally unless told not to: a plain commit is requested only when
  the caller passed a confirm timeout of 0; otherwise the commit carries a rollback window of exactly
  60 seconds for each of the caller's minutes, or the server's default minutes when none were given.
\<close>

theorem plain_commit_only_on_explicit_zero:
  assumes "prepare_load_commit TE aw la iv = Inr (w, req, conf) \<and> mins = lc_confirm_timeout_mins la
    \<or> prepare_rollback_config TE aw ra iv = Inr (w, v, req, conf) \<and> mins = rc_confirm_timeout_mins ra
    \<or> prepare_commit_one TE ta pl act = Inr (req, conf) \<and> mins = ta_confirm_timeout_mins ta"
  shows "case req_mode req of
      CommitWithComment _ \<Rightarrow> mins = Some 0
    | CommitConfirmed secs \<Rightarrow>
        (\<exists>m. conf = Some m \<and> m = (case mins of None \<Rightarrow> confirm_default_mins (te_knobs TE) | Some x \<Rightarrow> x)
          \<and> unat secs = 60 * unat m \<and> 1 \<le> unat m)
    | md \<Rightarrow> md = DryRun"
proof -
  have cm: "case md of
      CommitWithComment _ \<Rightarrow> mins = Some 0
    | CommitConfirmed secs \<Rightarrow>
        (\<exists>m. conf = Some m \<and> m = (case mins of None \<Rightarrow> confirm_default_mins k | Some x \<Rightarrow> x)
          \<and> unat secs = 60 * unat m \<and> 1 \<le> unat m)
    | md \<Rightarrow> md = DryRun"
    if "commit_mode_for k mins comment = Inr (md, conf)" for k comment md
    using that
    by (auto simp: commit_mode_for_def resolve_confirm_timeout_def and_then_eq_Inr confirm_timeout_to_secs_Inr_iff
        Suc_le_eq unat_gt_0 split: option.splits if_splits)
  from assms have "req_mode req = DryRun
      \<or> (\<exists>comment. commit_mode_for (te_knobs TE) mins comment = Inr (req_mode req, conf))"
    by (auto simp: prepare_load_commit_def prepare_rollback_config_def prepare_commit_one_def and_then_eq_Inr
        split: if_splits)
  then show ?thesis using cm by auto
qed

lemma lab_prepare_load:
  "prepare_load_commit lab_te False (lab_load\<lparr>lc_confirm_timeout_mins := m\<rparr>) (dm_inventory lab_dm) =
     and_then (commit_mode_for default_knobs m ''c'') (\<lambda>(md, conf).
       Inr (None, \<lparr>payload = Some (PayloadSet ''set system host-name r1''), rollback_source = None, req_mode = md,
            req_load_action = LoadSet\<rparr>, conf))"
  using open_policy_allows [of "''r1''" "''set system host-name r1''"]
  by (simp add: prepare_load_commit_def lab_load_def lab_te_def lab_dm_def validate_input_length_def MAX_INPUT_LEN_def
      inv_get_def sample_entry_def check_plane_owned_operation_def check_config_gate_def parse_load_mode_def
      refuse_override_outside_changeset_def resolve_load_action_def build_config_payload_def)

theorem plain_commit_only_on_explicit_zero_witness:
  "\<exists>w req m secs. prepare_load_commit lab_te False lab_load (dm_inventory lab_dm) = Inr (w, req, Some m)
     \<and> req_mode req = CommitConfirmed secs \<and> unat secs = 60 * unat m"
proof -
  have l: "lab_load\<lparr>lc_confirm_timeout_mins := None\<rparr> = lab_load" by (simp add: lab_load_def)
  have p: "prepare_load_commit lab_te False lab_load (dm_inventory lab_dm) =
      Inr (None, \<lparr>payload = Some (PayloadSet ''set system host-name r1''), rollback_source = None,
        req_mode = CommitConfirmed 600, req_load_action = LoadSet\<rparr>, Some 10)"
    using lab_prepare_load [of None] unfolding l
    by (simp add: commit_mode_for_def resolve_confirm_timeout_def default_knobs_def confirm_timeout_to_secs_def
        checked_mul_def)
  have "prepare_load_commit lab_te False lab_load (dm_inventory lab_dm) =
      Inr (None, \<lparr>payload = Some (PayloadSet ''set system host-name r1''), rollback_source = None,
        req_mode = CommitConfirmed 600, req_load_action = LoadSet\<rparr>, Some 10)
      \<and> None = lc_confirm_timeout_mins lab_load"
    using p by (simp add: lab_load_def)
  from plain_commit_only_on_explicit_zero [OF disjI1 [OF this]] p show ?thesis by auto
qed

text \<open>
  C25. Previews never commit: whatever the device answers and whenever the call is cancelled, none of the
  requests sent for a commit check, for a rollback without \<^verbatim>\<open>commit\<close>, for a template's dry run
  or for a discard is a commit.
\<close>

theorem preview_never_commits:
  assumes "prepare_commit_check TE ca iv = Inr req
    \<or> prepare_rollback_config TE aw ra iv = Inr (w, v, req, conf) \<and> \<not> rc_commit ra
    \<or> prepare_commit_one TE ta pl act = Inr (req, conf) \<and> ta_dry_run ta
    \<or> req = discard_request"
    and "execute (traced (config_manager nc d)) req dl ot budget ct (t, x, []) = Returns (ex, t', x', m)"
  shows "list_all (\<lambda>(q, f). \<not> is_commit q) m"
proof -
  have md: "req_mode req = CommitCheck \<or> req_mode req = DryRun \<or> req_mode req = Discard"
    using assms(1)
    by (auto simp: prepare_commit_check_def prepare_rollback_config_def prepare_commit_one_def discard_request_def
        and_then_eq_Inr)
  have "\<not> is_commit q" if mem: "(q, f) \<in> set m" for q f
  proof
    assume c: "is_commit q"
    from mem obtain pre post where m: "m = pre @ (q, f) # post" by (meson split_list)
    from execute_log [OF assms(2)] obtain ph where "follows req Idle (pre @ (q, f) # post) = Some ph"
      using m by blast
    from follows_commit [OF this c] md show False by (cases q) auto
  qed
  then show ?thesis by (auto simp: list_all_iff)
qed

theorem preview_never_commits_witness:
  "list_all (\<lambda>(q, f). \<not> is_commit q) (lab_log DryRun)"
proof -
  let ?ta = "\<lparr>ta_template_content = [], ta_vars_content = [], ta_device_name = None, ta_device_names = None,
     ta_apply_config = True, ta_commit_comment = [], ta_dry_run = True, ta_config_format = None, ta_mode = ''merge'',
     ta_confirm_timeout_mins = None, ta_timeout = 60\<rparr>"
  have "prepare_commit_one lab_te ?ta (PayloadSet ''set system host-name r1'') LoadSet
      = Inr (set_request DryRun, None) \<and> ta_dry_run ?ta"
    by (simp add: prepare_commit_one_def set_request_def)
  from preview_never_commits [OF disjI2 [OF disjI2 [OF disjI1 [OF this]]] lab_dry_run [unfolded lab_execute_def]]
  show ?thesis .
qed

text \<open>
  C17. What a direct load has passed before its transaction starts: the text is within the input
  limit, the policy allows it on the device in its format, the device is locally owned, of unknown ownership or
  the server permits writes to devices another plane owns (then the answer carries a warning), and
  the mode \<^verbatim>\<open>override\<close> is never requested of the device.
\<close>

theorem direct_load_is_gated:
  assumes "prepare_load_commit TE aw args iv = Inr (w, req, conf)"
  shows "length (lc_config_text args) \<le> MAX_INPUT_LEN
    \<and> check_config (te_pl TE) (te_policy TE) (lc_device args) (lc_config_format args) (lc_config_text args) = Inr Allow
    \<and> req_load_action req \<noteq> Override
    \<and> (\<exists>entry. inv_get iv (lc_device args) = Inr entry
         \<and> (if config_authority entry \<in> {Local, Unknown} then w = None else aw \<and> w \<noteq> None))"
proof -
  have "length (lc_config_text args) \<le> MAX_INPUT_LEN" if "validate_input_length f (lc_config_text args) = Inr u" for f u
    using that by (auto simp: validate_input_length_def split: if_splits)
  moreover have "a \<noteq> Override" if "parse_load_mode m = Inr lm" "lm \<noteq> Override" "resolve_load_action fmt lm = Inr a" for m lm fmt a
    using that by (auto simp: resolve_load_action_def split: if_splits)
  ultimately show ?thesis
    using assms
    by (auto simp: prepare_load_commit_def and_then_eq_Inr check_config_gate_Inr_iff refuse_override_outside_changeset_def
        check_plane_owned_operation_def split: if_splits junos_authority.splits)
qed

theorem direct_load_is_gated_witness:
  "check_config toy_engine open_policy ''r1'' ''set'' ''set system host-name r1'' = Inr Allow"
proof -
  obtain w req conf where "prepare_load_commit lab_te False lab_load (dm_inventory lab_dm) = Inr (w, req, conf)"
    using lab_prepare_load [of None]
    by (auto simp: commit_mode_for_def resolve_confirm_timeout_def default_knobs_def confirm_timeout_to_secs_def
        checked_mul_def lab_load_def)
  from direct_load_is_gated [OF this] show ?thesis by (simp add: lab_te_def lab_load_def)
qed

text \<open>
  C0. The template tool does not look at who owns a device: whatever management plane each device of the
  inventory is given to, the tool accepts the same calls and builds the same transactions, while a
  direct load on a device owned by another plane is refused by default.
\<close>

definition owned_by :: "(string \<Rightarrow> junos_authority) \<Rightarrow> inventory \<Rightarrow> inventory" where
  "owned_by f iv = iv\<lparr>devices := map (\<lambda>(n, e). (n, e\<lparr>config_authority := f n\<rparr>)) (devices iv)\<rparr>"

lemma inv_get_owned_by:
  "inv_get (owned_by f iv) n = and_then (inv_get iv n) (\<lambda>e. Inr (e\<lparr>config_authority := f n\<rparr>))"
proof -
  have "map_of (map (\<lambda>(n, e). (n, e\<lparr>config_authority := f n\<rparr>)) ds) n
      = map_option (\<lambda>e. e\<lparr>config_authority := f n\<rparr>) (map_of ds n)" for ds :: "(string \<times> device_entry) list"
    by (induction ds) auto
  then show ?thesis by (simp add: inv_get_def owned_by_def split: option.splits)
qed

lemma try_map_owned_by:
  "and_then (try_map (inv_get (owned_by f iv)) ns) (\<lambda>_. k) = and_then (try_map (inv_get iv) ns) (\<lambda>_. k)"
proof (induction ns)
  case Nil
  show ?case by simp
next
  case (Cons n ns)
  then show ?case
    by (cases "inv_get iv n") (simp_all add: and_then_assoc inv_get_owned_by [of f iv n])
qed

theorem template_ignores_ownership:
  "prepare_template L TE args (owned_by f iv) = prepare_template L TE args iv
   \<and> (case prepare_load_commit TE False la (owned_by (\<lambda>_. Mist) iv) of
        Inr _ \<Rightarrow> False | Inl _ \<Rightarrow> True)"
proof
  show "prepare_template L TE args (owned_by f iv) = prepare_template L TE args iv"
    by (simp add: prepare_template_def try_map_owned_by)
  show "case prepare_load_commit TE False la (owned_by (\<lambda>_. Mist) iv) of Inr _ \<Rightarrow> False | Inl _ \<Rightarrow> True"
    by (auto simp: prepare_load_commit_def inv_get_owned_by and_then_assoc and_then_eq_Inr check_plane_owned_operation_def
        split: sum.splits)
qed

end
