(* ===== verification/Output.thy ===== *)
theory Output
  imports Helpers
begin

text \<open>
  \<^verbatim>\<open>rust-junosmcp-core/src/output.rs\<close>: what happens to a command's output on the way to the
  client. Pipe modifiers the NETCONF translation drops are applied here, then the line cap, then
  the byte cap. The regular-expression library is a parameter: \<open>regex_new p\<close> is the matcher for a
  pattern that compiles and \<^const>\<open>None\<close> for one that does not.
\<close>

type_synonym regex = "string \<Rightarrow> (string \<Rightarrow> bool) option"

section \<open>Splitting a command into its pipe segments\<close>

text \<open>
  The scanner's state: whether it is inside double or single quotes, the segment being read, the
  segments read so far, and the rest of the command.
\<close>

function split_pipes_from :: "bool \<Rightarrow> bool \<Rightarrow> string \<Rightarrow> string list \<Rightarrow> string \<Rightarrow> string list" where
  "split_pipes_from in_double in_single cur segs [] =
     segs @ (if cur = [] then [] else [str_trim cur])"
| "split_pipes_from in_double in_single cur segs (ch # rest) =
     (if (in_double \<or> in_single) \<and> ch = CHR 0x5C \<and> rest \<noteq> []
      then split_pipes_from in_double in_single (cur @ [ch, hd rest]) segs (tl rest)
      else if ch = DQ \<and> \<not> in_single
      then split_pipes_from (\<not> in_double) in_single (cur @ [ch]) segs rest
      else if ch = SQ \<and> \<not> in_double
      then split_pipes_from in_double (\<not> in_single) (cur @ [ch]) segs rest
      else if \<not> in_double \<and> \<not> in_single \<and> ch = SP \<and> prefix ''| '' rest
      then split_pipes_from in_double in_single [] (segs @ [str_trim cur]) (drop 2 rest)
      else split_pipes_from in_double in_single (cur @ [ch]) segs rest)"
  by pat_completeness auto
termination
  by (relation "measure (\<lambda>(d, s, cur, segs, rest). length rest)") auto

definition split_pipes :: "string \<Rightarrow> string list" where
  "split_pipes s = split_pipes_from False False [] [] s"

definition strip_quotes :: "string \<Rightarrow> string" where
  "strip_quotes s =
     (let trimmed = str_trim s in
      if length trimmed \<ge> 2 \<and> hd trimmed = last trimmed
         \<and> (hd trimmed = DQ \<or> hd trimmed = SQ)
      then butlast (tl trimmed) else trimmed)"

definition split_first_word :: "string \<Rightarrow> string \<times> string" where
  "split_first_word s =
     (let trimmed = str_trim s in
      case find_ws trimmed of
        Some pos \<Rightarrow> (take pos trimmed, str_trim (drop pos trimmed))
      | None \<Rightarrow> (trimmed, []))"

section \<open>Applying the modifiers\<close>

definition line_filter :: "regex \<Rightarrow> string \<Rightarrow> string \<Rightarrow> bool" where
  "line_filter regex_new pat line =
     (case regex_new pat of Some re \<Rightarrow> re line | None \<Rightarrow> str_contains pat line)"

definition lines_or_empty :: "string list \<Rightarrow> string" where
  "lines_or_empty ls = (if ls = [] then [] else str_join [NL] ls @ [NL])"

definition apply_modifier :: "regex \<Rightarrow> string \<Rightarrow> string \<Rightarrow> string" where
  "apply_modifier regex_new out seg =
     (let (first_word, remainder) = split_first_word (to_ascii_lowercase seg) in
      if first_word = ''count'' then
        ''Count: '' @ show_nat (length (str_lines out)) @ '' lines'' @ [NL]
      else if first_word = ''last'' then
        (case parse_usize (str_trim remainder) of
           Some n \<Rightarrow>
             (let ls = str_lines out;
                  kept = str_join [NL] (drop (length ls - n) ls)
              in if kept = [] then kept else kept @ [NL])
         | None \<Rightarrow> out)
      else if first_word = ''match'' then
        (if remainder = [] then out
         else lines_or_empty
           (filter (line_filter regex_new (strip_quotes (snd (split_first_word seg)))) (str_lines out)))
      else if first_word = ''except'' then
        (if remainder = [] then out
         else lines_or_empty
           (filter (\<lambda>l. \<not> line_filter regex_new (strip_quotes (snd (split_first_word seg))) l)
             (str_lines out)))
      else out)"

definition apply_pipe_modifiers :: "regex \<Rightarrow> string \<Rightarrow> string \<Rightarrow> string" where
  "apply_pipe_modifiers regex_new command raw =
     (let segments = split_pipes command in
      if length segments < 2 then raw
      else foldl (apply_modifier regex_new) raw (tl segments))"

section \<open>The caps\<close>

definition ELLIPSIS :: string where "ELLIPSIS = [CHR 0xE2, CHR 0x80, CHR 0xA6]"

definition byte_marker :: "nat \<Rightarrow> string" where
  "byte_marker omitted = ELLIPSIS @ '' (truncated, '' @ show_nat omitted @ '' bytes omitted)''"

definition apply_byte_cap :: "string \<Rightarrow> u32 option \<Rightarrow> bool \<Rightarrow> string" where
  "apply_byte_cap s max_bytes tail =
     (case max_bytes of None \<Rightarrow> s
      | Some c \<Rightarrow>
          (let cap = unat c in
           if length s \<le> cap then s
           else
             (let reserved = length (byte_marker (length s)) + 1;
                  content_budget = cap - reserved
              in if tail then
                   (let start = ceil_boundary s (length s - content_budget)
                    in byte_marker start @ [NL] @ drop start s)
                 else
                   (let e = floor_boundary s content_budget
                    in take e s @ [NL] @ byte_marker (length s - e)))))"

text \<open>The ring of the tail path: full, it drops its oldest line before it takes the next.\<close>

definition ring_push :: "nat \<Rightarrow> string list \<Rightarrow> string \<Rightarrow> string list" where
  "ring_push content_budget ring line =
     (if length ring = content_budget then tl ring else ring) @ [line]"

definition line_marker :: "nat \<Rightarrow> string" where
  "line_marker omitted = ELLIPSIS @ '' (truncated, '' @ show_nat omitted @ '' more lines)''"

definition apply_line_cap :: "string \<Rightarrow> u32 option \<Rightarrow> bool \<Rightarrow> string" where
  "apply_line_cap s max_lines tail =
     (case max_lines of None \<Rightarrow> s
      | Some c \<Rightarrow>
          (let cap = unat c; total = length (str_lines s) in
           if total \<le> cap then s
           else
             (let content_budget = cap - 1;
                  omitted = total - content_budget;
                  marker = line_marker omitted
              in if content_budget = 0 then marker
                 else
                   (let kept = (if tail then foldl (ring_push content_budget) [] (str_lines s)
                                else take content_budget (str_lines s));
                        body = str_join [NL] kept
                    in if tail then marker @ [NL] @ body else body @ [NL] @ marker))))"

definition process_output ::
    "regex \<Rightarrow> string \<Rightarrow> string \<Rightarrow> u32 option \<Rightarrow> u32 option \<Rightarrow> bool \<Rightarrow> string" where
  "process_output regex_new command raw max_lines max_bytes tail =
     (let piped = apply_pipe_modifiers regex_new command raw;
          line_capped = apply_line_cap piped max_lines tail
      in apply_byte_cap line_capped max_bytes tail)"

section \<open>What a cap promises\<close>

text \<open>
  The contract both caps share: a measure of the text, a smallest budget for which the promise is
  made, and the texts it is made for. Output within the budget passes unchanged; any other output
  is cut to the budget, marker included.
\<close>

locale output_cap =
  fixes msr :: "string \<Rightarrow> nat"
    and cap_fn :: "string \<Rightarrow> u32 option \<Rightarrow> bool \<Rightarrow> string"
    and least :: nat
    and fit :: "string \<Rightarrow> bool"
  assumes uncapped: "cap_fn s None tail = s"
    and unchanged: "msr s \<le> unat c \<Longrightarrow> cap_fn s (Some c) tail = s"
    and within: "least \<le> unat c \<Longrightarrow> fit s \<Longrightarrow> msr (cap_fn s (Some c) tail) \<le> unat c"
begin

lemma cap_idem:
  "least \<le> unat c \<Longrightarrow> fit s \<Longrightarrow>
     cap_fn (cap_fn s (Some c) tail) (Some c) tail' = cap_fn s (Some c) tail"
  by (rule unchanged) (rule within)

lemma cap_tighter:
  "least \<le> unat c \<Longrightarrow> c \<le> d \<Longrightarrow> fit s \<Longrightarrow>
     cap_fn (cap_fn s (Some c) tail) (Some d) tail' = cap_fn s (Some c) tail"
  by (rule unchanged) (meson le_trans within word_le_nat_alt)

lemma cap_changed_iff:
  "least \<le> unat c \<Longrightarrow> fit s \<Longrightarrow> cap_fn s (Some c) tail \<noteq> s \<longleftrightarrow> unat c < msr s"
  by (metis unchanged within linorder_not_le)

end

section \<open>The byte cap\<close>

lemma length_byte_marker: "length (byte_marker n) = 31 + length (show_nat n)"
  by (simp add: byte_marker_def ELLIPSIS_def)

lemma byte_marker_mono: "m \<le> n \<Longrightarrow> length (byte_marker m) \<le> length (byte_marker n)"
  by (simp add: length_byte_marker length_show_nat_mono)

lemma byte_marker_fits: "n < 2 ^ 64 \<Longrightarrow> length (byte_marker n) + 1 \<le> 64"
  using length_show_nat [of n 19] by (simp add: length_byte_marker)

lemma byte_cap_none: "apply_byte_cap s None tail = s"
  by (simp add: apply_byte_cap_def)

lemma byte_cap_unchanged: "length s \<le> unat c \<Longrightarrow> apply_byte_cap s (Some c) tail = s"
  by (simp add: apply_byte_cap_def)

lemma byte_cap_within:
  assumes "64 \<le> unat c" and "length s < 2 ^ 64"
  shows "length (apply_byte_cap s (Some c) tail) \<le> unat c"
proof (cases "length s \<le> unat c")
  case True
  then show ?thesis by (simp add: byte_cap_unchanged)
next
  case False
  define reserved where "reserved = length (byte_marker (length s)) + 1"
  define budget where "budget = unat c - reserved"
  have "reserved \<le> unat c"
    unfolding reserved_def using byte_marker_fits [OF assms(2)] assms(1) by linarith
  then have total: "reserved + budget = unat c" by (simp add: budget_def)
  show ?thesis
  proof (cases tail)
    case True
    define start where "start = ceil_boundary s (length s - budget)"
    have st: "length s - budget \<le> start" "start \<le> length s"
      using ceil_boundary_props [of "length s - budget" s] by (simp_all add: start_def)
    then have "length (byte_marker start) + 1 \<le> reserved"
      by (simp add: reserved_def byte_marker_mono)
    moreover have "length (drop start s) \<le> budget" using st by auto
    ultimately show ?thesis
      using True False total
      by (simp add: apply_byte_cap_def Let_def reserved_def budget_def start_def)
  next
    case f: False
    define e where "e = floor_boundary s budget"
    have "e \<le> budget" by (simp add: e_def floor_boundary_le)
    moreover have "length (byte_marker (length s - e)) + 1 \<le> reserved"
      by (simp add: reserved_def byte_marker_mono)
    ultimately show ?thesis
      using f False total
      by (simp add: apply_byte_cap_def Let_def reserved_def budget_def e_def)
  qed
qed

interpretation byte_cap: output_cap length apply_byte_cap 64 "\<lambda>s. length s < 2 ^ 64"
  by unfold_locales (simp_all add: byte_cap_none byte_cap_unchanged byte_cap_within)

section \<open>The line cap\<close>

lemma length_str_lines:
  "length (str_lines s) = count_list s NL + (if s = [] \<or> last s = NL then 0 else 1)"
proof (induction s)
  case Nil
  show ?case by simp
next
  case (Cons c cs)
  then show ?case by (cases cs) (auto simp: str_lines_def split: list.splits if_splits)
qed

lemma count_list_append_nl: "count_list (xs @ ys) c = count_list xs c + count_list ys c"
  by (induction xs) auto

lemma count_list_not_in: "c \<notin> set xs \<Longrightarrow> count_list xs c = 0"
  by (induction xs) auto

lemma count_nl_join:
  "\<forall>l\<in>set ls. NL \<notin> set l \<Longrightarrow> count_list (str_join [NL] ls) NL = length ls - 1"
  by (induction ls rule: induct_list012) (auto simp: count_list_append_nl count_list_not_in)

lemma line_marker_no_nl: "NL \<notin> set (line_marker n)" "line_marker n \<noteq> []"
proof -
  have "NL \<notin> set (show_nat n)"
    using show_nat_digits [of NL n] by auto
  then show "NL \<notin> set (line_marker n)" by (auto simp: line_marker_def ELLIPSIS_def)
  show "line_marker n \<noteq> []" by (simp add: line_marker_def ELLIPSIS_def)
qed

lemma length_str_lines_le: "length (str_lines s) \<le> count_list s NL + 1"
  by (simp add: length_str_lines)

lemma count_list_pos: "c \<in> set s \<Longrightarrow> 0 < count_list s c"
  by (induction s) auto

text \<open>The ring holds the newest lines, in order, without ever holding more than its budget.\<close>

lemma ring_push_foldl:
  assumes "0 < n"
  shows "foldl (ring_push n) [] ls = drop (length ls - n) ls"
proof (induction ls rule: rev_induct)
  case Nil
  show ?case by simp
next
  case (snoc l ls)
  show ?case
  proof (cases "length ls < n")
    case True
    with snoc show ?thesis by (simp add: ring_push_def)
  next
    case False
    then have "tl (drop (length ls - n) ls) = drop (Suc (length ls) - n) ls"
      by (simp add: tl_drop drop_Suc Suc_diff_le)
    with False snoc assms show ?thesis by (simp add: ring_push_def Suc_diff_le)
  qed
qed

lemma kept_lines:
  assumes "1 < cap" and "cap < length (str_lines s)"
  shows "length (if tail then foldl (ring_push (cap - 1)) [] (str_lines s)
                 else take (cap - 1) (str_lines s)) = cap - 1"
    and "\<forall>l\<in>set (if tail then foldl (ring_push (cap - 1)) [] (str_lines s)
                 else take (cap - 1) (str_lines s)). NL \<notin> set l"
  using assms
  by (auto simp: ring_push_foldl dest!: in_set_takeD in_set_dropD dest: str_lines_no_nl)

lemma line_cap_none: "apply_line_cap s None tail = s"
  by (simp add: apply_line_cap_def)

lemma line_cap_unchanged: "length (str_lines s) \<le> unat c \<Longrightarrow> apply_line_cap s (Some c) tail = s"
  by (simp add: apply_line_cap_def)

lemma line_cap_within:
  assumes "1 \<le> unat c"
  shows "length (str_lines (apply_line_cap s (Some c) tail)) \<le> unat c"
proof (cases "length (str_lines s) \<le> unat c")
  case True
  then show ?thesis by (simp add: line_cap_unchanged)
next
  case over: False
  let ?m = "line_marker (length (str_lines s) - (unat c - 1))"
  show ?thesis
  proof (cases "unat c = 1")
    case True
    with over show ?thesis
      by (simp add: apply_line_cap_def Let_def str_lines_single line_marker_no_nl)
  next
    case False
    with assms have c: "1 < unat c" by simp
    let ?k = "if tail then foldl (ring_push (unat c - 1)) [] (str_lines s)
              else take (unat c - 1) (str_lines s)"
    have "count_list (str_join [NL] ?k) NL = unat c - 2"
      using kept_lines [of "unat c" s tail] c over by (subst count_nl_join) auto
    then have "count_list (apply_line_cap s (Some c) tail) NL + 1 = unat c"
      using c over count_list_not_in [OF line_marker_no_nl(1)]
      by (auto simp: apply_line_cap_def Let_def count_list_append_nl)
    then show ?thesis using length_str_lines_le [of "apply_line_cap s (Some c) tail"] by simp
  qed
qed

interpretation line_cap: output_cap "\<lambda>s. length (str_lines s)" apply_line_cap 1 "\<lambda>_. True"
  by unfold_locales (simp_all add: line_cap_none line_cap_unchanged line_cap_within)

section \<open>Reading a command\<close>

text \<open>Plain text (no quote, no backslash, no pipe) is copied into the current segment.\<close>

lemma split_pipes_plain:
  "\<forall>c\<in>set t. c \<noteq> DQ \<and> c \<noteq> SQ \<and> c \<noteq> CHR ''|'' \<Longrightarrow>
     \<not> (t \<noteq> [] \<and> last t = SP \<and> prefix ''| '' rest) \<Longrightarrow>
     split_pipes_from False False cur segs (t @ rest) = split_pipes_from False False (cur @ t) segs rest"
proof (induction t arbitrary: cur)
  case Nil
  then show ?case by simp
next
  case (Cons c t)
  have "\<not> (c = SP \<and> prefix ''| '' (t @ rest))"
    using Cons.prems by (cases t) (auto simp: prefix_Cons)
  moreover have "\<not> (t \<noteq> [] \<and> last t = SP \<and> prefix ''| '' rest)"
    using Cons.prems(2) by auto
  ultimately show ?case using Cons.IH [of "cur @ [c]"] Cons.prems(1) by auto
qed

text \<open>Inside double quotes everything but a quote and a backslash is copied, pipes included.\<close>

lemma split_pipes_quoted:
  "\<forall>c\<in>set t. c \<noteq> DQ \<and> c \<noteq> CHR 0x5C \<Longrightarrow>
     split_pipes_from True False cur segs (t @ rest) = split_pipes_from True False (cur @ t) segs rest"
  by (induction t arbitrary: cur) auto

section \<open>Properties\<close>

text \<open>
  C33. The byte cap is a hard cap on the whole response: for every budget the tools accept (at least
  64 bytes) and every command, output, line cap and direction, the response is at most
  \<^verbatim>\<open>max_bytes\<close> bytes long, truncation markers included. The only condition is that the text
  the cap is applied to has a length a 64-bit machine can hold.
\<close>

theorem process_output_within_max_bytes:
  assumes "validate_output_caps max_lines (Some cap) = Inr ()"
    and "length (apply_line_cap (apply_pipe_modifiers rx command raw) max_lines tail) < 2 ^ 64"
  shows "length (process_output rx command raw max_lines (Some cap) tail) \<le> unat cap"
proof -
  from assms(1) have "MIN_MAX_BYTES \<le> cap"
    by (auto simp: validate_output_caps_def split: if_splits)
  then have "64 \<le> unat cap" by (simp add: MIN_MAX_BYTES_def word_le_nat_alt)
  then show ?thesis
    using byte_cap.within assms(2) by (simp add: process_output_def)
qed

theorem process_output_within_max_bytes_witness:
  "length (process_output (\<lambda>_. None) ''show version'' (replicate 100 CHR ''x'') None (Some 64) False)
     \<le> unat (64 :: u32)"
proof -
  have 1: "validate_output_caps None (Some 64) = Inr ()" by code_simp
  have "split_pipes ''show version'' = [''show version'']" by code_simp
  then have 2: "length (apply_line_cap (apply_pipe_modifiers (\<lambda>_. None) ''show version''
      (replicate 100 CHR ''x'')) None False) < 2 ^ 64"
    by (simp add: apply_pipe_modifiers_def line_cap_none)
  show ?thesis by (rule process_output_within_max_bytes [OF 1 2])
qed

text \<open>
  C35. The line cap keeps what it says: at most \<^verbatim>\<open>max_lines\<close> lines come back, the marker line
  included, an output within the budget is returned unchanged, and one over it keeps exactly the
  first (or, with \<^verbatim>\<open>tail\<close>, the last) \<^verbatim>\<open>max_lines - 1\<close> lines, in order, on the side away
  from the marker.
\<close>

theorem apply_line_cap_spec:
  assumes "2 \<le> unat c"
  shows "length (str_lines (apply_line_cap s (Some c) tail)) \<le> unat c
    \<and> apply_line_cap s (Some c) tail =
        (let ls = str_lines s; n = length ls; k = unat c - 1; m = line_marker (n - k) in
         if n \<le> unat c then s
         else if tail then m @ [NL] @ str_join [NL] (drop (n - k) ls)
         else str_join [NL] (take k ls) @ [NL] @ m)"
proof
  show "length (str_lines (apply_line_cap s (Some c) tail)) \<le> unat c"
    using assms by (intro line_cap.within) simp_all
  show "apply_line_cap s (Some c) tail =
        (let ls = str_lines s; n = length ls; k = unat c - 1; m = line_marker (n - k) in
         if n \<le> unat c then s
         else if tail then m @ [NL] @ str_join [NL] (drop (n - k) ls)
         else str_join [NL] (take k ls) @ [NL] @ m)"
    using assms by (simp add: apply_line_cap_def Let_def ring_push_foldl)
qed

theorem apply_line_cap_spec_witness:
  "apply_line_cap (''a'' @ [NL] @ ''b'' @ [NL] @ ''c'' @ [NL]) (Some 2) True
     = line_marker (Suc (Suc 0)) @ [NL] @ ''c''"
proof -
  have "2 \<le> unat (2 :: u32)" by simp
  from apply_line_cap_spec [OF this, of "''a'' @ [NL] @ ''b'' @ [NL] @ ''c'' @ [NL]" True]
  show ?thesis by (simp add: str_lines_def strip_line_end_def)
qed

text \<open>
  C36. A pipe inside a quoted pattern is part of the pattern: a command followed by
  \<^verbatim>\<open>| match "..."\<close> splits into exactly two segments whatever the quoted text contains
  (other than a quote or a backslash), so a \<^verbatim>\<open> | \<close> in it starts no modifier.
\<close>

theorem split_pipes_quoted_pattern:
  assumes "\<forall>c\<in>set cmd. c \<noteq> DQ \<and> c \<noteq> SQ \<and> c \<noteq> CHR ''|''"
    and "cmd \<noteq> []" and "last cmd \<noteq> SP"
    and "\<forall>c\<in>set p. c \<noteq> DQ \<and> c \<noteq> CHR 0x5C"
  shows "split_pipes (cmd @ '' | match '' @ [DQ] @ p @ [DQ])
    = [str_trim cmd, str_trim (''match '' @ [DQ] @ p @ [DQ])]"
proof -
  let ?q = "[DQ] @ p @ [DQ]"
  have "split_pipes (cmd @ '' | match '' @ ?q)
      = split_pipes_from False False cmd [] ('' | match '' @ ?q)"
    using assms(1-3) split_pipes_plain [of cmd "'' | match '' @ ?q" "[]" "[]"]
    by (simp add: split_pipes_def)
  also have "\<dots> = split_pipes_from False False [] [str_trim cmd] (''match '' @ ?q)"
    by (simp add: prefix_Cons)
  also have "\<dots> = split_pipes_from False False ''match '' [str_trim cmd] ?q"
    using split_pipes_plain [of "''match ''" ?q "[]" "[str_trim cmd]"] by (simp add: prefix_Cons)
  also have "\<dots> = split_pipes_from True False (''match '' @ [DQ]) [str_trim cmd] (p @ [DQ])"
    by simp
  also have "\<dots> = split_pipes_from True False (''match '' @ [DQ] @ p) [str_trim cmd] [DQ]"
    using split_pipes_quoted [OF assms(4), of "''match '' @ [DQ]" "[str_trim cmd]" "[DQ]"] by simp
  also have "\<dots> = [str_trim cmd, str_trim (''match '' @ ?q)]"
    by simp
  finally show ?thesis .
qed

theorem split_pipes_quoted_pattern_witness:
  "split_pipes (''show log'' @ '' | match '' @ [DQ] @ ''a | count'' @ [DQ])
     = [''show log'', ''match '' @ [DQ] @ ''a | count'' @ [DQ]]"
proof -
  have "split_pipes (''show log'' @ '' | match '' @ [DQ] @ ''a | count'' @ [DQ])
     = [str_trim ''show log'', str_trim (''match '' @ [DQ] @ ''a | count'' @ [DQ])]"
    by (rule split_pipes_quoted_pattern) simp_all
  moreover have "str_trim ''show log'' = ''show log''" by code_simp
  moreover have "str_trim (''match '' @ [DQ] @ ''a | count'' @ [DQ]) = ''match '' @ [DQ] @ ''a | count'' @ [DQ]"
    by code_simp
  ultimately show ?thesis by simp
qed

text \<open>
  C37. \<^verbatim>\<open>| match\<close> and \<^verbatim>\<open>| except\<close> with the same pattern partition the output: the lines each
  returns are the original lines the filter accepts and the ones it rejects, in their original
  order, and no line is lost or invented. (Stated for output whose lines do not end in a stray
  carriage return, which a second pass over the text would drop.)
\<close>

theorem match_except_partition:
  assumes "list_all clean_line (str_lines out)"
    and "split_first_word (to_ascii_lowercase m) = (''match'', r)" and "r \<noteq> []"
    and "split_first_word (to_ascii_lowercase e) = (''except'', r')" and "r' \<noteq> []"
    and "snd (split_first_word m) = pat" and "snd (split_first_word e) = pat"
  shows "str_lines (apply_modifier rx out m) = filter (line_filter rx (strip_quotes pat)) (str_lines out)
    \<and> str_lines (apply_modifier rx out e)
        = filter (\<lambda>l. \<not> line_filter rx (strip_quotes pat) l) (str_lines out)"
proof -
  have join: "str_lines (lines_or_empty (filter P (str_lines out))) = filter P (str_lines out)" for P
    using assms(1) str_lines_join_nl [of "filter P (str_lines out)"]
    by (auto simp: lines_or_empty_def list_all_iff)
  show ?thesis
    using assms(2-) by (simp add: apply_modifier_def join)
qed

theorem match_except_partition_witness:
  "str_lines (apply_modifier (\<lambda>_. None) (''up 1'' @ [NL] @ ''down 2'' @ [NL]) ''match up'') = [''up 1'']"
proof -
  have 1: "list_all clean_line (str_lines (''up 1'' @ [NL] @ ''down 2'' @ [NL]))" by code_simp
  have 2: "split_first_word (to_ascii_lowercase ''match up'') = (''match'', ''up'')" by code_simp
  have 3: "split_first_word (to_ascii_lowercase ''except up'') = (''except'', ''up'')" by code_simp
  have 4: "snd (split_first_word ''match up'') = ''up''" by code_simp
  have 5: "snd (split_first_word ''except up'') = ''up''" by code_simp
  have "str_lines (apply_modifier (\<lambda>_. None) (''up 1'' @ [NL] @ ''down 2'' @ [NL]) ''match up'')
    = filter (line_filter (\<lambda>_. None) (strip_quotes ''up'')) (str_lines (''up 1'' @ [NL] @ ''down 2'' @ [NL]))"
    using match_except_partition [OF 1 2 _ 3 _ 4 5] by simp
  also have "\<dots> = [''up 1'']" by code_simp
  finally show ?thesis .
qed

end
