(* ===== verification/Command_Tools.thy ===== *)
theory Command_Tools
  imports Output Changeset_Tools
begin

text \<open>
  The tools of \<^verbatim>\<open>rust-junosmcp-core/src/tools\<close> that read from devices: \<^verbatim>\<open>execute_command.rs\<close>,
  \<^verbatim>\<open>pfe.rs\<close>, \<^verbatim>\<open>get_config.rs\<close>, \<^verbatim>\<open>config_diff.rs\<close>, \<^verbatim>\<open>router_list.rs\<close> and
  \<^verbatim>\<open>batch.rs\<close>. The redaction crate and the JSON printer are parameters. How long the exchange with
  the device takes, and the manager's state when it is abandoned, come from outside, as for the
  recovery sweep.
\<close>

section \<open>One exchange under a timeout\<close>

text \<open>\<^verbatim>\<open>tokio::time::timeout\<close> around a call, and the error the tools map a lapse to.\<close>

definition with_timeout ::
    "('d, 'w) probe_times \<Rightarrow> nat \<Rightarrow> (('d, 'w) device_manager \<Rightarrow> 'r jres \<times> ('d, 'w) device_manager)
      \<Rightarrow> ('d, 'w) device_manager \<Rightarrow> 'r jres \<times> ('d, 'w) device_manager" where
  "with_timeout T ms call dm = (if in_time ms (cli_takes T) then call dm else (Inl (Timeout ms), cli_lost T dm))"

definition open_cli ::
    "('d, 'w) junos_env \<Rightarrow> string \<Rightarrow> string \<Rightarrow> ('d, 'w) device_manager
      \<Rightarrow> (jmcp_error + (rustez_error + string)) \<times> ('d, 'w) device_manager" where
  "open_cli E router command dm =
     (case je_open E router dm of
        (Inl e, dm1) \<Rightarrow> (Inl e, dm1)
      | (Inr g, dm1) \<Rightarrow>
          (let (r, dm2) = cli_and_drop (je_nc E) command (the (pd_dev g)) g dm1 in (Inr r, dm2)))"

definition cli_of ::
    "('d, 'w) junos_env \<Rightarrow> string \<Rightarrow> string \<Rightarrow> ('d, 'w) device_manager \<Rightarrow> string jres \<times> ('d, 'w) device_manager" where
  "cli_of E router command dm =
     (let (r, dm') = open_cli E router command dm in (and_then r (map_err Rustez), dm'))"

record output_caps =
  oc_max_lines :: "u32 option"
  oc_max_bytes :: "u32 option"
  oc_tail :: bool

definition cap_output :: "regex \<Rightarrow> output_caps \<Rightarrow> string \<Rightarrow> string \<Rightarrow> string" where
  "cap_output rx caps command raw = process_output rx command raw (oc_max_lines caps) (oc_max_bytes caps) (oc_tail caps)"

section \<open>execute_junos_command\<close>

record execute_args =
  ex_device :: string
  ex_command :: string
  ex_timeout :: u64
  ex_caps :: output_caps

definition check_execute :: "('a, 'd, 'w) tool_env \<Rightarrow> execute_args \<Rightarrow> inventory \<Rightarrow> unit jres" where
  "check_execute TE args iv =
     and_then (validate_input_length ''command'' (ex_command args)) (\<lambda>_.
     and_then (validate_output_caps (oc_max_lines (ex_caps args)) (oc_max_bytes (ex_caps args))) (\<lambda>_.
     and_then (inv_get iv (ex_device args)) (\<lambda>_.
       enforce_decision (te_pl TE) (check_command (te_pl TE) (te_policy TE) (ex_device args) (ex_command args))
         ''execute_junos_command'' (ex_device args) (ex_command args))))"

definition execute_command ::
    "regex \<Rightarrow> ('a, 'd, 'w) tool_env \<Rightarrow> execute_args \<Rightarrow> ('d, 'w) device_manager \<Rightarrow> json jres \<times> ('d, 'w) device_manager" where
  "execute_command rx TE args dm =
     (case check_execute TE args (dm_inventory dm) of
        Inl e \<Rightarrow> (Inl e, dm)
      | Inr _ \<Rightarrow>
          (let E = te_je TE;
               (r, dm') = with_timeout (te_times TE) (unat (ex_timeout args) * 1000)
                            (run_cli (je_nc E) (je_ssh E) (je_utf8 E) (ex_device args) (ex_command args)) dm
           in (and_then r (\<lambda>out. Inr (JStr (cap_output rx (ex_caps args) (ex_command args) out))), dm')))"

section \<open>execute_junos_pfe_command\<close>

record pfe_args =
  pf_device :: string
  pf_fpc_target :: string
  pf_pfe_command :: string
  pf_timeout :: u64
  pf_caps :: output_caps

definition check_pfe :: "('a, 'd, 'w) tool_env \<Rightarrow> pfe_args \<Rightarrow> inventory \<Rightarrow> unit jres" where
  "check_pfe TE args iv =
     and_then (validate_input_length ''pfe_command'' (pf_pfe_command args)) (\<lambda>_.
     and_then (validate_output_caps (oc_max_lines (pf_caps args)) (oc_max_bytes (pf_caps args))) (\<lambda>_.
       if DQ \<in> set (pf_pfe_command args)
       then Inl (BadPfeCommand (''literal '' @ [SQ, DQ, SQ] @ '' is not allowed (would break the wrapper command)''))
       else if \<not> list_all (\<lambda>c. is_ascii_alphanumeric c \<or> c = CHR ''-'' \<or> c = CHR ''_'') (pf_fpc_target args)
       then Inl (BadPfeCommand ''fpc_target contains invalid characters'')
       else
         and_then (inv_get iv (pf_device args)) (\<lambda>_.
           enforce_decision (te_pl TE) (check_pfe_command (te_pl TE) (te_policy TE) (pf_device args) (pf_pfe_command args))
             ''execute_junos_pfe_command'' (pf_device args) (pf_pfe_command args))))"

definition pfe_wrapper :: "string \<Rightarrow> string \<Rightarrow> string" where
  "pfe_wrapper fpc_target pfe_command =
     ''request pfe execute target '' @ fpc_target @ '' command '' @ [DQ] @ pfe_command @ [DQ]"

definition execute_pfe ::
    "regex \<Rightarrow> ('a, 'd, 'w) tool_env \<Rightarrow> pfe_args \<Rightarrow> ('d, 'w) device_manager \<Rightarrow> json jres \<times> ('d, 'w) device_manager" where
  "execute_pfe rx TE args dm =
     (case check_pfe TE args (dm_inventory dm) of
        Inl e \<Rightarrow> (Inl e, dm)
      | Inr _ \<Rightarrow>
          (let (r, dm') = with_timeout (te_times TE) (unat (pf_timeout args) * 1000)
                 (cli_of (te_je TE) (pf_device args) (pfe_wrapper (pf_fpc_target args) (pf_pfe_command args))) dm
           in (and_then r (\<lambda>out. Inr (JObj [(''fpc_target'', JStr (pf_fpc_target args)),
                 (''output'', JStr (cap_output rx (pf_caps args) (pf_pfe_command args) out))])), dm')))"

section \<open>get_junos_config\<close>

record redact_lib =
  rd_text :: "string \<Rightarrow> string"
  rd_xml_str :: "string \<Rightarrow> string option"
  rd_json_from_str :: "string \<Rightarrow> json option"
  rd_json_value :: "json \<Rightarrow> json"
  rd_json_pretty :: "json \<Rightarrow> string option"

definition redact_config_output :: "redact_lib \<Rightarrow> string \<Rightarrow> string \<Rightarrow> string" where
  "redact_config_output R text fmt =
     (if fmt = ''xml''
      then (case rd_xml_str R text of Some redacted \<Rightarrow> redacted | None \<Rightarrow> rd_text R text)
      else if fmt = ''json''
      then
        (case rd_json_from_str R text of
           Some v \<Rightarrow> (case rd_json_pretty R (rd_json_value R v) of Some s \<Rightarrow> s | None \<Rightarrow> rd_text R text)
         | None \<Rightarrow> rd_text R text)
      else rd_text R text)"

definition build_command :: "string option \<Rightarrow> string \<Rightarrow> string jres" where
  "build_command config_path fmt =
     and_then (config_display_suffix fmt) (\<lambda>suffix.
       let base = (case config_path of
             Some path \<Rightarrow> if str_trim path \<noteq> [] then ''show configuration '' @ str_trim path else ''show configuration''
           | None \<Rightarrow> ''show configuration'')
       in Inr (case suffix of Some sfx \<Rightarrow> base @ '' | '' @ sfx | None \<Rightarrow> base))"

record get_config_args =
  gc_device :: string
  gc_timeout :: u64
  gc_config_path :: "string option"
  gc_format :: string
  gc_caps :: output_caps

text \<open>\<open>alnum\<close> is Unicode's table of alphanumeric characters, as for the path check.\<close>

definition check_get_config ::
    "(string \<Rightarrow> bool) \<Rightarrow> ('a, 'd, 'w) tool_env \<Rightarrow> get_config_args \<Rightarrow> inventory \<Rightarrow> string jres" where
  "check_get_config alnum TE args iv =
     and_then (validate_output_caps (oc_max_lines (gc_caps args)) (oc_max_bytes (gc_caps args))) (\<lambda>_.
     and_then (case gc_config_path args of
                 Some path \<Rightarrow> and_then (validate_input_length ''config_path'' path) (\<lambda>_. validate_config_path alnum path)
               | None \<Rightarrow> Inr ()) (\<lambda>_.
     and_then (build_command (gc_config_path args) (gc_format args)) (\<lambda>command.
     and_then (inv_get iv (gc_device args)) (\<lambda>_.
     and_then (enforce_decision (te_pl TE) (check_command (te_pl TE) (te_policy TE) (gc_device args) command)
                 ''get_junos_config'' (gc_device args) command) (\<lambda>_. Inr command)))))"

definition get_config ::
    "regex \<Rightarrow> redact_lib \<Rightarrow> (string \<Rightarrow> bool) \<Rightarrow> ('a, 'd, 'w) tool_env \<Rightarrow> get_config_args \<Rightarrow> ('d, 'w) device_manager
      \<Rightarrow> json jres \<times> ('d, 'w) device_manager" where
  "get_config rx R alnum TE args dm =
     (case check_get_config alnum TE args (dm_inventory dm) of
        Inl e \<Rightarrow> (Inl e, dm)
      | Inr command \<Rightarrow>
          (let (r, dm') = with_timeout (te_times TE) (unat (gc_timeout args) * 1000)
                 (cli_of (te_je TE) (gc_device args) command) dm
           in (and_then r (\<lambda>out.
                 let redacted = redact_config_output R (strip_config_xml_wrapper out) (gc_format args)
                 in Inr (JStr (cap_output rx (gc_caps args) command redacted))), dm')))"

section \<open>junos_config_diff, get_router_list\<close>

definition parse_error_hint :: "string \<Rightarrow> string option" where
  "parse_error_hint err_text =
     (let lower = to_ascii_lowercase err_text in
      if str_contains ''juniper.conf'' lower \<or> str_contains ''parse error'' lower
      then Some (err_text @ '' (the on-box configuration failed to parse for the current mode ''
             @ [CHR 0xE2, CHR 0x80, CHR 0x94]
             @ '' common right after a chassis-cluster enable/disable. Fix or load a valid config on the device, ''
             @ ''then retry junos_config_diff.)'')
      else None)"

definition config_diff ::
    "redact_lib \<Rightarrow> ('a, 'd, 'w) tool_env \<Rightarrow> string \<Rightarrow> i64 \<Rightarrow> u64 \<Rightarrow> ('d, 'w) device_manager
      \<Rightarrow> json jres \<times> ('d, 'w) device_manager" where
  "config_diff R TE device version timeout dm =
     (case validate_rollback_version version of
        Inl e \<Rightarrow> (Inl e, dm)
      | Inr v \<Rightarrow>
          (let call = (\<lambda>dm. let (r, dm') = open_cli (te_je TE) device
                              (''show configuration | compare rollback '' @ show_nat (unat v)) dm in
                   (and_then r (map_err (\<lambda>e. case parse_error_hint (rz_text e) of
                      Some hint \<Rightarrow> ConfigParseHint hint | None \<Rightarrow> Rustez e)), dm'));
               (r, dm') = with_timeout (te_times TE) (unat timeout * 1000) call dm
           in (and_then r (\<lambda>out. Inr (JStr (rd_text R (strip_config_xml_wrapper out)))), dm')))"

definition router_list :: "inventory \<Rightarrow> json" where
  "router_list iv = JList (map JStr (inv_names iv))"

section \<open>Properties\<close>

lemma dangerous_notin:
  "validate_config_path alnum path = Inr () \<Longrightarrow> c \<in> {CHR ''|'', CHR '';'', NL, CR, DQ} \<Longrightarrow> c \<notin> set (str_trim path)"
  using set_str_trim [of path]
  by (auto simp: validate_config_path_def dangerous_chars_def split: if_splits option.splits)

text \<open>
  C33. Reading the configuration stays a read: the command that reaches the policy and then the
  device is \<^verbatim>\<open>show configuration\<close>, extended by a path that contains no pipe, semicolon, line
  break or double quote, and by at most one of the three display pipes of the fixed table, and the policy
  admitted exactly that command.
\<close>

theorem config_read_stays_a_read:
  assumes "check_get_config alnum TE args iv = Inr cmd"
  shows "\<exists>base sfx. cmd = base @ sfx \<and> prefix ''show configuration'' base
    \<and> set base \<inter> {CHR ''|'', CHR '';'', NL, CR, DQ} = {}
    \<and> sfx \<in> {[], '' | display set'', '' | display xml'', '' | display json''}
    \<and> check_command (te_pl TE) (te_policy TE) (gc_device args) cmd = Allow"
proof -
  from assms have ok: "check_command (te_pl TE) (te_policy TE) (gc_device args) cmd = Allow"
    by (auto simp: check_get_config_def and_then_eq_Inr enforce_decision_Inr_iff)
  from assms obtain sfx base where b: "config_display_suffix (gc_format args) = Inr sfx"
      "cmd = (case sfx of Some x \<Rightarrow> base @ '' | '' @ x | None \<Rightarrow> base)"
      "base = (case gc_config_path args of
             Some path \<Rightarrow> if str_trim path \<noteq> [] then ''show configuration '' @ str_trim path else ''show configuration''
           | None \<Rightarrow> ''show configuration'')"
    by (auto simp: check_get_config_def and_then_eq_Inr build_command_def Let_def)
  have path: "validate_config_path alnum p = Inr ()" if "gc_config_path args = Some p" for p
    using assms that by (auto simp: check_get_config_def and_then_eq_Inr)
  have "prefix ''show configuration'' base \<and> set base \<inter> {CHR ''|'', CHR '';'', NL, CR, DQ} = {}"
    using b(3) dangerous_notin [OF path] by (auto split: option.splits if_splits)
  moreover have "\<exists>tl. cmd = base @ tl \<and> tl \<in> {[], '' | display set'', '' | display xml'', '' | display json''}"
    using b(1,2) by (auto simp: config_display_suffix_def split: option.splits if_splits)
  ultimately show ?thesis using ok by blast
qed

definition lab_caps :: output_caps where
  "lab_caps = \<lparr>oc_max_lines = None, oc_max_bytes = None, oc_tail = False\<rparr>"

definition blocklist_policy :: "string policy" where
  "blocklist_policy = open_policy\<lparr>command_mode := Blocklist, default_policy := open_engine\<lparr>ep_mode := Blocklist\<rparr>\<rparr>"

lemma blocklist_policy_allows:
  "check_command toy_engine blocklist_policy r c = Allow" "check_pfe_command toy_engine blocklist_policy r c = Allow"
  by (simp_all add: check_command_def check_pfe_command_def policy_for_def blocklist_policy_def open_policy_def open_engine_def
      deny_disallowed_character_def apply_allowlist_deny_carveout_def toy_engine_def toy_check_def toy_evaluate_def
      toy_rules_for_def Let_def)

theorem config_read_stays_a_read_witness:
  "prefix ''show configuration'' ''show configuration interfaces | display set''
    \<and> check_command toy_engine blocklist_policy ''r1'' ''show configuration interfaces | display set'' = Allow"
proof -
  let ?args = "\<lparr>gc_device = ''r1'', gc_timeout = 60, gc_config_path = Some ''interfaces'', gc_format = ''set'', gc_caps = lab_caps\<rparr>"
  have v: "validate_config_path (\<lambda>_. False) ''interfaces'' = Inr ()" by code_simp
  have t: "str_trim ''interfaces'' = ''interfaces''" by code_simp
  have "check_get_config (\<lambda>_. False) (lab_te\<lparr>te_policy := blocklist_policy\<rparr>) ?args (dm_inventory lab_dm)
      = Inr ''show configuration interfaces | display set''"
    by (simp add: check_get_config_def v t lab_caps_def validate_output_caps_def validate_input_length_def MAX_INPUT_LEN_def
        build_command_def config_display_suffix_def lab_dm_def inv_get_def lab_te_def blocklist_policy_allows enforce_decision_def)
  from config_read_stays_a_read [OF this] show ?thesis by (auto simp: lab_te_def)
qed

text \<open>
  A PFE command cannot leave its quotes: a request that passed the checks gives a wrapper command with exactly the two
  double quotes the wrapper puts around the command, a target of ASCII letters, digits, dashes and
  underscores, and a command that the PFE policy of that device admitted.
\<close>

theorem pfe_command_stays_quoted:
  assumes "check_pfe TE args iv = Inr u"
  shows "filter (\<lambda>c. c = DQ) (pfe_wrapper (pf_fpc_target args) (pf_pfe_command args)) = [DQ, DQ]
    \<and> list_all (\<lambda>c. is_ascii_alphanumeric c \<or> c = CHR ''-'' \<or> c = CHR ''_'') (pf_fpc_target args)
    \<and> check_pfe_command (te_pl TE) (te_policy TE) (pf_device args) (pf_pfe_command args) = Allow"
proof -
  from assms have q: "DQ \<notin> set (pf_pfe_command args)"
    and t: "list_all (\<lambda>c. is_ascii_alphanumeric c \<or> c = CHR ''-'' \<or> c = CHR ''_'') (pf_fpc_target args)"
    and d: "check_pfe_command (te_pl TE) (te_policy TE) (pf_device args) (pf_pfe_command args) = Allow"
    by (auto simp: check_pfe_def and_then_eq_Inr enforce_decision_Inr_iff split: if_splits)
  have "\<not> is_ascii_alphanumeric DQ" by (simp add: is_ascii_alphanumeric_def byte_def)
  with t have t': "DQ \<notin> set (pf_fpc_target args)" by (auto simp: list_all_iff)
  have "filter (\<lambda>c. c = DQ) (pfe_wrapper (pf_fpc_target args) (pf_pfe_command args)) = [DQ, DQ]"
  proof -
    have "filter (\<lambda>c. c = DQ) (pf_fpc_target args) = []" "filter (\<lambda>c. c = DQ) (pf_pfe_command args) = []"
      using q t' by (auto simp: filter_empty_conv)
    then show ?thesis by (simp add: pfe_wrapper_def)
  qed
  with t d show ?thesis by blast
qed

theorem pfe_command_stays_quoted_witness:
  "filter (\<lambda>c. c = DQ) (pfe_wrapper ''fpc0'' ''show jnh 0'') = [DQ, DQ]"
proof -
  let ?args = "\<lparr>pf_device = ''r1'', pf_fpc_target = ''fpc0'', pf_pfe_command = ''show jnh 0'', pf_timeout = 60, pf_caps = lab_caps\<rparr>"
  have "check_pfe (lab_te\<lparr>te_policy := blocklist_policy\<rparr>) ?args (dm_inventory lab_dm) = Inr ()"
    by (simp add: check_pfe_def lab_caps_def validate_output_caps_def validate_input_length_def MAX_INPUT_LEN_def
        lab_dm_def inv_get_def lab_te_def blocklist_policy_allows enforce_decision_def is_ascii_alphanumeric_def byte_def)
  from pfe_command_stays_quoted [OF this] show ?thesis by simp
qed

end
