(* ===== verification/Batch_Tool.thy ===== *)
theory Batch_Tool
  imports Command_Tools
begin

text \<open>
  \<^verbatim>\<open>rust-junosmcp-core/src/tools/batch.rs\<close>: commands on several devices at once. One device's run is a
  function; the tasks and their permits are a step relation, in which a batch timeout is a run that
  stops early: the report is made from whatever results are in.
\<close>

section \<open>Data\<close>

record command_outcome =
  bo_command :: string
  bo_ok :: bool
  bo_value :: "string option"
  bo_error :: "string option"

record router_result =
  rr_router :: string
  rr_commands :: "command_outcome list"

record batch_args =
  ba_devices :: "string list"
  ba_commands :: "string list"
  ba_command_timeout :: u64
  ba_max_concurrent_devices :: u32
  ba_caps :: output_caps

definition failed_outcome :: "string \<Rightarrow> string \<Rightarrow> command_outcome" where
  "failed_outcome msg c = \<lparr>bo_command = c, bo_ok = False, bo_value = None, bo_error = Some msg\<rparr>"

definition failed_result :: "string \<Rightarrow> string list \<Rightarrow> string \<Rightarrow> router_result" where
  "failed_result router cmds msg = \<lparr>rr_router = router, rr_commands = map (failed_outcome msg) cmds\<rparr>"

section \<open>One device\<close>

text \<open>
  The traits: opening a session, a command on it, closing it, and the session going out of scope.
\<close>

record ('v, 's) batch_runner =
  br_open :: "string \<Rightarrow> 's \<Rightarrow> 'v jres \<times> 's"
  br_cli :: "'v \<Rightarrow> string \<Rightarrow> 's \<Rightarrow> (string, jmcp_error, 's) answer"
  br_close :: "'v \<Rightarrow> 's \<Rightarrow> unit jres \<times> 's"
  br_drop :: "'v \<Rightarrow> 's \<Rightarrow> 's"

definition device_manager_runner ::
    "('d, 'w) junos_env \<Rightarrow> ('d pooled_device, ('d, 'w) device_manager) batch_runner" where
  "device_manager_runner E =
     \<lparr>br_open = je_open E,
      br_cli = \<lambda>g c dm. (let a = nc_cli (je_nc E) c (the (pd_dev g)) (ext dm) in
        \<lparr>takes = takes a, says = map_err Rustez (says a), after = dm\<lparr>ext := after a\<rparr>, dropped = dm\<lparr>ext := dropped a\<rparr>\<rparr>),
      br_close = \<lambda>g dm. (Inr (), dm),
      br_drop = drop_dev (je_nc E)\<rparr>"

fun run_commands ::
    "('v, 's) batch_runner \<Rightarrow> nat \<Rightarrow> 'v \<Rightarrow> string list \<Rightarrow> 's \<Rightarrow> command_outcome list \<times> 's" where
  "run_commands B timeout v [] s = ([], s)"
| "run_commands B timeout v (c # cs) s =
     (let a = br_cli B v c s;
          (outcome, s1) =
            (if in_time timeout (takes a)
             then (case says a of
                     Inr out \<Rightarrow> \<lparr>bo_command = c, bo_ok = True, bo_value = Some out, bo_error = None\<rparr>
                   | Inl e \<Rightarrow> failed_outcome (''transport error: '' @ error_to_string e) c, after a)
             else (failed_outcome ''command timeout'' c, dropped a));
          (outs, s2) = run_commands B timeout v cs s1
      in (outcome # outs, s2))"

definition run_device ::
    "('v, 's) batch_runner \<Rightarrow> string \<Rightarrow> string list \<Rightarrow> nat \<Rightarrow> 's \<Rightarrow> router_result \<times> 's" where
  "run_device B device cmds timeout s =
     (case br_open B device s of
        (Inl e, s1) \<Rightarrow> (failed_result device cmds (''connect failed: '' @ error_to_string e), s1)
      | (Inr v, s1) \<Rightarrow>
          (let (outs, s2) = run_commands B timeout v cmds s1;
               (_, s3) = br_close B v s2
           in (\<lparr>rr_router = device, rr_commands = outs\<rparr>, br_drop B v s3)))"

section \<open>Checks before any task starts\<close>

definition batch_error :: "string \<Rightarrow> jmcp_error" where
  "batch_error what = InventoryInvalid (''execute_junos_command_batch: '' @ what)"

definition preflight :: "batch_args \<Rightarrow> inventory \<Rightarrow> router_result option list" where
  "preflight args iv =
     map (\<lambda>r. if is_ok (inv_get iv r) then None
              else Some (failed_result r (ba_commands args)
                     (''device '' @ [SQ] @ r @ [SQ] @ '' not found in device mapping'')))
       (ba_devices args)"

definition valid_indices :: "batch_args \<Rightarrow> inventory \<Rightarrow> nat list" where
  "valid_indices args iv =
     filter (\<lambda>i. is_ok (inv_get iv (ba_devices args ! i))) [0..<length (ba_devices args)]"

definition check_pairs :: "('a, 'd, 'w) tool_env \<Rightarrow> string list \<Rightarrow> string list \<Rightarrow> unit jres" where
  "check_pairs TE devs cmds =
     and_then (try_map (\<lambda>(r, c). enforce_decision (te_pl TE) (check_command (te_pl TE) (te_policy TE) r c)
                  ''execute_junos_command_batch'' r c) (List.product devs cmds)) (\<lambda>_. Inr ())"

definition check_batch :: "('a, 'd, 'w) tool_env \<Rightarrow> batch_args \<Rightarrow> inventory \<Rightarrow> unit jres" where
  "check_batch TE args iv =
     and_then (validate_output_caps (oc_max_lines (ba_caps args)) (oc_max_bytes (ba_caps args))) (\<lambda>_.
       if ba_devices args = [] then Inl (batch_error ''devices must be non-empty'')
       else if ba_commands args = [] then Inl (batch_error ''commands must be non-empty'')
       else if ba_max_concurrent_devices args = 0 then Inl (batch_error ''max_concurrent_devices must be > 0'')
       else if length (ba_devices args) > 100 then Inl (batch_error ''devices list exceeds maximum of 100'')
       else if length (ba_commands args) > 50 then Inl (batch_error ''commands list exceeds maximum of 50'')
       else check_pairs TE (map (\<lambda>i. ba_devices args ! i) (valid_indices args iv)) (ba_commands args))"

section \<open>The tasks\<close>

text \<open>
  A task waits for a permit, runs, and is collected with its result or without one when it panicked.
  \<open>ended i rr\<close> says that \<open>rr\<close> is a result the task for index \<open>i\<close> can end with.
\<close>

record batch_state =
  bs_waiting :: "nat list"
  bs_running :: "nat list"
  bs_results :: "router_result option list"

definition batch_init :: "batch_args \<Rightarrow> inventory \<Rightarrow> batch_state" where
  "batch_init args iv = \<lparr>bs_waiting = valid_indices args iv, bs_running = [], bs_results = preflight args iv\<rparr>"

inductive batch_step :: "nat \<Rightarrow> (nat \<Rightarrow> router_result \<Rightarrow> bool) \<Rightarrow> batch_state \<Rightarrow> batch_state \<Rightarrow> bool"
  for permits ended where
  acquire: "i \<in> set (bs_waiting s) \<Longrightarrow> length (bs_running s) < permits \<Longrightarrow>
    batch_step permits ended s (s\<lparr>bs_waiting := remove1 i (bs_waiting s), bs_running := i # bs_running s\<rparr>)"
| collect: "i \<in> set (bs_running s) \<Longrightarrow> ended i rr \<Longrightarrow>
    batch_step permits ended s (s\<lparr>bs_running := remove1 i (bs_running s), bs_results := (bs_results s)[i := Some rr]\<rparr>)"
| panicked: "i \<in> set (bs_running s) \<Longrightarrow>
    batch_step permits ended s (s\<lparr>bs_running := remove1 i (bs_running s)\<rparr>)"

inductive_cases batch_stepE: "batch_step permits ended s s'"

definition batch_reachable ::
    "nat \<Rightarrow> (nat \<Rightarrow> router_result \<Rightarrow> bool) \<Rightarrow> batch_args \<Rightarrow> inventory \<Rightarrow> batch_state \<Rightarrow> bool" where
  "batch_reachable permits ended args iv s = (batch_step permits ended)\<^sup>*\<^sup>* (batch_init args iv) s"

section \<open>The report\<close>

definition process_outcome :: "regex \<Rightarrow> output_caps \<Rightarrow> command_outcome \<Rightarrow> command_outcome" where
  "process_outcome rx caps co = co\<lparr>bo_value := map_option (cap_output rx caps (bo_command co)) (bo_value co)\<rparr>"

definition batch_rows :: "regex \<Rightarrow> batch_args \<Rightarrow> router_result option list \<Rightarrow> router_result list" where
  "batch_rows rx args results =
     map (\<lambda>(i, name).
         let rr = (case results ! i of Some rr \<Rightarrow> rr | None \<Rightarrow> failed_result name (ba_commands args) ''batch timeout'')
         in rr\<lparr>rr_commands := map (process_outcome rx (ba_caps args)) (rr_commands rr)\<rparr>)
       (enumerate 0 (ba_devices args))"

definition outcome_json :: "command_outcome \<Rightarrow> json" where
  "outcome_json co =
     JObj ([(''command'', JStr (bo_command co)), (''ok'', JBool (bo_ok co))]
       @ (case bo_value co of None \<Rightarrow> [] | Some v \<Rightarrow> [(''value'', JStr v)])
       @ (case bo_error co of None \<Rightarrow> [] | Some e \<Rightarrow> [(''error'', JStr e)]))"

definition result_json :: "router_result \<Rightarrow> json" where
  "result_json rr = JObj [(''router'', JStr (rr_router rr)), (''commands'', JList (map outcome_json (rr_commands rr)))]"

text \<open>The whole call, given the state of the tasks when they are all collected or the batch timeout lapses.\<close>

definition batch_tool ::
    "regex \<Rightarrow> ('a, 'd, 'w) tool_env \<Rightarrow> batch_args \<Rightarrow> inventory \<Rightarrow> batch_state \<Rightarrow> json jres" where
  "batch_tool rx TE args iv s =
     and_then (check_batch TE args iv) (\<lambda>_.
       Inr (JList (map result_json (batch_rows rx args (bs_results s)))))"

section \<open>Invariant\<close>

definition answers_for :: "batch_args \<Rightarrow> nat \<Rightarrow> router_result \<Rightarrow> bool" where
  "answers_for args i rr \<longleftrightarrow>
     rr_router rr = ba_devices args ! i \<and> map bo_command (rr_commands rr) = ba_commands args"

definition batch_inv :: "nat \<Rightarrow> batch_args \<Rightarrow> inventory \<Rightarrow> batch_state \<Rightarrow> bool" where
  "batch_inv permits args iv s \<longleftrightarrow>
     length (bs_running s) \<le> permits
     \<and> distinct (bs_waiting s @ bs_running s)
     \<and> set (bs_waiting s @ bs_running s) \<subseteq> set (valid_indices args iv)
     \<and> length (bs_results s) = length (ba_devices args)
     \<and> (\<forall>i < length (ba_devices args).
          case bs_results s ! i of Some rr \<Rightarrow> answers_for args i rr | None \<Rightarrow> True)
     \<and> (\<forall>i \<in> set (bs_waiting s @ bs_running s). bs_results s ! i = None)"

lemma map_failed_outcome: "map bo_command (map (failed_outcome msg) cs) = cs"
  by (induction cs) (simp_all add: failed_outcome_def)

lemma failed_result_answers: "answers_for args i (failed_result (ba_devices args ! i) (ba_commands args) msg)"
  unfolding answers_for_def failed_result_def router_result.simps map_failed_outcome by simp

lemma batch_init_inv: "batch_inv permits args iv (batch_init args iv)"
  by (auto simp: batch_inv_def batch_init_def preflight_def valid_indices_def failed_result_answers)

lemma batch_step_inv:
  assumes "batch_step permits ended s s'" and "batch_inv permits args iv s"
    and "\<And>i rr. ended i rr \<Longrightarrow> answers_for args i rr"
  shows "batch_inv permits args iv s'"
  using assms
proof (induction rule: batch_step.induct)
  case (acquire i s)
  then show ?case
    by (auto simp: batch_inv_def dest: notin_set_remove1)
next
  case (collect i s rr)
  then have "i < length (bs_results s)"
    by (auto simp: batch_inv_def valid_indices_def)
  with collect show ?case
    by (auto simp: batch_inv_def nth_list_update distinct_remove1 length_remove1 split: option.splits dest: notin_set_remove1)
next
  case (panicked i s)
  then show ?case
    by (auto simp: batch_inv_def distinct_remove1 length_remove1 dest: notin_set_remove1)
qed

lemma batch_reachable_inv:
  assumes "batch_reachable permits ended args iv s" and "\<And>i rr. ended i rr \<Longrightarrow> answers_for args i rr"
  shows "batch_inv permits args iv s"
  using assms(1) unfolding batch_reachable_def
  by (induction rule: rtranclp_induct) (auto intro: batch_init_inv batch_step_inv assms(2))

lemma run_commands_in_order: "run_commands B t v cs s = (outs, s') \<Longrightarrow> map bo_command outs = cs"
  by (induction cs arbitrary: s outs s')
    (auto simp: Let_def failed_outcome_def split: if_splits prod.splits sum.splits)

lemma run_device_answers:
  assumes "run_device B (ba_devices args ! i) (ba_commands args) t s = (rr, s')"
  shows "answers_for args i rr"
proof (cases "br_open B (ba_devices args ! i) s")
  case (Pair r s1)
  then show ?thesis
    using assms run_commands_in_order [of B t _ "ba_commands args"]
    by (cases r) (auto simp: run_device_def failed_result_answers answers_for_def split: prod.splits
        intro: failed_result_answers [unfolded answers_for_def, THEN conjunct1]
          failed_result_answers [unfolded answers_for_def, THEN conjunct2])
qed

lemma batch_rows_routers:
  assumes "batch_inv permits args iv s"
  shows "map rr_router (batch_rows rx args (bs_results s)) = ba_devices args
    \<and> list_all (\<lambda>rr. map bo_command (rr_commands rr) = ba_commands args) (batch_rows rx args (bs_results s))"
proof -
  have row: "answers_for args i (case bs_results s ! i of Some rr \<Rightarrow> rr
      | None \<Rightarrow> failed_result (ba_devices args ! i) (ba_commands args) ''batch timeout'')"
    if "i < length (ba_devices args)" for i
    using assms that by (auto simp: batch_inv_def failed_result_answers split: option.splits)
  have rows: "batch_rows rx args (bs_results s) = map (\<lambda>i.
      let rr = (case bs_results s ! i of Some rr \<Rightarrow> rr
           | None \<Rightarrow> failed_result (ba_devices args ! i) (ba_commands args) ''batch timeout'')
      in rr\<lparr>rr_commands := map (process_outcome rx (ba_caps args)) (rr_commands rr)\<rparr>) [0..<length (ba_devices args)]"
    by (rule nth_equalityI) (simp_all add: batch_rows_def nth_enumerate_eq cong: option.case_cong)
  have "map rr_router (batch_rows rx args (bs_results s)) = map ((!) (ba_devices args)) [0..<length (ba_devices args)]"
    using row unfolding rows by (simp add: Let_def answers_for_def)
  then have "map rr_router (batch_rows rx args (bs_results s)) = ba_devices args" by (simp add: map_nth)
  moreover have "list_all (\<lambda>rr. map bo_command (rr_commands rr) = ba_commands args) (batch_rows rx args (bs_results s))"
    using row unfolding rows by (simp add: list_all_iff Let_def process_outcome_def answers_for_def comp_def)
  ultimately show ?thesis ..
qed

section \<open>Properties\<close>

text \<open>
  Whatever order the tasks run and end in, however many of them panic, and whenever the batch
  timeout cuts the run short: no more than the permitted number run at once, and the report has one row per requested
  device, in the order of the request, each with one outcome per command, in order. A task is any run
  of one device through the runner.
\<close>

theorem batch_reports_every_device:
  assumes "batch_reachable permits ended args iv s"
    and "\<forall>i rr. ended i rr \<longrightarrow>
      (\<exists>B t x x'. run_device (B :: ('v, 's) batch_runner) (ba_devices args ! i) (ba_commands args) t x = (rr, x'))"
  shows "length (bs_running s) \<le> permits
    \<and> map rr_router (batch_rows rx args (bs_results s)) = ba_devices args
    \<and> list_all (\<lambda>rr. map bo_command (rr_commands rr) = ba_commands args) (batch_rows rx args (bs_results s))"
proof -
  have "answers_for args i rr" if "ended i rr" for i rr
  proof -
    from assms(2) that obtain B t x x' where
      "run_device (B :: ('v, 's) batch_runner) (ba_devices args ! i) (ba_commands args) t x = (rr, x')" by metis
    then show ?thesis by (rule run_device_answers)
  qed
  from batch_reachable_inv [OF assms(1) this] have inv: "batch_inv permits args iv s" .
  with batch_rows_routers [OF inv] show ?thesis by (simp add: batch_inv_def)
qed

definition lab_batch :: batch_args where
  "lab_batch = \<lparr>ba_devices = [''r1'', ''r9''], ba_commands = [''show version''], ba_command_timeout = 60,
     ba_max_concurrent_devices = 1, ba_caps = \<lparr>oc_max_lines = None, oc_max_bytes = None, oc_tail = False\<rparr>\<rparr>"

theorem batch_reports_every_device_witness:
  "map rr_router (batch_rows (\<lambda>_. None) lab_batch (bs_results (batch_init lab_batch (dm_inventory lab_dm))))
     = [''r1'', ''r9'']"
proof -
  have 1: "batch_reachable 1 (\<lambda>_ _. False) lab_batch (dm_inventory lab_dm) (batch_init lab_batch (dm_inventory lab_dm))"
    by (simp add: batch_reachable_def)
  have 2: "\<forall>i rr. (\<lambda>(_ :: nat) _. False) i rr \<longrightarrow> (\<exists>B t x x'. run_device (B :: (nat, nat) batch_runner)
      (ba_devices lab_batch ! i) (ba_commands lab_batch) t x = (rr, x'))" by simp
  from batch_reports_every_device [OF 1 2] show ?thesis by (simp add: lab_batch_def)
qed

text \<open>
  C25. The batch always drains: every step brings the tasks closer to the end, and as long as a task is
  waiting or running there is a next step. So no permit is lost, whatever the tasks do.
\<close>

definition batch_work :: "batch_state \<Rightarrow> nat" where
  "batch_work s = 2 * length (bs_waiting s) + length (bs_running s)"

theorem batch_drains:
  assumes "0 < permits"
  shows "(if bs_waiting s = [] \<and> bs_running s = [] then True else \<exists>s'. batch_step permits ended s s')
    \<and> (if batch_step permits ended s s' then batch_work s' < batch_work s else True)"
proof
  show "if bs_waiting s = [] \<and> bs_running s = [] then True else \<exists>s'. batch_step permits ended s s'"
  proof (cases "bs_running s")
    case Nil
    show ?thesis
    proof (cases "bs_waiting s")
      case (Cons i rest)
      with Nil assms have "batch_step permits ended s (s\<lparr>bs_waiting := remove1 i (bs_waiting s), bs_running := i # bs_running s\<rparr>)"
        by (intro acquire) auto
      then show ?thesis by auto
    qed (simp add: Nil)
  next
    case (Cons i rest)
    then have "batch_step permits ended s (s\<lparr>bs_running := remove1 i (bs_running s)\<rparr>)"
      by (intro panicked) auto
    then show ?thesis by auto
  qed
  have "batch_work s' < batch_work s" if "batch_step permits ended s s'"
    using that
    by (rule batch_stepE) (auto simp: batch_work_def length_remove1 Suc_diff_le neq_Nil_conv dest!: in_set_conv_decomp [THEN iffD1])
  then show "if batch_step permits ended s s' then batch_work s' < batch_work s else True" by simp
qed

theorem batch_drains_witness:
  "\<exists>s'. batch_step 1 (\<lambda>_ _. False) (batch_init lab_batch (dm_inventory lab_dm)) s'"
proof -
  have "bs_waiting (batch_init lab_batch (dm_inventory lab_dm)) = [0]"
    by (simp add: batch_init_def valid_indices_def lab_batch_def lab_dm_def inv_get_def upt_rec)
  with batch_drains [of 1 "batch_init lab_batch (dm_inventory lab_dm)"] show ?thesis by auto
qed

text \<open>
  One refused pair stops the whole batch: no task is started unless the policy admits every command on every
  device of the request that the inventory knows, and the request is within its limits.
\<close>

theorem batch_runs_only_admitted_pairs:
  assumes "batch_tool rx TE args iv s = Inr j"
  shows "list_all (\<lambda>r. if is_ok (inv_get iv r)
        then list_all (\<lambda>c. check_command (te_pl TE) (te_policy TE) r c = Allow) (ba_commands args) else True)
      (ba_devices args)
    \<and> 1 \<le> length (ba_devices args) \<and> length (ba_devices args) \<le> 100
    \<and> 1 \<le> length (ba_commands args) \<and> length (ba_commands args) \<le> 50
    \<and> ba_max_concurrent_devices args \<noteq> 0"
proof -
  from assms have c: "check_batch TE args iv = Inr ()" by (auto simp: batch_tool_def and_then_eq_Inr)
  then have p: "is_ok (try_map (\<lambda>(r, c). enforce_decision (te_pl TE) (check_command (te_pl TE) (te_policy TE) r c)
        ''execute_junos_command_batch'' r c)
      (List.product (map (\<lambda>i. ba_devices args ! i) (valid_indices args iv)) (ba_commands args)))"
    by (auto simp: check_batch_def check_pairs_def and_then_eq_Inr split: if_splits)
  have "check_command (te_pl TE) (te_policy TE) r cmd = Allow"
    if r: "r \<in> set (ba_devices args)" "is_ok (inv_get iv r)" and cmd: "cmd \<in> set (ba_commands args)" for r cmd
  proof -
    from r obtain i where "i < length (ba_devices args)" "ba_devices args ! i = r" by (auto simp: in_set_conv_nth)
    with r(2) have "i \<in> set (valid_indices args iv)" by (auto simp: valid_indices_def)
    with \<open>ba_devices args ! i = r\<close> cmd
    have "(r, cmd) \<in> set (List.product (map (\<lambda>i. ba_devices args ! i) (valid_indices args iv)) (ba_commands args))"
      by auto
    with p have "is_ok (enforce_decision (te_pl TE) (check_command (te_pl TE) (te_policy TE) r cmd)
        ''execute_junos_command_batch'' r cmd)"
      unfolding try_map_is_ok by fastforce
    then show ?thesis
      by (simp add: is_ok_iff) (simp add: enforce_decision_Inr_iff)
  qed
  with c show ?thesis
    by (auto simp: check_batch_def and_then_eq_Inr list_all_iff Suc_le_eq split: if_splits)
qed

theorem batch_runs_only_admitted_pairs_witness:
  "check_command toy_engine (open_policy\<lparr>command_mode := Blocklist, default_policy := open_engine\<lparr>ep_mode := Blocklist\<rparr>\<rparr>)
     ''r1'' ''show version'' = Allow"
proof -
  let ?TE = "lab_te\<lparr>te_policy := open_policy\<lparr>command_mode := Blocklist, default_policy := open_engine\<lparr>ep_mode := Blocklist\<rparr>\<rparr>\<rparr>"
  have ck: "check_command toy_engine (te_policy ?TE) ''r1'' ''show version'' = Allow"
    by (simp add: check_command_def policy_for_def open_policy_def open_engine_def deny_disallowed_character_def
        apply_allowlist_deny_carveout_def toy_engine_def toy_check_def toy_evaluate_def toy_rules_for_def Let_def)
  have "\<exists>j. batch_tool (\<lambda>_. None) ?TE lab_batch (dm_inventory lab_dm) (batch_init lab_batch (dm_inventory lab_dm)) = Inr j"
    using ck
    by (simp add: batch_tool_def check_batch_def lab_batch_def validate_output_caps_def valid_indices_def lab_dm_def
        inv_get_def upt_rec check_pairs_def lab_te_def enforce_decision_def)
  then obtain j where "batch_tool (\<lambda>_. None) ?TE lab_batch (dm_inventory lab_dm) (batch_init lab_batch (dm_inventory lab_dm)) = Inr j" ..
  from batch_runs_only_admitted_pairs [OF this] show ?thesis
    by (simp add: lab_batch_def lab_te_def lab_dm_def inv_get_def)
qed

end
