(* ===== verification/Inventory_Tools.thy ===== *)
theory Inventory_Tools
  imports Changeset_Tools
begin

text \<open>
  Changing the inventory at run time: \<^verbatim>\<open>tools/add_device.rs\<close>, \<^verbatim>\<open>tools/reload_devices.rs\<close> and the
  file functions of \<^verbatim>\<open>inventory.rs\<close> (\<^verbatim>\<open>insert_device\<close>, \<^verbatim>\<open>hash_file\<close>,
  \<^verbatim>\<open>stage_atomic\<close>). The file system is a map from paths to contents with the errors its operations can
  give; the digest, the JSON reader and printer and the shared inventory parser are parameters.
  Both tools hold the manager's write lock, so each is one step. The manager and the policy are
  what other calls see; the order of the two swaps inside one call is not. Another process writing the
  inventory file in the middle of a call is not modelled: the files stand still for the time of a call.
\<close>

section \<open>The file system and the libraries\<close>

record file_sys =
  fs_files :: "string \<rightharpoonup> string"
  fs_read_error :: "string \<Rightarrow> string option"
  fs_stage_error :: "string option"
  fs_temp_path :: string
  fs_temp_load_error :: "string option"
  fs_temp_hash_error :: "string option"
  fs_persist_error :: "string option"

text \<open>
  Paths: the parent directory, joining, whether a regular file is there, and what a path resolves to.
\<close>

record inv_lib =
  il_sha256 :: "string \<Rightarrow> string"
  il_from_slice :: "string \<Rightarrow> string + json"
  il_to_string_pretty :: "json \<Rightarrow> string"
  il_auth_json :: "auth_config \<Rightarrow> json"
  il_parse :: "string \<Rightarrow> string + (string \<times> device_entry) list \<times> blocklist_rules option"
  il_is_ip_literal :: "string \<Rightarrow> bool"
  il_key_exists :: "string \<Rightarrow> bool"
  il_parent :: "string \<Rightarrow> string option"
  il_join :: "string \<Rightarrow> string \<Rightarrow> string"
  il_canonicalize :: "string \<Rightarrow> string + string"
  il_path_starts_with :: "string \<Rightarrow> string \<Rightarrow> bool"

definition fs_read :: "file_sys \<Rightarrow> string \<Rightarrow> string + string" where
  "fs_read fs path =
     (case fs_read_error fs path of
        Some e \<Rightarrow> Inl e
      | None \<Rightarrow> (case fs_files fs path of Some bytes \<Rightarrow> Inr bytes | None \<Rightarrow> Inl ''No such file or directory (os error 2)''))"

definition hash_file :: "inv_lib \<Rightarrow> file_sys \<Rightarrow> string \<Rightarrow> string + string" where
  "hash_file L fs path =
     (case fs_read_error fs path of
        Some e \<Rightarrow> Inl e
      | None \<Rightarrow>
          (case fs_files fs path of
             Some bytes \<Rightarrow> Inr (il_sha256 L bytes) | None \<Rightarrow> Inr (replicate 32 (CHR 0x00))))"

definition load_content :: "inv_lib \<Rightarrow> string \<Rightarrow> string + string \<Rightarrow> inventory jres" where
  "load_content L path content =
     inventory_load (\<lambda>_. and_then content (il_parse L)) (il_is_ip_literal L) (il_key_exists L) path"

section \<open>insert_device\<close>

definition obj_insert :: "string \<Rightarrow> json \<Rightarrow> (string \<times> json) list \<Rightarrow> (string \<times> json) list" where
  "obj_insert k v obj = obj @ [(k, v)]"

fun obj_replace :: "string \<Rightarrow> json \<Rightarrow> (string \<times> json) list \<Rightarrow> (string \<times> json) list" where
  "obj_replace k v [] = []"
| "obj_replace k v ((k', x) # rest) = (if k' = k then (k', v) # rest else (k', x) # obj_replace k v rest)"

definition add_key :: "string \<Rightarrow> json \<Rightarrow> (string \<times> json) list \<Rightarrow> (string \<times> json) list jres" where
  "add_key name entry obj =
     (if map_of obj name \<noteq> None then Inl (DeviceExists name) else Inr (obj_insert name entry obj))"

definition device_json :: "inv_lib \<Rightarrow> string \<Rightarrow> u32 \<Rightarrow> string \<Rightarrow> auth_config \<Rightarrow> json" where
  "device_json L addr prt user au =
     JObj [(''ip'', JStr addr), (''port'', JNat (unat prt)), (''username'', JStr user), (''auth'', il_auth_json L au)]"

definition insert_device ::
    "inv_lib \<Rightarrow> json \<Rightarrow> string \<Rightarrow> string \<Rightarrow> u32 \<Rightarrow> string \<Rightarrow> auth_config \<Rightarrow> json jres" where
  "insert_device L iv name addr prt user au =
     (let entry = device_json L addr prt user au in
      case iv of
        JObj obj \<Rightarrow>
          (case map_of obj ''devices'' of
             Some (JObj devs) \<Rightarrow>
               and_then (add_key name entry devs) (\<lambda>devs'. Inr (JObj (obj_replace ''devices'' (JObj devs') obj)))
           | Some _ \<Rightarrow>
               Inl (InventoryParse (''this inventory keeps its devices in a form add_device cannot extend ''
                 @ ''(`devices` is present but is not an object); add the device by editing the file directly''))
           | None \<Rightarrow> and_then (add_key name entry obj) (\<lambda>obj'. Inr (JObj obj')))
      | _ \<Rightarrow> Inl (InventoryParse ''top-level inventory is not a JSON object''))"

section \<open>add_device\<close>

record add_args =
  ad_device_name :: "string option"
  ad_device_ip :: "string option"
  ad_device_port :: "u32 option"
  ad_username :: "string option"
  ad_auth :: "auth_config option"

record resolved_add =
  ra_device_name :: string
  ra_device_ip :: string
  ra_device_port :: u32
  ra_username :: string
  ra_auth :: auth_config

definition missing_arguments :: "add_args \<Rightarrow> string list" where
  "missing_arguments args =
     (if ad_device_name args = None then [''device_name''] else [])
     @ (if ad_device_ip args = None then [''device_ip''] else [])
     @ (if ad_username args = None then [''username''] else [])
     @ (if ad_auth args = None then [''auth''] else [])"

definition validate_add :: "inv_lib \<Rightarrow> add_args \<Rightarrow> ('d, 'w) device_manager \<Rightarrow> resolved_add jres" where
  "validate_add L args dm =
     (if inventory_readonly dm then Inl InventoryReadonly
      else if missing_arguments args \<noteq> [] then Inl (MissingArguments (missing_arguments args))
      else
        (let name = the (ad_device_name args); addr = the (ad_device_ip args); au = the (ad_auth args);
             user = the (ad_username args);
             prt = (case ad_device_port args of None \<Rightarrow> 22 | Some p \<Rightarrow> p) in
         if \<not> is_valid_device_name name then Inl (InvalidDeviceName name)
         else if is_ok (inv_get (dm_inventory dm) name) then Inl (DeviceExists name)
         else if \<not> is_valid_ip_or_hostname (il_is_ip_literal L) addr then Inl (InvalidDeviceIp addr)
         else if \<not> (1 \<le> prt \<and> prt \<le> 65535) then Inl (InvalidDevicePort prt)
         else if (case au of Password _ \<Rightarrow> \<not> allow_password_auth_add dm | SshKey _ \<Rightarrow> False)
         then Inl PasswordAuthDisabled
         else if (case au of SshKey p \<Rightarrow> \<not> is_valid_auth_path p | Password _ \<Rightarrow> False)
         then Inl (Validation (''invalid private_key_path `'' @ (case au of SshKey p \<Rightarrow> p | Password _ \<Rightarrow> [])
                @ ''`: must be non-empty and must not start with '' @ [SQ] @ ''-'' @ [SQ]))
         else if \<not> is_valid_ssh_username user
         then Inl (Validation (''invalid username `'' @ user
                @ ''`: must match ^[A-Za-z0-9_.-]{1,64}$ and must not start with '' @ [SQ] @ ''-'' @ [SQ]))
         else Inr \<lparr>ra_device_name = name, ra_device_ip = addr, ra_device_port = prt, ra_username = user, ra_auth = au\<rparr>))"

text \<open>What is shared: the manager, the policy and the files.\<close>

type_synonym ('a, 'd, 'w) shared = "('d, 'w) device_manager \<times> 'a policy \<times> file_sys"

definition staged_content :: "inv_lib \<Rightarrow> json \<Rightarrow> string" where
  "staged_content L v = il_to_string_pretty L v @ [NL]"

definition stage_atomic :: "inv_lib \<Rightarrow> file_sys \<Rightarrow> string \<Rightarrow> json \<Rightarrow> string + string" where
  "stage_atomic L fs path v =
     (case il_parent L path of
        None \<Rightarrow> Inl ''inventory path has no parent directory''
      | Some _ \<Rightarrow> (case fs_stage_error fs of Some e \<Rightarrow> Inl e | None \<Rightarrow> Inr (staged_content L v)))"

text \<open>
  The body under the write lock: the content to be put in place, the inventory read from it and the
  policy built from that. The temporary file is read twice, once to load it and once to hash it, and
  either read can fail; the loaded inventory remembers the temporary path as its source.
\<close>

definition plan_add ::
    "inv_lib \<Rightarrow> 'a policy_lib \<Rightarrow> resolved_add \<Rightarrow> ('a, 'd, 'w) shared \<Rightarrow> (string \<times> inventory \<times> 'a policy) jres" where
  "plan_add L PL r = (\<lambda>(dm, pol, fs).
     let path = inventory_path dm in
     if path = []
     then Inl (InventoryWrite ''inventory has no on-disk path; add_device requires --device-mapping to point at a writable file'')
     else
       and_then (map_err InventoryRead (hash_file L fs path)) (\<lambda>on_disk_hash.
         if on_disk_hash \<noteq> inventory_hash dm then Inl InventoryDriftedOnDisk
         else
           and_then (map_err InventoryRead (fs_read fs path)) (\<lambda>raw.
           and_then (map_err InventoryParse (il_from_slice L raw)) (\<lambda>v.
           and_then (insert_device L v (ra_device_name r) (ra_device_ip r) (ra_device_port r) (ra_username r) (ra_auth r))
             (\<lambda>updated.
           and_then (map_err InventoryWrite (stage_atomic L fs path updated)) (\<lambda>content.
           and_then (map_err (\<lambda>e. InventoryParse (error_to_string e)) (load_content L (fs_temp_path fs)
               (case fs_temp_load_error fs of Some e \<Rightarrow> Inl e | None \<Rightarrow> Inr content))) (\<lambda>staged_inv.
           and_then (build PL staged_inv) (\<lambda>new_policy.
             (case fs_temp_hash_error fs of
                Some e \<Rightarrow> Inl (InventoryRead e)
              | None \<Rightarrow> Inr (content, staged_inv, new_policy)))))))))
  )"

definition add_device ::
    "inv_lib \<Rightarrow> 'a policy_lib \<Rightarrow> add_args \<Rightarrow> ('a, 'd, 'w) shared \<Rightarrow> json jres \<times> ('a, 'd, 'w) shared" where
  "add_device L PL args = (\<lambda>(dm, pol, fs).
     case and_then (validate_add L args dm) (\<lambda>r.
            and_then (plan_add L PL r (dm, pol, fs)) (\<lambda>x. Inr (r, x))) of
       Inl e \<Rightarrow> (Inl e, (dm, pol, fs))
     | Inr (r, content, staged_inv, new_policy) \<Rightarrow>
         (case fs_persist_error fs of
            Some e \<Rightarrow> (Inl (InventoryWrite e), (dm, pol, fs))
          | None \<Rightarrow>
              (let path = inventory_path dm;
                   fs' = fs\<lparr>fs_files := (fs_files fs)(path \<mapsto> content)\<rparr>;
                   dm' = store_inventory staged_inv path (il_sha256 L content) dm
               in (Inr (JObj [(''added'', JStr (ra_device_name r)), (''inventory_path'', JStr path),
                        (''router_count'', JNat (inv_len (dm_inventory dm')))]), (dm', new_policy, fs')))))"

section \<open>reload_devices\<close>

definition has_parent_component :: "string \<Rightarrow> bool" where
  "has_parent_component p = list_ex (\<lambda>c. c = ''..'') (split_on CHR ''/'' p)"

definition reload_path :: "inv_lib \<Rightarrow> string \<Rightarrow> string option \<Rightarrow> string jres" where
  "reload_path L prev_path file_name =
     (case file_name of
        None \<Rightarrow> Inr prev_path
      | Some p \<Rightarrow>
          if p = [] then Inr prev_path
          else if has_parent_component p
          then Inl (InventoryInvalid (''file_name must not contain '' @ [SQ] @ ''..'' @ [SQ] @ '' path components''))
          else if starts_with ''/'' p
          then Inl (InventoryInvalid ''file_name must be a relative path within the inventory directory'')
          else
            (case il_parent L prev_path of
               None \<Rightarrow> Inl (InventoryInvalid ''current inventory path has no parent directory'')
             | Some parent \<Rightarrow> Inr (il_join L parent p)))"

definition check_inside :: "inv_lib \<Rightarrow> string \<Rightarrow> string option \<Rightarrow> string \<Rightarrow> unit jres" where
  "check_inside L prev_path file_name path =
     (if (case file_name of None \<Rightarrow> True | Some p \<Rightarrow> p = []) then Inr ()
      else
        (case il_parent L prev_path of
           None \<Rightarrow> Inl (InventoryInvalid ''current inventory path has no parent directory'')
         | Some parent \<Rightarrow>
             and_then (map_err InventoryRead (il_canonicalize L parent)) (\<lambda>inv_dir.
             and_then (map_err InventoryRead (il_canonicalize L path)) (\<lambda>resolved.
               if \<not> il_path_starts_with L resolved inv_dir
               then Inl (InventoryInvalid (''file_name resolves outside inventory directory (resolved='' @ resolved
                      @ '', inventory_dir='' @ inv_dir @ '')''))
               else Inr ()))))"

definition inventory_entry_equal :: "device_entry \<Rightarrow> device_entry \<Rightarrow> bool" where
  "inventory_entry_equal a b \<longleftrightarrow> ip a = ip b \<and> port a = port b \<and> username a = username b \<and> auth a = auth b"

definition added_names :: "inventory \<Rightarrow> inventory \<Rightarrow> string list" where
  "added_names prev new = filter (\<lambda>n. n \<notin> set (inv_names prev)) (inv_names new)"

definition removed_names :: "inventory \<Rightarrow> inventory \<Rightarrow> string list" where
  "removed_names prev new = filter (\<lambda>n. n \<notin> set (inv_names new)) (inv_names prev)"

definition changed_names :: "inventory \<Rightarrow> inventory \<Rightarrow> string list" where
  "changed_names prev new =
     filter (\<lambda>n. n \<in> set (inv_names new)
               \<and> (case (inv_get prev n, inv_get new n) of
                    (Inr p, Inr q) \<Rightarrow> \<not> inventory_entry_equal p q | _ \<Rightarrow> False))
       (inv_names prev)"

definition plan_reload ::
    "inv_lib \<Rightarrow> 'a policy_lib \<Rightarrow> string option \<Rightarrow> ('a, 'd, 'w) shared \<Rightarrow> (string \<times> inventory \<times> 'a policy \<times> string) jres" where
  "plan_reload L PL file_name = (\<lambda>(dm, pol, fs).
     let prev_path = inventory_path dm in
     and_then (reload_path L prev_path file_name) (\<lambda>path.
       if fs_files fs path = None then Inl (InventoryRead (''not a regular file: '' @ path))
       else
         and_then (check_inside L prev_path file_name path) (\<lambda>_.
         and_then (map_err (\<lambda>e. InventoryParse (error_to_string e)) (load_content L path (fs_read fs path))) (\<lambda>new_inv.
           if inv_is_empty new_inv then Inl EmptyInventory
           else
             and_then (build PL new_inv) (\<lambda>new_policy.
             and_then (map_err InventoryRead (hash_file L fs path)) (\<lambda>new_hash.
               Inr (path, new_inv, new_policy, new_hash)))))))"

definition reload ::
    "inv_lib \<Rightarrow> 'a policy_lib \<Rightarrow> string option \<Rightarrow> ('a, 'd, 'w) shared \<Rightarrow> json jres \<times> ('a, 'd, 'w) shared" where
  "reload L PL file_name = (\<lambda>(dm, pol, fs).
     case plan_reload L PL file_name (dm, pol, fs) of
       Inl e \<Rightarrow> (Inl e, (dm, pol, fs))
     | Inr (path, new_inv, new_policy, new_hash) \<Rightarrow>
         (let prev = dm_inventory dm;
              removed = removed_names prev new_inv;
              changed = changed_names prev new_inv;
              dm1 = store_inventory new_inv path new_hash dm;
              invalidate = removed @ changed;
              dm2 = (if invalidate \<noteq> [] then invalidate_pool invalidate dm1 else dm1)
          in (Inr (JObj [(''previous_router_count'', JNat (inv_len prev)), (''new_router_count'', JNat (inv_len new_inv)),
                 (''added'', JList (map JStr (added_names prev new_inv))), (''removed'', JList (map JStr removed)),
                 (''changed'', JList (map JStr changed)), (''inventory_path'', JStr path)]), (dm2, new_policy, fs))))"

definition reload_devices ::
    "inv_lib \<Rightarrow> 'a policy_lib \<Rightarrow> string option \<Rightarrow> ('a, 'd, 'w) shared \<Rightarrow> json jres \<times> ('a, 'd, 'w) shared" where
  "reload_devices L PL file_name = (\<lambda>(dm, pol, fs).
     if inventory_readonly dm then (Inl InventoryReadonly, (dm, pol, fs)) else reload L PL file_name (dm, pol, fs))"

definition reload_current_from_disk ::
    "inv_lib \<Rightarrow> 'a policy_lib \<Rightarrow> ('a, 'd, 'w) shared \<Rightarrow> json jres \<times> ('a, 'd, 'w) shared" where
  "reload_current_from_disk L PL = reload L PL None"

section \<open>What the operations keep\<close>

text \<open>
  Memory, policy and disk agree: the inventory in memory and its digest are those of the file's
  content, and the policy is the one built from that inventory.
\<close>

definition in_sync :: "inv_lib \<Rightarrow> 'a policy_lib \<Rightarrow> ('a, 'd, 'w) shared \<Rightarrow> bool" where
  "in_sync L PL = (\<lambda>(dm, pol, fs).
     (case fs_files fs (inventory_path dm) of
        None \<Rightarrow> False
      | Some bytes \<Rightarrow>
          inventory_hash dm = il_sha256 L bytes
          \<and> (let iv = dm_inventory dm in load_content L (source_path iv) (Inr bytes) = Inr iv)
          \<and> build PL (dm_inventory dm) = Inr pol))"

lemma load_content_source: "load_content L p c = Inr iv \<Longrightarrow> source_path iv = p"
  by (auto simp: load_content_def inventory_load_def flow_simps split: prod.splits)

lemma fs_read_Inr: "fs_read fs p = Inr c \<longleftrightarrow> fs_read_error fs p = None \<and> fs_files fs p = Some c"
  by (auto simp: fs_read_def split: option.splits)

lemma load_content_Inr: "load_content L p c = Inr iv \<Longrightarrow> \<exists>b. c = Inr b"
  by (cases c) (auto simp: load_content_def inventory_load_def)

lemma plan_add_Inr:
  assumes "plan_add L PL r (dm, pol, fs) = Inr (content, iv, pol')"
  shows "load_content L (fs_temp_path fs) (Inr content) = Inr iv" "build PL iv = Inr pol'"
    "\<exists>raw v u. fs_files fs (inventory_path dm) = Some raw \<and> inventory_hash dm = il_sha256 L raw
       \<and> il_from_slice L raw = Inr v \<and> content = staged_content L u
       \<and> insert_device L v (ra_device_name r) (ra_device_ip r) (ra_device_port r) (ra_username r) (ra_auth r) = Inr u"
  using assms
  by (auto simp: plan_add_def Let_def flow_simps fs_read_Inr hash_file_def stage_atomic_def
      split: if_splits option.splits dest: load_content_Inr)

lemma validate_add_Inr:
  assumes "validate_add L args dm = Inr r"
  shows "ad_device_name args = Some (ra_device_name r)" "ad_device_ip args = Some (ra_device_ip r)"
    "ad_username args = Some (ra_username r)" "ad_auth args = Some (ra_auth r)"
    "ra_device_port r = (case ad_device_port args of None \<Rightarrow> 22 | Some n \<Rightarrow> n)" "is_valid_device_name (ra_device_name r)"
    "\<not> inventory_readonly dm" "\<not> is_ok (inv_get (dm_inventory dm) (ra_device_name r))"
    "case ra_auth r of Password _ \<Rightarrow> allow_password_auth_add dm | SshKey _ \<Rightarrow> True"
  using assms
  by (auto simp: validate_add_def missing_arguments_def Let_def split: if_splits auth_config.splits option.splits)

lemma add_device_cases:
  obtains (refused) e where "add_device L PL args s = (Inl e, s)"
  | (stored) r content iv pol' dm pol fs where "s = (dm, pol, fs)" "validate_add L args dm = Inr r"
      "plan_add L PL r (dm, pol, fs) = Inr (content, iv, pol')"
      "snd (add_device L PL args s) = (store_inventory iv (inventory_path dm) (il_sha256 L content) dm, pol',
         fs\<lparr>fs_files := (fs_files fs)(inventory_path dm \<mapsto> content)\<rparr>)"
      "is_ok (fst (add_device L PL args s))"
proof -
  obtain dm pol fs where s: "s = (dm, pol, fs)" by (cases s)
  show ?thesis
  proof (cases "validate_add L args dm")
    case (Inl e)
    then show ?thesis by (intro refused [of e]) (simp add: add_device_def s)
  next
    case v: (Inr r)
    show ?thesis
    proof (cases "plan_add L PL r (dm, pol, fs)")
      case (Inl e)
      with v show ?thesis by (intro refused [of e]) (simp add: add_device_def s)
    next
      case (Inr x)
      obtain content iv pol' where x: "x = (content, iv, pol')" by (cases x)
      show ?thesis
      proof (cases "fs_persist_error fs")
        case None
        with v Inr x show ?thesis
          by (intro stored [OF s v, of content iv pol']) (simp_all add: add_device_def s Let_def)
      next
        case (Some e)
        with v Inr x show ?thesis by (intro refused [of "InventoryWrite e"]) (simp add: add_device_def s)
      qed
    qed
  qed
qed

lemma add_device_sync:
  "if is_ok (fst (add_device L PL args s)) then in_sync L PL (snd (add_device L PL args s))
   else snd (add_device L PL args s) = s"
proof (cases rule: add_device_cases [of L PL args s])
  case refused
  then show ?thesis by simp
next
  case (stored r content iv pol' dm pol fs)
  note p = plan_add_Inr [OF stored(3)]
  show ?thesis
    using stored p(1,2) load_content_source [OF p(1)] by (simp add: in_sync_def store_inventory_def Let_def)
qed

lemma plan_reload_Inr:
  assumes "plan_reload L PL f (dm, pol, fs) = Inr (path, iv, pol', h)"
  shows "reload_path L (inventory_path dm) f = Inr path" "check_inside L (inventory_path dm) f path = Inr ()"
    "build PL iv = Inr pol'" "devices iv \<noteq> []"
    "\<exists>bytes. fs_files fs path = Some bytes \<and> h = il_sha256 L bytes \<and> load_content L path (Inr bytes) = Inr iv"
  using assms
  by (auto simp: plan_reload_def Let_def flow_simps hash_file_def inv_is_empty_def fs_read_def
      split: if_splits option.splits dest: load_content_Inr)

lemma reload_cases:
  obtains (refused) e where "reload L PL f s = (Inl e, s)"
  | (stored) path iv pol' h dm pol fs where "s = (dm, pol, fs)"
      "plan_reload L PL f (dm, pol, fs) = Inr (path, iv, pol', h)"
      "snd (reload L PL f s) = (invalidate_pool (removed_names (dm_inventory dm) iv @ changed_names (dm_inventory dm) iv)
         (store_inventory iv path h dm), pol', fs)"
      "is_ok (fst (reload L PL f s))"
proof -
  obtain dm pol fs where s: "s = (dm, pol, fs)" by (cases s)
  show ?thesis
  proof (cases "plan_reload L PL f (dm, pol, fs)")
    case (Inl e)
    then show ?thesis by (intro refused [of e]) (simp add: reload_def s)
  next
    case (Inr x)
    obtain path iv pol' h where x: "x = (path, iv, pol', h)" by (cases x)
    show ?thesis
      by (rule stored [OF s Inr [unfolded x]])
        (auto simp: reload_def s Inr x Let_def invalidate_pool_def)
  qed
qed

lemma reload_sync:
  "if is_ok (fst (reload L PL f s)) then in_sync L PL (snd (reload L PL f s)) else snd (reload L PL f s) = s"
proof (cases rule: reload_cases [of L PL f s])
  case refused
  then show ?thesis by simp
next
  case (stored path iv pol' h dm pol fs)
  note p = plan_reload_Inr [OF stored(2)]
  obtain bytes where b: "fs_files fs path = Some bytes" "h = il_sha256 L bytes" "load_content L path (Inr bytes) = Inr iv"
    using p(5) by blast
  show ?thesis
    using stored b p(3) load_content_source [OF b(3)]
    by (simp add: in_sync_def store_inventory_def invalidate_pool_def Let_def)
qed

section \<open>The pool after a reload\<close>

lemma invalidate_slots:
  "map_of (slots (invalidate names p)) n = (if n \<in> set names then None else map_of (slots p) n)"
  by (induction names p rule: invalidate.induct) (auto split: option.splits)

lemma reload_slots:
  assumes "reload L PL f (dm, pol, fs) = (Inr j, dm', pol', fs')"
  shows "map_of (slots (pool dm')) r =
    (if r \<in> set (removed_names (dm_inventory dm) (dm_inventory dm') @ changed_names (dm_inventory dm) (dm_inventory dm'))
     then None else map_of (slots (pool dm)) r)"
  using assms
  by (cases rule: reload_cases [of L PL f "(dm, pol, fs)"])
    (auto simp: invalidate_pool_def store_inventory_def invalidate_slots)

lemma set_removed_names:
  "r \<in> set (removed_names prev new) \<longleftrightarrow> is_ok (inv_get prev r) \<and> \<not> is_ok (inv_get new r)"
  by (auto simp: removed_names_def inv_get_is_ok)

lemma set_changed_names:
  "r \<in> set (changed_names prev new) \<longleftrightarrow>
     (\<exists>p q. inv_get prev r = Inr p \<and> inv_get new r = Inr q \<and> \<not> inventory_entry_equal p q)"
  by (cases "inv_get prev r"; cases "inv_get new r")
    (auto simp: changed_names_def inv_get_is_ok [symmetric])

section \<open>The devices of an inventory document\<close>

text \<open>
  Both accepted shapes, read as a map: a bare object holds the devices itself, an envelope holds them
  under \<^verbatim>\<open>devices\<close>.
\<close>

fun document_devices :: "json \<Rightarrow> string \<rightharpoonup> json" where
  "document_devices (JObj obj) =
     (case map_of obj ''devices'' of
        Some (JObj devs) \<Rightarrow> map_of devs | Some _ \<Rightarrow> Map.empty | None \<Rightarrow> map_of obj)"
| "document_devices _ = Map.empty"

lemma map_of_obj_insert: "map_of obj k = None \<Longrightarrow> map_of (obj_insert k v obj) = (map_of obj)(k \<mapsto> v)"
  by (auto simp: obj_insert_def map_add_def fun_eq_iff split: option.splits)

lemma map_of_obj_replace:
  "map_of (obj_replace k v obj) = (if map_of obj k = None then map_of obj else (map_of obj)(k \<mapsto> v))"
  by (induction k v obj rule: obj_replace.induct) (auto simp: fun_eq_iff)

lemma keys_obj_replace: "map fst (obj_replace k v obj) = map fst obj"
  by (induction k v obj rule: obj_replace.induct) auto

lemma insert_device_shapes:
  assumes "insert_device L iv name addr prt user au = Inr iv'"
  obtains (envelope) obj devs where "iv = JObj obj" "map_of obj ''devices'' = Some (JObj devs)" "map_of devs name = None"
      "iv' = JObj (obj_replace ''devices'' (JObj (obj_insert name (device_json L addr prt user au) devs)) obj)"
  | (bare) obj where "iv = JObj obj" "map_of obj ''devices'' = None" "map_of obj name = None"
      "iv' = JObj (obj_insert name (device_json L addr prt user au) obj)"
  using assms
  by (auto simp: insert_device_def add_key_def Let_def flow_simps split: json.splits option.splits if_splits)

section \<open>A small file system\<close>

definition lab_il :: inv_lib where
  "lab_il = \<lparr>il_sha256 = id,
     il_from_slice = \<lambda>_. Inr (JObj [(''version'', JNat 1), (''devices'', JObj [(''r1'', JNull)])]),
     il_to_string_pretty = \<lambda>_. ''v3'', il_auth_json = \<lambda>_. JNull,
     il_parse = \<lambda>c. Inr (if c = ''v1'' then [(''r1'', sample_entry)]
       else if c = ''v2'' then [(''r1'', sample_entry\<lparr>ssh_config := Some ''/c''\<rparr>)]
       else [(''r1'', sample_entry\<lparr>port := 22\<rparr>), (''r2'', sample_entry)], None),
     il_is_ip_literal = \<lambda>_. True, il_key_exists = \<lambda>_. True,
     il_parent = \<lambda>_. Some ''/j'', il_join = \<lambda>d f. d @ ''/'' @ f,
     il_canonicalize = Inr, il_path_starts_with = \<lambda>p d. starts_with d p\<rparr>"

definition lab_fs :: file_sys where
  "lab_fs = \<lparr>fs_files = [''/j/a'' \<mapsto> ''v1'', ''/j/b'' \<mapsto> ''v2'', ''/j/c'' \<mapsto> ''v3''], fs_read_error = \<lambda>_. None,
     fs_stage_error = None, fs_temp_path = ''/j/t'', fs_temp_load_error = None, fs_temp_hash_error = None,
     fs_persist_error = None\<rparr>"

definition lab_pool_dm :: "(nat, lab) device_manager" where
  "lab_pool_dm = lab_dm\<lparr>inventory_path := ''/j/a'', inventory_hash := ''v1'',
     pool := (pool lab_dm)\<lparr>slots := [(''r1'', \<lparr>pe_device = 7, returned_at = 0\<rparr>)]\<rparr>\<rparr>"

definition lab_add :: add_args where
  "lab_add = \<lparr>ad_device_name = Some ''r2'', ad_device_ip = Some ''10.0.0.1'', ad_device_port = Some 830,
     ad_username = Some ''admin'', ad_auth = Some (SshKey ''/k'')\<rparr>"

lemma lab_il_simps [simp]:
  "il_sha256 lab_il = id" "il_is_ip_literal lab_il = (\<lambda>_. True)" "il_key_exists lab_il = (\<lambda>_. True)"
  "il_parent lab_il = (\<lambda>_. Some ''/j'')" "il_join lab_il = (\<lambda>d f. d @ ''/'' @ f)" "il_canonicalize lab_il = Inr"
  "il_path_starts_with lab_il = (\<lambda>p d. starts_with d p)" "il_to_string_pretty lab_il = (\<lambda>_. ''v3'')"
  "il_from_slice lab_il = (\<lambda>_. Inr (JObj [(''version'', JNat 1), (''devices'', JObj [(''r1'', JNull)])]))"
  by (simp_all add: lab_il_def)

lemma lab_load [simp]:
  "load_content lab_il p (Inr ''v1'') = Inr \<lparr>devices = [(''r1'', sample_entry)], blocklist_defaults = None, source_path = p\<rparr>"
  "load_content lab_il p (Inr ''v2'') = Inr \<lparr>devices = [(''r1'', sample_entry\<lparr>ssh_config := Some ''/c''\<rparr>)],
     blocklist_defaults = None, source_path = p\<rparr>"
  "c \<noteq> ''v1'' \<Longrightarrow> c \<noteq> ''v2'' \<Longrightarrow> load_content lab_il p (Inr c) =
     Inr \<lparr>devices = [(''r1'', sample_entry\<lparr>port := 22\<rparr>), (''r2'', sample_entry)], blocklist_defaults = None, source_path = p\<rparr>"
  by (simp_all add: load_content_def inventory_load_def lab_il_def sample_entry_def validate_entry_def
      is_valid_device_name_def name_char_def is_valid_ip_or_hostname_def is_valid_ssh_username_def
      is_valid_auth_path_def starts_with_def is_ascii_alphanumeric_def
      byte_def)

lemma lab_fs_simps [simp]:
  "fs_files lab_fs = [''/j/a'' \<mapsto> ''v1'', ''/j/b'' \<mapsto> ''v2'', ''/j/c'' \<mapsto> ''v3'']" "fs_read_error lab_fs = (\<lambda>_. None)"
  "fs_stage_error lab_fs = None" "fs_temp_path lab_fs = ''/j/t''" "fs_temp_load_error lab_fs = None"
  "fs_temp_hash_error lab_fs = None" "fs_persist_error lab_fs = None"
  by (simp_all add: lab_fs_def)

lemma lab_pool_dm_simps [simp]:
  "inventory_path lab_pool_dm = ''/j/a''" "inventory_hash lab_pool_dm = ''v1''" "\<not> inventory_readonly lab_pool_dm"
  "dm_inventory lab_pool_dm = \<lparr>devices = [(''r1'', sample_entry)], blocklist_defaults = None, source_path = ''d''\<rparr>"
  "slots (pool lab_pool_dm) = [(''r1'', \<lparr>pe_device = 7, returned_at = 0\<rparr>)]"
  by (simp_all add: lab_pool_dm_def lab_dm_def)

section \<open>Every history of the shared state\<close>

text \<open>
  What can happen to the shared state: the two tools, the refresh on SIGHUP, and anybody editing files.
\<close>

inductive inventory_step :: "inv_lib \<Rightarrow> 'a policy_lib \<Rightarrow> ('a, 'd, 'w) shared \<Rightarrow> ('a, 'd, 'w) shared \<Rightarrow> bool"
  for L PL where
  added: "inventory_step L PL s (snd (add_device L PL args s))"
| reloaded: "inventory_step L PL s (snd (reload_devices L PL f s))"
| refreshed: "inventory_step L PL s (snd (reload_current_from_disk L PL s))"
| edited: "inventory_step L PL (dm, pol, fs) (dm, pol, fs')"

definition policy_follows :: "'a policy_lib \<Rightarrow> ('a, 'd, 'w) shared \<Rightarrow> bool" where
  "policy_follows PL = (\<lambda>(dm, pol, fs). build PL (dm_inventory dm) = Inr pol)"

lemma in_sync_follows: "in_sync L PL s \<Longrightarrow> policy_follows PL s"
  by (auto simp: in_sync_def policy_follows_def Let_def split: option.splits)

lemma reload_devices_eq:
  "reload_devices L PL f s = (if inventory_readonly (fst s) then (Inl InventoryReadonly, s) else reload L PL f s)"
  by (cases s) (simp add: reload_devices_def)

lemma sync_follows:
  "if ok then in_sync L PL s' else s' = s \<Longrightarrow> policy_follows PL s \<Longrightarrow> policy_follows PL s'"
  by (cases ok) (auto intro: in_sync_follows)

lemma inventory_step_follows: "inventory_step L PL s s' \<Longrightarrow> policy_follows PL s \<Longrightarrow> policy_follows PL s'"
proof (induction rule: inventory_step.induct)
  case edited
  then show ?case by (simp add: policy_follows_def)
qed (auto simp: reload_devices_eq reload_current_from_disk_def
      intro: sync_follows [OF add_device_sync] sync_follows [OF reload_sync])

text \<open>The example's engine compiles every rule, so every inventory has a policy.\<close>

lemma toy_compile:
  "\<exists>d. compile_domain_rules toy_engine ds dv sp = Inr d" "compile_allowlist toy_engine es sc = Inr es"
  by (auto simp: compile_domain_rules_def compile_rules_def compile_allowlist_def toy_engine_def Let_def
      split: option.splits)

lemma toy_device_policy: "\<exists>p. device_policy toy_engine cm ds n bl = Inr p"
proof -
  obtain a b c where
    "compile_domain_rules toy_engine (field_or_nil commands ds) (map_option (\<lambda>b. (n, commands b)) bl) ''commands'' = Inr a"
    "compile_domain_rules toy_engine (field_or_nil config ds) (map_option (\<lambda>b. (n, config b)) bl) ''config'' = Inr b"
    "compile_domain_rules toy_engine (field_or_nil pfe_commands ds) (map_option (\<lambda>b. (n, pfe_commands b)) bl)
       ''pfe_commands'' = Inr c"
    by (metis toy_compile(1))
  then show ?thesis by (simp add: device_policy_def toy_compile(2) Let_def)
qed

lemma toy_defaults_policy: "\<exists>p. defaults_policy toy_engine cm ds = Inr p"
proof -
  obtain a b c where
    "compile_domain_rules toy_engine (field_or_nil commands ds) None ''commands'' = Inr a"
    "compile_domain_rules toy_engine (field_or_nil config ds) None ''config'' = Inr b"
    "compile_domain_rules toy_engine (field_or_nil pfe_commands ds) None ''pfe_commands'' = Inr c"
    by (metis toy_compile(1))
  then show ?thesis by (simp add: defaults_policy_def toy_compile(2) Let_def)
qed

lemma toy_build_devices:
  "set names \<subseteq> set (inv_names iv) \<Longrightarrow> \<exists>r. build_devices toy_engine cm iv names acc = Inr r"
proof (induction names arbitrary: acc)
  case (Cons n names)
  obtain pd k where acc: "acc = (pd, k)" by (cases acc)
  obtain e where e: "inv_get iv n = Inr e"
    using Cons.prems inv_get_is_ok [of iv n] by (auto simp: is_ok_def split: sum.splits)
  obtain q where q: "device_policy toy_engine cm (blocklist_defaults iv) n (blocklist e) = Inr q"
    using toy_device_policy by blast
  show ?case using Cons.IH Cons.prems by (simp add: acc e q Let_def)
qed simp

lemma toy_build: "\<exists>pol. build toy_engine iv = Inr pol"
proof -
  obtain r where "build_devices toy_engine (select_command_mode iv) iv (inv_names iv) (Map.empty, 0) = Inr r"
    using toy_build_devices by blast
  moreover obtain q where "defaults_policy toy_engine (select_command_mode iv) (blocklist_defaults iv) = Inr q"
    using toy_defaults_policy by blast
  ultimately show ?thesis by (simp add: build_def Let_def split_beta)
qed

lemma lab_add_ok: "is_ok (fst (add_device lab_il toy_engine lab_add (lab_pool_dm, pol, lab_fs)))"
proof -
  let ?iv = "\<lparr>devices = [(''r1'', sample_entry\<lparr>port := 22\<rparr>), (''r2'', sample_entry)], blocklist_defaults = None,
    source_path = ''/j/t''\<rparr>"
  obtain q where "build toy_engine ?iv = Inr q" using toy_build by blast
  then show ?thesis
    by (simp add: add_device_def validate_add_def missing_arguments_def lab_add_def is_valid_device_name_def name_char_def
        is_ascii_alphanumeric_def byte_def is_valid_ip_or_hostname_def is_valid_auth_path_def is_valid_ssh_username_def
        plan_add_def hash_file_def fs_read_def insert_device_def add_key_def stage_atomic_def staged_content_def
        inv_get_def starts_with_def Let_def)
qed

lemmas lab_reload_defs = reload_def plan_reload_def reload_path_def check_inside_def has_parent_component_def
  starts_with_def hash_file_def fs_read_def inv_is_empty_def store_inventory_def invalidate_pool_def Let_def

lemma lab_reload:
  "\<exists>j dm' pol'. reload lab_il toy_engine (Some ''b'') (lab_pool_dm, pol, lab_fs) = (Inr j, dm', pol', lab_fs)
     \<and> dm_inventory dm' = \<lparr>devices = [(''r1'', sample_entry\<lparr>ssh_config := Some ''/c''\<rparr>)], blocklist_defaults = None,
         source_path = ''/j/b''\<rparr> \<and> inventory_path dm' = ''/j/b''"
  "\<exists>j dm' pol'. reload lab_il toy_engine (Some ''c'') (lab_pool_dm, pol, lab_fs) = (Inr j, dm', pol', lab_fs)
     \<and> dm_inventory dm' = \<lparr>devices = [(''r1'', sample_entry\<lparr>port := 22\<rparr>), (''r2'', sample_entry)],
         blocklist_defaults = None, source_path = ''/j/c''\<rparr>"
proof -
  obtain q where "build toy_engine \<lparr>devices = [(''r1'', sample_entry\<lparr>ssh_config := Some ''/c''\<rparr>)],
      blocklist_defaults = None, source_path = ''/j/b''\<rparr> = Inr q"
    using toy_build by blast
  then show "\<exists>j dm' pol'. reload lab_il toy_engine (Some ''b'') (lab_pool_dm, pol, lab_fs) = (Inr j, dm', pol', lab_fs)
     \<and> dm_inventory dm' = \<lparr>devices = [(''r1'', sample_entry\<lparr>ssh_config := Some ''/c''\<rparr>)], blocklist_defaults = None,
         source_path = ''/j/b''\<rparr> \<and> inventory_path dm' = ''/j/b''"
    by (simp add: lab_reload_defs)
  obtain q where "build toy_engine \<lparr>devices = [(''r1'', sample_entry\<lparr>port := 22\<rparr>), (''r2'', sample_entry)],
      blocklist_defaults = None, source_path = ''/j/c''\<rparr> = Inr q"
    using toy_build by blast
  then show "\<exists>j dm' pol'. reload lab_il toy_engine (Some ''c'') (lab_pool_dm, pol, lab_fs) = (Inr j, dm', pol', lab_fs)
     \<and> dm_inventory dm' = \<lparr>devices = [(''r1'', sample_entry\<lparr>port := 22\<rparr>), (''r2'', sample_entry)],
         blocklist_defaults = None, source_path = ''/j/c''\<rparr>"
    by (simp add: lab_reload_defs)
qed

section \<open>Properties\<close>

text \<open>
  In every history of adding, reloading, refreshing and of files being edited behind the server's back, the
  policy that decides on commands is the one built from the inventory in memory: no failure leaves a new inventory
  under an old policy, or the other way round.
\<close>

theorem policy_always_follows_inventory:
  assumes "rtranclp (inventory_step L PL) s s'" and "policy_follows PL s"
  shows "policy_follows PL s'"
  using assms by (induction rule: rtranclp_induct) (auto intro: inventory_step_follows)

theorem policy_always_follows_inventory_witness:
  "\<exists>pol. policy_follows toy_engine (snd (reload_devices lab_il toy_engine (Some ''b'')
     (snd (add_device lab_il toy_engine lab_add (lab_pool_dm, pol, lab_fs)))))"
proof -
  obtain pol where pol: "build toy_engine (dm_inventory lab_pool_dm) = Inr pol" using toy_build by blast
  let ?s = "(lab_pool_dm, pol, lab_fs)"
  let ?s1 = "snd (add_device lab_il toy_engine lab_add ?s)"
  have "rtranclp (inventory_step lab_il toy_engine) ?s (snd (reload_devices lab_il toy_engine (Some ''b'') ?s1))"
    by (blast intro: inventory_step.intros rtranclp.intros)
  moreover have "policy_follows toy_engine ?s" using pol by (simp add: policy_follows_def)
  ultimately show ?thesis using policy_always_follows_inventory by blast
qed


text \<open>
  C33. What an accepted \<^verbatim>\<open>add_device\<close> has established: the inventory is writable, the name is well
  formed and was neither in memory nor, for a document with an envelope or a name other than \<^verbatim>\<open>devices\<close>,
  in the file; the file had not changed since it was last read; password authentication was allowed if it is used;
  and the document written has the device's entry added and every other device as it was.
\<close>

theorem add_device_adds_exactly_one:
  assumes "add_device L PL args (dm, pol, fs) = (Inr j, dm', pol', fs')"
  shows "\<exists>name addr user au raw v u. ad_device_name args = Some name \<and> ad_device_ip args = Some addr
    \<and> ad_username args = Some user \<and> ad_auth args = Some au \<and> is_valid_device_name name
    \<and> \<not> inventory_readonly dm \<and> \<not> is_ok (inv_get (dm_inventory dm) name)
    \<and> (case au of Password _ \<Rightarrow> allow_password_auth_add dm | SshKey _ \<Rightarrow> True)
    \<and> fs_files fs (inventory_path dm) = Some raw \<and> inventory_hash dm = il_sha256 L raw
    \<and> il_from_slice L raw = Inr v \<and> fs_files fs' = (fs_files fs)(inventory_path dm \<mapsto> staged_content L u)
    \<and> (if name = ''devices'' then True
       else document_devices v name = None \<and> document_devices u = (document_devices v)
         (name \<mapsto> device_json L addr (case ad_device_port args of None \<Rightarrow> 22 | Some n \<Rightarrow> n) user au))"
proof (cases rule: add_device_cases [of L PL args "(dm, pol, fs)"])
  case refused
  with assms show ?thesis by simp
next
  case (stored r content iv pol'' dm0 pol0 fs0)
  have [simp]: "dm0 = dm" "fs0 = fs" "pol0 = pol" using stored(1) by auto
  obtain raw v u where p: "fs_files fs (inventory_path dm) = Some raw" "inventory_hash dm = il_sha256 L raw"
    "il_from_slice L raw = Inr v" "content = staged_content L u"
    "insert_device L v (ra_device_name r) (ra_device_ip r) (ra_device_port r) (ra_username r) (ra_auth r) = Inr u"
    using plan_add_Inr(3) [OF stored(3)] by auto
  define entry where "entry = device_json L (ra_device_ip r) (ra_device_port r) (ra_username r) (ra_auth r)"
  note val = validate_add_Inr [OF stored(2) [unfolded \<open>dm0 = dm\<close>]]
  have doc: "document_devices v (ra_device_name r) = None
      \<and> document_devices u = (document_devices v)(ra_device_name r \<mapsto> entry)" if "ra_device_name r \<noteq> ''devices''"
    using p(5)
  proof (cases rule: insert_device_shapes)
    case (envelope obj devs)
    then show ?thesis by (simp add: map_of_obj_replace map_of_obj_insert entry_def)
  next
    case (bare obj)
    with that show ?thesis by (simp add: map_of_obj_insert entry_def)
  qed
  have fs': "fs_files fs' = (fs_files fs)(inventory_path dm \<mapsto> staged_content L u)"
    using stored(4) assms p(4) by simp
  show ?thesis
    by (intro exI [of _ "ra_device_name r"] exI [of _ "ra_device_ip r"] exI [of _ "ra_username r"]
        exI [of _ "ra_auth r"] exI [of _ raw] exI [of _ v] exI [of _ u])
      (use doc [unfolded entry_def val(5)] in \<open>simp add: val(1-4,6-8) val(9) p(1-3) fs'\<close>)
qed

theorem add_device_adds_exactly_one_witness:
  "\<exists>u. fs_files (snd (snd (snd (add_device lab_il toy_engine lab_add (lab_pool_dm, open_policy, lab_fs))))) =
       (fs_files lab_fs)(''/j/a'' \<mapsto> staged_content lab_il u)
     \<and> document_devices u ''r1'' = Some JNull
     \<and> document_devices u ''r2'' = Some (device_json lab_il ''10.0.0.1'' 830 ''admin'' (SshKey ''/k''))"
proof -
  obtain j dm' pol' fs' where
    a: "add_device lab_il toy_engine lab_add (lab_pool_dm, open_policy, lab_fs) = (Inr j, dm', pol', fs')"
    using lab_add_ok [of open_policy]
    by (cases "add_device lab_il toy_engine lab_add (lab_pool_dm, open_policy, lab_fs)") (auto simp: is_ok_def split: sum.splits)
  from add_device_adds_exactly_one [OF a] a show ?thesis by (auto simp: lab_add_def)
qed

text \<open>
  C31. A reload through the tool never leaves the inventory's directory: an accepted \<^verbatim>\<open>file_name\<close> has no
  parent component, is not absolute, and what it resolves to lies under what the directory of the current file
  resolves to; without one, the current file is read again.
\<close>

theorem reload_stays_in_directory:
  assumes "reload_devices L PL f (dm, pol, fs) = (Inr j, dm', pol', fs')"
  shows "\<not> inventory_readonly dm \<and> devices (dm_inventory dm') \<noteq> []
    \<and> (case f of
         None \<Rightarrow> inventory_path dm' = inventory_path dm
       | Some p \<Rightarrow> if p = [] then inventory_path dm' = inventory_path dm
           else \<exists>parent dir target. \<not> has_parent_component p \<and> \<not> starts_with ''/'' p
             \<and> il_parent L (inventory_path dm) = Some parent \<and> inventory_path dm' = il_join L parent p
             \<and> il_canonicalize L parent = Inr dir \<and> il_canonicalize L (inventory_path dm') = Inr target
             \<and> il_path_starts_with L target dir)"
proof -
  have ro: "\<not> inventory_readonly dm" and re: "reload L PL f (dm, pol, fs) = (Inr j, dm', pol', fs')"
    using assms by (auto simp: reload_devices_eq split: if_splits)
  show ?thesis
  proof (cases rule: reload_cases [of L PL f "(dm, pol, fs)"])
    case refused
    with re show ?thesis by simp
  next
    case (stored path iv pol'' h dm0 pol0 fs0)
    have eqs: "dm0 = dm" "fs0 = fs" "pol0 = pol" using stored(1) by auto
    have dm': "inventory_path dm' = path" "dm_inventory dm' = iv"
      using stored(3) re by (auto simp: invalidate_pool_def store_inventory_def)
    note p = plan_reload_Inr [OF stored(2) [unfolded eqs]]
    show ?thesis
    proof (cases "case f of None \<Rightarrow> True | Some n \<Rightarrow> n = []")
      case True
      with ro p(1,4) dm' show ?thesis by (cases f) (simp_all add: reload_path_def)
    next
      case False
      then obtain n where f: "f = Some n" "n \<noteq> []" by (cases f) auto
      have path: "\<not> has_parent_component n" "\<not> starts_with ''/'' n"
        "\<exists>parent. il_parent L (inventory_path dm) = Some parent \<and> path = il_join L parent n"
        using p(1) f by (auto simp: reload_path_def split: option.splits if_splits)
      then obtain parent where par: "il_parent L (inventory_path dm) = Some parent" "path = il_join L parent n" by blast
      have "\<exists>dir target. il_canonicalize L parent = Inr dir \<and> il_canonicalize L path = Inr target
          \<and> il_path_starts_with L target dir"
        using p(2) f par(1) by (auto simp: check_inside_def flow_simps split: if_splits)
      with ro p(4) dm' f path(1,2) par show ?thesis by auto
    qed
  qed
qed

theorem reload_stays_in_directory_witness:
  "\<not> has_parent_component ''b'' \<and> \<not> starts_with ''/'' ''b'' \<and> starts_with ''/j'' ''/j/b''"
proof -
  obtain j dm' pol' where
    "reload_devices lab_il toy_engine (Some ''b'') (lab_pool_dm, open_policy, lab_fs) = (Inr j, dm', pol', lab_fs)"
    "inventory_path dm' = ''/j/b''"
    using lab_reload(1) [of open_policy] by (auto simp: reload_devices_eq)
  with reload_stays_in_directory [OF this(1)] show ?thesis by auto
qed

text \<open>
  After a successful reload no session is left in the pool for a router that the new inventory lacks, or whose
  address, port, user name or credentials it changes; the session of any other router stays.
\<close>

theorem reload_drops_stale_sessions:
  assumes "reload L PL f (dm, pol, fs) = (Inr j, dm', pol', fs')" and "inv_get (dm_inventory dm) r = Inr p"
  shows "map_of (slots (pool dm')) r =
    (case inv_get (dm_inventory dm') r of
       Inl _ \<Rightarrow> None
     | Inr q \<Rightarrow> if ip q = ip p \<and> port q = port p \<and> username q = username p \<and> auth q = auth p
               then map_of (slots (pool dm)) r else None)"
  using assms(2) unfolding reload_slots [OF assms(1)]
  by (auto simp: set_removed_names set_changed_names inventory_entry_equal_def split: sum.splits)

theorem reload_drops_stale_sessions_witness:
  "map_of (slots (pool lab_pool_dm)) ''r1'' \<noteq> None
   \<and> map_of (slots (pool (fst (snd (reload lab_il toy_engine (Some ''c'') (lab_pool_dm, open_policy, lab_fs)))))) ''r1'' = None"
proof -
  obtain j dm' pol' where
    r: "reload lab_il toy_engine (Some ''c'') (lab_pool_dm, open_policy, lab_fs) = (Inr j, dm', pol', lab_fs)"
    "dm_inventory dm' = \<lparr>devices = [(''r1'', sample_entry\<lparr>port := 22\<rparr>), (''r2'', sample_entry)],
         blocklist_defaults = None, source_path = ''/j/c''\<rparr>"
    using lab_reload(2) [of open_policy] by blast
  with reload_drops_stale_sessions [OF r(1), of "''r1''" sample_entry] show ?thesis
    by (simp add: inv_get_def sample_entry_def)
qed

text \<open>
  A reload that changes only the SSH client configuration of a router (its jump hosts or proxy) does not report
  the router as changed, and the session opened along the old route stays in the pool to be used again.
\<close>

theorem reload_misses_ssh_config:
  assumes "reload L PL f (dm, pol, fs) = (Inr j, dm', pol', fs')"
    and "inv_get (dm_inventory dm) r = Inr p" and "inv_get (dm_inventory dm') r = Inr (p\<lparr>ssh_config := sc\<rparr>)"
  shows "r \<notin> set (changed_names (dm_inventory dm) (dm_inventory dm'))
    \<and> map_of (slots (pool dm')) r = map_of (slots (pool dm)) r"
  using assms(2,3) unfolding reload_slots [OF assms(1)]
  by (auto simp: set_removed_names set_changed_names inventory_entry_equal_def)

theorem reload_misses_ssh_config_witness:
  "map_of (slots (pool (fst (snd (reload lab_il toy_engine (Some ''b'') (lab_pool_dm, open_policy, lab_fs)))))) ''r1''
     = Some \<lparr>pe_device = 7, returned_at = 0\<rparr>"
proof -
  obtain j dm' pol' where
    r: "reload lab_il toy_engine (Some ''b'') (lab_pool_dm, open_policy, lab_fs) = (Inr j, dm', pol', lab_fs)"
    "dm_inventory dm' = \<lparr>devices = [(''r1'', sample_entry\<lparr>ssh_config := Some ''/c''\<rparr>)], blocklist_defaults = None,
         source_path = ''/j/b''\<rparr>"
    using lab_reload(1) [of open_policy] by blast
  with reload_misses_ssh_config [OF r(1), of "''r1''" sample_entry "Some ''/c''"] show ?thesis
    by (simp add: inv_get_def)
qed

end
