(* ===== verification/Srx_Base.thy ===== *)
theory Srx_Base
  imports Changeset_Tools
begin

text \<open>
  What the SRX workflows share (\<^verbatim>\<open>rust-junosmcp-srx-core\<close>): the errors of
  \<^verbatim>\<open>error.rs\<close>, the response envelope of \<^verbatim>\<open>absence.rs\<close>, the closed protocol type of
  \<^verbatim>\<open>protocol.rs\<close>.
\<close>

section \<open>Errors\<close>

datatype srx_error =
    Transport jmcp_error
  | SrxRpc string string string
  | SrxParse string
  | SchemaMismatch string string
  | InvalidInput string
  | SignaturePackageConfirmationRequired string json
  | SignaturePackageConfirmationTokenRequired string
  | SignaturePackageConfirmationTokenInvalid string string
  | SignaturePackageConfirmationPlanDrift string
  | SignaturePackageConfirmationCapacityExceeded string
  | SignaturePackageLicenseInactive string string
  | SignaturePackageServerUnreachable string string
  | SignaturePackageNoRollbackTarget string
  | SignaturePackageNoUninstallTarget string
  | SignaturePackageClusterDesynced string string
  | SignaturePackageDownloadFailed string string
  | SignaturePackageInstallFailed string string
  | SignaturePackageVerificationFailed string string string
  | SignaturePackagePollTimeout string string nat
  | SignaturePackageDaemonNotReady string
  | ClusterHealthCheckTimeout string nat
  | BundleStagingFull string nat nat
  | BundleStagingEvicted string string
  | BundleRpcSubsetFailed string nat nat string
  | BundlePerRouterContention string
  | BundleConfigCaptureFailed string string
  | ResolutionCycle string string string
  | ResolutionDepthExceeded string string nat
  | ResolutionNameNotFound string string string

type_synonym 'a sres = "srx_error + 'a"

definition EM_DASH :: string where "EM_DASH = [CHR 0xE2, CHR 0x80, CHR 0x94]"

text \<open>The \<^verbatim>\<open>Display\<close> text; printing a JSON value is a parameter.\<close>

fun srx_error_to_string :: "(json \<Rightarrow> string) \<Rightarrow> srx_error \<Rightarrow> string" where
  "srx_error_to_string pj (Transport e) = ''transport: '' @ error_to_string e"
| "srx_error_to_string pj (SrxRpc tag severity msg) =
     ''rpc error: '' @ tag @ '' ('' @ severity @ '') '' @ EM_DASH @ '' '' @ msg"
| "srx_error_to_string pj (SrxParse m) = ''xml parse: '' @ m"
| "srx_error_to_string pj (SchemaMismatch rpc element) =
     ''schema mismatch in '' @ rpc @ '': missing required element <'' @ element @ ''>''"
| "srx_error_to_string pj (InvalidInput m) = ''invalid input: '' @ m"
| "srx_error_to_string pj (SignaturePackageConfirmationRequired r plan) =
     ''[code=confirmation_required] router='' @ r @ '': confirmation required '' @ EM_DASH
     @ '' re-call with confirm=true and the plan'' @ [SQ] @ ''s confirmation_token; plan: '' @ pj plan"
| "srx_error_to_string pj (SignaturePackageConfirmationTokenRequired r) =
     ''[code=confirmation_token_required] router='' @ r
     @ '': confirm=true requires the server-issued confirmation_token from a fresh preview''"
| "srx_error_to_string pj (SignaturePackageConfirmationTokenInvalid r reason) =
     ''[code=confirmation_token_invalid] router='' @ r @ '': '' @ reason"
| "srx_error_to_string pj (SignaturePackageConfirmationPlanDrift r) =
     ''[code=confirmation_plan_drift] router='' @ r
     @ '': device state or requested plan changed; request and review a new preview''"
| "srx_error_to_string pj (SignaturePackageConfirmationCapacityExceeded r) =
     ''[code=confirmation_capacity_exceeded] router='' @ r
     @ '': too many pending confirmations; retry after existing confirmations expire''"
| "srx_error_to_string pj (SignaturePackageLicenseInactive r feature) =
     ''[code=license_inactive] router='' @ r @ '': feature license '' @ [SQ] @ feature @ [SQ] @ '' not active''"
| "srx_error_to_string pj (SignaturePackageServerUnreachable r d) =
     ''[code=signatures_server_unreachable] router='' @ r @ '': '' @ d"
| "srx_error_to_string pj (SignaturePackageNoRollbackTarget r) =
     ''[code=no_rollback_target] router='' @ r
     @ '': no preserved previous IDP signature package to roll back to''"
| "srx_error_to_string pj (SignaturePackageNoUninstallTarget r) =
     ''[code=no_uninstall_target] router='' @ r
     @ '': no AppID application package is currently installed; nothing to uninstall''"
| "srx_error_to_string pj (SignaturePackageClusterDesynced r state) =
     ''[code=cluster_desynced] router='' @ r @ '': cluster state '' @ [SQ] @ state @ [SQ]
     @ '' (expected synchronized)''"
| "srx_error_to_string pj (SignaturePackageDownloadFailed r d) = ''[code=download_failed] router='' @ r @ '': '' @ d"
| "srx_error_to_string pj (SignaturePackageInstallFailed r d) = ''[code=install_failed] router='' @ r @ '': '' @ d"
| "srx_error_to_string pj (SignaturePackageVerificationFailed r expected got) =
     ''[code=post_install_version_mismatch] router='' @ r @ '': expected='' @ expected @ '', got='' @ got"
| "srx_error_to_string pj (SignaturePackagePollTimeout r action secs) =
     ''[code=poll_timeout] router='' @ r @ '' action='' @ action @ '': elapsed='' @ show_nat secs @ ''s''"
| "srx_error_to_string pj (SignaturePackageDaemonNotReady r) =
     ''[code=daemon_not_ready] router='' @ r @ '': idp-policy daemon not initialized '' @ EM_DASH
     @ '' restart idp-policy or add minimum '' @ [SQ] @ ''security idp'' @ [SQ] @ '' config stanza''"
| "srx_error_to_string pj (ClusterHealthCheckTimeout r secs) =
     ''[code=cluster_health_check_timeout] router='' @ r @ '': outer budget exceeded after '' @ show_nat secs @ ''s''"
| "srx_error_to_string pj (BundleStagingFull r bytes cap) =
     ''[code=bundle_staging_full] router='' @ r @ '': staging dir over cap even after LRU eviction (bundle ''
     @ show_nat bytes @ '' bytes; cap '' @ show_nat cap @ '' bytes)''"
| "srx_error_to_string pj (BundleStagingEvicted r rid) =
     ''[code=bundle_staging_evicted] router='' @ r @ '': requested request_id='' @ rid
     @ '' not present in staging (LRU evicted or never written)''"
| "srx_error_to_string pj (BundleRpcSubsetFailed r failed n first) =
     ''[code=bundle_rpc_subset_failed] router='' @ r @ '': '' @ show_nat failed @ '' of '' @ show_nat n
     @ '' bundle RPCs failed (first error: '' @ first @ '')''"
| "srx_error_to_string pj (BundlePerRouterContention r) =
     ''[code=bundle_per_router_contention] router='' @ r
     @ '': another collect_jtac_support_bundle is in flight; retry after it completes''"
| "srx_error_to_string pj (BundleConfigCaptureFailed r d) =
     ''[code=bundle_config_capture_failed] router='' @ r
     @ '': universal-baseline get-configuration RPC failed: '' @ d"
| "srx_error_to_string pj (ResolutionCycle r name chain) =
     ''[code=resolution_cycle] router='' @ r @ '': cycle resolving '' @ [SQ] @ name @ [SQ] @ '': '' @ chain"
| "srx_error_to_string pj (ResolutionDepthExceeded r name d) =
     ''[code=resolution_depth_exceeded] router='' @ r @ '': '' @ [SQ] @ name @ [SQ] @ '' exceeded max depth ''
     @ show_nat d"
| "srx_error_to_string pj (ResolutionNameNotFound r name book) =
     ''[code=resolution_name_not_found] router='' @ r @ '': '' @ [SQ] @ name @ [SQ] @ '' not found in '' @ book"

fun srx_audit_kind :: "srx_error \<Rightarrow> string" where
  "srx_audit_kind (Transport inner) = audit_kind inner"
| "srx_audit_kind (SrxRpc _ _ _) = ''rpc''"
| "srx_audit_kind (SrxParse _) = ''parse''"
| "srx_audit_kind (SchemaMismatch _ _) = ''parse''"
| "srx_audit_kind (InvalidInput _) = ''invalid_input''"
| "srx_audit_kind (SignaturePackageConfirmationRequired _ _) = ''confirmation_required''"
| "srx_audit_kind (SignaturePackageConfirmationTokenRequired _) = ''confirmation_token''"
| "srx_audit_kind (SignaturePackageConfirmationTokenInvalid _ _) = ''confirmation_token''"
| "srx_audit_kind (SignaturePackageConfirmationPlanDrift _) = ''confirmation_token''"
| "srx_audit_kind (SignaturePackageConfirmationCapacityExceeded _) = ''confirmation_token''"
| "srx_audit_kind (SignaturePackageLicenseInactive _ _) = ''license_inactive''"
| "srx_audit_kind (SignaturePackageServerUnreachable _ _) = ''unreachable''"
| "srx_audit_kind (SignaturePackageNoRollbackTarget _) = ''precondition_failed''"
| "srx_audit_kind (SignaturePackageNoUninstallTarget _) = ''precondition_failed''"
| "srx_audit_kind (SignaturePackageClusterDesynced _ _) = ''cluster_desynced''"
| "srx_audit_kind (SignaturePackageDownloadFailed _ _) = ''download_failed''"
| "srx_audit_kind (SignaturePackageInstallFailed _ _) = ''install_failed''"
| "srx_audit_kind (SignaturePackageVerificationFailed _ _ _) = ''verify_mismatch''"
| "srx_audit_kind (SignaturePackagePollTimeout _ _ _) = ''timeout''"
| "srx_audit_kind (SignaturePackageDaemonNotReady _) = ''daemon_not_ready''"
| "srx_audit_kind (ClusterHealthCheckTimeout _ _) = ''timeout''"
| "srx_audit_kind (BundleStagingFull _ _ _) = ''staging_full''"
| "srx_audit_kind (BundleStagingEvicted _ _) = ''staging_evicted''"
| "srx_audit_kind (BundleRpcSubsetFailed _ _ _ _) = ''bundle_partial''"
| "srx_audit_kind (BundlePerRouterContention _) = ''contention''"
| "srx_audit_kind (BundleConfigCaptureFailed _ _) = ''capture_failed''"
| "srx_audit_kind (ResolutionCycle _ _ _) = ''resolution_cycle''"
| "srx_audit_kind (ResolutionDepthExceeded _ _ _) = ''resolution_depth_exceeded''"
| "srx_audit_kind (ResolutionNameNotFound _ _ _) = ''resolution_name_not_found''"

text \<open>The bracketed code the audit lines take from the \<^verbatim>\<open>Display\<close> text.\<close>

definition strip_prefix :: "string \<Rightarrow> string \<Rightarrow> string option" where
  "strip_prefix p s = (if starts_with p s then Some (drop (length p) s) else None)"

definition error_code :: "string \<Rightarrow> string" where
  "error_code s =
     (case Option.bind (strip_prefix ''['' s)
             (\<lambda>t. Option.bind (find_char (CHR '']'') t) (\<lambda>i. strip_prefix ''code='' (take i t))) of
        Some c \<Rightarrow> c | None \<Rightarrow> ''internal'')"

section \<open>The response envelope and the protocol type\<close>

datatype srx_state_tag = Active | NotConfigured | SrxStateError

record 'a srx_response =
  rs_state :: srx_state_tag
  rs_data :: "'a option"
  rs_reason :: "string option"
  rs_raw_xml :: "string option"

definition active :: "'a \<Rightarrow> 'a srx_response" where
  "active d = \<lparr>rs_state = Active, rs_data = Some d, rs_reason = None, rs_raw_xml = None\<rparr>"

definition not_configured :: "string \<Rightarrow> 'a srx_response" where
  "not_configured reason = \<lparr>rs_state = NotConfigured, rs_data = None, rs_reason = Some reason, rs_raw_xml = None\<rparr>"

definition with_raw :: "string \<Rightarrow> 'a srx_response \<Rightarrow> 'a srx_response" where
  "with_raw raw r = r\<lparr>rs_raw_xml := Some raw\<rparr>"

text \<open>\<^verbatim>\<open>parse::<uN>()\<close>: an optional plus sign, digits, and no overflow.\<close>

definition parse_uint :: "string \<Rightarrow> 'a::len word option" where
  "parse_uint s =
     (let ds = (case s of c # cs \<Rightarrow> if c = CHR ''+'' then cs else s | [] \<Rightarrow> s)
      in if ds = [] then None
         else (case parse_digits 0 ds of None \<Rightarrow> None
               | Some n \<Rightarrow> if n < 2 ^ LENGTH('a) then Some (of_nat n) else None))"

datatype ip_protocol = Tcp | Udp | Icmp | OtherProtocol "8 word"

definition parse_protocol :: "string \<Rightarrow> ip_protocol sres" where
  "parse_protocol s =
     (let trimmed = str_trim s; lower = to_ascii_lowercase trimmed in
      if lower = ''tcp'' then Inr Tcp
      else if lower = ''udp'' then Inr Udp
      else if lower = ''icmp'' then Inr Icmp
      else (case parse_uint trimmed of
              Some n \<Rightarrow> Inr (OtherProtocol n)
            | None \<Rightarrow> Inl (InvalidInput (''unrecognised protocol: expected tcp, udp, icmp, or a numeric IANA protocol ''
                @ ''number 0-255''))))"

definition rpc_value :: "ip_protocol \<Rightarrow> string" where
  "rpc_value p =
     (case p of Tcp \<Rightarrow> ''tcp'' | Udp \<Rightarrow> ''udp'' | Icmp \<Rightarrow> ''icmp'' | OtherProtocol n \<Rightarrow> show_nat (unat n))"

section \<open>Error codes and the protocol round trip\<close>

fun stable_code :: "srx_error \<Rightarrow> string" where
  "stable_code (SignaturePackageConfirmationRequired _ _) = ''confirmation_required''"
| "stable_code (SignaturePackageConfirmationTokenRequired _) = ''confirmation_token_required''"
| "stable_code (SignaturePackageConfirmationTokenInvalid _ _) = ''confirmation_token_invalid''"
| "stable_code (SignaturePackageConfirmationPlanDrift _) = ''confirmation_plan_drift''"
| "stable_code (SignaturePackageConfirmationCapacityExceeded _) = ''confirmation_capacity_exceeded''"
| "stable_code (SignaturePackageLicenseInactive _ _) = ''license_inactive''"
| "stable_code (SignaturePackageServerUnreachable _ _) = ''signatures_server_unreachable''"
| "stable_code (SignaturePackageNoRollbackTarget _) = ''no_rollback_target''"
| "stable_code (SignaturePackageNoUninstallTarget _) = ''no_uninstall_target''"
| "stable_code (SignaturePackageClusterDesynced _ _) = ''cluster_desynced''"
| "stable_code (SignaturePackageDownloadFailed _ _) = ''download_failed''"
| "stable_code (SignaturePackageInstallFailed _ _) = ''install_failed''"
| "stable_code (SignaturePackageVerificationFailed _ _ _) = ''post_install_version_mismatch''"
| "stable_code (SignaturePackagePollTimeout _ _ _) = ''poll_timeout''"
| "stable_code (SignaturePackageDaemonNotReady _) = ''daemon_not_ready''"
| "stable_code (ClusterHealthCheckTimeout _ _) = ''cluster_health_check_timeout''"
| "stable_code (BundleStagingFull _ _ _) = ''bundle_staging_full''"
| "stable_code (BundleStagingEvicted _ _) = ''bundle_staging_evicted''"
| "stable_code (BundleRpcSubsetFailed _ _ _ _) = ''bundle_rpc_subset_failed''"
| "stable_code (BundlePerRouterContention _) = ''bundle_per_router_contention''"
| "stable_code (BundleConfigCaptureFailed _ _) = ''bundle_config_capture_failed''"
| "stable_code (ResolutionCycle _ _ _) = ''resolution_cycle''"
| "stable_code (ResolutionDepthExceeded _ _ _) = ''resolution_depth_exceeded''"
| "stable_code (ResolutionNameNotFound _ _ _) = ''resolution_name_not_found''"
| "stable_code _ = ''internal''"

lemma find_char_step: "find_char c (x # xs) = (if x = c then Some 0 else map_option Suc (find_char c xs))"
  by (simp split: option.splits)

lemma error_code_bracketed:
  "CHR '']'' \<notin> set c \<Longrightarrow> error_code (''[code='' @ c @ CHR '']'' # rest) = c"
  by (simp add: error_code_def strip_prefix_def starts_with_def find_char_append del: find_char.simps
      add: find_char_step)

lemma display_bracketed:
  "stable_code e \<noteq> ''internal'' \<Longrightarrow> \<exists>rest. srx_error_to_string pj e = ''[code='' @ stable_code e @ CHR '']'' # rest"
  by (cases e) simp_all

lemma display_plain:
  "stable_code e = ''internal'' \<Longrightarrow> \<not> starts_with ''['' (srx_error_to_string pj e)"
  by (cases e) (simp_all add: starts_with_def)

lemma stable_code_plain: "CHR '']'' \<notin> set (stable_code e)"
  by (cases e) simp_all

text \<open>
  C0. A caller that matches on the bracketed code reads the same code from the text of an error whatever router
  name, device text or version is printed in it, brackets included; errors without a code read as
  \<^verbatim>\<open>internal\<close>.
\<close>

theorem error_code_is_stable: "error_code (srx_error_to_string pj e) = stable_code e"
proof (cases "stable_code e = ''internal''")
  case True
  then show ?thesis using display_plain [of e pj] by (simp add: error_code_def strip_prefix_def)
next
  case False
  then show ?thesis using display_bracketed [of e pj] error_code_bracketed [OF stable_code_plain] by auto
qed

lemma parse_digits_append:
  "d < 10 \<Longrightarrow> parse_digits a (s @ [digit_char d]) = map_option (\<lambda>n. 10 * n + d) (parse_digits a s)"
  by (induction s arbitrary: a) (simp_all add: digit_char_def is_ascii_digit_def byte_def)

lemma parse_digits_show_nat: "parse_digits 0 (show_nat n) = Some n"
proof (induction n rule: show_nat.induct)
  case (1 n)
  show ?case
  proof (cases "n < 10")
    case True
    then show ?thesis by (subst show_nat.simps) (simp add: digit_char_def is_ascii_digit_def byte_def)
  next
    case False
    then show ?thesis using 1 parse_digits_append [of "n mod 10" 0 "show_nat (n div 10)"]
      by (subst show_nat.simps) simp
  qed
qed

lemma ws_len_printable: "list_all (\<lambda>c. 33 \<le> byte c \<and> byte c < 127) s \<Longrightarrow> ws_len s = 0"
proof (cases s)
  case (Cons a r)
  assume "list_all (\<lambda>c. 33 \<le> byte c \<and> byte c < 127) s"
  then have "33 \<le> byte a" "byte a < 127" by (simp_all add: Cons)
  then have "byte a \<noteq> 32" "\<not> byte a < 14" "byte a \<noteq> 194" "byte a \<noteq> 225" "byte a \<noteq> 226" "byte a \<noteq> 227" by linarith+
  then show ?thesis by (simp add: Cons ws_len_def split: list.split)
qed (simp add: ws_len_def)

lemma str_trim_printable: "list_all (\<lambda>c. 33 \<le> byte c \<and> byte c < 127) s \<Longrightarrow> str_trim s = s"
proof -
  assume p: "list_all (\<lambda>c. 33 \<le> byte c \<and> byte c < 127) s"
  then have "ws_len (drop k s) = 0" for k
    by (intro ws_len_printable) (auto simp: list_all_iff dest: in_set_dropD)
  then have "ws_suffix_len s = 0" by (simp add: ws_suffix_len_def Let_def)
  then show ?thesis using ws_len_printable [OF p] by (simp add: str_trim_def trim_start_no_ws trim_end.simps)
qed

lemma show_nat_bytes: "c \<in> set (show_nat n) \<Longrightarrow> 48 \<le> byte c \<and> byte c < 58"
  using show_nat_digits [of c n] by (simp add: byte_def)

lemma parse_uint_show_nat: "parse_uint (show_nat (unat n)) = Some n"
proof -
  obtain c cs where s: "show_nat (unat n) = c # cs" using show_nat_not_Nil by (metis neq_Nil_conv)
  have "byte c \<noteq> byte (CHR ''+'')" using show_nat_bytes [of c "unat n"] by (simp add: s byte_def)
  then have "c \<noteq> CHR ''+''" by auto
  then show ?thesis
    using parse_digits_show_nat [of "unat n"] unsigned_less [of n] by (simp add: parse_uint_def s)
qed

text \<open>
  The protocol a request names is the protocol that was parsed: printing a protocol for the wire and parsing
  the text gives it back, for the named protocols and for all 256 numbers.
\<close>

theorem protocol_round_trip: "parse_protocol (rpc_value p) = Inr p"
proof (cases p)
  case (OtherProtocol n)
  obtain c cs where s: "show_nat (unat n) = c # cs" using show_nat_not_Nil by (metis neq_Nil_conv)
  have dig: "\<forall>x\<in>set (show_nat (unat n)). 48 \<le> byte x \<and> byte x < 58" using show_nat_bytes by blast
  then have tr: "str_trim (show_nat (unat n)) = show_nat (unat n)" by (intro str_trim_printable) (fastforce simp: list_all_iff)
  have c: "ascii_lower_char c = c" "c \<noteq> CHR ''t''" "c \<noteq> CHR ''u''" "c \<noteq> CHR ''i''"
    using dig by (auto simp: s ascii_lower_char_def byte_def)
  then have "to_ascii_lowercase (show_nat (unat n)) \<notin> {''tcp'', ''udp'', ''icmp''}"
    by (simp add: s to_ascii_lowercase_def)
  then show ?thesis
    using OtherProtocol parse_uint_show_nat [of n] by (simp add: parse_protocol_def rpc_value_def tr Let_def)
qed (simp_all add: parse_protocol_def rpc_value_def str_trim_printable byte_def to_ascii_lowercase_def
      ascii_lower_char_def Let_def)

end
