(* ===== verification/Srx_Xml.thy ===== *)
theory Srx_Xml
  imports Srx_Base
begin

text \<open>
  \<^verbatim>\<open>xml.rs\<close>: repairing the text the NETCONF library returns, splitting a reply per routing engine, and
  reading elements. The XML parser is a parameter; the tree it gives is the data the code walks.
\<close>

section \<open>Trees\<close>

text \<open>
  A node as the parser's interface shows it: an element with its local name, attributes and children, a text, or
  something else (a comment or a processing instruction). The text of an element is that of its first child, when
  that is a text.
\<close>

datatype xnode = XElem string "(string \<times> string) list" "xnode list" | XText string | XOther

fun is_element :: "xnode \<Rightarrow> bool" where
  "is_element (XElem _ _ _) = True"
| "is_element _ = False"

fun tag_name :: "xnode \<Rightarrow> string" where
  "tag_name (XElem n _ _) = n"
| "tag_name _ = []"

fun children :: "xnode \<Rightarrow> xnode list" where
  "children (XElem _ _ cs) = cs"
| "children _ = []"

fun node_text :: "xnode \<Rightarrow> string option" where
  "node_text (XElem _ _ (XText t # _)) = Some t"
| "node_text (XElem _ _ _) = None"
| "node_text (XText t) = Some t"
| "node_text XOther = None"

fun descendants :: "xnode \<Rightarrow> xnode list" where
  "descendants (XElem n at cs) = XElem n at cs # concat (map descendants cs)"
| "descendants x = [x]"

definition named :: "string \<Rightarrow> xnode \<Rightarrow> bool" where
  "named name n \<longleftrightarrow> is_element n \<and> tag_name n = name"

definition find_child :: "string \<Rightarrow> xnode \<Rightarrow> xnode option" where
  "find_child name n = find (named name) (children n)"

definition find_descendant :: "string \<Rightarrow> xnode \<Rightarrow> xnode option" where
  "find_descendant name n = find (named name) (descendants n)"

text \<open>
  The libraries: parsing, escaping in the writer, Unicode lower case, the \<^verbatim>\<open>Debug\<close> of a text, and
  reading an RFC 3339 time as seconds.
\<close>

record xml_lib =
  xl_parse :: "string \<Rightarrow> string + xnode"
  xl_escape :: "string \<Rightarrow> string"
  xl_lowercase :: "string \<Rightarrow> string"
  xl_debug :: "string \<Rightarrow> string"
  xl_rfc3339 :: "string \<Rightarrow> string + int"

section \<open>Writing a node\<close>

fun write_attr :: "xml_lib \<Rightarrow> string \<times> string \<Rightarrow> string" where
  "write_attr X (k, v) = '' '' @ k @ ''='' @ [DQ] @ xl_escape X v @ [DQ]"

fun node_to_xml :: "xml_lib \<Rightarrow> xnode \<Rightarrow> string" where
  "node_to_xml X (XElem name attrs cs) =
     (let start = ''<'' @ name @ concat (map (write_attr X) attrs) in
      if cs \<noteq> [] then start @ ''>'' @ concat (map (node_to_xml X) cs) @ ''</'' @ name @ ''>''
      else start @ ''/>'')"
| "node_to_xml X (XText t) = xl_escape X t"
| "node_to_xml X XOther = []"

section \<open>Repairing the text\<close>

text \<open>What may follow the bracket that opens a tag.\<close>

definition opens_tag :: "string \<Rightarrow> bool" where
  "opens_tag s =
     (case s of
        [] \<Rightarrow> False
      | c # _ \<Rightarrow> c = CHR ''/'' \<or> c = CHR ''?'' \<or> c = CHR ''!'' \<or> is_ascii_alphanumeric c \<or> c = CHR ''_'')"

fun has_bare :: "bool \<Rightarrow> string \<Rightarrow> bool" where
  "has_bare in_tag [] = False"
| "has_bare in_tag (c # s) =
     (if in_tag then has_bare (c \<noteq> CHR ''>'') s
      else if c = CHR ''<'' then (if opens_tag s then has_bare True s else True)
      else if c = CHR ''>'' then True
      else has_bare False s)"

definition has_bare_angle_brackets_in_text :: "string \<Rightarrow> bool" where
  "has_bare_angle_brackets_in_text xml = has_bare False xml"

fun find_next_tag_start :: "string \<Rightarrow> nat option" where
  "find_next_tag_start [] = None"
| "find_next_tag_start (c # s) =
     (if c = CHR ''<'' \<and> opens_tag s then Some 0 else map_option Suc (find_next_tag_start s))"

definition escape_char :: "char \<Rightarrow> string" where
  "escape_char ch =
     (if ch = CHR ''<'' then ''&lt;'' else if ch = CHR ''>'' then ''&gt;'' else [ch])"

function escape_from :: "bool \<Rightarrow> string \<Rightarrow> string" where
  "escape_from in_text rest =
     (if rest = [] then []
      else if in_text then
        (case find_next_tag_start rest of
           Some tag_start \<Rightarrow>
             concat (map escape_char (take tag_start rest)) @ escape_from False (drop tag_start rest)
         | None \<Rightarrow> concat (map escape_char rest))
      else
        (case find_char (CHR ''>'') rest of
           Some tag_end \<Rightarrow> take (Suc tag_end) rest @ escape_from True (drop (Suc tag_end) rest)
         | None \<Rightarrow> rest))"
  by pat_completeness auto
termination
  by (relation "measures [\<lambda>(t, r). length r, \<lambda>(t, r). if t then 1 else 0]") (auto split: if_splits)

declare escape_from.simps [simp del]

definition escape_text_angle_brackets :: "string \<Rightarrow> string" where
  "escape_text_angle_brackets xml = escape_from (\<not> starts_with ''<'' xml) xml"

definition trim_start_spaces :: "string \<Rightarrow> string" where
  "trim_start_spaces s = dropWhile (\<lambda>c. c = SP) s"

text \<open>
  The end of an attribute is found by the same code as for the fingerprint
  (\<^const>\<open>find_attr_end\<close>); unlike there, the whole text is searched, not only the tags.
\<close>

lemma length_trim_start_spaces: "length (trim_start_spaces s) \<le> length s"
  by (simp add: trim_start_spaces_def length_dropWhile_le)

function simple_strip_junos :: "string \<Rightarrow> string" where
  "simple_strip_junos rest =
     (case str_find JUNOS rest of
        None \<Rightarrow> rest
      | Some pos \<Rightarrow>
          (let r = drop pos rest in
           take pos rest @ simple_strip_junos (trim_start_spaces (drop (find_attr_end r) r))))"
  by pat_completeness auto
termination
proof (relation "measure length", simp, goal_cases)
  case (1 rest pos r)
  then have "r \<noteq> []" using str_find_prefix [of JUNOS rest pos] by (auto simp: JUNOS_def)
  then have "length (drop (find_attr_end r) r) < length rest"
    using find_attr_end_pos [of r] 1 by auto
  then show ?case using length_trim_start_spaces [of "drop (find_attr_end r) r"] 1 by simp
qed

declare simple_strip_junos.simps [simp del]

definition sanitize_rustez_xml :: "string \<Rightarrow> string" where
  "sanitize_rustez_xml xml =
     (let needs_ns_strip = str_contains JUNOS xml;
          needs_text_escape = list_ex (\<lambda>b. b = CHR ''<'' \<or> b = CHR ''>'') xml \<and> has_bare_angle_brackets_in_text xml
      in if \<not> needs_ns_strip \<and> \<not> needs_text_escape then xml
         else
           (let after_ns = (if needs_ns_strip then simple_strip_junos xml else xml)
            in if needs_text_escape then escape_text_angle_brackets after_ns else after_ns))"

section \<open>Reading replies\<close>

record re_node =
  re_name :: string
  inner_xml :: string

definition opt_str :: "string option \<Rightarrow> string" where
  "opt_str x = (case x of None \<Rightarrow> [] | Some s \<Rightarrow> s)"

definition split_item :: "xml_lib \<Rightarrow> xnode \<Rightarrow> re_node" where
  "split_item X item =
     \<lparr>re_name = str_trim (opt_str (Option.bind (find_child ''re-name'' item) node_text)),
      inner_xml = concat (map (node_to_xml X) (filter (\<lambda>n. \<not> named ''re-name'' n) (children item)))\<rparr>"

definition multi_re_split :: "xml_lib \<Rightarrow> string \<Rightarrow> re_node list sres" where
  "multi_re_split X raw =
     (let reply_xml = sanitize_rustez_xml raw in
      and_then (map_err SrxParse (xl_parse X reply_xml)) (\<lambda>doc.
        case find_descendant ''multi-routing-engine-results'' doc of
          None \<Rightarrow> Inr [\<lparr>re_name = [], inner_xml = reply_xml\<rparr>]
        | Some envelope \<Rightarrow>
            Inr (map (split_item X) (filter (named ''multi-routing-engine-item'') (children envelope)))))"

definition text_of :: "xml_lib \<Rightarrow> string \<Rightarrow> string \<Rightarrow> string option" where
  "text_of X xml name =
     (let input = (if is_ok (xl_parse X xml) then xml else ''<_>'' @ xml @ ''</_>'') in
      case xl_parse X input of
        Inl _ \<Rightarrow> None
      | Inr doc \<Rightarrow> map_option str_trim (Option.bind (find_descendant name doc) node_text))"

definition trimmed_text :: "string \<Rightarrow> xnode \<Rightarrow> string option" where
  "trimmed_text name n = map_option str_trim (Option.bind (find_descendant name n) node_text)"

definition rpc_error_reason :: "string option \<Rightarrow> string option \<Rightarrow> string" where
  "rpc_error_reason msg bad =
     (case (msg, bad) of
        (Some m, Some b) \<Rightarrow> ''rpc-error: '' @ m @ '' (bad-element: '' @ b @ '')''
      | (Some m, None) \<Rightarrow> ''rpc-error: '' @ m
      | (None, Some b) \<Rightarrow> ''rpc-error: bad-element='' @ b
      | (None, None) \<Rightarrow> ''rpc-error (unknown)'')"

definition rpc_error_parts :: "xnode \<Rightarrow> (string \<times> string) option" where
  "rpc_error_parts root =
     (case (if tag_name root = ''rpc-error'' then Some root else find_child ''rpc-error'' root) of
        None \<Rightarrow> None
      | Some err \<Rightarrow>
          Some (opt_str (trimmed_text ''error-tag'' err),
                rpc_error_reason (trimmed_text ''error-message'' err) (trimmed_text ''bad-element'' err)))"

section \<open>What the repair does\<close>

lemma has_bare_plain: "list_all (\<lambda>c. c \<noteq> CHR ''<'' \<and> c \<noteq> CHR ''>'') s \<Longrightarrow> has_bare False (s @ t) = has_bare False t"
  by (induction s) auto

lemma escaped_plain: "list_all (\<lambda>c. c \<noteq> CHR ''<'' \<and> c \<noteq> CHR ''>'') (concat (map escape_char s))"
  by (induction s) (auto simp: escape_char_def)

lemma has_bare_tag: "CHR ''>'' \<notin> set m \<Longrightarrow> has_bare True (m @ CHR ''>'' # t) = has_bare False t"
  by (induction m) auto

lemma has_bare_open_end: "CHR ''>'' \<notin> set m \<Longrightarrow> \<not> has_bare True m"
  by (induction m) auto

lemma find_next_tag_start_Some:
  "find_next_tag_start s = Some k \<Longrightarrow> \<exists>t. drop k s = CHR ''<'' # t \<and> opens_tag t"
  by (induction s arbitrary: k) (auto split: if_splits)

lemma find_char_split: "find_char c s = Some k \<Longrightarrow> \<exists>m t. s = m @ c # t \<and> c \<notin> set m \<and> length m = k"
proof (induction s arbitrary: k)
  case (Cons x xs)
  show ?case
  proof (cases "x = c")
    case True
    with Cons.prems show ?thesis by (intro exI [of _ "[]"] exI [of _ xs]) auto
  next
    case False
    with Cons.prems obtain j where j: "find_char c xs = Some j" "k = Suc j" by (auto split: option.splits)
    then obtain m t where "xs = m @ c # t" "c \<notin> set m" "length m = j" using Cons.IH by blast
    with False j show ?thesis by (intro exI [of _ "x # m"] exI [of _ t]) auto
  qed
qed simp

lemma find_char_NoneD: "find_char c s = None \<Longrightarrow> c \<notin> set s"
  by (simp add: find_char_None_iff)


lemma escape_from_eqs:
  "find_char (CHR ''>'') rest = None \<Longrightarrow> escape_from False rest = rest"
  "find_char (CHR ''>'') rest = Some k \<Longrightarrow>
     escape_from False rest = take (Suc k) rest @ escape_from True (drop (Suc k) rest)"
  "find_next_tag_start rest = None \<Longrightarrow> escape_from True rest = concat (map escape_char rest)"
  "find_next_tag_start rest = Some k \<Longrightarrow>
     escape_from True rest = concat (map escape_char (take k rest)) @ escape_from False (drop k rest)"
  by (subst escape_from.simps, cases rest, simp_all)+

lemma escape_from_clean:
  "if in_text then \<not> has_bare False (escape_from in_text rest)
   else (\<forall>t. rest = CHR ''<'' # t \<longrightarrow> opens_tag t \<longrightarrow> \<not> has_bare False (escape_from in_text rest))"
proof (induction in_text rest rule: escape_from.induct)
  case (1 in_text rest)
  show ?case
  proof (cases in_text)
    case True
    show ?thesis
    proof (cases "find_next_tag_start rest")
      case None
      then have "\<not> has_bare False (concat (map escape_char rest) @ [])"
        by (subst has_bare_plain [OF escaped_plain]) simp
      with escape_from_eqs(3) [OF None] True show ?thesis by simp
    next
      case (Some k)
      then obtain t where t: "drop k rest = CHR ''<'' # t" "opens_tag t" using find_next_tag_start_Some by blast
      then have ne: "rest \<noteq> []" by auto
      have "\<not> has_bare False (escape_from False (drop k rest))" using "1.IH"(1) [OF ne True Some] t by simp
      then show ?thesis
        by (simp add: True escape_from_eqs(4) [OF Some] has_bare_plain [OF escaped_plain])
    qed
  next
    case False
    have "\<not> has_bare False (escape_from False rest)" if r: "rest = CHR ''<'' # t" "opens_tag t" for t
    proof (cases "find_char (CHR ''>'') rest")
      case None
      then have "CHR ''>'' \<notin> set t" using r(1) find_char_NoneD by fastforce
      with escape_from_eqs(1) [OF None] r show ?thesis by (simp add: has_bare_open_end)
    next
      case (Some k)
      then obtain m u where m: "rest = m @ CHR ''>'' # u" "CHR ''>'' \<notin> set m" "length m = k"
        using find_char_split by blast
      then obtain m' where m': "m = CHR ''<'' # m'" using r(1) by (cases m) auto
      have op: "opens_tag (m' @ CHR ''>'' # escape_from True u)"
        using r m(1) m' by (cases m') (auto simp: opens_tag_def is_ascii_alphanumeric_def byte_def)
      have ih: "\<not> has_bare False (escape_from True u)"
        using "1.IH"(2) [OF _ False Some] m(1,3) r(1) by simp
      have eq: "escape_from False rest = m @ CHR ''>'' # escape_from True u"
        using escape_from_eqs(2) [OF Some] m by simp
      show ?thesis
        using op ih m(2) by (simp add: eq m' has_bare_tag)
    qed
    with False show ?thesis by simp
  qed
qed

lemma escape_plain_id: "list_all (\<lambda>c. c \<noteq> CHR ''<'' \<and> c \<noteq> CHR ''>'') s \<Longrightarrow> concat (map escape_char s) = s"
  by (induction s) (auto simp: escape_char_def)

lemma no_bare_text_prefix:
  "\<not> has_bare False s \<Longrightarrow> find_next_tag_start s = Some k \<Longrightarrow>
     list_all (\<lambda>c. c \<noteq> CHR ''<'' \<and> c \<noteq> CHR ''>'') (take k s) \<and> \<not> has_bare False (drop k s)"
  by (induction s arbitrary: k) (auto split: if_splits)

lemma no_bare_text_only:
  "\<not> has_bare False s \<Longrightarrow> find_next_tag_start s = None \<Longrightarrow> list_all (\<lambda>c. c \<noteq> CHR ''<'' \<and> c \<noteq> CHR ''>'') s"
  by (induction s) (auto split: if_splits)

lemma escape_from_id:
  "\<not> has_bare False rest \<Longrightarrow> (if in_text then True else \<exists>t. rest = CHR ''<'' # t) \<Longrightarrow> escape_from in_text rest = rest"
proof (induction in_text rest rule: escape_from.induct)
  case (1 in_text rest)
  show ?case
  proof (cases in_text)
    case True
    show ?thesis
    proof (cases "find_next_tag_start rest")
      case None
      with True 1(3) show ?thesis
        using no_bare_text_only [of rest] by (simp add: escape_from_eqs(3) escape_plain_id)
    next
      case (Some k)
      note pre = no_bare_text_prefix [OF 1(3) Some]
      obtain t where t: "drop k rest = CHR ''<'' # t" using find_next_tag_start_Some [OF Some] by blast
      then have ne: "rest \<noteq> []" by auto
      have "escape_from False (drop k rest) = drop k rest"
        using 1(1) [OF ne True Some] pre t by simp
      with pre show ?thesis by (simp add: True escape_from_eqs(4) [OF Some] escape_plain_id)
    qed
  next
    case False
    then obtain t where r: "rest = CHR ''<'' # t" using 1(4) by auto
    show ?thesis
    proof (cases "find_char (CHR ''>'') rest")
      case None
      with False escape_from_eqs(1) [OF None] show ?thesis by simp
    next
      case (Some k)
      then obtain m u where m: "rest = m @ CHR ''>'' # u" "CHR ''>'' \<notin> set m" "length m = k"
        using find_char_split by blast
      then obtain m' where m': "m = CHR ''<'' # m'" using r by (cases m) auto
      have "\<not> has_bare False u" using 1(3) m m' by (auto simp: has_bare_tag split: if_splits)
      then have "escape_from True u = u" using 1(2) [OF _ False Some] m r by simp
      with False show ?thesis using escape_from_eqs(2) [OF Some] m by simp
    qed
  qed
qed

text \<open>
  Escaping the text of a reply leaves no stray angle bracket between tags, for every text that does not begin
  with a bracket that opens no tag; and it changes nothing in a text that has none.
\<close>

theorem escaping_repairs_text:
  assumes "starts_with ''<'' xml \<longrightarrow> opens_tag (tl xml)"
  shows "\<not> has_bare_angle_brackets_in_text (escape_text_angle_brackets xml)
    \<and> (\<not> has_bare_angle_brackets_in_text xml \<longrightarrow> escape_text_angle_brackets xml = xml)"
proof -
  have st: "starts_with ''<'' xml \<longleftrightarrow> (\<exists>t. xml = CHR ''<'' # t)" by (auto simp: starts_with_def prefix_def)
  have "\<not> has_bare False (escape_from (\<not> starts_with ''<'' xml) xml)"
    using escape_from_clean [of "\<not> starts_with ''<'' xml" xml] assms st by (cases "starts_with ''<'' xml") auto
  moreover have "escape_from (\<not> starts_with ''<'' xml) xml = xml" if "\<not> has_bare False xml"
    using escape_from_id [OF that, of "\<not> starts_with ''<'' xml"] st by (cases "starts_with ''<'' xml") auto
  ultimately show ?thesis by (simp add: has_bare_angle_brackets_in_text_def escape_text_angle_brackets_def)
qed

theorem escaping_repairs_text_witness:
  "has_bare_angle_brackets_in_text ''<d><</d>'' \<and> \<not> has_bare_angle_brackets_in_text (escape_text_angle_brackets ''<d><</d>'')"
proof -
  have "opens_tag ''d><</d>''" by code_simp
  moreover have "has_bare_angle_brackets_in_text ''<d><</d>''" by code_simp
  ultimately show ?thesis using escaping_repairs_text [of "''<d><</d>''"] by simp
qed

text \<open>
  Stripping the \<^verbatim>\<open>junos:\<close> attributes is not confined to tags: in element text the prefix takes
  everything up to the end of the next attribute value with it, closing tags included, and when no equals sign
  follows, the rest of the reply.
\<close>

lemma stripping_step:
  "str_find JUNOS s = Some k \<Longrightarrow>
     simple_strip_junos s = take k s @ simple_strip_junos (trim_start_spaces (drop (find_attr_end (drop k s)) (drop k s)))"
  by (subst simple_strip_junos.simps) (simp add: Let_def)

lemma find_attr_end_all: "CHR ''='' \<notin> set s \<Longrightarrow> find_attr_end s = length s"
proof -
  assume "CHR ''='' \<notin> set s"
  then have "takeWhile (\<lambda>c. c \<noteq> CHR ''='') s = s" by (auto simp: takeWhile_eq_all_conv)
  then have "length (takeWhile (\<lambda>c. c \<noteq> CHR ''='') s) = length s" by (rule arg_cong)
  then show ?thesis unfolding find_attr_end_def Let_def by (simp only: order_refl if_True)
qed

lemma stripping_eats_text:
  assumes "CHR ''='' \<notin> set t"
  shows "simple_strip_junos (''<d>junos:'' @ t) = ''<d>''"
proof -
  have f: "str_find JUNOS (''<d>junos:'' @ t) = Some 3" by (simp add: JUNOS_def numeral_3_eq_3)
  have d: "drop 3 (''<d>junos:'' @ t) = ''junos:'' @ t" "take 3 (''<d>junos:'' @ t) = ''<d>''" by simp_all
  have e: "find_attr_end (''junos:'' @ t) = length (''junos:'' @ t)" by (rule find_attr_end_all) (simp add: assms)
  have n: "simple_strip_junos [] = []" by (subst simple_strip_junos.simps) (simp add: JUNOS_def)
  show ?thesis unfolding stripping_step [OF f] d e by (simp add: trim_start_spaces_def n)
qed

end
