(* ===== verification/Sig_Confirm.thy ===== *)
theory Sig_Confirm
  imports Srx_Base
begin

text \<open>
  \<^verbatim>\<open>signature_package/confirmation.rs\<close>: the artifacts that authorise a destructive plan. The store maps
  digests of issued tokens to what they were issued for. Every operation holds the store's mutex for its whole
  body, so it is one step; the time it reads and the random bytes it draws are arguments. The digest, the base64
  encoding, the JSON printer and the clock arithmetic are parameters.
\<close>

section \<open>Data\<close>

record confirmation_binding =
  bd_caller :: string
  bd_router :: string
  bd_device_identity :: string

definition new_binding :: "string option \<Rightarrow> string \<Rightarrow> string \<Rightarrow> confirmation_binding" where
  "new_binding caller router identity =
     \<lparr>bd_caller = (case caller of None \<Rightarrow> ''unauthenticated'' | Some c \<Rightarrow> c), bd_router = router,
      bd_device_identity = identity\<rparr>"

datatype confirmation_error = Capacity | Invalid | Expired | BindingMismatch | PlanDrift

record pending_confirmation =
  pc_binding :: confirmation_binding
  pc_plan_digest :: string
  pc_correlation_id :: string
  pc_expires_at :: nat

record confirmation_store =
  st_entries :: "(string \<times> pending_confirmation) list"
  st_ttl :: nat
  st_capacity :: nat

definition DEFAULT_TTL :: nat where "DEFAULT_TTL = 5 * 60 * 1000"
definition DEFAULT_CAPACITY :: nat where "DEFAULT_CAPACITY = 4096"

definition new_store :: "nat \<Rightarrow> nat \<Rightarrow> confirmation_store" where
  "new_store ttl cap = \<lparr>st_entries = [], st_ttl = ttl, st_capacity = cap\<rparr>"

definition default_store :: confirmation_store where
  "default_store = new_store DEFAULT_TTL DEFAULT_CAPACITY"

text \<open>
  The parameters. The clock addition can overflow, and the wall-clock expiry may have no RFC 3339 form.
\<close>

record conf_lib =
  cl_digest :: "string \<Rightarrow> string"
  cl_json :: "json \<Rightarrow> string"
  cl_base64 :: "string \<Rightarrow> string"
  cl_checked_add :: "nat \<Rightarrow> nat \<Rightarrow> nat option"
  cl_wall_expiry :: "nat \<Rightarrow> string option"

section \<open>Operations\<close>

definition confirmation_token_for_request :: "bool \<Rightarrow> string option \<Rightarrow> string \<Rightarrow> string option sres" where
  "confirmation_token_for_request confirm token router =
     (case (confirm, Option.bind (map_option str_trim token) (\<lambda>v. if v = [] then None else Some v)) of
        (False, None) \<Rightarrow> Inr None
      | (False, Some _) \<Rightarrow> Inl (InvalidInput ''confirmation_token requires confirm=true'')
      | (True, None) \<Rightarrow> Inl (SignaturePackageConfirmationTokenRequired router)
      | (True, Some t) \<Rightarrow> Inr (Some t))"

definition digest_plan :: "conf_lib \<Rightarrow> json \<Rightarrow> string" where
  "digest_plan L plan = cl_digest L (cl_json L plan)"

text \<open>
  The loop that draws until the digest is new: \<open>draws\<close> are the bytes the generator gives, and \<open>None\<close>
  means that it is still drawing when they are used up.
\<close>

fun draw_token :: "conf_lib \<Rightarrow> (string \<times> pending_confirmation) list \<Rightarrow> string list \<Rightarrow> (string \<times> string) option" where
  "draw_token L entries [] = None"
| "draw_token L entries (bytes # draws) =
     (let token = cl_base64 L bytes; digest = cl_digest L token in
      if map_of entries digest = None then Some (token, digest) else draw_token L entries draws)"

definition obj_set :: "string \<Rightarrow> json \<Rightarrow> (string \<times> json) list \<Rightarrow> (string \<times> json) list" where
  "obj_set k v obj =
     (if map_of obj k = None then obj @ [(k, v)] else map (\<lambda>(k', x). if k' = k then (k', v) else (k', x)) obj)"

definition unexpired :: "nat \<Rightarrow> (string \<times> pending_confirmation) list \<Rightarrow> (string \<times> pending_confirmation) list" where
  "unexpired t entries = filter (\<lambda>(_, p). pc_expires_at p > t) entries"

definition issue ::
    "conf_lib \<Rightarrow> nat \<Rightarrow> string list \<Rightarrow> json \<Rightarrow> confirmation_binding \<Rightarrow> string \<Rightarrow> confirmation_store
      \<Rightarrow> ((confirmation_error + json) \<times> confirmation_store) option" where
  "issue L t draws plan binding correlation_id st =
     (case plan of
        JObj obj \<Rightarrow>
          (case (cl_checked_add L t (st_ttl st), cl_wall_expiry L (st_ttl st)) of
             (Some expires_at, Some expiry) \<Rightarrow>
               (let plan_digest = digest_plan L plan;
                    st1 = st\<lparr>st_entries := unexpired t (st_entries st)\<rparr>
                in if st_capacity st \<le> length (st_entries st1) then Some (Inl Capacity, st1)
                   else
                     (case draw_token L (st_entries st1) draws of
                        None \<Rightarrow> None
                      | Some (token, token_digest) \<Rightarrow>
                          Some (Inr (JObj (obj_set ''correlation_id'' (JStr correlation_id)
                                  (obj_set ''confirmation_expires_at'' (JStr expiry)
                                  (obj_set ''confirmation_token'' (JStr token) obj)))),
                                st1\<lparr>st_entries := (token_digest, \<lparr>pc_binding = binding, pc_plan_digest = plan_digest,
                                   pc_correlation_id = correlation_id, pc_expires_at = expires_at\<rparr>) # st_entries st1\<rparr>)))
           | _ \<Rightarrow> Some (Inl Invalid, st))
      | _ \<Rightarrow> Some (Inl Invalid, st))"

definition remove_entry :: "string \<Rightarrow> confirmation_store \<Rightarrow> confirmation_store" where
  "remove_entry d st = st\<lparr>st_entries := filter (\<lambda>(k, _). k \<noteq> d) (st_entries st)\<rparr>"

definition validate_binding ::
    "conf_lib \<Rightarrow> nat \<Rightarrow> string \<Rightarrow> confirmation_binding \<Rightarrow> confirmation_store
      \<Rightarrow> (confirmation_error + string) \<times> confirmation_store" where
  "validate_binding L t token binding st =
     (let token_digest = cl_digest L token in
      case map_of (st_entries st) token_digest of
        None \<Rightarrow> (Inl Invalid, st)
      | Some pending \<Rightarrow>
          if pc_expires_at pending \<le> t then (Inl Expired, remove_entry token_digest st)
          else if pc_binding pending \<noteq> binding then (Inl BindingMismatch, st)
          else (Inr (pc_correlation_id pending), st))"

definition consume ::
    "conf_lib \<Rightarrow> nat \<Rightarrow> string \<Rightarrow> confirmation_binding \<Rightarrow> json \<Rightarrow> confirmation_store
      \<Rightarrow> (confirmation_error + string) \<times> confirmation_store" where
  "consume L t token binding current_plan st =
     (let token_digest = cl_digest L token in
      case map_of (st_entries st) token_digest of
        None \<Rightarrow> (Inl Invalid, st)
      | Some pending \<Rightarrow>
          if pc_expires_at pending \<le> t then (Inl Expired, remove_entry token_digest st)
          else if pc_binding pending \<noteq> binding then (Inl BindingMismatch, st)
          else if pc_plan_digest pending \<noteq> digest_plan L current_plan
          then (Inl PlanDrift, remove_entry token_digest st)
          else (Inr (pc_correlation_id pending), remove_entry token_digest st))"

definition into_srx_error :: "string \<Rightarrow> confirmation_error \<Rightarrow> srx_error" where
  "into_srx_error router e =
     (case e of
        Capacity \<Rightarrow> SignaturePackageConfirmationCapacityExceeded router
      | PlanDrift \<Rightarrow> SignaturePackageConfirmationPlanDrift router
      | Expired \<Rightarrow> SignaturePackageConfirmationTokenInvalid router ''confirmation token expired; request a new preview''
      | BindingMismatch \<Rightarrow>
          SignaturePackageConfirmationTokenInvalid router
            ''confirmation token does not belong to this caller, router, or device''
      | Invalid \<Rightarrow>
          SignaturePackageConfirmationTokenInvalid router ''confirmation token is invalid or has already been used'')"

section \<open>Histories of the store\<close>

text \<open>
  What happened to the store, in order: tokens issued with what they authorise and until when, and tokens
  consumed with what was executed and when. Any number of callers may use the store in any order.
\<close>

datatype conf_event =
    Issued string confirmation_binding string nat
  | Consumed string confirmation_binding string nat

inductive conf_step ::
    "conf_lib \<Rightarrow> nat \<times> confirmation_store \<times> conf_event list \<Rightarrow> nat \<times> confirmation_store \<times> conf_event list \<Rightarrow> bool"
  for L where
  time_passes: "t \<le> t' \<Longrightarrow> conf_step L (t, st, h) (t', st, h)"
| token_issued:
    "issue L t draws plan b cid st = Some (Inr j, st') \<Longrightarrow> draw_token L (unexpired t (st_entries st)) draws = Some (tok, d) \<Longrightarrow>
     cl_checked_add L t (st_ttl st) = Some e \<Longrightarrow>
     conf_step L (t, st, h) (t, st', h @ [Issued d b (digest_plan L plan) e])"
| issue_refused: "issue L t draws plan b cid st = Some (Inl er, st') \<Longrightarrow> conf_step L (t, st, h) (t, st', h)"
| binding_checked: "validate_binding L t tok b st = (r, st') \<Longrightarrow> conf_step L (t, st, h) (t, st', h)"
| token_consumed:
    "consume L t tok b plan st = (Inr cid, st') \<Longrightarrow>
     conf_step L (t, st, h) (t, st', h @ [Consumed (cl_digest L tok) b (digest_plan L plan) t])"
| consume_refused: "consume L t tok b plan st = (Inl er, st') \<Longrightarrow> conf_step L (t, st, h) (t, st', h)"

inductive_cases conf_stepE: "conf_step L s s'"

fun issues_digest :: "string \<Rightarrow> conf_event \<Rightarrow> bool" where
  "issues_digest d (Issued d' _ _ _) = (d' = d)"
| "issues_digest d (Consumed _ _ _ _) = False"

fun consumes_digest :: "string \<Rightarrow> conf_event \<Rightarrow> bool" where
  "consumes_digest d (Issued _ _ _ _) = False"
| "consumes_digest d (Consumed d' _ _ _) = (d' = d)"

definition n_issued :: "string \<Rightarrow> conf_event list \<Rightarrow> nat" where
  "n_issued d h = length (filter (issues_digest d) h)"

definition n_consumed :: "string \<Rightarrow> conf_event list \<Rightarrow> nat" where
  "n_consumed d h = length (filter (consumes_digest d) h)"

definition justified :: "conf_event list \<Rightarrow> bool" where
  "justified h \<longleftrightarrow>
     (\<forall>i < length h. \<forall>d b pd t. h ! i = Consumed d b pd t \<longrightarrow> (\<exists>j < i. \<exists>e. h ! j = Issued d b pd e \<and> t < e))"

definition conf_inv :: "nat \<times> confirmation_store \<times> conf_event list \<Rightarrow> bool" where
  "conf_inv = (\<lambda>(t, st, h).
     distinct (map fst (st_entries st)) \<and> length (st_entries st) \<le> st_capacity st
     \<and> (\<forall>(d, p)\<in>set (st_entries st). Issued d (pc_binding p) (pc_plan_digest p) (pc_expires_at p) \<in> set h)
     \<and> (\<forall>d. n_consumed d h + (if d \<in> fst ` set (st_entries st) then 1 else 0) \<le> n_issued d h)
     \<and> justified h)"

lemma n_events_simps [simp]:
  "n_issued d [] = 0" "n_consumed d [] = 0"
  "n_issued d (h @ [e]) = n_issued d h + (if issues_digest d e then 1 else 0)"
  "n_consumed d (h @ [e]) = n_consumed d h + (if consumes_digest d e then 1 else 0)"
  by (simp_all add: n_issued_def n_consumed_def)

lemma justified_Issued: "justified h \<Longrightarrow> justified (h @ [Issued d b pd e])"
  unfolding justified_def by (auto simp: nth_append less_Suc_eq) (metis less_trans)

lemma justified_Consumed:
  assumes "justified h" "Issued d b pd e \<in> set h" "t < e"
  shows "justified (h @ [Consumed d b pd t])"
proof -
  obtain j where "j < length h" "h ! j = Issued d b pd e" using assms(2) by (auto simp: in_set_conv_nth)
  with assms(1,3) show ?thesis unfolding justified_def
    by (auto simp: nth_append less_Suc_eq) (metis less_trans)+
qed

text \<open>Entries can only leave the store without being consumed: what is left is still accounted for.\<close>

lemma conf_inv_shrink:
  assumes "conf_inv (t, st, h)" "set es \<subseteq> set (st_entries st)" "distinct (map fst es)" "length es \<le> length (st_entries st)"
  shows "conf_inv (t', st\<lparr>st_entries := es\<rparr>, h)"
proof -
  have "n_consumed d h + (if d \<in> fst ` set es then 1 else 0) \<le> n_issued d h" for d
  proof -
    have "n_consumed d h + (if d \<in> fst ` set (st_entries st) then 1 else 0) \<le> n_issued d h"
      using assms(1) by (simp add: conf_inv_def)
    moreover have "d \<in> fst ` set es \<Longrightarrow> d \<in> fst ` set (st_entries st)" using assms(2) by blast
    ultimately show ?thesis by (auto split: if_splits)
  qed
  then show ?thesis using assms by (fastforce simp: conf_inv_def)
qed

lemma distinct_fst_filter: "distinct (map fst es) \<Longrightarrow> distinct (map fst (filter P es))"
  by (induction es) auto

lemma conf_inv_filter:
  assumes "conf_inv (t, st, h)"
  shows "conf_inv (t', st\<lparr>st_entries := filter P (st_entries st)\<rparr>, h)"
proof -
  have "distinct (map fst (st_entries st))" using assms by (simp add: conf_inv_def)
  then show ?thesis by (intro conf_inv_shrink [OF assms] distinct_fst_filter) auto
qed

lemma conf_inv_remove: "conf_inv (t, st, h) \<Longrightarrow> conf_inv (t', remove_entry d st, h)"
  by (simp add: remove_entry_def conf_inv_filter)

lemma conf_inv_time: "conf_inv (t, st, h) \<Longrightarrow> conf_inv (t', st, h)"
  by (simp add: conf_inv_def)

lemma draw_token_new: "draw_token L es draws = Some (tok, d) \<Longrightarrow> map_of es d = None \<and> d = cl_digest L tok"
  by (induction L es draws rule: draw_token.induct) (auto simp: Let_def split: if_splits)

text \<open>What a successful issue has stored.\<close>

lemma issue_Inr:
  assumes "issue L t draws plan b cid st = Some (Inr j, st')"
  obtains tok d e where "draw_token L (unexpired t (st_entries st)) draws = Some (tok, d)"
    "cl_checked_add L t (st_ttl st) = Some e" "length (unexpired t (st_entries st)) < st_capacity st"
    "st' = st\<lparr>st_entries := (d, \<lparr>pc_binding = b, pc_plan_digest = digest_plan L plan, pc_correlation_id = cid,
       pc_expires_at = e\<rparr>) # unexpired t (st_entries st)\<rparr>"
  using assms by (auto simp: issue_def Let_def split: json.splits option.splits if_splits)

lemma issue_Inl:
  "issue L t draws plan b cid st = Some (Inl er, st') \<Longrightarrow> st' = st \<or> st' = st\<lparr>st_entries := unexpired t (st_entries st)\<rparr>"
  by (auto simp: issue_def Let_def split: json.splits option.splits if_splits)

lemma consume_Inr_iff:
  "consume L t tok b plan st = (Inr cid, st') \<longleftrightarrow>
     (\<exists>p. map_of (st_entries st) (cl_digest L tok) = Some p \<and> t < pc_expires_at p \<and> pc_binding p = b
        \<and> pc_plan_digest p = digest_plan L plan \<and> cid = pc_correlation_id p \<and> st' = remove_entry (cl_digest L tok) st)"
  by (auto simp: consume_def Let_def split: option.splits if_splits)

lemma consume_Inl:
  "consume L t tok b plan st = (Inl er, st') \<Longrightarrow> st' = st \<or> st' = remove_entry (cl_digest L tok) st"
  by (auto simp: consume_def Let_def split: option.splits if_splits)

lemma validate_binding_store:
  "validate_binding L t tok b st = (r, st') \<Longrightarrow> st' = st \<or> st' = remove_entry (cl_digest L tok) st"
  by (auto simp: validate_binding_def Let_def split: option.splits if_splits)

lemma conf_inv_issue:
  assumes inv: "conf_inv (t, st, h)" and new: "map_of (unexpired t (st_entries st)) d = None"
    and cap: "length (unexpired t (st_entries st)) < st_capacity st"
  shows "conf_inv (t, st\<lparr>st_entries := (d, \<lparr>pc_binding = b, pc_plan_digest = pd, pc_correlation_id = cid,
       pc_expires_at = e\<rparr>) # unexpired t (st_entries st)\<rparr>, h @ [Issued d b pd e])"
proof -
  let ?es = "unexpired t (st_entries st)"
  have u: "conf_inv (t, st\<lparr>st_entries := ?es\<rparr>, h)" unfolding unexpired_def by (rule conf_inv_filter [OF inv])
  have d: "d \<notin> fst ` set ?es" using new by (simp add: map_of_eq_None_iff)
  have "n_consumed x h + (if x \<in> fst ` set ((d, p) # ?es) then 1 else 0) \<le> n_issued x (h @ [Issued d b pd e])" for x p
    using u d by (cases "x = d") (auto simp: conf_inv_def dest: spec [of _ x])
  then show ?thesis using u d cap justified_Issued by (auto simp: conf_inv_def)
qed

lemma conf_inv_consume:
  assumes inv: "conf_inv (t, st, h)" and p: "map_of (st_entries st) d = Some p" "t < pc_expires_at p"
  shows "conf_inv (t, remove_entry d st, h @ [Consumed d (pc_binding p) (pc_plan_digest p) t])"
proof -
  have r: "conf_inv (t, remove_entry d st, h)" by (rule conf_inv_remove [OF inv])
  have "(d, p) \<in> set (st_entries st)" using p(1) by (rule map_of_SomeD)
  then have iss: "Issued d (pc_binding p) (pc_plan_digest p) (pc_expires_at p) \<in> set h" and d: "d \<in> fst ` set (st_entries st)"
    using inv by (auto simp: conf_inv_def image_iff) force
  have "n_consumed d h + (if d \<in> fst ` set (st_entries st) then 1 else 0) \<le> n_issued d h"
    using inv by (simp add: conf_inv_def)
  then have "n_consumed d h + 1 \<le> n_issued d h" using d by simp
  moreover have "d \<notin> fst ` set (st_entries (remove_entry d st))" by (auto simp: remove_entry_def)
  moreover have "n_consumed x h + (if x \<in> fst ` set (st_entries (remove_entry d st)) then 1 else 0) \<le> n_issued x h" for x
    using r by (simp add: conf_inv_def)
  ultimately have "n_consumed x (h @ [Consumed d b pd t]) + (if x \<in> fst ` set (st_entries (remove_entry d st)) then 1 else 0)
      \<le> n_issued x (h @ [Consumed d b pd t])" for x b pd
    by (cases "x = d") simp_all
  then show ?thesis
    using r justified_Consumed [OF _ iss p(2)] unfolding conf_inv_def by (simp add: case_prod_beta)
qed

lemma conf_step_inv: "conf_step L s s' \<Longrightarrow> conf_inv s \<Longrightarrow> conf_inv s'"
proof (induction rule: conf_step.induct)
  case time_passes
  then show ?case by (blast intro: conf_inv_time)
next
  case (token_issued t draws plan b cid st j st' tok d e h)
  from token_issued(1) show ?case
  proof (rule issue_Inr, goal_cases)
    case (1 tok' d' e')
    then have "d' = d" "e' = e" using token_issued by simp_all
    with 1 draw_token_new [OF 1(1)] token_issued(4) show ?case by (auto intro: conf_inv_issue)
  qed
next
  case (issue_refused t draws plan b cid st er st' h)
  then show ?case using issue_Inl [OF issue_refused(1)] by (auto simp: unexpired_def intro: conf_inv_filter)
next
  case (binding_checked t tok b st r st' h)
  then show ?case using validate_binding_store [OF binding_checked(1)] by (auto intro: conf_inv_remove)
next
  case (token_consumed t tok b plan st cid st' h)
  then obtain p where "map_of (st_entries st) (cl_digest L tok) = Some p" "t < pc_expires_at p" "pc_binding p = b"
    "pc_plan_digest p = digest_plan L plan" "st' = remove_entry (cl_digest L tok) st"
    by (auto simp: consume_Inr_iff)
  with conf_inv_consume [OF token_consumed(2) this(1,2)] show ?case by simp
next
  case (consume_refused t tok b plan st er st' h)
  then show ?case using consume_Inl [OF consume_refused(1)] by (auto intro: conf_inv_remove)
qed

lemma conf_inv_new: "conf_inv (t, new_store ttl cap, [])"
  by (simp add: conf_inv_def new_store_def justified_def)

lemma conf_reachable_inv:
  "rtranclp (conf_step L) (0, new_store ttl cap, []) s \<Longrightarrow> conf_inv s"
  by (induction rule: rtranclp_induct) (auto intro: conf_step_inv conf_inv_new)

section \<open>Properties\<close>

text \<open>
  C8. In every history of the store, whoever uses it and however the calls interleave: a token is consumed at most
  as often as it was issued, so once; every execution has an earlier issue of the same token to the same caller,
  router and device, for a plan with the same digest, and happens before the token expires; and the store never
  holds more than its capacity.
\<close>

theorem confirmations_are_used_once:
  assumes "rtranclp (conf_step L) (0, new_store ttl cap, []) (t, st, h)"
  shows "n_consumed d h \<le> n_issued d h \<and> justified h \<and> length (st_entries st) \<le> st_capacity st"
  using conf_reachable_inv [OF assms] by (auto simp: conf_inv_def dest: spec [of _ d])

definition lab_cl :: conf_lib where
  "lab_cl = \<lparr>cl_digest = id, cl_json = \<lambda>_. ''p'', cl_base64 = id, cl_checked_add = \<lambda>a b. Some (a + b),
     cl_wall_expiry = \<lambda>_. Some ''later''\<rparr>"

definition lab_binding :: confirmation_binding where
  "lab_binding = new_binding (Some ''ops'') ''srx1'' ''id1''"

definition lab_pending :: pending_confirmation where
  "lab_pending = \<lparr>pc_binding = lab_binding, pc_plan_digest = ''p'', pc_correlation_id = ''c1'', pc_expires_at = 10\<rparr>"

lemma lab_issue:
  "issue lab_cl 0 [''tok''] (JObj []) lab_binding ''c1'' (new_store 10 1) =
     Some (Inr (JObj [(''confirmation_token'', JStr ''tok''), (''confirmation_expires_at'', JStr ''later''),
        (''correlation_id'', JStr ''c1'')]), (new_store 10 1)\<lparr>st_entries := [(''tok'', lab_pending)]\<rparr>)"
  by (simp add: issue_def lab_cl_def new_store_def unexpired_def digest_plan_def obj_set_def lab_pending_def Let_def)

lemma lab_consume:
  "consume lab_cl 5 ''tok'' lab_binding (JObj []) ((new_store 10 1)\<lparr>st_entries := [(''tok'', lab_pending)]\<rparr>)
     = (Inr ''c1'', new_store 10 1)"
  by (simp add: consume_def lab_cl_def lab_pending_def digest_plan_def remove_entry_def new_store_def Let_def)

theorem confirmations_are_used_once_witness:
  "\<exists>h. n_consumed ''tok'' h = 1 \<and> n_issued ''tok'' h = 1 \<and> justified h"
proof -
  let ?st = "(new_store 10 1)\<lparr>st_entries := [(''tok'', lab_pending)]\<rparr>"
  let ?h = "[Issued ''tok'' lab_binding ''p'' 10, Consumed ''tok'' lab_binding ''p'' 5]"
  have dp: "digest_plan lab_cl plan = ''p''" for plan by (simp add: digest_plan_def lab_cl_def)
  have dg: "cl_digest lab_cl x = x" for x by (simp add: lab_cl_def)
  have 1: "conf_step lab_cl (0, new_store 10 1, []) (0, ?st, [Issued ''tok'' lab_binding ''p'' 10])"
    using token_issued [OF lab_issue, of "''tok''" "''tok''" 10 "[]"]
    by (simp add: dp dg) (simp add: lab_cl_def new_store_def unexpired_def Let_def)
  have 2: "conf_step lab_cl (0, ?st, [Issued ''tok'' lab_binding ''p'' 10]) (5, ?st, [Issued ''tok'' lab_binding ''p'' 10])"
    by (rule time_passes) simp
  have 3: "conf_step lab_cl (5, ?st, [Issued ''tok'' lab_binding ''p'' 10]) (5, new_store 10 1, ?h)"
    using token_consumed [OF lab_consume, of "[Issued ''tok'' lab_binding ''p'' 10]"] by (simp add: dp dg)
  have "rtranclp (conf_step lab_cl) (0, new_store 10 1, []) (5, new_store 10 1, ?h)"
    by (rule converse_rtranclp_into_rtranclp [of "conf_step lab_cl", OF 1],
        rule converse_rtranclp_into_rtranclp [of "conf_step lab_cl", OF 2],
        rule r_into_rtranclp [of "conf_step lab_cl", OF 3])
  from confirmations_are_used_once [OF this, of "''tok''"] show ?thesis
    by (intro exI [of _ ?h]) (simp add: n_issued_def n_consumed_def)
qed

text \<open>
  A second use of a token is refused as invalid at any later time, whatever plan and binding come with it, as
  long as the same token has not been issued again.
\<close>

theorem consumed_token_is_dead:
  assumes "consume L t tok b plan st = (Inr cid, st')"
  shows "consume L t' tok b' plan' st' = (Inl Invalid, st')"
proof -
  have "map_of (st_entries st') (cl_digest L tok) = None"
    using assms by (auto simp: consume_Inr_iff remove_entry_def map_of_eq_None_iff)
  then show ?thesis by (simp add: consume_def)
qed

theorem consumed_token_is_dead_witness:
  "fst (consume lab_cl 6 ''tok'' lab_binding (JObj []) (new_store 10 1)) = Inl Invalid"
  using consumed_token_is_dead [OF lab_consume, of 6] by simp

end
