(* ===== verification/Srx_Device.thy ===== *)
theory Srx_Device
  imports Srx_Xml Sig_Confirm
begin

text \<open>
  Running an SRX workflow on a device: the state a call works on, sending a request, leases, audit lines, and the
  poll loop of the signature-package workflows. The device and the lease manager are parameters.
\<close>

section \<open>State and effects\<close>

text \<open>A request by name, by name with arguments, or as XML.\<close>

datatype srx_request = RpcCall string | RpcArgs string "(string \<times> string) list" | RpcXml string

text \<open>
  What a call does, in order: requests sent, leases taken and given back, confirmations used up, the warning that a
  commit-confirmed window is open, and audit lines (who does what where; the phase; the current and the target
  version; the code and the text of an error).
\<close>

record audit_ctx =
  ax_tool :: string
  ax_router :: string
  ax_action :: string
  ax_service :: string
  ax_caller :: string
  ax_correlation :: string

datatype srx_event =
    Sent srx_request
  | LeaseTaken string
  | LeaseDropped string
  | PlanConfirmed string
  | CommitWindowOpen string
  | AuditLine audit_ctx string string string "(string \<times> string) option"

text \<open>
  The NETCONF library answers every request in bounded time, if only with the time-out it was configured with;
  an answer comes with the milliseconds it took.
\<close>

record 'w srx_device =
  sd_rpc :: "'w \<Rightarrow> rustez_error + unit"
  sd_call :: "srx_request \<Rightarrow> 'w \<Rightarrow> (rustez_error + string) \<times> nat \<times> 'w"
  sd_acquire :: "string \<Rightarrow> string \<Rightarrow> string \<Rightarrow> 'w \<Rightarrow> (jmcp_error + unit) \<times> nat \<times> 'w"
  sd_release :: "string \<Rightarrow> 'w \<Rightarrow> 'w"

record 'w srx_run =
  sx_now :: nat
  sx_world :: 'w
  sx_store :: confirmation_store
  sx_draws :: "string list"
  sx_log :: "srx_event list"

text \<open>A workflow step: nothing for a call that never returns, else an error or a value, and the state after it.\<close>

type_synonym ('a, 'w) srx_m = "'w srx_run \<Rightarrow> ('a sres \<times> 'w srx_run) option"

definition sx_ret :: "'a sres \<Rightarrow> ('a, 'w) srx_m" where
  "sx_ret r s = Some (r, s)"

definition sx_bind :: "('a, 'w) srx_m \<Rightarrow> ('a \<Rightarrow> ('b, 'w) srx_m) \<Rightarrow> ('b, 'w) srx_m" where
  "sx_bind m f s =
     (case m s of
        None \<Rightarrow> None
      | Some (Inl e, s') \<Rightarrow> Some (Inl e, s')
      | Some (Inr a, s') \<Rightarrow> f a s')"

definition emit :: "srx_event \<Rightarrow> 'w srx_run \<Rightarrow> 'w srx_run" where
  "emit ev s = s\<lparr>sx_log := sx_log s @ [ev]\<rparr>"

definition open_rpc :: "'w srx_device \<Rightarrow> (unit, 'w) srx_m" where
  "open_rpc D s = Some (map_err (\<lambda>e. Transport (Rustez e)) (sd_rpc D (sx_world s)), s)"

definition send :: "'w srx_device \<Rightarrow> srx_request \<Rightarrow> 'w srx_run \<Rightarrow> string sres \<times> 'w srx_run" where
  "send D req s =
     (let (r, ms, w) = sd_call D req (sx_world s)
      in (map_err (\<lambda>e. Transport (Rustez e)) r, emit (Sent req) (s\<lparr>sx_now := sx_now s + ms, sx_world := w\<rparr>)))"

definition call :: "'w srx_device \<Rightarrow> srx_request \<Rightarrow> (string, 'w) srx_m" where
  "call D req s = Some (send D req s)"

text \<open>Obtaining the executor and sending one request.\<close>

definition rpc_call :: "'w srx_device \<Rightarrow> srx_request \<Rightarrow> (string, 'w) srx_m" where
  "rpc_call D req = sx_bind (open_rpc D) (\<lambda>_. call D req)"

definition acquire :: "'w srx_device \<Rightarrow> string \<Rightarrow> string \<Rightarrow> string \<Rightarrow> (unit, 'w) srx_m" where
  "acquire D router operation correlation s =
     (let (r, ms, w) = sd_acquire D router operation correlation (sx_world s);
          s' = s\<lparr>sx_now := sx_now s + ms, sx_world := w\<rparr>
      in case r of
           Inl e \<Rightarrow> Some (Inl (Transport e), s')
         | Inr _ \<Rightarrow> Some (Inr (), emit (LeaseTaken router) s'))"

text \<open>The lease is held until the end of the scope, however the body ends.\<close>

definition with_lease :: "'w srx_device \<Rightarrow> string \<Rightarrow> string \<Rightarrow> string \<Rightarrow> ('a, 'w) srx_m \<Rightarrow> ('a, 'w) srx_m" where
  "with_lease D router operation correlation body =
     sx_bind (acquire D router operation correlation) (\<lambda>_ s.
       case body s of
         None \<Rightarrow> None
       | Some (r, s') \<Rightarrow>
           Some (r, emit (LeaseDropped router) (s'\<lparr>sx_world := sd_release D router (sx_world s')\<rparr>)))"

definition sleep_ms :: "nat \<Rightarrow> 'w srx_run \<Rightarrow> 'w srx_run" where
  "sleep_ms ms s = s\<lparr>sx_now := sx_now s + ms\<rparr>"

text \<open>One audit line; on a failure it carries the bracketed code of the error and its text.\<close>

definition audit_phase ::
    "(json \<Rightarrow> string) \<Rightarrow> audit_ctx \<Rightarrow> string \<Rightarrow> string \<Rightarrow> string \<Rightarrow> srx_error option \<Rightarrow> 'w srx_run \<Rightarrow> 'w srx_run" where
  "audit_phase pj ctx phase current target failure s =
     emit (AuditLine ctx phase current target
       (map_option (\<lambda>e. (error_code (srx_error_to_string pj e), srx_error_to_string pj e)) failure)) s"

definition put_audit ::
    "(json \<Rightarrow> string) \<Rightarrow> audit_ctx \<Rightarrow> string \<Rightarrow> string \<Rightarrow> string \<Rightarrow> (unit, 'w) srx_m" where
  "put_audit pj ctx phase current target s = Some (Inr (), audit_phase pj ctx phase current target None s)"

text \<open>An error of the step is put on record before it is returned.\<close>

definition audit_failure ::
    "(json \<Rightarrow> string) \<Rightarrow> audit_ctx \<Rightarrow> string \<Rightarrow> string \<Rightarrow> ('a, 'w) srx_m \<Rightarrow> ('a, 'w) srx_m" where
  "audit_failure pj ctx current target m s =
     (case m s of
        Some (Inl e, s') \<Rightarrow> Some (Inl e, audit_phase pj ctx ''failed'' current target (Some e) s')
      | other \<Rightarrow> other)"

section \<open>The store of confirmations\<close>

definition issue_plan ::
    "conf_lib \<Rightarrow> json \<Rightarrow> confirmation_binding \<Rightarrow> string \<Rightarrow> (json, 'w) srx_m" where
  "issue_plan L plan binding correlation s =
     (case issue L (sx_now s) (sx_draws s) plan binding correlation (sx_store s) of
        None \<Rightarrow> None
      | Some (r, st) \<Rightarrow> Some (map_err (into_srx_error (bd_router binding)) r, s\<lparr>sx_store := st\<rparr>))"

definition check_binding :: "conf_lib \<Rightarrow> string \<Rightarrow> confirmation_binding \<Rightarrow> (string, 'w) srx_m" where
  "check_binding L token binding s =
     (let (r, st) = validate_binding L (sx_now s) token binding (sx_store s)
      in Some (map_err (into_srx_error (bd_router binding)) r, s\<lparr>sx_store := st\<rparr>))"

definition confirm_plan :: "conf_lib \<Rightarrow> string \<Rightarrow> confirmation_binding \<Rightarrow> json \<Rightarrow> (string, 'w) srx_m" where
  "confirm_plan L token binding plan s =
     (let (r, st) = consume L (sx_now s) token binding plan (sx_store s); s' = s\<lparr>sx_store := st\<rparr>
      in case r of
           Inl e \<Rightarrow> Some (Inl (into_srx_error (bd_router binding) e), s')
         | Inr cid \<Rightarrow> Some (Inr cid, emit (PlanConfirmed (cl_digest L token)) s'))"

section \<open>Polling\<close>

datatype async_status = AsyncPending | AsyncDone | AsyncFailed string

datatype poll_failure = PollTimeout nat | PollFailed string | PollTransport srx_error

definition POLL_INTERVAL :: nat where "POLL_INTERVAL = 5000"

text \<open>The time is in milliseconds; the error reports whole seconds.\<close>

partial_function (option) poll_status ::
    "'w srx_device \<Rightarrow> xml_lib \<Rightarrow> (string \<Rightarrow> async_status) \<Rightarrow> srx_request \<Rightarrow> string \<Rightarrow> nat \<Rightarrow> nat \<Rightarrow> 'w srx_run
      \<Rightarrow> ((poll_failure + unit) \<times> 'w srx_run) option" where
  "poll_status D X parse_detail req detail_element deadline started s =
     (if deadline \<le> sx_now s then Some (Inl (PollTimeout ((sx_now s - started) div 1000)), s)
      else
        (case sd_rpc D (sx_world s) of
           Inl e \<Rightarrow> Some (Inl (PollTransport (Transport (Rustez e))), s)
         | Inr _ \<Rightarrow>
             (case fst (send D req s) of
                Inl e \<Rightarrow> Some (Inl (PollTransport e), snd (send D req s))
              | Inr reply \<Rightarrow>
                  (case parse_detail (opt_str (text_of X reply detail_element)) of
                     AsyncDone \<Rightarrow> Some (Inr (), snd (send D req s))
                   | AsyncFailed d \<Rightarrow> Some (Inl (PollFailed d), snd (send D req s))
                   | AsyncPending \<Rightarrow>
                       if deadline \<le> sx_now (snd (send D req s)) + POLL_INTERVAL
                       then Some (Inl (PollTimeout ((sx_now (snd (send D req s)) - started) div 1000)), snd (send D req s))
                       else poll_status D X parse_detail req detail_element deadline started
                              (sleep_ms POLL_INTERVAL (snd (send D req s)))))))"

definition convert_poll_failure :: "string \<Rightarrow> string \<Rightarrow> poll_failure \<Rightarrow> srx_error" where
  "convert_poll_failure router action f =
     (case f of
        PollTimeout secs \<Rightarrow> SignaturePackagePollTimeout router action secs
      | PollFailed detail \<Rightarrow>
          if action = ''download'' then SignaturePackageDownloadFailed router detail
          else SignaturePackageInstallFailed router detail
      | PollTransport e \<Rightarrow> e)"

definition poll_phase ::
    "'w srx_device \<Rightarrow> xml_lib \<Rightarrow> (string \<Rightarrow> async_status) \<Rightarrow> srx_request \<Rightarrow> string \<Rightarrow> nat \<Rightarrow> nat \<Rightarrow> string
      \<Rightarrow> string \<Rightarrow> (unit, 'w) srx_m" where
  "poll_phase D X parse_detail req detail_element deadline started router action s =
     map_option (\<lambda>(r, s'). (map_err (convert_poll_failure router action) r, s'))
       (poll_status D X parse_detail req detail_element deadline started s)"

section \<open>The poll loop ends\<close>

lemma sx_now_send: "sx_now s \<le> sx_now (snd (send D req s))"
  by (simp add: send_def emit_def split_beta Let_def)

lemma sx_log_send: "sx_log (snd (send D req s)) = sx_log s @ [Sent req]"
  by (simp add: send_def emit_def split_beta Let_def)

lemma sleep_ms_simps [simp]:
  "sx_now (sleep_ms ms s) = sx_now s + ms" "sx_log (sleep_ms ms s) = sx_log s" "sx_store (sleep_ms ms s) = sx_store s"
  by (simp_all add: sleep_ms_def)

text \<open>The number of requests a poll with this budget can send.\<close>

definition poll_rounds :: "nat \<Rightarrow> nat \<Rightarrow> nat" where
  "poll_rounds deadline t = Suc ((deadline - t) div POLL_INTERVAL)"

lemma poll_rounds_step:
  "t + POLL_INTERVAL < deadline \<Longrightarrow> t0 \<le> t \<Longrightarrow> Suc (poll_rounds deadline (t + POLL_INTERVAL)) \<le> poll_rounds deadline t0"
proof -
  assume a: "t + POLL_INTERVAL < deadline" "t0 \<le> t"
  then have "deadline - t0 \<ge> (deadline - (t + POLL_INTERVAL)) + POLL_INTERVAL" by simp
  then have "((deadline - (t + POLL_INTERVAL)) + POLL_INTERVAL) div POLL_INTERVAL \<le> (deadline - t0) div POLL_INTERVAL"
    by (rule div_le_mono)
  then show ?thesis by (simp add: poll_rounds_def POLL_INTERVAL_def)
qed

lemma poll_status_ends:
  "\<exists>r s' n. poll_status D X parse_detail req el deadline started s = Some (r, s')
     \<and> sx_log s' = sx_log s @ replicate n (Sent req) \<and> n \<le> poll_rounds deadline (sx_now s) \<and> sx_store s' = sx_store s"
proof (induction "deadline - sx_now s" arbitrary: s rule: less_induct)
  case less
  have st: "sx_store (snd (send D req s)) = sx_store s" by (simp add: send_def emit_def split_beta Let_def)
  have one: "1 \<le> poll_rounds deadline (sx_now s)" by (simp add: poll_rounds_def)
  have stop: "\<exists>r s' n. Some (x, s1) = Some (r, s') \<and> sx_log s' = sx_log s @ replicate n (Sent req)
      \<and> n \<le> poll_rounds deadline (sx_now s) \<and> sx_store s' = sx_store s"
    if "s1 = snd (send D req s)" for x :: "poll_failure + unit" and s1
    using that one st by (intro exI [of _ x] exI [of _ s1] exI [of _ 1]) (simp add: sx_log_send)
  show ?case
  proof (cases "deadline \<le> sx_now s \<or> \<not> is_ok (sd_rpc D (sx_world s))")
    case True
    then show ?thesis
      by (subst poll_status.simps) (auto simp: is_ok_def split: sum.splits intro!: exI [of _ 0])
  next
    case False
    then obtain u where go: "\<not> deadline \<le> sx_now s" "sd_rpc D (sx_world s) = Inr u"
      by (auto simp: is_ok_def split: sum.splits)
    let ?s1 = "snd (send D req s)"
    show ?thesis
    proof (cases "fst (send D req s)")
      case (Inl e)
      then show ?thesis using go stop by (subst poll_status.simps) simp
    next
      case (Inr reply)
      let ?out = "parse_detail (opt_str (text_of X reply el))"
      show ?thesis
      proof (cases "?out = AsyncPending \<and> sx_now ?s1 + POLL_INTERVAL < deadline")
        case False
        then show ?thesis using go Inr stop by (subst poll_status.simps) (cases ?out; simp)
      next
        case True
        let ?s2 = "sleep_ms POLL_INTERVAL ?s1"
        have "deadline - sx_now ?s2 < deadline - sx_now s"
          using conjunct2 [OF True] sx_now_send [of s D req] unfolding POLL_INTERVAL_def sleep_ms_simps by linarith
        from less [OF this] obtain r s' n where
          r: "poll_status D X parse_detail req el deadline started ?s2 = Some (r, s')"
            "sx_log s' = sx_log ?s2 @ replicate n (Sent req)" "n \<le> poll_rounds deadline (sx_now ?s2)"
            "sx_store s' = sx_store ?s2" by blast
        have "Suc n \<le> poll_rounds deadline (sx_now s)"
          using r(3) poll_rounds_step [of "sx_now ?s1" deadline "sx_now s"] True sx_now_send [of s D req] by simp
        moreover have "poll_status D X parse_detail req el deadline started s = Some (r, s')"
          using go Inr True r(1) by (subst poll_status.simps) simp
        ultimately show ?thesis
          using r(2,4) st by (intro exI [of _ r] exI [of _ s'] exI [of _ "Suc n"]) (simp add: sx_log_send)
      qed
    qed
  qed
qed

end
