(* ===== verification/Srx_Status.thy ===== *)
theory Srx_Status
  imports Srx_Device
begin

text \<open>
  Two read-only workflows and the pre-flight checks that use their parsers: \<^verbatim>\<open>workflows/license.rs\<close>,
  \<^verbatim>\<open>workflows/cluster_status.rs\<close> and \<^verbatim>\<open>signature_package/preflight.rs\<close>.
\<close>

section \<open>Licenses\<close>

datatype srx_licensed_feature =
  Idp | AppId | UtmAntivirus | WebFiltering | AntiSpam | SecIntel | AtpCloud | SslProxy

fun record_patterns :: "srx_licensed_feature \<Rightarrow> string list" where
  "record_patterns Idp = [''idp'', ''intrusion'']"
| "record_patterns AppId = [''application identification'', ''appid'', ''app-id'']"
| "record_patterns UtmAntivirus = [''antivirus'', ''av-key'', ''av_key'', ''anti-virus'']"
| "record_patterns WebFiltering = [''web filtering'', ''url filtering'', ''web-filtering'']"
| "record_patterns AntiSpam = [''anti-spam'', ''antispam'']"
| "record_patterns SecIntel = [''secintel'', ''security intelligence'', ''sec-intel'']"
| "record_patterns AtpCloud = [''atp cloud'', ''sky atp'', ''advanced threat'']"
| "record_patterns SslProxy = [''ssl proxy'', ''ssl forward proxy'', ''ssl-proxy'']"

fun display_name :: "srx_licensed_feature \<Rightarrow> string" where
  "display_name Idp = ''idp''"
| "display_name AppId = ''app_id''"
| "display_name UtmAntivirus = ''utm_antivirus''"
| "display_name WebFiltering = ''web_filtering''"
| "display_name AntiSpam = ''anti_spam''"
| "display_name SecIntel = ''sec_intel''"
| "display_name AtpCloud = ''atp_cloud''"
| "display_name SslProxy = ''ssl_proxy''"

record license_record =
  lr_feature_name :: string
  lr_license_type :: string
  lr_end_date :: "int option"

record license_data =
  ld_feature :: srx_licensed_feature
  ld_license_records :: "license_record list"
  ld_used :: u32
  ld_installed :: u32
  ld_needed :: u32
  ld_earliest_expiry :: "int option"
  ld_all_permanent :: bool

definition child_text :: "xnode \<Rightarrow> string \<Rightarrow> string option" where
  "child_text node tag =
     (case map_option str_trim (Option.bind (find_child tag node) node_text) of
        Some t \<Rightarrow> if t = [] then None else Some t
      | None \<Rightarrow> None)"

definition strip_suffix :: "string \<Rightarrow> string \<Rightarrow> string option" where
  "strip_suffix p s = (if suffix p s then Some (take (length s - length p) s) else None)"

definition rfc_form :: "xml_lib \<Rightarrow> string \<Rightarrow> string + string" where
  "rfc_form X s =
     (if length s = 19 \<and> s ! 10 = SP then Inr (take 10 s @ ''T'' @ drop 11 s @ ''+00:00'')
      else if length s = 10 \<and> s ! 4 = CHR ''-'' \<and> s ! 7 = CHR ''-'' then Inr (s @ ''T23:59:59+00:00'')
      else if CHR ''T'' \<in> set s then Inr s
      else Inl (''unrecognised Junos date format: '' @ xl_debug X s))"

definition junos_date_to_offset :: "xml_lib \<Rightarrow> string \<Rightarrow> string + int" where
  "junos_date_to_offset X s0 =
     (let s1 = str_trim s0;
          s = str_trim (case strip_suffix '' UTC'' s1 of None \<Rightarrow> s1 | Some t \<Rightarrow> t)
      in and_then (rfc_form X s) (\<lambda>rfc.
           map_err (\<lambda>e. ''rfc3339 parse '' @ xl_debug X rfc @ '': '' @ e) (xl_rfc3339 X rfc)))"

definition or_else :: "'a option \<Rightarrow> 'a option \<Rightarrow> 'a option" where
  "or_else a b = (case a of None \<Rightarrow> b | Some x \<Rightarrow> Some x)"

definition count_field :: "xnode \<Rightarrow> string \<Rightarrow> string \<Rightarrow> u32" where
  "count_field fs old new =
     (case Option.bind (or_else (child_text fs old) (child_text fs new)) (\<lambda>t. parse_uint (str_trim t)) of
        Some n \<Rightarrow> n | None \<Rightarrow> 0)"

definition license_summary :: "xml_lib \<Rightarrow> xnode \<Rightarrow> license_record sres" where
  "license_summary X fs =
     and_then (case child_text fs ''end-date'' of
                 None \<Rightarrow> Inr None
               | Some d \<Rightarrow> (case junos_date_to_offset X d of
                     Inl e \<Rightarrow> Inl (SrxParse (''end-date parse error: '' @ e)) | Inr t \<Rightarrow> Inr (Some t)))
       (\<lambda>end_date. Inr \<lparr>lr_feature_name = opt_str (child_text fs ''name''),
          lr_license_type = (case or_else (child_text fs ''license-type'') (child_text fs ''validity-type'') of
             Some t \<Rightarrow> t | None \<Rightarrow> if end_date \<noteq> None then ''date-based'' else []),
          lr_end_date = end_date\<rparr>)"

definition matches_feature :: "srx_licensed_feature \<Rightarrow> xnode \<Rightarrow> bool" where
  "matches_feature feature fs =
     (let name_lc = to_ascii_lowercase (opt_str (child_text fs ''name''))
      in list_ex (\<lambda>p. str_contains p name_lc) (record_patterns feature))"

definition sum_counts :: "u32 list \<Rightarrow> u32" where
  "sum_counts ns = foldl saturating_add 0 ns"

definition parse_license :: "xml_lib \<Rightarrow> srx_licensed_feature \<Rightarrow> string \<Rightarrow> license_data srx_response sres" where
  "parse_license X feature summary_xml =
     and_then (map_err (\<lambda>e. SrxParse (''roxmltree: '' @ e)) (xl_parse X (sanitize_rustez_xml summary_xml))) (\<lambda>doc.
       let found = filter (matches_feature feature) (filter (named ''feature-summary'') (descendants doc)) in
       and_then (try_map (license_summary X) found) (\<lambda>records.
         if records = []
         then Inr (not_configured (display_name feature @ '' not present in installed licenses''))
         else
           (let expiry_dates = sort (List.map_filter lr_end_date records) in
            Inr (active \<lparr>ld_feature = feature, ld_license_records = records,
              ld_used = sum_counts (map (\<lambda>fs. count_field fs ''licenses-used'' ''used-licensed'') found),
              ld_installed = sum_counts (map (\<lambda>fs. count_field fs ''licenses-installed'' ''licensed'') found),
              ld_needed = sum_counts (map (\<lambda>fs. count_field fs ''licenses-needed'' ''needed'') found),
              ld_earliest_expiry = (case expiry_dates of [] \<Rightarrow> None | d # _ \<Rightarrow> Some d),
              ld_all_permanent = list_all (\<lambda>r. lr_end_date r = None) records\<rparr>))))"

definition check_router :: "string \<Rightarrow> unit sres" where
  "check_router router = (if str_trim router = [] then Inl (InvalidInput ''router must not be empty'') else Inr ())"

definition run_license ::
    "'w srx_device \<Rightarrow> xml_lib \<Rightarrow> string \<Rightarrow> srx_licensed_feature \<Rightarrow> bool \<Rightarrow> (license_data srx_response, 'w) srx_m" where
  "run_license D X router feature include_raw =
     sx_bind (sx_ret (check_router router)) (\<lambda>_.
     sx_bind (open_rpc D) (\<lambda>_.
     sx_bind (call D (RpcCall ''get-license-summary-information'')) (\<lambda>summary.
     sx_bind (call D (RpcCall ''get-license-key-information'')) (\<lambda>keys.
     sx_bind (sx_ret (parse_license X feature summary)) (\<lambda>parsed.
       sx_ret (Inr (if include_raw
         then with_raw (''<!-- summary -->'' @ [NL] @ summary @ [NL] @ ''<!-- keys -->'' @ [NL] @ keys) parsed
         else parsed)))))))"

section \<open>Chassis cluster\<close>

record rg_member =
  rm_node :: string
  rm_priority :: u16
  rm_status :: string
  rm_preempt :: bool
  rm_manual :: bool
  rm_monitor_failures :: "string list"

record redundancy_group =
  rg_group_id :: u16
  rg_failover_count :: u32
  rg_members :: "rg_member list"

record cluster_node =
  cn_name :: string
  cn_priority :: u16
  cn_status :: string
  cn_monitor_failures :: "string list"

record cluster_status_data =
  cd_cluster_id :: "u16 option"
  cd_nodes :: "cluster_node list"
  cd_redundancy_groups :: "redundancy_group list"

definition is_error_element :: "xnode \<Rightarrow> bool" where
  "is_error_element n \<longleftrightarrow> tag_name n = ''error'' \<or> tag_name n = ''rpc-error''"

definition is_not_configured_xml :: "xml_lib \<Rightarrow> string \<Rightarrow> bool sres" where
  "is_not_configured_xml X xml =
     and_then (map_err (\<lambda>e. SrxParse (''roxmltree: '' @ e)) (xl_parse X xml)) (\<lambda>root.
       let any_error = is_error_element root \<or> list_ex (\<lambda>n. is_element n \<and> is_error_element n) (children root);
           has_cluster_status = list_ex (named ''chassis-cluster-status'') (descendants root)
       in if has_cluster_status then Inr False
          else if \<not> any_error then Inr False
          else Inr True)"

definition contains_rpc_error :: "string \<Rightarrow> bool" where
  "contains_rpc_error xml \<longleftrightarrow> str_contains ''<rpc-error>'' xml \<or> str_contains ''<nc:rpc-error>'' xml"

definition eq_ignore_ascii_case :: "string \<Rightarrow> string \<Rightarrow> bool" where
  "eq_ignore_ascii_case a b \<longleftrightarrow> to_ascii_lowercase a = to_ascii_lowercase b"

definition parse_failures :: "string \<Rightarrow> string list" where
  "parse_failures text =
     (if eq_ignore_ascii_case text ''none'' \<or> text = [] then []
      else filter (\<lambda>s. s \<noteq> []) (map str_trim (split_on (CHR '','') text)))"

definition new_member :: "string \<Rightarrow> rg_member" where
  "new_member text = \<lparr>rm_node = text, rm_priority = 0, rm_status = [], rm_preempt = False, rm_manual = False,
     rm_monitor_failures = []\<rparr>"

definition set_field :: "string \<Rightarrow> string \<Rightarrow> rg_member \<Rightarrow> rg_member" where
  "set_field tag text m =
     (if tag = ''device-priority'' then m\<lparr>rm_priority := (case parse_uint text of Some n \<Rightarrow> n | None \<Rightarrow> 0)\<rparr>
      else if tag = ''redundancy-group-status'' then m\<lparr>rm_status := text\<rparr>
      else if tag = ''preempt'' then m\<lparr>rm_preempt := eq_ignore_ascii_case text ''yes''\<rparr>
      else if tag = ''failover-mode'' then m\<lparr>rm_manual := eq_ignore_ascii_case text ''yes''\<rparr>
      else if tag = ''monitor-failures'' then m\<lparr>rm_monitor_failures := parse_failures text\<rparr>
      else m)"

fun member_step :: "rg_member list \<Rightarrow> xnode \<Rightarrow> rg_member list" where
  "member_step ms n =
     (let tag = tag_name n; text = str_trim (opt_str (node_text n)) in
      if tag = ''device-name'' then ms @ [new_member text]
      else if ms = [] then ms
      else butlast ms @ [set_field tag text (last ms)])"

definition parse_device_stats :: "xnode \<Rightarrow> rg_member list" where
  "parse_device_stats rg =
     (case find_child ''device-stats'' rg of
        None \<Rightarrow> []
      | Some stats \<Rightarrow> foldl member_step [] (filter is_element (children stats)))"

definition rg_schema :: "string \<Rightarrow> srx_error" where
  "rg_schema element = SchemaMismatch ''get-chassis-cluster-status'' element"

definition parse_group :: "xnode \<Rightarrow> redundancy_group sres" where
  "parse_group rg =
     and_then (case Option.bind (find_child ''redundancy-group-id'' rg) node_text of
                 None \<Rightarrow> Inl (rg_schema ''redundancy-group-id'')
               | Some t \<Rightarrow> (case parse_uint (str_trim t) of
                     None \<Rightarrow> Inl (rg_schema ''redundancy-group-id'') | Some n \<Rightarrow> Inr n)) (\<lambda>group_id.
     and_then (case Option.bind (find_child ''redundancy-group-failover-count'' rg) node_text of
                 None \<Rightarrow> Inr 0
               | Some t \<Rightarrow> (case parse_uint (str_trim t) of
                     None \<Rightarrow> Inl (rg_schema ''redundancy-group-failover-count'') | Some n \<Rightarrow> Inr n)) (\<lambda>failover_count.
       Inr \<lparr>rg_group_id = group_id, rg_failover_count = failover_count, rg_members = parse_device_stats rg\<rparr>))"

definition add_members :: "rg_member list \<Rightarrow> rg_member list \<Rightarrow> rg_member list" where
  "add_members old new = foldl (\<lambda>ms m. if list_ex (\<lambda>em. rm_node em = rm_node m) ms then ms else ms @ [m]) old new"

fun merge_group :: "redundancy_group \<Rightarrow> redundancy_group list \<Rightarrow> redundancy_group list" where
  "merge_group g [] = [g]"
| "merge_group g (r # rs) =
     (if rg_group_id r = rg_group_id g then r\<lparr>rg_members := add_members (rg_members r) (rg_members g)\<rparr> # rs
      else r # merge_group g rs)"

fun merge_groups :: "xnode list \<Rightarrow> redundancy_group list \<Rightarrow> redundancy_group list sres" where
  "merge_groups [] all = Inr all"
| "merge_groups (n # ns) all = and_then (parse_group n) (\<lambda>g. merge_groups ns (merge_group g all))"

definition first_id :: "u16 option \<Rightarrow> xnode \<Rightarrow> u16 option" where
  "first_id cid css =
     (case cid of
        Some n \<Rightarrow> Some n
      | None \<Rightarrow> Option.bind (Option.bind (find_child ''cluster-id'' css) node_text) (\<lambda>t. parse_uint (str_trim t)))"

fun collect_nodes ::
    "xml_lib \<Rightarrow> re_node list \<Rightarrow> u16 option \<times> redundancy_group list \<Rightarrow> (u16 option \<times> redundancy_group list) sres" where
  "collect_nodes X [] acc = Inr acc"
| "collect_nodes X (n # ns) (cid, rgs) =
     (if contains_rpc_error (inner_xml n) then collect_nodes X ns (cid, rgs)
      else
        and_then (map_err (\<lambda>e. SrxParse (''roxmltree: '' @ e)) (xl_parse X (inner_xml n))) (\<lambda>doc.
          case find_descendant ''chassis-cluster-status'' doc of
            None \<Rightarrow> collect_nodes X ns (cid, rgs)
          | Some css \<Rightarrow>
              and_then (merge_groups (filter (named ''redundancy-group'') (children css)) rgs) (\<lambda>rgs'.
                collect_nodes X ns (first_id cid css, rgs'))))"

definition derive_cluster_nodes :: "redundancy_group list \<Rightarrow> cluster_node list" where
  "derive_cluster_nodes rgs =
     (case find (\<lambda>r. rg_group_id r = 0) rgs of
        None \<Rightarrow> []
      | Some rg0 \<Rightarrow> map (\<lambda>m. \<lparr>cn_name = rm_node m, cn_priority = rm_priority m, cn_status = rm_status m,
                          cn_monitor_failures = rm_monitor_failures m\<rparr>) (rg_members rg0))"

definition parse_cluster_status :: "xml_lib \<Rightarrow> string \<Rightarrow> cluster_status_data srx_response sres" where
  "parse_cluster_status X reply_xml =
     and_then (is_not_configured_xml X reply_xml) (\<lambda>absent.
       if absent then Inr (not_configured ''chassis cluster disabled'')
       else
         and_then (multi_re_split X reply_xml) (\<lambda>re_nodes.
         and_then (collect_nodes X re_nodes (None, [])) (\<lambda>(cluster_id_opt, all_rgs).
           if cluster_id_opt = None \<and> all_rgs = [] then Inr (not_configured ''chassis cluster disabled'')
           else Inr (active \<lparr>cd_cluster_id = cluster_id_opt, cd_nodes = derive_cluster_nodes all_rgs,
                  cd_redundancy_groups = all_rgs\<rparr>))))"

definition run_cluster_status ::
    "'w srx_device \<Rightarrow> xml_lib \<Rightarrow> string \<Rightarrow> bool \<Rightarrow> (cluster_status_data srx_response, 'w) srx_m" where
  "run_cluster_status D X router include_raw =
     sx_bind (sx_ret (check_router router)) (\<lambda>_.
     sx_bind (rpc_call D (RpcCall ''get-chassis-cluster-status'')) (\<lambda>reply.
     sx_bind (sx_ret (parse_cluster_status X reply)) (\<lambda>parsed.
       sx_ret (Inr (if include_raw then with_raw reply parsed else parsed)))))"

section \<open>Pre-flight\<close>

datatype topology = Standalone | ChassisCluster

definition detect_commit_confirmed :: "xml_lib \<Rightarrow> string \<Rightarrow> bool sres" where
  "detect_commit_confirmed X xml =
     and_then (map_err (\<lambda>e. SrxParse (''roxmltree (commit-information): '' @ e)) (xl_parse X (sanitize_rustez_xml xml)))
       (\<lambda>doc. Inr (list_ex (named ''commit-confirmed'') (descendants doc)))"

text \<open>The name of a feature in the error; other features print their lower-case \<^verbatim>\<open>Debug\<close> name.\<close>

fun feature_tag :: "srx_licensed_feature \<Rightarrow> string" where
  "feature_tag Idp = ''idp''"
| "feature_tag AppId = ''app_id''"
| "feature_tag UtmAntivirus = ''utmantivirus''"
| "feature_tag WebFiltering = ''webfiltering''"
| "feature_tag AntiSpam = ''antispam''"
| "feature_tag SecIntel = ''secintel''"
| "feature_tag AtpCloud = ''atpcloud''"
| "feature_tag SslProxy = ''sslproxy''"

definition license_verdict :: "string \<Rightarrow> srx_licensed_feature \<Rightarrow> license_data srx_response \<Rightarrow> unit sres" where
  "license_verdict router feature parsed =
     (if rs_state parsed \<noteq> Active then Inl (SignaturePackageLicenseInactive router (feature_tag feature))
      else
        (case rs_data parsed of
           Some d \<Rightarrow> if ld_installed d = 0 then Inl (SignaturePackageLicenseInactive router (feature_tag feature)) else Inr ()
         | None \<Rightarrow> Inr ()))"

definition license_active ::
    "'w srx_device \<Rightarrow> xml_lib \<Rightarrow> string \<Rightarrow> srx_licensed_feature \<Rightarrow> (unit, 'w) srx_m" where
  "license_active D X router feature =
     sx_bind (rpc_call D (RpcCall ''get-license-summary-information'')) (\<lambda>summary_xml.
     sx_bind (sx_ret (parse_license X feature summary_xml)) (\<lambda>parsed.
       sx_ret (license_verdict router feature parsed)))"

definition healthy :: "rg_member \<Rightarrow> bool" where
  "healthy m = (let s = to_ascii_lowercase (rm_status m) in s = ''primary'' \<or> s = ''secondary'')"

fun check_members :: "string \<Rightarrow> rg_member list \<Rightarrow> unit sres" where
  "check_members router [] = Inr ()"
| "check_members router (m # ms) =
     (if healthy m then check_members router ms else Inl (SignaturePackageClusterDesynced router (rm_status m)))"

definition topology_verdict :: "string \<Rightarrow> cluster_status_data srx_response \<Rightarrow> topology sres" where
  "topology_verdict router parsed =
     (case rs_state parsed of
        Active \<Rightarrow>
          (case rs_data parsed of
             None \<Rightarrow> Inr ChassisCluster
           | Some d \<Rightarrow>
               and_then (check_members router (concat (map rg_members (cd_redundancy_groups d)))) (\<lambda>_. Inr ChassisCluster))
      | _ \<Rightarrow> Inr Standalone)"

definition cluster_topology :: "'w srx_device \<Rightarrow> xml_lib \<Rightarrow> string \<Rightarrow> (topology, 'w) srx_m" where
  "cluster_topology D X router =
     sx_bind (rpc_call D (RpcCall ''get-chassis-cluster-status'')) (\<lambda>reply.
     sx_bind (sx_ret (parse_cluster_status X reply)) (\<lambda>parsed.
       sx_ret (topology_verdict router parsed)))"

section \<open>Properties\<close>

lemma check_members_Inr_iff: "check_members router ms = Inr () \<longleftrightarrow> list_all healthy ms"
  by (induction ms) auto

text \<open>
  A device counts as a cluster fit for a change exactly when the cluster is configured and every member of every
  redundancy group is primary or secondary.
\<close>

theorem cluster_gate_checks_every_member:
  "topology_verdict router parsed = Inr ChassisCluster \<longleftrightarrow>
     rs_state parsed = Active
     \<and> (case rs_data parsed of
          None \<Rightarrow> True
        | Some d \<Rightarrow> list_all (\<lambda>g. list_all healthy (rg_members g)) (cd_redundancy_groups d))"
proof (cases "rs_data parsed")
  case None
  then show ?thesis by (simp add: topology_verdict_def split: srx_state_tag.split)
next
  case (Some d)
  have "check_members router (concat (map rg_members (cd_redundancy_groups d))) = Inr ()
      \<longleftrightarrow> list_all (\<lambda>g. list_all healthy (rg_members g)) (cd_redundancy_groups d)"
    by (auto simp: check_members_Inr_iff list_all_iff)
  then show ?thesis using Some
    by (auto simp: topology_verdict_def and_then_def split: srx_state_tag.split sum.splits)
qed

text \<open>Any error element in a reply without cluster data counts as a standalone device, whatever the error is.\<close>

lemma any_cluster_error_is_standalone:
  assumes "xl_parse X xml = Inr root" "is_error_element root" "\<not> list_ex (named ''chassis-cluster-status'') (descendants root)"
  shows "and_then (parse_cluster_status X xml) (topology_verdict router) = Inr Standalone"
  using assms
  by (simp add: parse_cluster_status_def is_not_configured_xml_def and_then_def map_err_def topology_verdict_def
      not_configured_def)

lemma saturating_add_0_iff: "saturating_add x y = 0 \<longleftrightarrow> x = 0 \<and> y = 0" for x y :: "'a::len word"
proof -
  have "x \<le> saturating_add x y" by (rule saturating_add_ge)
  moreover have "saturating_add 0 y = y" by (simp add: saturating_add_def)
  ultimately show ?thesis by (metis word_le_0_iff)
qed

lemma sum_counts_0_iff: "sum_counts ns = 0 \<longleftrightarrow> list_all (\<lambda>n. n = 0) ns"
proof -
  have "foldl saturating_add a ns = 0 \<longleftrightarrow> a = 0 \<and> list_all (\<lambda>n. n = 0) ns" for a :: u32
    by (induction ns arbitrary: a) (auto simp: saturating_add_0_iff)
  then show ?thesis by (simp add: sum_counts_def)
qed

text \<open>
  The licence gate opens exactly when the device lists a matching feature with at least one installed licence:
  the saturating sum over the records cannot wrap to zero.
\<close>

theorem licence_gate_needs_an_installed_licence:
  assumes "xl_parse X (sanitize_rustez_xml xml) = Inr doc" and "parse_license X feature xml = Inr parsed"
  shows "license_verdict router feature parsed = Inr () \<longleftrightarrow>
     list_ex (\<lambda>n. named ''feature-summary'' n \<and> matches_feature feature n
        \<and> count_field n ''licenses-installed'' ''licensed'' \<noteq> 0) (descendants doc)"
proof -
  let ?found = "filter (matches_feature feature) (filter (named ''feature-summary'') (descendants doc))"
  let ?count = "\<lambda>fs. count_field fs ''licenses-installed'' ''licensed''"
  obtain records where r: "try_map (license_summary X) ?found = Inr records"
    using assms by (auto simp: parse_license_def and_then_def map_err_def Let_def split: sum.splits)
  have none: "records = [] \<longleftrightarrow> ?found = []" using r by (cases ?found) (auto simp: and_then_def split: sum.splits)
  have inactive: "rs_state parsed = NotConfigured" if "records = []"
    using assms r that by (simp add: parse_license_def and_then_def map_err_def Let_def not_configured_def) auto
  have "\<exists>d. parsed = active d \<and> ld_installed d = sum_counts (map ?count ?found)" if "records \<noteq> []"
    using assms r that by (simp add: parse_license_def and_then_def map_err_def Let_def) auto
  then have "license_verdict router feature parsed = Inr () \<longleftrightarrow> records \<noteq> [] \<and> sum_counts (map ?count ?found) \<noteq> 0"
    using inactive by (cases "records = []") (auto simp: license_verdict_def active_def)
  also have "\<dots> \<longleftrightarrow> list_ex (\<lambda>n. ?count n \<noteq> 0) ?found"
    by (auto simp: none sum_counts_0_iff list_all_iff list_ex_iff filter_empty_conv)
  finally show ?thesis by (auto simp: list_ex_iff)
qed

definition lab_licence :: xnode where
  "lab_licence = XElem ''feature-summary'' [] [XElem ''name'' [] [XText ''idp-sig''], XElem ''licenses-installed'' [] [XText ''1'']]"

definition lab_licence_xl :: xml_lib where
  "lab_licence_xl = \<lparr>xl_parse = \<lambda>_. Inr lab_licence, xl_escape = id, xl_lowercase = id, xl_debug = id, xl_rfc3339 = \<lambda>s. Inl s\<rparr>"

lemma lab_licence_facts:
  "named ''feature-summary'' lab_licence" "matches_feature Idp lab_licence"
  "license_summary lab_licence_xl lab_licence =
     Inr \<lparr>lr_feature_name = ''idp-sig'', lr_license_type = [], lr_end_date = None\<rparr>"
  "child_text lab_licence ''licenses-installed'' = Some ''1''" "str_trim ''1'' = ''1''"
  "filter (named ''feature-summary'') (descendants lab_licence) = [lab_licence]"
  by code_simp+

lemma lab_licence_count: "count_field lab_licence ''licenses-installed'' ''licensed'' = 1"
  by (simp add: count_field_def lab_licence_facts or_else_def parse_uint_def is_ascii_digit_def byte_def)

theorem licence_gate_needs_an_installed_licence_witness:
  "\<exists>parsed. parse_license lab_licence_xl Idp ''x'' = Inr parsed \<and> license_verdict ''srx1'' Idp parsed = Inr ()"
proof -
  have doc: "xl_parse lab_licence_xl (sanitize_rustez_xml ''x'') = Inr lab_licence" by (simp add: lab_licence_xl_def)
  then obtain parsed where p: "parse_license lab_licence_xl Idp ''x'' = Inr parsed"
    by (simp add: parse_license_def and_then_def map_err_def lab_licence_facts Let_def del: filter_filter)
  have "list_ex (\<lambda>n. named ''feature-summary'' n \<and> matches_feature Idp n
      \<and> count_field n ''licenses-installed'' ''licensed'' \<noteq> 0) (descendants lab_licence)"
    unfolding list_ex_iff by (rule bexI [of _ lab_licence]) (use lab_licence_facts lab_licence_count in \<open>simp_all, simp add: lab_licence_def\<close>)
  with licence_gate_needs_an_installed_licence [OF doc p, of "''srx1''"] p show ?thesis by blast
qed

end
