(* ===== verification/Sig_Package.thy ===== *)
theory Sig_Package
  imports Srx_Status
begin

text \<open>
  What the two signature-package workflows share: the plans of \<^verbatim>\<open>signature_package/plan.rs\<close>, the
  two-call confirmation protocol that all four destructive verbs run, and a frame calculus for workflow steps: which
  events a step can cause, that it leaves the confirmations alone, and that it returns.
\<close>

section \<open>Plans\<close>

datatype sig_service = ServiceIdp | ServiceAppid

datatype target_source = LatestFromCheckServer | Pinned

record node_version_info =
  nv_re_name :: string
  nv_current_package_version :: string
  nv_current_detector_version :: "string option"

record install_plan =
  ip_router :: string
  ip_service :: sig_service
  ip_topology :: topology
  ip_nodes :: "node_version_info list"
  ip_target_package_version :: string
  ip_target_source :: target_source
  ip_latest_from_check_server :: "string option"
  ip_estimated_package_size_bytes :: "u64 option"
  ip_estimated_install_duration_seconds :: "u64 option"
  ip_preflight_blockers :: "string list"
  ip_warning :: string

record rollback_plan =
  rp_router :: string
  rp_service :: sig_service
  rp_topology :: topology
  rp_current_package_version :: string
  rp_rollback_target_version :: string
  rp_preflight_blockers :: "string list"
  rp_warning :: string

record uninstall_plan =
  up_router :: string
  up_service :: sig_service
  up_topology :: topology
  up_current_package_version :: string
  up_preflight_blockers :: "string list"
  up_warning :: string

datatype confirmation_plan =
    InstallPlan install_plan
  | RollbackPlan rollback_plan
  | UninstallPlan uninstall_plan

record already_at_target =
  aa_router :: string
  aa_service :: sig_service
  aa_current_package_version :: string
  aa_target_package_version :: string
  aa_message :: string

definition new_already_at_target :: "string \<Rightarrow> sig_service \<Rightarrow> string \<Rightarrow> string \<Rightarrow> already_at_target" where
  "new_already_at_target router service current target =
     \<lparr>aa_router = router, aa_service = service, aa_current_package_version = current,
      aa_target_package_version = target, aa_message = ''device already running target version; no action taken''\<rparr>"

datatype plan_outcome = AlreadyAtTarget already_at_target | NeedsConfirmation confirmation_plan

subsection \<open>Their JSON form\<close>

fun service_json :: "sig_service \<Rightarrow> json" where
  "service_json ServiceIdp = JStr ''idp''"
| "service_json ServiceAppid = JStr ''appid''"

fun topology_json :: "topology \<Rightarrow> json" where
  "topology_json Standalone = JStr ''standalone''"
| "topology_json ChassisCluster = JStr ''chassis_cluster''"

fun target_source_json :: "target_source \<Rightarrow> json" where
  "target_source_json LatestFromCheckServer = JStr ''latest_from_check_server''"
| "target_source_json Pinned = JStr ''pinned''"

text \<open>A field that is left out when it has no value.\<close>

definition skip_none :: "string \<Rightarrow> ('a \<Rightarrow> json) \<Rightarrow> 'a option \<Rightarrow> (string \<times> json) list" where
  "skip_none k f v = (case v of None \<Rightarrow> [] | Some x \<Rightarrow> [(k, f x)])"

definition node_json :: "node_version_info \<Rightarrow> json" where
  "node_json n =
     JObj ([(''re_name'', JStr (nv_re_name n)), (''current_package_version'', JStr (nv_current_package_version n))]
           @ skip_none ''current_detector_version'' JStr (nv_current_detector_version n))"

fun plan_to_value :: "confirmation_plan \<Rightarrow> json" where
  "plan_to_value (InstallPlan p) =
     JObj ([(''code'', JStr ''confirmation_required''), (''router'', JStr (ip_router p)),
            (''action'', JStr ''download_and_install''), (''service'', service_json (ip_service p)),
            (''topology'', topology_json (ip_topology p)), (''nodes'', JList (map node_json (ip_nodes p))),
            (''target_package_version'', JStr (ip_target_package_version p)),
            (''target_source'', target_source_json (ip_target_source p))]
           @ skip_none ''latest_from_check_server'' JStr (ip_latest_from_check_server p)
           @ skip_none ''estimated_package_size_bytes'' (\<lambda>n. JNat (unat n)) (ip_estimated_package_size_bytes p)
           @ skip_none ''estimated_install_duration_seconds'' (\<lambda>n. JNat (unat n)) (ip_estimated_install_duration_seconds p)
           @ [(''preflight_blockers'', JList (map JStr (ip_preflight_blockers p))), (''warning'', JStr (ip_warning p))])"
| "plan_to_value (RollbackPlan p) =
     JObj [(''code'', JStr ''confirmation_required''), (''router'', JStr (rp_router p)), (''action'', JStr ''rollback''),
           (''service'', service_json (rp_service p)), (''topology'', topology_json (rp_topology p)),
           (''current_package_version'', JStr (rp_current_package_version p)),
           (''rollback_target_version'', JStr (rp_rollback_target_version p)),
           (''preflight_blockers'', JList (map JStr (rp_preflight_blockers p))), (''warning'', JStr (rp_warning p))]"
| "plan_to_value (UninstallPlan p) =
     JObj [(''code'', JStr ''confirmation_required''), (''router'', JStr (up_router p)), (''action'', JStr ''uninstall''),
           (''service'', service_json (up_service p)), (''topology'', topology_json (up_topology p)),
           (''current_package_version'', JStr (up_current_package_version p)),
           (''preflight_blockers'', JList (map JStr (up_preflight_blockers p))), (''warning'', JStr (up_warning p))]"

section \<open>The two-call protocol\<close>

text \<open>
  Without a confirmation a verb prepares, plans, and either answers at once or asks for a confirmation of its plan.
  With one it checks the caller's token, takes the device's lease, prepares and plans again under it, uses the token
  up for exactly that plan, and only then acts. The four destructive verbs differ in how they prepare, plan and act.
\<close>

definition request_confirmation ::
    "conf_lib \<Rightarrow> string \<Rightarrow> confirmation_binding \<Rightarrow> json \<Rightarrow> ('r, 'w) srx_m" where
  "request_confirmation L rid binding plan =
     sx_bind (issue_plan L plan binding rid) (\<lambda>plan_value.
       sx_ret (Inl (SignaturePackageConfirmationRequired (bd_router binding) plan_value)))"

definition first_call ::
    "conf_lib \<Rightarrow> string \<Rightarrow> confirmation_binding \<Rightarrow> ('s, 'w) srx_m \<Rightarrow> ('s \<Rightarrow> ('r + json) sres) \<Rightarrow> ('r, 'w) srx_m" where
  "first_call L rid binding prepare plan =
     sx_bind prepare (\<lambda>snapshot.
     sx_bind (sx_ret (plan snapshot)) (\<lambda>outcome.
       case outcome of
         Inl resp \<Rightarrow> sx_ret (Inr resp)
       | Inr plan_value \<Rightarrow> request_confirmation L rid binding plan_value))"

definition second_call ::
    "conf_lib \<Rightarrow> string \<Rightarrow> confirmation_binding \<Rightarrow> ('s, 'w) srx_m \<Rightarrow> ('s \<Rightarrow> ('r + json) sres)
      \<Rightarrow> (string \<Rightarrow> 's \<Rightarrow> ('r, 'w) srx_m) \<Rightarrow> ('r, 'w) srx_m" where
  "second_call L tok binding prepare plan act =
     sx_bind prepare (\<lambda>snapshot.
     sx_bind (sx_ret (plan snapshot)) (\<lambda>outcome.
       case outcome of
         Inl _ \<Rightarrow> sx_ret (Inl (SignaturePackageConfirmationPlanDrift (bd_router binding)))
       | Inr current_plan \<Rightarrow> sx_bind (confirm_plan L tok binding current_plan) (\<lambda>confirmed. act confirmed snapshot)))"

definition two_call ::
    "conf_lib \<Rightarrow> 'w srx_device \<Rightarrow> string \<Rightarrow> string \<Rightarrow> string option \<Rightarrow> string \<Rightarrow> string \<Rightarrow> bool \<Rightarrow> string option
      \<Rightarrow> ('s, 'w) srx_m \<Rightarrow> ('s \<Rightarrow> ('r + json) sres) \<Rightarrow> (string \<Rightarrow> 's \<Rightarrow> ('r, 'w) srx_m) \<Rightarrow> ('r, 'w) srx_m" where
  "two_call L D router operation caller identity rid confirm token prepare plan act =
     sx_bind (sx_ret (check_router router)) (\<lambda>_.
     sx_bind (sx_ret (confirmation_token_for_request confirm token router)) (\<lambda>confirmation_token.
       let binding = new_binding caller router identity in
       case confirmation_token of
         None \<Rightarrow> first_call L rid binding prepare plan
       | Some tok \<Rightarrow>
           sx_bind (check_binding L tok binding) (\<lambda>correlation.
             with_lease D router operation correlation (second_call L tok binding prepare plan act))))"

section \<open>Shared helpers\<close>

fun find_map :: "('a \<Rightarrow> 'b option) \<Rightarrow> 'a list \<Rightarrow> 'b option" where
  "find_map f [] = None"
| "find_map f (x # xs) = (case f x of None \<Rightarrow> find_map f xs | Some y \<Rightarrow> Some y)"

text \<open>The window of a commit-confirmed is looked for and only reported: no failure of the probe matters.\<close>

definition commit_window :: "'w srx_device \<Rightarrow> xml_lib \<Rightarrow> string \<Rightarrow> (string list, 'w) srx_m" where
  "commit_window D X router s =
     (case sd_rpc D (sx_world s) of
        Inl _ \<Rightarrow> Some (Inr [], s)
      | Inr _ \<Rightarrow>
          (let (r, s') = send D (RpcCall ''get-commit-information'') s
           in case r of
                Inl _ \<Rightarrow> Some (Inr [], s')
              | Inr commit_xml \<Rightarrow>
                  if detect_commit_confirmed X commit_xml = Inr True
                  then Some (Inr [''commit-confirmed window open (informational)''], emit (CommitWindowOpen router) s')
                  else Some (Inr [], s')))"

fun topology_words :: "topology \<Rightarrow> string" where
  "topology_words Standalone = ''standalone''"
| "topology_words ChassisCluster = ''chassis cluster''"

section \<open>What both packages have in common\<close>

record install_completed =
  dc_router :: string
  dc_service :: sig_service
  dc_topology :: topology
  dc_target_package_version :: string
  dc_installed_package_version :: string
  dc_elapsed_seconds :: nat

datatype install_response = InstallAlreadyAtTarget already_at_target | InstallCompleted install_completed

definition extract_version_info :: "string \<Rightarrow> string option" where
  "extract_version_info detail =
     (case str_find ''Version info:'' detail of
        None \<Rightarrow> None
      | Some idx \<Rightarrow>
          (let digits = takeWhile is_ascii_digit (drop (idx + length ''Version info:'') detail)
           in if digits = [] then None else Some digits))"

definition clamp_timeout :: "u64 option \<Rightarrow> nat" where
  "clamp_timeout t = unat (min (case t of None \<Rightarrow> 600 | Some secs \<Rightarrow> secs) 1800) * 1000"

definition resolve_target :: "string option \<Rightarrow> string \<Rightarrow> string" where
  "resolve_target pinned latest =
     (case pinned of Some v \<Rightarrow> if str_trim v \<noteq> [] then str_trim v else latest | None \<Rightarrow> latest)"

definition is_pinned :: "string option \<Rightarrow> bool" where
  "is_pinned pinned = (case pinned of Some v \<Rightarrow> str_trim v \<noteq> [] | None \<Rightarrow> False)"

definition or_na :: "string option \<Rightarrow> string" where
  "or_na v = (case v of None \<Rightarrow> ''N/A'' | Some x \<Rightarrow> x)"

definition install_outcome :: "plan_outcome \<Rightarrow> install_response + json" where
  "install_outcome p =
     (case p of
        AlreadyAtTarget resp \<Rightarrow> Inl (InstallAlreadyAtTarget resp)
      | NeedsConfirmation plan \<Rightarrow> Inr (plan_to_value plan))"

definition sx_map :: "('a \<Rightarrow> 'b) \<Rightarrow> ('a, 'w) srx_m \<Rightarrow> ('b, 'w) srx_m" where
  "sx_map f m = sx_bind m (\<lambda>a. sx_ret (Inr (f a)))"

section \<open>Framing a step\<close>

text \<open>A step that always returns, causes only these events, and leaves the confirmations alone.\<close>

named_theorems frame_intros \<open>which steps are framed\<close>

definition framed :: "(srx_event \<Rightarrow> bool) \<Rightarrow> ('a, 'w) srx_m \<Rightarrow> bool" where
  "framed P m \<longleftrightarrow>
     (\<forall>s. \<exists>r s' evs. m s = Some (r, s') \<and> sx_log s' = sx_log s @ evs \<and> list_all P evs \<and> sx_store s' = sx_store s)"

lemma framedI:
  assumes "\<And>s. \<exists>r s' evs. m s = Some (r, s') \<and> sx_log s' = sx_log s @ evs \<and> list_all P evs \<and> sx_store s' = sx_store s"
  shows "framed P m"
  using assms by (simp add: framed_def)

lemma framedE:
  assumes "framed P m"
  obtains r s' evs where "m s = Some (r, s')" "sx_log s' = sx_log s @ evs" "list_all P evs" "sx_store s' = sx_store s"
  using assms unfolding framed_def by blast

lemma framed_ret [frame_intros]: "framed P (sx_ret r)"
  by (rule framedI) (simp add: sx_ret_def)

lemma framed_bind [frame_intros]:
  assumes m: "framed P m" and f: "\<And>a. framed P (f a)"
  shows "framed P (sx_bind m f)"
proof (rule framedI)
  fix s
  obtain r s1 e1 where 1: "m s = Some (r, s1)" "sx_log s1 = sx_log s @ e1" "list_all P e1" "sx_store s1 = sx_store s"
    by (rule framedE [OF m])
  show "\<exists>r s' evs. sx_bind m f s = Some (r, s') \<and> sx_log s' = sx_log s @ evs \<and> list_all P evs \<and> sx_store s' = sx_store s"
  proof (cases r)
    case (Inl e)
    then show ?thesis using 1 by (simp add: sx_bind_def)
  next
    case (Inr a)
    obtain r2 s2 e2 where "f a s1 = Some (r2, s2)" "sx_log s2 = sx_log s1 @ e2" "list_all P e2" "sx_store s2 = sx_store s1"
      by (rule framedE [OF f])
    then show ?thesis using 1 Inr by (simp add: sx_bind_def)
  qed
qed

lemma framed_open_rpc [frame_intros]: "framed P (open_rpc D)"
  by (rule framedI) (simp add: open_rpc_def)

lemma framed_answer [frame_intros]: "framed P (\<lambda>s. Some (f s, s))"
  by (rule framedI) simp

lemma framedD:
  "framed P m \<Longrightarrow> \<exists>r s' evs. m s = Some (r, s') \<and> sx_log s' = sx_log s @ evs \<and> list_all P evs \<and> sx_store s' = sx_store s"
  by (simp add: framed_def)

lemma sx_store_send: "sx_store (snd (send D req s)) = sx_store s"
  by (simp add: send_def emit_def split_beta Let_def)

lemma framed_call [frame_intros]: "P (Sent req) \<Longrightarrow> framed P (call D req)"
  by (rule framedI) (metis call_def list.pred_inject(1,2) prod.collapse sx_log_send sx_store_send)

lemma framed_rpc_call [frame_intros]: "P (Sent req) \<Longrightarrow> framed P (rpc_call D req)"
  unfolding rpc_call_def by (intro frame_intros)

lemma framed_poll_phase [frame_intros]:
  assumes "P (Sent req)"
  shows "framed P (poll_phase D X pd req el deadline started router action)"
proof (rule framedI)
  fix s
  obtain r s' n where "poll_status D X pd req el deadline started s = Some (r, s')"
    "sx_log s' = sx_log s @ replicate n (Sent req)" "sx_store s' = sx_store s"
    using poll_status_ends [of D X pd req el deadline started s] by blast
  then show "\<exists>r s' evs. poll_phase D X pd req el deadline started router action s = Some (r, s')
      \<and> sx_log s' = sx_log s @ evs \<and> list_all P evs \<and> sx_store s' = sx_store s"
    using assms by (simp add: poll_phase_def list_all_iff)
qed

lemma framed_put_audit [frame_intros]:
  "P (AuditLine ctx phase current target None) \<Longrightarrow> framed P (put_audit pj ctx phase current target)"
  by (rule framedI) (simp add: put_audit_def audit_phase_def emit_def)

lemma framed_audit_failure [frame_intros]:
  assumes m: "framed P m" and a: "\<And>f. P (AuditLine ctx ''failed'' current target (Some f))"
  shows "framed P (audit_failure pj ctx current target m)"
proof (rule framedI)
  fix s
  obtain r s1 e1 where 1: "m s = Some (r, s1)" "sx_log s1 = sx_log s @ e1" "list_all P e1" "sx_store s1 = sx_store s"
    by (rule framedE [OF m])
  then show "\<exists>r s' evs. audit_failure pj ctx current target m s = Some (r, s') \<and> sx_log s' = sx_log s @ evs
      \<and> list_all P evs \<and> sx_store s' = sx_store s"
    using a by (cases r) (simp_all add: audit_failure_def audit_phase_def emit_def)
qed

lemma framed_commit_window [frame_intros]:
  assumes "P (Sent (RpcCall ''get-commit-information''))" "P (CommitWindowOpen router)"
  shows "framed P (commit_window D X router)"
proof (rule framedI)
  fix s
  let ?s1 = "snd (send D (RpcCall ''get-commit-information'') s)"
  have l: "sx_log ?s1 = sx_log s @ [Sent (RpcCall ''get-commit-information'')]" "sx_store ?s1 = sx_store s"
    by (rule sx_log_send, rule sx_store_send)
  show "\<exists>r s' evs. commit_window D X router s = Some (r, s') \<and> sx_log s' = sx_log s @ evs
      \<and> list_all P evs \<and> sx_store s' = sx_store s"
    using assms l by (auto simp: commit_window_def split_beta Let_def emit_def split: sum.splits)
qed

lemma framed_license_active [frame_intros]:
  "P (Sent (RpcCall ''get-license-summary-information'')) \<Longrightarrow> framed P (license_active D X router feature)"
  unfolding license_active_def by (intro frame_intros)

lemma framed_cluster_topology [frame_intros]:
  "P (Sent (RpcCall ''get-chassis-cluster-status'')) \<Longrightarrow> framed P (cluster_topology D X router)"
  unfolding cluster_topology_def by (intro frame_intros)

lemma sx_bind_Inr_iff:
  "sx_bind m f s = Some (Inr b, s') \<longleftrightarrow> (\<exists>a s1. m s = Some (Inr a, s1) \<and> f a s1 = Some (Inr b, s'))"
  by (auto simp: sx_bind_def split: option.splits sum.splits)

lemma sx_bind_Inl_iff:
  "sx_bind m f s = Some (Inl e, s') \<longleftrightarrow>
     m s = Some (Inl e, s') \<or> (\<exists>a s1. m s = Some (Inr a, s1) \<and> f a s1 = Some (Inl e, s'))"
  by (auto simp: sx_bind_def split: option.splits sum.splits)

lemma sx_bind_ret [simp]:
  "sx_bind (sx_ret (Inr a)) f = f a" "sx_bind (sx_ret (Inl e)) f = sx_ret (Inl e)"
  by (simp_all add: sx_bind_def sx_ret_def fun_eq_iff)

lemma framed_sx_map [frame_intros]: "framed P m \<Longrightarrow> framed P (sx_map f m)"
  unfolding sx_map_def by (intro frame_intros)

lemma sx_map_run: "sx_map f m s = Some (r, s') \<Longrightarrow> \<exists>r0. m s = Some (r0, s')"
  by (auto simp: sx_map_def sx_bind_def sx_ret_def split: option.splits sum.splits)

lemma sx_map_None_iff: "sx_map f m s = None \<longleftrightarrow> m s = None"
  by (auto simp: sx_map_def sx_bind_def sx_ret_def split: option.splits sum.splits)

lemma put_audit_run [simp]:
  "put_audit pj ctx phase current target s = Some (r, s') \<longleftrightarrow> r = Inr () \<and> s' = audit_phase pj ctx phase current target None s"
  by (auto simp: put_audit_def)

text \<open>An error under the audit is the last thing on record.\<close>

definition failure_recorded :: "(json \<Rightarrow> string) \<Rightarrow> audit_ctx \<Rightarrow> srx_error \<Rightarrow> 'w srx_run \<Rightarrow> bool" where
  "failure_recorded pj ctx e s \<longleftrightarrow>
     (\<exists>current target. sx_log s \<noteq> [] \<and> last (sx_log s) = AuditLine ctx ''failed'' current target
        (Some (error_code (srx_error_to_string pj e), srx_error_to_string pj e)))"

lemma audit_failure_Inl: "audit_failure pj ctx current target m s = Some (Inl e, s') \<Longrightarrow> failure_recorded pj ctx e s'"
  by (auto simp: audit_failure_def audit_phase_def emit_def failure_recorded_def split: option.splits sum.splits)

lemma audit_failure_Inl_iff:
  "audit_failure pj ctx current target m s = Some (Inl e, s') \<longleftrightarrow>
     (\<exists>s1. m s = Some (Inl e, s1) \<and> s' = audit_phase pj ctx ''failed'' current target (Some e) s1)"
  by (auto simp: audit_failure_def split: option.splits sum.splits)

lemma audit_failure_Inr [simp]: "audit_failure pj ctx current target m s = Some (Inr a, s') \<longleftrightarrow> m s = Some (Inr a, s')"
  by (auto simp: audit_failure_def split: option.splits sum.splits)

text \<open>The last answer of the device, and what it says about the nodes.\<close>

definition last_answer ::
    "'w srx_device \<Rightarrow> srx_request \<Rightarrow> (string \<Rightarrow> bool) \<Rightarrow> 'w srx_run \<Rightarrow> bool" where
  "last_answer D req Q s \<longleftrightarrow> (\<exists>w reply ms. sd_call D req w = (Inr reply, ms, sx_world s) \<and> Q reply)"

lemma rpc_call_Inr:
  assumes "rpc_call D req s = Some (Inr reply, s')"
  shows "\<exists>ms. sd_call D req (sx_world s) = (Inr reply, ms, sx_world s')"
proof -
  obtain x ms w where "sd_call D req (sx_world s) = (x, ms, w)" by (metis prod_cases3)
  with assms show ?thesis
    by (auto simp: rpc_call_def sx_bind_def open_rpc_def call_def send_def emit_def map_err_def split: sum.splits)
qed

lemma sx_world_audit [simp]: "sx_world (audit_phase pj ctx phase c t f s) = sx_world s"
  by (simp add: audit_phase_def emit_def)

lemma last_answer_audit [simp]: "last_answer D req Q (audit_phase pj ctx phase c t f s) = last_answer D req Q s"
  by (simp add: last_answer_def)

lemma sx_emit [simp]:
  "sx_now (emit ev s) = sx_now s" "sx_world (emit ev s) = sx_world s" "sx_log (emit ev s) = sx_log s @ [ev]"
  "sx_now (audit_phase pj ctx phase c t f s) = sx_now s"
  by (simp_all add: emit_def audit_phase_def)

section \<open>The protocol is kept\<close>

text \<open>
  A log in which a request that changes the device is sent only under the router's lease and after a plan was
  confirmed under that lease, every lease is for this router, and none is left behind.
\<close>

fun authorised :: "(srx_request \<Rightarrow> bool) \<Rightarrow> string \<Rightarrow> bool \<Rightarrow> bool \<Rightarrow> srx_event list \<Rightarrow> bool" where
  "authorised changes router leased confirmed [] = (\<not> leased)"
| "authorised changes router leased confirmed (Sent req # es) =
     ((changes req \<longrightarrow> leased \<and> confirmed) \<and> authorised changes router leased confirmed es)"
| "authorised changes router leased confirmed (LeaseTaken r # es) =
     (r = router \<and> \<not> leased \<and> authorised changes router True False es)"
| "authorised changes router leased confirmed (LeaseDropped r # es) =
     (r = router \<and> leased \<and> authorised changes router False False es)"
| "authorised changes router leased confirmed (PlanConfirmed d # es) =
     (leased \<and> \<not> confirmed \<and> authorised changes router leased True es)"
| "authorised changes router leased confirmed (CommitWindowOpen r # es) = authorised changes router leased confirmed es"
| "authorised changes router leased confirmed (AuditLine c p v t e # es) = authorised changes router leased confirmed es"

fun harmless :: "(srx_request \<Rightarrow> bool) \<Rightarrow> srx_event \<Rightarrow> bool" where
  "harmless changes (Sent req) = (\<not> changes req)"
| "harmless changes (CommitWindowOpen r) = True"
| "harmless changes (AuditLine c p v t e) = True"
| "harmless changes _ = False"

abbreviation working :: "srx_event \<Rightarrow> bool" where
  "working \<equiv> harmless (\<lambda>_. False)"

lemma authorised_harmless:
  "list_all (harmless changes) evs \<Longrightarrow> authorised changes router l c (evs @ es) = authorised changes router l c es"
proof (induction evs)
  case (Cons e evs)
  then show ?case by (cases e) auto
qed simp

lemma authorised_working:
  "list_all working evs \<Longrightarrow> authorised changes router True True (evs @ es) = authorised changes router True True es"
proof (induction evs)
  case (Cons e evs)
  then show ?case by (cases e) auto
qed simp

lemma harmless_no_confirm: "list_all (harmless changes) evs \<Longrightarrow> PlanConfirmed d \<notin> set evs"
  by (auto simp: list_all_iff)

lemma check_binding_store:
  "check_binding L tok b s = Some (Inr cid, s1) \<Longrightarrow> sx_store s1 = sx_store s \<and> sx_log s1 = sx_log s"
  by (auto simp: check_binding_def validate_binding_def Let_def split: option.splits if_splits)

lemma check_binding_log: "check_binding L tok b s = Some (r, s1) \<Longrightarrow> sx_log s1 = sx_log s"
  by (auto simp: check_binding_def split_beta Let_def)

text \<open>
  The confirmation behind a digest was issued to this caller for this router and device, and for a plan with the
  digest of the plan that a preparation of the verb gives.
\<close>

definition entry_for ::
    "conf_lib \<Rightarrow> ('s, 'w) srx_m \<Rightarrow> ('s \<Rightarrow> ('r + json) sres) \<Rightarrow> confirmation_binding \<Rightarrow> confirmation_store \<Rightarrow> string \<Rightarrow> bool" where
  "entry_for L prepare plan b st d \<longleftrightarrow>
     (\<exists>p. map_of (st_entries st) d = Some p \<and> pc_binding p = b
        \<and> (\<exists>snap s1 s2 pv. prepare s1 = Some (Inr snap, s2) \<and> plan snap = Inr (Inr pv)
             \<and> pc_plan_digest p = digest_plan L pv))"

text \<open>What a step of the protocol promises to the workflow that runs it: a verb has harmless preparations.\<close>

locale confirmed_verb =
  fixes changes :: "srx_request \<Rightarrow> bool"
    and prepare :: "('s, 'w) srx_m"
    and act :: "string \<Rightarrow> 's \<Rightarrow> ('r, 'w) srx_m"
  assumes prepare_framed: "framed (harmless changes) prepare"
    and act_framed: "framed working (act cid snapshot)"
begin

lemma confirmed_part:
  assumes "sx_bind (confirm_plan L tok b plan) (\<lambda>c. act c snap) s = Some (r, s')"
  shows "\<exists>evs. sx_log s' = sx_log s @ evs \<and> (evs = [] \<or> (\<exists>post. evs = PlanConfirmed (cl_digest L tok) # post
     \<and> list_all working post \<and> (\<exists>p. map_of (st_entries (sx_store s)) (cl_digest L tok) = Some p \<and> pc_binding p = b
        \<and> pc_plan_digest p = digest_plan L plan \<and> sx_now s < pc_expires_at p)))"
proof (cases "consume L (sx_now s) tok b plan (sx_store s)")
  case (Pair c st)
  show ?thesis
  proof (cases c)
    case (Inl e)
    then show ?thesis using assms Pair by (auto simp: sx_bind_def confirm_plan_def)
  next
    case (Inr cid)
    then have p: "\<exists>p. map_of (st_entries (sx_store s)) (cl_digest L tok) = Some p \<and> pc_binding p = b
        \<and> pc_plan_digest p = digest_plan L plan \<and> sx_now s < pc_expires_at p"
      using Pair by (auto simp: consume_Inr_iff)
    let ?s1 = "emit (PlanConfirmed (cl_digest L tok)) (s\<lparr>sx_store := st\<rparr>)"
    obtain r2 s2 post where "act cid snap ?s1 = Some (r2, s2)" "sx_log s2 = sx_log ?s1 @ post" "list_all working post"
      by (rule framedE [OF act_framed])
    then show ?thesis using assms Pair Inr p by (auto simp: sx_bind_def confirm_plan_def)
  qed
qed

lemma confirmed_returns: "sx_bind (confirm_plan L tok b plan) (\<lambda>c. act c snap) s \<noteq> None"
proof -
  obtain c st where c: "consume L (sx_now s) tok b plan (sx_store s) = (c, st)" by force
  have "act cid snap s1 \<noteq> None" for cid s1 by (rule framedE [OF act_framed, of cid snap s1]) simp
  then show ?thesis using c by (cases c) (simp_all add: sx_bind_def confirm_plan_def)
qed

end

text \<open>A lease is either refused, or taken around the body and given back.\<close>

lemma with_lease_cases:
  obtains (refused) e s1 where "with_lease D router operation cid body s = Some (Inl e, s1)"
      "sx_log s1 = sx_log s" "sx_store s1 = sx_store s"
    | (held) s0 where "sx_log s0 = sx_log s @ [LeaseTaken router]" "sx_store s0 = sx_store s"
      "with_lease D router operation cid body s =
         (case body s0 of
            None \<Rightarrow> None
          | Some (r, s') \<Rightarrow> Some (r, emit (LeaseDropped router) (s'\<lparr>sx_world := sd_release D router (sx_world s')\<rparr>)))"
proof -
  obtain x ms w where a: "sd_acquire D router operation cid (sx_world s) = (x, ms, w)" by (metis prod_cases3)
  let ?s1 = "s\<lparr>sx_now := sx_now s + ms, sx_world := w\<rparr>"
  show ?thesis
  proof (cases x)
    case (Inl e)
    then show ?thesis using a refused [of "Transport e" ?s1] by (simp add: with_lease_def sx_bind_def acquire_def)
  next
    case (Inr u)
    let ?s0 = "emit (LeaseTaken router) ?s1"
    have "acquire D router operation cid s = Some (Inr (), ?s0)" using a Inr by (simp add: acquire_def)
    then have "with_lease D router operation cid body s =
         (case body ?s0 of
            None \<Rightarrow> None
          | Some (r, s') \<Rightarrow> Some (r, emit (LeaseDropped router) (s'\<lparr>sx_world := sd_release D router (sx_world s')\<rparr>)))"
      by (simp add: with_lease_def sx_bind_def [of "acquire _ _ _ _"])
    moreover have "sx_log ?s0 = sx_log s @ [LeaseTaken router]" "sx_store ?s0 = sx_store s" by (simp_all add: emit_def)
    ultimately show ?thesis using held by blast
  qed
qed

text \<open>The second call, step by step.\<close>

context confirmed_verb
begin

lemma second_call_events:
  assumes "second_call L tok b prepare plan act s = Some (r, s')"
  shows "\<exists>evs. sx_log s' = sx_log s @ evs \<and> (list_all (harmless changes) evs \<or> (\<exists>pre post.
     evs = pre @ PlanConfirmed (cl_digest L tok) # post \<and> list_all (harmless changes) pre \<and> list_all working post
     \<and> entry_for L prepare plan b (sx_store s) (cl_digest L tok)))"
proof -
  obtain x s1 pre where p: "prepare s = Some (x, s1)" "sx_log s1 = sx_log s @ pre" "list_all (harmless changes) pre"
    "sx_store s1 = sx_store s" by (rule framedE [OF prepare_framed])
  show ?thesis
  proof (cases "\<exists>snap pv. x = Inr snap \<and> plan snap = Inr (Inr pv)")
    case False
    then show ?thesis using assms p
      by (auto simp: second_call_def sx_bind_def [of prepare] sx_bind_def [of "sx_ret _"] sx_ret_def split: sum.splits)
  next
    case True
    then obtain snap pv where x: "x = Inr snap" "plan snap = Inr (Inr pv)" by blast
    then have "sx_bind (confirm_plan L tok b pv) (\<lambda>c. act c snap) s1 = Some (r, s')"
      using assms p(1) by (simp add: second_call_def sx_bind_def [of prepare] sx_bind_def [of "sx_ret _"] sx_ret_def)
    from confirmed_part [OF this] obtain evs where e: "sx_log s' = sx_log s1 @ evs"
      "evs = [] \<or> (\<exists>post. evs = PlanConfirmed (cl_digest L tok) # post \<and> list_all working post
         \<and> (\<exists>q. map_of (st_entries (sx_store s1)) (cl_digest L tok) = Some q \<and> pc_binding q = b
           \<and> pc_plan_digest q = digest_plan L pv \<and> sx_now s1 < pc_expires_at q))" by blast
    from e(2) show ?thesis
    proof
      assume "evs = []"
      then show ?thesis using e(1) p by simp
    next
      assume "\<exists>post. evs = PlanConfirmed (cl_digest L tok) # post \<and> list_all working post
         \<and> (\<exists>q. map_of (st_entries (sx_store s1)) (cl_digest L tok) = Some q \<and> pc_binding q = b
           \<and> pc_plan_digest q = digest_plan L pv \<and> sx_now s1 < pc_expires_at q)"
      then obtain post q where c: "evs = PlanConfirmed (cl_digest L tok) # post" "list_all working post"
        and q: "map_of (st_entries (sx_store s)) (cl_digest L tok) = Some q" "pc_binding q = b"
          "pc_plan_digest q = digest_plan L pv"
        using p(4) by auto
      have "prepare s = Some (Inr snap, s1)" using p(1) x(1) by simp
      with q x(2) have "entry_for L prepare plan b (sx_store s) (cl_digest L tok)" unfolding entry_for_def by blast
      moreover have "sx_log s' = sx_log s @ (pre @ PlanConfirmed (cl_digest L tok) # post)" using e(1) p(2) c(1) by simp
      ultimately show ?thesis using p(3) c(2) by blast
    qed
  qed
qed

lemma second_call_returns: "second_call L tok b prepare plan act s \<noteq> None"
proof -
  obtain x s1 where p: "prepare s = Some (x, s1)" by (rule framedE [OF prepare_framed])
  then show ?thesis using confirmed_returns
    by (auto simp: second_call_def sx_bind_def [of prepare] sx_bind_def [of "sx_ret _"] sx_ret_def split: sum.splits)
qed

lemma leased_events:
  assumes "with_lease D router operation cid (second_call L tok b prepare plan act) s = Some (r, s')"
  shows "\<exists>evs. sx_log s' = sx_log s @ evs \<and> authorised changes router False False evs
     \<and> (\<forall>d. PlanConfirmed d \<in> set evs \<longrightarrow> entry_for L prepare plan b (sx_store s) d)"
proof (cases rule: with_lease_cases [of D router operation cid "second_call L tok b prepare plan act" s])
  case (refused e s1)
  then show ?thesis using assms by auto
next
  case (held s0)
  obtain r1 s1 where b: "second_call L tok b prepare plan act s0 = Some (r1, s1)"
    using second_call_returns [of L tok b plan s0] by fast
  from second_call_events [OF b] obtain evs where e: "sx_log s1 = sx_log s0 @ evs"
    "list_all (harmless changes) evs \<or> (\<exists>pre post. evs = pre @ PlanConfirmed (cl_digest L tok) # post
       \<and> list_all (harmless changes) pre \<and> list_all working post
       \<and> entry_for L prepare plan b (sx_store s0) (cl_digest L tok))" by blast
  have log: "sx_log s' = sx_log s @ (LeaseTaken router # evs @ [LeaseDropped router])"
    using assms held(1,3) b e(1) by (auto simp: emit_def)
  from e(2) have "authorised changes router False False (LeaseTaken router # evs @ [LeaseDropped router])
      \<and> (\<forall>d. PlanConfirmed d \<in> set evs \<longrightarrow> entry_for L prepare plan b (sx_store s) d)"
    using held(2) by (auto simp: authorised_harmless authorised_working dest: harmless_no_confirm)
  then show ?thesis using log by (intro exI conjI) auto
qed

lemma leased_returns: "with_lease D router operation cid (second_call L tok b prepare plan act) s \<noteq> None"
proof (cases rule: with_lease_cases [of D router operation cid "second_call L tok b prepare plan act" s])
  case (held s0)
  obtain r1 s1 where "second_call L tok b prepare plan act s0 = Some (r1, s1)"
    using second_call_returns [of L tok b plan s0] by fast
  then show ?thesis using held(3) by simp
qed simp

text \<open>The first call, and both calls together.\<close>

lemma request_confirmation_log:
  "request_confirmation L rid b pv s = Some (r, s') \<Longrightarrow> sx_log s' = sx_log s"
  by (auto simp: request_confirmation_def issue_plan_def sx_bind_def sx_ret_def split: option.splits sum.splits)

lemma first_call_events:
  assumes "first_call L rid b prepare plan s = Some (r, s')"
  shows "\<exists>evs. sx_log s' = sx_log s @ evs \<and> list_all (harmless changes) evs"
proof -
  obtain x s1 pre where p: "prepare s = Some (x, s1)" "sx_log s1 = sx_log s @ pre" "list_all (harmless changes) pre"
    by (rule framedE [OF prepare_framed])
  have "sx_log s' = sx_log s1"
    using assms p(1) request_confirmation_log
    by (auto simp: first_call_def sx_bind_def [of prepare] sx_bind_def [of "sx_ret _"] sx_ret_def split: sum.splits)
  then show ?thesis using p by simp
qed

lemma two_call_authorised:
  assumes "two_call L D router operation caller identity rid confirm token prepare plan act s = Some (r, s')"
  shows "\<exists>evs. sx_log s' = sx_log s @ evs \<and> authorised changes router False False evs
     \<and> (\<not> confirm \<longrightarrow> list_all (harmless changes) evs)
     \<and> (\<forall>d. PlanConfirmed d \<in> set evs \<longrightarrow> entry_for L prepare plan (new_binding caller router identity) (sx_store s) d)"
proof -
  let ?b = "new_binding caller router identity"
  have quiet: ?thesis if "sx_log s' = sx_log s @ evs" "list_all (harmless changes) evs" for evs
    using that authorised_harmless [OF that(2), of router False False "[]"] harmless_no_confirm [OF that(2)] by auto
  consider (bad) e where "check_router router = Inl e"
    | (refused) e where "check_router router = Inr ()" "confirmation_token_for_request confirm token router = Inl e"
    | (first) "check_router router = Inr ()" "confirmation_token_for_request confirm token router = Inr None"
    | (second) t where "check_router router = Inr ()" "confirmation_token_for_request confirm token router = Inr (Some t)"
    by (metis (full_types) old.unit.exhaust option.exhaust sum.exhaust)
  then show ?thesis
  proof cases
    case bad
    then show ?thesis using assms quiet [of "[]"] by (simp add: two_call_def) (simp add: sx_ret_def)
  next
    case refused
    then show ?thesis using assms quiet [of "[]"] by (simp add: two_call_def) (simp add: sx_ret_def)
  next
    case first
    then have "first_call L rid ?b prepare plan s = Some (r, s')" using assms by (simp add: two_call_def)
    then show ?thesis using quiet first_call_events by blast
  next
    case (second t)
    then have c: "confirm" by (auto simp: confirmation_token_for_request_def split: bool.splits option.splits)
    have "sx_bind (check_binding L t ?b) (\<lambda>cid. with_lease D router operation cid (second_call L t ?b prepare plan act)) s = Some (r, s')"
      using assms second by (simp add: two_call_def Let_def)
    then consider e where "check_binding L t ?b s = Some (Inl e, s')" |
      cid s1 where "check_binding L t ?b s = Some (Inr cid, s1)"
        "with_lease D router operation cid (second_call L t ?b prepare plan act) s1 = Some (r, s')"
      by (auto simp: sx_bind_def [of "check_binding _ _ _"] split: option.splits sum.splits)
    then show ?thesis
    proof cases
      case 1
      then show ?thesis using quiet [of "[]"] check_binding_log by fastforce
    next
      case (2 cid s1)
      then show ?thesis using c leased_events [OF 2(2)] check_binding_store [OF 2(1)] by auto
    qed
  qed
qed

lemma two_call_returns:
  assumes confirm
  shows "two_call L D router operation caller identity rid confirm token prepare plan act s \<noteq> None"
proof -
  have "sx_bind (check_binding L t b) (\<lambda>cid. with_lease D router operation cid (second_call L t b prepare plan act)) s \<noteq> None"
    for t b using leased_returns
    by (auto simp: sx_bind_def [of "check_binding _ _ _"] check_binding_def split_beta Let_def split: sum.splits)
  moreover have "confirmation_token_for_request confirm token router \<noteq> Inr None"
    using assms by (auto simp: confirmation_token_for_request_def split: option.splits)
  ultimately show ?thesis
    by (cases "check_router router"; cases "confirmation_token_for_request confirm token router")
       (auto simp: two_call_def Let_def sx_ret_def [of "Inl _"] split: option.splits)
qed

end

end
