(* ===== verification/Idp_Package.thy ===== *)
theory Idp_Package
  imports Sig_Package
begin

text \<open>
  \<^verbatim>\<open>workflows/idp_package.rs\<close>: checking for, installing and rolling back the IDP signature package.
\<close>

section \<open>Data\<close>

datatype idp_action = IdpCheckServer | IdpDownloadAndInstall | IdpRollback

record idp_package_args =
  ia_router :: string
  ia_action :: idp_action
  ia_version :: "string option"
  ia_confirm :: bool
  ia_confirmation_token :: "string option"
  ia_timeout :: "u64 option"
  ia_include_raw :: bool

record idp_node =
  in_re_name :: string
  in_current_package_version :: "string option"
  in_current_detector_version :: "string option"
  in_current_rollback_version :: "string option"

record idp_check_server_data =
  ic_router :: string
  ic_service :: sig_service
  ic_topology :: topology
  ic_latest_version :: string
  ic_nodes :: "idp_node list"
  ic_update_available :: bool
  ic_raw_xml :: "string option"

record rollback_completed =
  rc_router :: string
  rc_service :: sig_service
  rc_topology :: topology
  rc_previous_package_version :: string
  rc_installed_package_version :: string
  rc_elapsed_seconds :: nat

datatype idp_response =
    IdpCheckServerResp idp_check_server_data
  | IdpInstallResp install_response
  | IdpRollbackResp rollback_completed

section \<open>Requests\<close>

definition idp_package_information :: srx_request where
  "idp_package_information = RpcCall ''get-idp-security-package-information''"

definition idp_check_server_req :: srx_request where
  "idp_check_server_req =
     RpcXml ''<request-idp-security-package-download><check-server/></request-idp-security-package-download>''"

definition idp_download :: srx_request where
  "idp_download = RpcCall ''request-idp-security-package-download''"

definition idp_download_status :: srx_request where
  "idp_download_status =
     RpcXml ''<request-idp-security-package-download><status/></request-idp-security-package-download>''"

definition idp_install :: srx_request where
  "idp_install = RpcCall ''request-idp-security-package-install''"

definition idp_install_status :: srx_request where
  "idp_install_status =
     RpcXml ''<request-idp-security-package-install><status/></request-idp-security-package-install>''"

definition idp_rollback_req :: srx_request where
  "idp_rollback_req = RpcCall ''request-idp-security-package-rollback''"

section \<open>Parsers\<close>

definition normalize_version_text :: "string \<Rightarrow> string option" where
  "normalize_version_text raw =
     (let t = str_trim raw in
      if t = [] \<or> eq_ignore_ascii_case t ''n/a'' \<or> starts_with ''N/A('' t then None else Some t)"

definition leading_version_number :: "string \<Rightarrow> string" where
  "leading_version_number v =
     (case find_char (CHR ''('') v of Some i \<Rightarrow> str_trim (take i v) | None \<Rightarrow> str_trim v)"

definition idp_node_of :: "xml_lib \<Rightarrow> re_node \<Rightarrow> idp_node" where
  "idp_node_of X node =
     (let field = (\<lambda>name. Option.bind (text_of X (inner_xml node) name) normalize_version_text)
      in \<lparr>in_re_name = re_name node, in_current_package_version = field ''security-package-version'',
          in_current_detector_version = field ''detector-version'',
          in_current_rollback_version = field ''security-package-rollback-version''\<rparr>)"

definition parse_package_information :: "xml_lib \<Rightarrow> string \<Rightarrow> idp_node list sres" where
  "parse_package_information X reply =
     and_then (multi_re_split X reply) (\<lambda>split.
       if split = [] then Inl (SchemaMismatch ''get-idp-security-package-information'' ''multi-routing-engine-item'')
       else Inr (map (idp_node_of X) split))"

definition parse_check_server_reply :: "xml_lib \<Rightarrow> string \<Rightarrow> string \<Rightarrow> string sres" where
  "parse_check_server_reply X reply router =
     (let msg = (if str_contains ''<xnm:error'' reply \<or> str_contains ''xmlns:xnm'' reply
                 then opt_str (text_of X reply ''message'') else [])
      in if msg \<noteq> [] then Inl (SignaturePackageServerUnreachable router msg)
         else
           (case text_of X reply ''secpack-download-status-detail'' of
              None \<Rightarrow> Inl (SchemaMismatch ''request-idp-security-package-download/check-server''
                             ''secpack-download-status-detail'')
            | Some detail \<Rightarrow>
                if str_contains ''Failed;'' detail then Inl (SignaturePackageServerUnreachable router detail)
                else
                  (case extract_version_info detail of
                     Some v \<Rightarrow> Inr v
                   | None \<Rightarrow> Inl (SrxParse (''request-idp-security-package-download/check-server: missing ''
                       @ [SQ] @ ''Version info:NNNN'' @ [SQ] @ '' in detail text: '' @ xl_debug X detail)))))"

definition parse_async_status_detail :: "string \<Rightarrow> async_status" where
  "parse_async_status_detail detail =
     (let t = str_trim detail in
      if str_contains ''Failed;'' t then AsyncFailed t
      else if starts_with ''Done;'' t then AsyncDone
      else AsyncPending)"

definition parse_rollback_ack :: "xml_lib \<Rightarrow> string \<Rightarrow> string \<Rightarrow> unit sres" where
  "parse_rollback_ack X reply router =
     (case parse_async_status_detail (opt_str (text_of X reply ''secpack-rollback-status-detail'')) of
        AsyncFailed d \<Rightarrow>
          if str_contains ''No backup available'' d then Inl (SignaturePackageNoRollbackTarget router)
          else Inl (SignaturePackageInstallFailed router d)
      | _ \<Rightarrow> Inr ())"

section \<open>Plans\<close>

definition version_matches :: "string \<Rightarrow> idp_node \<Rightarrow> bool" where
  "version_matches target n =
     (case in_current_package_version n of
        None \<Rightarrow> False
      | Some v \<Rightarrow> leading_version_number v = leading_version_number target)"

definition all_at_target :: "string \<Rightarrow> idp_node list \<Rightarrow> bool" where
  "all_at_target target nodes \<longleftrightarrow> nodes \<noteq> [] \<and> list_all (version_matches target) nodes"

definition build_plan :: "idp_check_server_data \<Rightarrow> string option \<Rightarrow> string list \<Rightarrow> plan_outcome" where
  "build_plan snapshot pinned blockers =
     (let target = resolve_target pinned (ic_latest_version snapshot) in
      if all_at_target target (ic_nodes snapshot)
      then AlreadyAtTarget (new_already_at_target (ic_router snapshot) (ic_service snapshot)
             (opt_str (in_current_package_version (hd (ic_nodes snapshot)))) target)
      else NeedsConfirmation (InstallPlan
        \<lparr>ip_router = ic_router snapshot, ip_service = ic_service snapshot, ip_topology = ic_topology snapshot,
         ip_nodes = map (\<lambda>n. \<lparr>nv_re_name = in_re_name n,
             nv_current_package_version = or_na (in_current_package_version n),
             nv_current_detector_version = in_current_detector_version n\<rparr>) (ic_nodes snapshot),
         ip_target_package_version = target,
         ip_target_source = (if is_pinned pinned then Pinned else LatestFromCheckServer),
         ip_latest_from_check_server = (if is_pinned pinned then Some (ic_latest_version snapshot) else None),
         ip_estimated_package_size_bytes = None, ip_estimated_install_duration_seconds = None,
         ip_preflight_blockers = blockers,
         ip_warning = ''Will download IDP signature package '' @ target @ '' and install it on '' @ ic_router snapshot
           @ '' ('' @ topology_words (ic_topology snapshot)
           @ ''). This briefly suspends IDP processing during attack-DB swap.''\<rparr>))"

definition rollback_target :: "idp_check_server_data \<Rightarrow> string \<Rightarrow> string sres" where
  "rollback_target snapshot router =
     (case find_map in_current_rollback_version (ic_nodes snapshot) of
        None \<Rightarrow> Inl (SignaturePackageNoRollbackTarget router)
      | Some t \<Rightarrow> Inr t)"

definition current_or_na :: "idp_check_server_data \<Rightarrow> string" where
  "current_or_na snapshot = or_na (find_map in_current_package_version (ic_nodes snapshot))"

definition build_rollback_plan :: "idp_check_server_data \<Rightarrow> string list \<Rightarrow> confirmation_plan sres" where
  "build_rollback_plan snapshot blockers =
     and_then (rollback_target snapshot (ic_router snapshot)) (\<lambda>target.
       let current = current_or_na snapshot in
       Inr (RollbackPlan
         \<lparr>rp_router = ic_router snapshot, rp_service = ic_service snapshot, rp_topology = ic_topology snapshot,
          rp_current_package_version = current, rp_rollback_target_version = target,
          rp_preflight_blockers = blockers,
          rp_warning = ''Will revert IDP signature package from '' @ leading_version_number current @ '' to ''
            @ leading_version_number target @ '' on '' @ ic_router snapshot
            @ '' ('' @ topology_words (ic_topology snapshot)
            @ ''). Brief IDP processing pause (~30s); no data-plane outage.''\<rparr>))"

section \<open>Checking the server\<close>

definition idp_check_server ::
    "'w srx_device \<Rightarrow> xml_lib \<Rightarrow> idp_package_args \<Rightarrow> (idp_check_server_data, 'w) srx_m" where
  "idp_check_server D X args =
     sx_bind (sx_ret (check_router (ia_router args))) (\<lambda>_.
     sx_bind (open_rpc D) (\<lambda>_.
     sx_bind (call D idp_package_information) (\<lambda>info.
     sx_bind (call D idp_check_server_req) (\<lambda>check.
     sx_bind (sx_ret (parse_package_information X info)) (\<lambda>nodes.
     sx_bind (sx_ret (parse_check_server_reply X check (ia_router args))) (\<lambda>latest.
       sx_ret (Inr \<lparr>ic_router = ia_router args, ic_service = ServiceIdp,
         ic_topology = (if 1 < length nodes then ChassisCluster else Standalone),
         ic_latest_version = latest, ic_nodes = nodes,
         ic_update_available = list_ex (\<lambda>n. \<not> version_matches latest n) nodes,
         ic_raw_xml = (if ia_include_raw args
           then Some (''<!-- package-information -->'' @ [NL] @ info @ [NL] @ ''<!-- check-server -->'' @ [NL] @ check)
           else None)\<rparr>)))))))"

definition idp_preflight ::
    "'w srx_device \<Rightarrow> xml_lib \<Rightarrow> idp_package_args \<Rightarrow> (idp_check_server_data \<times> string list, 'w) srx_m" where
  "idp_preflight D X args =
     sx_bind (license_active D X (ia_router args) Idp) (\<lambda>_.
     sx_bind (cluster_topology D X (ia_router args)) (\<lambda>topo.
     sx_bind (commit_window D X (ia_router args)) (\<lambda>blockers.
     sx_bind (idp_check_server D X args) (\<lambda>snapshot.
       sx_ret (Inr (snapshot\<lparr>ic_topology := topo\<rparr>, blockers))))))"

definition idp_preflight_rollback ::
    "'w srx_device \<Rightarrow> xml_lib \<Rightarrow> idp_package_args \<Rightarrow> (idp_check_server_data \<times> string list, 'w) srx_m" where
  "idp_preflight_rollback D X args =
     sx_bind (license_active D X (ia_router args) Idp) (\<lambda>_.
     sx_bind (cluster_topology D X (ia_router args)) (\<lambda>topo.
     sx_bind (commit_window D X (ia_router args)) (\<lambda>blockers.
     sx_bind (rpc_call D idp_package_information) (\<lambda>info.
     sx_bind (sx_ret (parse_package_information X info)) (\<lambda>nodes.
       sx_ret (Inr (\<lparr>ic_router = ia_router args, ic_service = ServiceIdp, ic_topology = topo,
         ic_latest_version = [], ic_nodes = nodes, ic_update_available = False, ic_raw_xml = None\<rparr>, blockers)))))))"

section \<open>Acting\<close>

definition idp_ctx :: "idp_package_args \<Rightarrow> string \<Rightarrow> string option \<Rightarrow> string \<Rightarrow> audit_ctx" where
  "idp_ctx args action caller correlation =
     \<lparr>ax_tool = ''manage_idp_security_package'', ax_router = ia_router args, ax_action = action, ax_service = ''idp'',
      ax_caller = (case caller of None \<Rightarrow> ''unknown'' | Some c \<Rightarrow> c), ax_correlation = correlation\<rparr>"

definition idp_download_and_poll ::
    "'w srx_device \<Rightarrow> xml_lib \<Rightarrow> idp_package_args \<Rightarrow> nat \<Rightarrow> nat \<Rightarrow> (unit, 'w) srx_m" where
  "idp_download_and_poll D X args outer_budget started =
     sx_bind (rpc_call D idp_download) (\<lambda>_.
       poll_phase D X parse_async_status_detail idp_download_status ''secpack-download-status-detail''
         (started + outer_budget) started (ia_router args) ''download'')"

definition idp_install_and_poll ::
    "'w srx_device \<Rightarrow> xml_lib \<Rightarrow> idp_package_args \<Rightarrow> nat \<Rightarrow> nat \<Rightarrow> (unit, 'w) srx_m" where
  "idp_install_and_poll D X args outer_budget started =
     sx_bind (rpc_call D idp_install) (\<lambda>_.
       poll_phase D X parse_async_status_detail idp_install_status ''secpack-status-detail''
         (started + outer_budget) started (ia_router args) ''install'')"

fun verify_nodes :: "string \<Rightarrow> string \<Rightarrow> idp_node list \<Rightarrow> unit sres" where
  "verify_nodes router target [] = Inr ()"
| "verify_nodes router target (n # ns) =
     (if version_matches target n then verify_nodes router target ns
      else Inl (SignaturePackageVerificationFailed router target (or_na (in_current_package_version n))))"

definition idp_verify_installed_version ::
    "'w srx_device \<Rightarrow> xml_lib \<Rightarrow> idp_package_args \<Rightarrow> string \<Rightarrow> (string, 'w) srx_m" where
  "idp_verify_installed_version D X args target =
     sx_bind (rpc_call D idp_package_information) (\<lambda>info.
     sx_bind (sx_ret (parse_package_information X info)) (\<lambda>nodes.
     sx_bind (sx_ret (verify_nodes (ia_router args) target nodes)) (\<lambda>_.
       sx_ret (Inr (case find_map in_current_package_version nodes of None \<Rightarrow> target | Some v \<Rightarrow> v)))))"

definition idp_run_destructive ::
    "'w srx_device \<Rightarrow> xml_lib \<Rightarrow> (json \<Rightarrow> string) \<Rightarrow> idp_package_args \<Rightarrow> string option \<Rightarrow> string
      \<Rightarrow> idp_check_server_data \<Rightarrow> (install_response, 'w) srx_m" where
  "idp_run_destructive D X pj args caller rid snapshot s0 =
     (let started = sx_now s0;
          outer_budget = clamp_timeout (ia_timeout args);
          target = resolve_target (ia_version args) (ic_latest_version snapshot);
          current = current_or_na snapshot;
          ctx = idp_ctx args ''download_and_install'' caller rid
      in if all_at_target target (ic_nodes snapshot)
         then sx_ret (Inr (InstallAlreadyAtTarget (new_already_at_target (ia_router args) ServiceIdp
                (opt_str (in_current_package_version (hd (ic_nodes snapshot)))) target))) s0
         else
           sx_bind (put_audit pj ctx ''preflight_passed'' current target) (\<lambda>_.
           sx_bind (audit_failure pj ctx current target (idp_download_and_poll D X args outer_budget started)) (\<lambda>_.
           sx_bind (put_audit pj ctx ''download_complete'' current target) (\<lambda>_.
           sx_bind (audit_failure pj ctx current target (idp_install_and_poll D X args outer_budget started)) (\<lambda>_.
           sx_bind (put_audit pj ctx ''install_complete'' current target) (\<lambda>_.
           sx_bind (audit_failure pj ctx current target (idp_verify_installed_version D X args target)) (\<lambda>installed.
           sx_bind (put_audit pj ctx ''verified'' installed target) (\<lambda>_ s.
             Some (Inr (InstallCompleted \<lparr>dc_router = ia_router args, dc_service = ServiceIdp,
               dc_topology = ic_topology snapshot, dc_target_package_version = target,
               dc_installed_package_version = installed,
               dc_elapsed_seconds = (sx_now s - started) div 1000\<rparr>), s)))))))) s0)"

text \<open>
  The rollback reports a failed request, a refusal in the reply and a failed verification to the audit log; obtaining
  the executor is outside of that.
\<close>

definition idp_run_rollback_destructive ::
    "'w srx_device \<Rightarrow> xml_lib \<Rightarrow> (json \<Rightarrow> string) \<Rightarrow> idp_package_args \<Rightarrow> string option \<Rightarrow> string
      \<Rightarrow> idp_check_server_data \<Rightarrow> (rollback_completed, 'w) srx_m" where
  "idp_run_rollback_destructive D X pj args caller rid snapshot s0 =
     (let started = sx_now s0;
          previous = current_or_na snapshot;
          ctx = idp_ctx args ''rollback'' caller rid
      in sx_bind (sx_ret (rollback_target snapshot (ia_router args))) (\<lambda>target.
         sx_bind (put_audit pj ctx ''preflight_passed'' previous target) (\<lambda>_.
         sx_bind (open_rpc D) (\<lambda>_.
         sx_bind (audit_failure pj ctx previous target (call D idp_rollback_req)) (\<lambda>reply.
         sx_bind (audit_failure pj ctx previous target (sx_ret (parse_rollback_ack X reply (ia_router args)))) (\<lambda>_.
         sx_bind (put_audit pj ctx ''install_complete'' previous target) (\<lambda>_.
         sx_bind (audit_failure pj ctx previous target (idp_verify_installed_version D X args target)) (\<lambda>installed.
         sx_bind (put_audit pj ctx ''verified'' installed target) (\<lambda>_ s.
           Some (Inr \<lparr>rc_router = ia_router args, rc_service = ServiceIdp, rc_topology = ic_topology snapshot,
             rc_previous_package_version = previous, rc_installed_package_version = installed,
             rc_elapsed_seconds = (sx_now s - started) div 1000\<rparr>, s))))))))) s0)"

section \<open>The verbs\<close>

definition idp_plan :: "idp_package_args \<Rightarrow> idp_check_server_data \<times> string list \<Rightarrow> (install_response + json) sres" where
  "idp_plan args = (\<lambda>(snapshot, _). Inr (install_outcome (build_plan snapshot (ia_version args) [])))"

definition idp_rollback_plan :: "idp_check_server_data \<times> string list \<Rightarrow> (rollback_completed + json) sres" where
  "idp_rollback_plan = (\<lambda>(snapshot, _). and_then (build_rollback_plan snapshot []) (\<lambda>plan. Inr (Inr (plan_to_value plan))))"

definition idp_download_and_install ::
    "conf_lib \<Rightarrow> 'w srx_device \<Rightarrow> xml_lib \<Rightarrow> (json \<Rightarrow> string) \<Rightarrow> idp_package_args \<Rightarrow> string option \<Rightarrow> string \<Rightarrow> string
      \<Rightarrow> (install_response, 'w) srx_m" where
  "idp_download_and_install L D X pj args caller identity rid =
     two_call L D (ia_router args) ''manage_idp_security_package/download_and_install'' caller identity rid
       (ia_confirm args) (ia_confirmation_token args)
       (idp_preflight D X args) (idp_plan args)
       (\<lambda>confirmed (snapshot, _). idp_run_destructive D X pj args caller confirmed snapshot)"

definition idp_rollback ::
    "conf_lib \<Rightarrow> 'w srx_device \<Rightarrow> xml_lib \<Rightarrow> (json \<Rightarrow> string) \<Rightarrow> idp_package_args \<Rightarrow> string option \<Rightarrow> string \<Rightarrow> string
      \<Rightarrow> (rollback_completed, 'w) srx_m" where
  "idp_rollback L D X pj args caller identity rid =
     two_call L D (ia_router args) ''manage_idp_security_package/rollback'' caller identity rid
       (ia_confirm args) (ia_confirmation_token args)
       (idp_preflight_rollback D X args) idp_rollback_plan
       (\<lambda>confirmed (snapshot, _). idp_run_rollback_destructive D X pj args caller confirmed snapshot)"

definition idp_run ::
    "conf_lib \<Rightarrow> 'w srx_device \<Rightarrow> xml_lib \<Rightarrow> (json \<Rightarrow> string) \<Rightarrow> idp_package_args \<Rightarrow> string option \<Rightarrow> string \<Rightarrow> string
      \<Rightarrow> (idp_response, 'w) srx_m" where
  "idp_run L D X pj args caller identity rid =
     (case ia_action args of
        IdpCheckServer \<Rightarrow> sx_map IdpCheckServerResp (idp_check_server D X args)
      | IdpDownloadAndInstall \<Rightarrow> sx_map IdpInstallResp (idp_download_and_install L D X pj args caller identity rid)
      | IdpRollback \<Rightarrow> sx_map IdpRollbackResp (idp_rollback L D X pj args caller identity rid))"

section \<open>What the steps can do\<close>

definition idp_changes :: "srx_request \<Rightarrow> bool" where
  "idp_changes req \<longleftrightarrow> req = idp_download \<or> req = idp_install \<or> req = idp_rollback_req"

lemmas idp_requests = idp_changes_def idp_package_information_def idp_check_server_req_def idp_download_def
  idp_download_status_def idp_install_def idp_install_status_def idp_rollback_req_def

lemma framed_idp_check_server [frame_intros]: "framed (harmless idp_changes) (idp_check_server D X args)"
  unfolding idp_check_server_def by (intro frame_intros) (simp_all add: idp_requests)

lemma framed_idp_preflight: "framed (harmless idp_changes) (idp_preflight D X args)"
  unfolding idp_preflight_def by (intro frame_intros) (simp_all add: idp_requests)

lemma framed_idp_preflight_rollback: "framed (harmless idp_changes) (idp_preflight_rollback D X args)"
  unfolding idp_preflight_rollback_def by (intro frame_intros) (simp_all add: idp_requests)

lemma framed_idp_polls [frame_intros]:
  "framed working (idp_download_and_poll D X args b t)" "framed working (idp_install_and_poll D X args b t)"
  "framed working (idp_verify_installed_version D X args target)"
  unfolding idp_download_and_poll_def idp_install_and_poll_def idp_verify_installed_version_def
  by (intro frame_intros; simp)+

lemma framed_idp_run_destructive: "framed working (idp_run_destructive D X pj args caller rid snapshot)"
proof (rule framedI)
  fix s
  show "\<exists>r s' evs. idp_run_destructive D X pj args caller rid snapshot s = Some (r, s') \<and> sx_log s' = sx_log s @ evs
      \<and> list_all working evs \<and> sx_store s' = sx_store s"
    unfolding idp_run_destructive_def Let_def
    by (cases "all_at_target (resolve_target (ia_version args) (ic_latest_version snapshot)) (ic_nodes snapshot)";
        simp only: if_True if_False; rule framedD; (intro frame_intros; simp)+)
qed

lemma framed_idp_run_rollback: "framed working (idp_run_rollback_destructive D X pj args caller rid snapshot)"
proof (rule framedI)
  fix s
  show "\<exists>r s' evs. idp_run_rollback_destructive D X pj args caller rid snapshot s = Some (r, s')
      \<and> sx_log s' = sx_log s @ evs \<and> list_all working evs \<and> sx_store s' = sx_store s"
    unfolding idp_run_rollback_destructive_def Let_def by (rule framedD; (intro frame_intros; simp)+)
qed

interpretation idp_installing: confirmed_verb idp_changes "idp_preflight D X args"
  "\<lambda>confirmed (snapshot, _). idp_run_destructive D X pj args caller confirmed snapshot"
  by unfold_locales (auto intro: framed_idp_preflight framed_idp_run_destructive split: prod.split)

interpretation idp_reverting: confirmed_verb idp_changes "idp_preflight_rollback D X args"
  "\<lambda>confirmed (snapshot, _). idp_run_rollback_destructive D X pj args caller confirmed snapshot"
  by unfold_locales (auto intro: framed_idp_preflight_rollback framed_idp_run_rollback split: prod.split)

section \<open>Properties\<close>

text \<open>Which confirmation allows an action: one for the plan that the verb of the action makes.\<close>

definition idp_entry ::
    "conf_lib \<Rightarrow> 'w srx_device \<Rightarrow> xml_lib \<Rightarrow> idp_package_args \<Rightarrow> confirmation_binding \<Rightarrow> confirmation_store \<Rightarrow> string \<Rightarrow> bool" where
  "idp_entry L D X args b st d \<longleftrightarrow>
     (case ia_action args of
        IdpCheckServer \<Rightarrow> False
      | IdpDownloadAndInstall \<Rightarrow> entry_for L (idp_preflight D X args) (idp_plan args) b st d
      | IdpRollback \<Rightarrow> entry_for L (idp_preflight_rollback D X args) idp_rollback_plan b st d)"

text \<open>
  C4. Whatever the arguments, the device and the replies: a download, install or rollback request is sent only while
  this router's lease is held and after the caller's token was used up under that lease; the lease is given back on
  every path; without \<^verbatim>\<open>confirm\<close> nothing on the device is changed; and the confirmation that was used
  was issued to this caller for this router and device, for a plan with the digest of the plan made again under the
  lease.
\<close>

theorem idp_changes_are_authorised:
  assumes "idp_run L D X pj args caller identity rid s = Some (r, s')"
  shows "\<exists>evs. sx_log s' = sx_log s @ evs \<and> authorised idp_changes (ia_router args) False False evs
     \<and> (\<not> ia_confirm args \<longrightarrow> list_all (harmless idp_changes) evs)
     \<and> (\<forall>d. PlanConfirmed d \<in> set evs \<longrightarrow>
          idp_entry L D X args (new_binding caller (ia_router args) identity) (sx_store s) d)"
proof (cases "ia_action args")
  case IdpCheckServer
  then obtain r0 where "idp_check_server D X args s = Some (r0, s')"
    using assms by (auto simp: idp_run_def dest: sx_map_run)
  then obtain evs where "sx_log s' = sx_log s @ evs" "list_all (harmless idp_changes) evs"
    using framedE [OF framed_idp_check_server [of D X args], of s] by (metis Pair_inject option.inject)
  then show ?thesis using authorised_harmless [of idp_changes evs "ia_router args" False False "[]"] harmless_no_confirm
    by fastforce
next
  case IdpDownloadAndInstall
  then obtain r0 where "idp_download_and_install L D X pj args caller identity rid s = Some (r0, s')"
    using assms by (auto simp: idp_run_def dest: sx_map_run)
  then show ?thesis using IdpDownloadAndInstall
    by (simp add: idp_download_and_install_def idp_entry_def idp_installing.two_call_authorised)
next
  case IdpRollback
  then obtain r0 where "idp_rollback L D X pj args caller identity rid s = Some (r0, s')"
    using assms by (auto simp: idp_run_def dest: sx_map_run)
  then show ?thesis using IdpRollback
    by (simp add: idp_rollback_def idp_entry_def idp_reverting.two_call_authorised)
qed

text \<open>
  C19. A confirmed call always returns, however long the device reports an operation as pending: both polls stop at
  the budget of the call.
\<close>

theorem idp_confirmed_call_returns:
  assumes "ia_confirm args"
  shows "idp_run L D X pj args caller identity rid s \<noteq> None"
proof -
  have "idp_check_server D X args s \<noteq> None" by (rule framedE [OF framed_idp_check_server, of D X args s]) simp
  moreover have "idp_download_and_install L D X pj args caller identity rid s \<noteq> None"
    unfolding idp_download_and_install_def by (rule idp_installing.two_call_returns [OF assms])
  moreover have "idp_rollback L D X pj args caller identity rid s \<noteq> None"
    unfolding idp_rollback_def by (rule idp_reverting.two_call_returns [OF assms])
  ultimately show ?thesis by (cases "ia_action args") (simp_all add: idp_run_def sx_map_None_iff)
qed

lemma verify_nodes_Inr_iff: "verify_nodes router target nodes = Inr () \<longleftrightarrow> list_all (version_matches target) nodes"
  by (induction nodes) auto

lemma parse_package_information_nodes: "parse_package_information X reply = Inr nodes \<Longrightarrow> nodes \<noteq> []"
  by (auto simp: parse_package_information_def and_then_def split: sum.splits if_splits)

definition idp_reports :: "xml_lib \<Rightarrow> string \<Rightarrow> string \<Rightarrow> bool" where
  "idp_reports X target reply \<longleftrightarrow>
     (\<exists>nodes. parse_package_information X reply = Inr nodes \<and> all_at_target target nodes)"

lemma idp_verify_Inr:
  assumes "idp_verify_installed_version D X args target s = Some (Inr installed, s')"
  shows "last_answer D idp_package_information (idp_reports X target) s'"
proof -
  from assms obtain info s1 nodes where i: "rpc_call D idp_package_information s = Some (Inr info, s1)"
    "parse_package_information X info = Inr nodes" "verify_nodes (ia_router args) target nodes = Inr ()" "s' = s1"
    by (auto simp: idp_verify_installed_version_def sx_bind_Inr_iff sx_ret_def)
  then have "idp_reports X target info"
    by (auto simp: idp_reports_def all_at_target_def verify_nodes_Inr_iff dest: parse_package_information_nodes)
  with rpc_call_Inr [OF i(1)] i(4) show ?thesis by (auto simp: last_answer_def)
qed

text \<open>
  C18. An install that was planned and answers without an error is a completed one: it answers for the version named in
  the confirmed plan, and the last thing the device said is that every node runs that version.
\<close>

theorem idp_install_is_verified:
  assumes "build_plan snapshot (ia_version args) blockers = NeedsConfirmation (InstallPlan p)"
    and "idp_run_destructive D X pj args caller rid snapshot s = Some (Inr resp, s')"
  shows "\<exists>d. resp = InstallCompleted d \<and> dc_target_package_version d = ip_target_package_version p
     \<and> last_answer D idp_package_information (idp_reports X (ip_target_package_version p)) s'"
proof -
  let ?t = "resolve_target (ia_version args) (ic_latest_version snapshot)"
  have n: "\<not> all_at_target ?t (ic_nodes snapshot)" and t: "ip_target_package_version p = ?t"
    using assms(1) by (auto simp: build_plan_def Let_def split: if_splits)
  from n assms(2) obtain d installed s1 s2 where "resp = InstallCompleted d" "dc_target_package_version d = ?t"
    "idp_verify_installed_version D X args ?t s1 = Some (Inr installed, s2)"
    "last_answer D idp_package_information (idp_reports X ?t) s' = last_answer D idp_package_information (idp_reports X ?t) s2"
    by (auto simp: idp_run_destructive_def Let_def sx_bind_Inr_iff)
  then show ?thesis using t idp_verify_Inr [of D X args ?t s1 installed s2] by auto
qed

text \<open>Whatever makes a confirmed install fail is the last line of the audit log, with its code and text.\<close>

theorem idp_install_failure_is_audited:
  assumes "idp_run_destructive D X pj args caller rid snapshot s = Some (Inl e, s')"
  shows "failure_recorded pj (idp_ctx args ''download_and_install'' caller rid) e s'"
  using assms by (auto simp: idp_run_destructive_def Let_def sx_bind_Inl_iff sx_ret_def split: if_splits dest: audit_failure_Inl)

section \<open>A laboratory\<close>

definition lab_text :: "string \<Rightarrow> string \<Rightarrow> xnode" where
  "lab_text name t = XElem name [] [XText t]"

fun lab_idp_reply :: "string \<Rightarrow> xnode" where
  "lab_idp_reply [] = XElem ''ok'' [] []"
| "lab_idp_reply (c # _) =
     (if c = CHR ''o'' then lab_text ''security-package-version'' ''3900''
      else if c = CHR ''n'' then lab_text ''security-package-version'' ''3910''
      else if c = CHR ''c'' then lab_text ''secpack-download-status-detail'' ''Version info:3910''
      else if c = CHR ''d'' then lab_text ''secpack-download-status-detail'' ''Done;''
      else if c = CHR ''i'' then lab_text ''secpack-status-detail'' ''Done;''
      else XElem ''ok'' [] [])"

definition lab_xl :: xml_lib where
  "lab_xl = \<lparr>xl_parse = \<lambda>s. Inr (lab_idp_reply s), xl_escape = id, xl_lowercase = id, xl_debug = id, xl_rfc3339 = \<lambda>s. Inl s\<rparr>"

definition lab_answer :: "srx_request \<Rightarrow> nat \<Rightarrow> string" where
  "lab_answer req w =
     (if req = idp_package_information then (if w < 4 then ''o'' else ''n'')
      else if req = idp_check_server_req then ''c''
      else if req = idp_download_status then ''d''
      else if req = idp_install_status then ''i'' else ''x'')"

definition lab_srx :: "nat srx_device" where
  "lab_srx = \<lparr>sd_rpc = \<lambda>_. Inr (), sd_call = \<lambda>req w. (Inr (lab_answer req w), 1, Suc w),
     sd_acquire = \<lambda>_ _ _ w. (Inr (), 1, w), sd_release = \<lambda>_ w. w\<rparr>"

definition lab_idp_args :: idp_package_args where
  "lab_idp_args = \<lparr>ia_router = ''srx1'', ia_action = IdpDownloadAndInstall, ia_version = None, ia_confirm = True,
     ia_confirmation_token = Some ''tok'', ia_timeout = None, ia_include_raw = False\<rparr>"

definition lab_srx_run :: "nat srx_run" where
  "lab_srx_run = \<lparr>sx_now = 0, sx_world = 0, sx_store = \<lparr>st_entries = [(''tok'', lab_pending)], st_ttl = 10, st_capacity = 1\<rparr>,
     sx_draws = [], sx_log = []\<rparr>"

definition lab_snapshot :: idp_check_server_data where
  "lab_snapshot = \<lparr>ic_router = ''srx1'', ic_service = ServiceIdp, ic_topology = Standalone, ic_latest_version = ''3910'',
     ic_nodes = [\<lparr>in_re_name = [], in_current_package_version = Some ''3900'', in_current_detector_version = None,
       in_current_rollback_version = None\<rparr>], ic_update_available = True, ic_raw_xml = None\<rparr>"

abbreviation lab_next :: "srx_request \<Rightarrow> nat srx_run \<Rightarrow> nat srx_run" where
  "lab_next req s \<equiv> emit (Sent req) (s\<lparr>sx_now := Suc (sx_now s), sx_world := Suc (sx_world s)\<rparr>)"

lemma lab_send: "send lab_srx req s = (Inr (lab_answer req (sx_world s)), lab_next req s)"
  by (simp add: send_def lab_srx_def map_err_def)

lemma lab_rpc_call: "rpc_call lab_srx req s = Some (Inr (lab_answer req (sx_world s)), lab_next req s)"
proof -
  have "open_rpc lab_srx s = Some (Inr (), s)" by (simp add: open_rpc_def lab_srx_def map_err_def)
  then show ?thesis by (simp add: rpc_call_def sx_bind_def call_def lab_send)
qed

lemma lab_texts:
  "text_of lab_xl ''d'' ''secpack-download-status-detail'' = Some ''Done;''"
  "text_of lab_xl ''i'' ''secpack-status-detail'' = Some ''Done;''"
  "parse_async_status_detail ''Done;'' = AsyncDone"
  "parse_package_information lab_xl ''n'' = Inr [\<lparr>in_re_name = [], in_current_package_version = Some ''3910'',
     in_current_detector_version = None, in_current_rollback_version = None\<rparr>]"
  "leading_version_number ''3910'' = ''3910''" "leading_version_number ''3900'' = ''3900''"
  by code_simp+

lemma lab_polled:
  assumes "sx_now s < deadline" "text_of lab_xl (lab_answer req (sx_world s)) el = Some ''Done;''"
  shows "poll_phase lab_srx lab_xl parse_async_status_detail req el deadline started router action s = Some (Inr (), lab_next req s)"
proof -
  have "sd_rpc lab_srx (sx_world s) = Inr ()" by (simp add: lab_srx_def)
  then show ?thesis using assms unfolding poll_phase_def
    by (subst poll_status.simps) (simp add: lab_send opt_str_def lab_texts map_err_def)
qed

lemma lab_budget: "clamp_timeout None = 600000"
  by (simp add: clamp_timeout_def)

lemma lab_answers:
  "lab_answer idp_download w = ''x''" "lab_answer idp_install w = ''x''"
  "lab_answer idp_download_status w = ''d''" "lab_answer idp_install_status w = ''i''"
  "lab_answer idp_package_information (Suc (Suc (Suc (Suc 0)))) = ''n''"
  by (simp_all add: lab_answer_def idp_requests)

lemma lab_fields:
  "sx_now lab_srx_run = 0" "sx_world lab_srx_run = 0" "ia_timeout lab_idp_args = None" "ia_version lab_idp_args = None"
  "ic_latest_version lab_snapshot = ''3910''"
  "\<not> all_at_target ''3910'' (ic_nodes lab_snapshot)"
  by (simp_all add: lab_srx_run_def lab_idp_args_def lab_snapshot_def all_at_target_def version_matches_def lab_texts)

lemma lab_installs:
  "\<exists>resp s'. idp_run_destructive lab_srx lab_xl (\<lambda>_. []) lab_idp_args (Some ''ops'') ''c1'' lab_snapshot lab_srx_run
     = Some (Inr resp, s')"
  unfolding idp_run_destructive_def Let_def
  by (simp add: lab_fields lab_budget resolve_target_def sx_bind_Inr_iff idp_download_and_poll_def idp_install_and_poll_def
      idp_verify_installed_version_def lab_rpc_call lab_polled lab_answers lab_texts sx_ret_def version_matches_def)

lemma lab_idp_confirm:
  "ia_confirm lab_idp_args" "ia_router lab_idp_args = ''srx1''" "ia_action lab_idp_args = IdpDownloadAndInstall"
  by (simp_all add: lab_idp_args_def)

theorem idp_changes_are_authorised_witness:
  "\<exists>r s'. idp_run lab_cl lab_srx lab_xl (\<lambda>_. []) lab_idp_args (Some ''ops'') ''id1'' ''c1'' lab_srx_run = Some (r, s')
     \<and> authorised idp_changes ''srx1'' False False (sx_log s')"
proof -
  have "idp_download_and_install lab_cl lab_srx lab_xl (\<lambda>_. []) lab_idp_args (Some ''ops'') ''id1'' ''c1'' lab_srx_run \<noteq> None"
    unfolding idp_download_and_install_def by (rule idp_installing.two_call_returns [OF lab_idp_confirm(1)])
  then have "idp_run lab_cl lab_srx lab_xl (\<lambda>_. []) lab_idp_args (Some ''ops'') ''id1'' ''c1'' lab_srx_run \<noteq> None"
    unfolding idp_run_def lab_idp_confirm(3) idp_action.case sx_map_None_iff .
  then obtain r s' where
    run: "idp_run lab_cl lab_srx lab_xl (\<lambda>_. []) lab_idp_args (Some ''ops'') ''id1'' ''c1'' lab_srx_run = Some (r, s')"
    by fast
  from idp_changes_are_authorised [OF run] run show ?thesis by (auto simp: lab_idp_confirm lab_srx_run_def)
qed

theorem idp_confirmed_call_returns_witness:
  "idp_run lab_cl lab_srx lab_xl (\<lambda>_. []) lab_idp_args (Some ''ops'') ''id1'' ''c1'' lab_srx_run \<noteq> None"
  by (rule idp_confirmed_call_returns [OF lab_idp_confirm(1)])

theorem idp_install_is_verified_witness:
  "\<exists>d s'. idp_run_destructive lab_srx lab_xl (\<lambda>_. []) lab_idp_args (Some ''ops'') ''c1'' lab_snapshot lab_srx_run
       = Some (Inr (InstallCompleted d), s')
     \<and> dc_target_package_version d = ''3910'' \<and> last_answer lab_srx idp_package_information (idp_reports lab_xl ''3910'') s'"
proof -
  obtain p where p: "build_plan lab_snapshot (ia_version lab_idp_args) [] = NeedsConfirmation (InstallPlan p)"
    "ip_target_package_version p = ''3910''"
    by (simp add: build_plan_def lab_fields resolve_target_def)
  obtain resp s' where
    "idp_run_destructive lab_srx lab_xl (\<lambda>_. []) lab_idp_args (Some ''ops'') ''c1'' lab_snapshot lab_srx_run = Some (Inr resp, s')"
    using lab_installs by blast
  with idp_install_is_verified [OF p(1) this] p(2) show ?thesis by auto
qed

definition lab_dead :: "nat srx_device" where
  "lab_dead = lab_srx\<lparr>sd_rpc := \<lambda>_. Inl (RustEzError RzOther ''closed'')\<rparr>"

theorem idp_install_failure_is_audited_witness:
  "\<exists>e s'. idp_run_destructive lab_dead lab_xl (\<lambda>_. []) lab_idp_args (Some ''ops'') ''c1'' lab_snapshot lab_srx_run
       = Some (Inl e, s') \<and> failure_recorded (\<lambda>_. []) (idp_ctx lab_idp_args ''download_and_install'' (Some ''ops'') ''c1'') e s'"
proof -
  have "\<exists>e. idp_download_and_poll lab_dead lab_xl lab_idp_args b t s = Some (Inl e, s)" for b t s
    by (simp add: idp_download_and_poll_def rpc_call_def open_rpc_def lab_dead_def sx_bind_def map_err_def)
  then have "\<exists>e s'. idp_run_destructive lab_dead lab_xl (\<lambda>_. []) lab_idp_args (Some ''ops'') ''c1'' lab_snapshot lab_srx_run
       = Some (Inl e, s')"
    unfolding idp_run_destructive_def Let_def
    by (simp add: lab_fields resolve_target_def sx_bind_Inl_iff audit_failure_Inl_iff) metis
  then show ?thesis using idp_install_failure_is_audited by blast
qed

end
