(* ===== verification/Appid_Package.thy ===== *)
theory Appid_Package
  imports Sig_Package
begin

text \<open>
  \<^verbatim>\<open>workflows/appid_package.rs\<close>: checking for, installing and uninstalling the AppID signature package.
\<close>

section \<open>Data\<close>

datatype appid_action = AppidCheckServer | AppidDownloadAndInstall | AppidUninstall

record appid_package_args =
  ap_router :: string
  ap_action :: appid_action
  ap_version :: "string option"
  ap_confirm :: bool
  ap_confirmation_token :: "string option"
  ap_timeout :: "u64 option"
  ap_include_raw :: bool

record appid_node =
  an_re_name :: string
  an_current_package_version :: "string option"
  an_release_date :: "string option"

record appid_check_server_data =
  ac_router :: string
  ac_service :: sig_service
  ac_topology :: topology
  ac_latest_version :: string
  ac_nodes :: "appid_node list"
  ac_update_available :: bool
  ac_raw_xml :: "string option"

record uninstall_completed =
  uc_router :: string
  uc_service :: sig_service
  uc_topology :: topology
  uc_previous_package_version :: string
  uc_elapsed_seconds :: nat

datatype appid_response =
    AppidCheckServerResp appid_check_server_data
  | AppidInstallResp install_response
  | AppidUninstallResp uninstall_completed

section \<open>Requests\<close>

definition appid_package_version :: srx_request where
  "appid_package_version = RpcCall ''get-appid-package-version''"

definition appid_check_server_req :: srx_request where
  "appid_check_server_req = RpcCall ''request-appid-application-package-download-check-server''"

definition appid_download :: srx_request where
  "appid_download = RpcCall ''request-appid-application-package-download''"

definition appid_download_status :: srx_request where
  "appid_download_status = RpcCall ''request-appid-application-package-download-status''"

definition appid_install :: srx_request where
  "appid_install = RpcCall ''request-appid-application-package-install''"

definition appid_install_status :: srx_request where
  "appid_install_status = RpcCall ''request-appid-application-package-install-status''"

definition appid_uninstall_req :: srx_request where
  "appid_uninstall_req = RpcCall ''request-appid-application-package-uninstall''"

definition appid_uninstall_status :: srx_request where
  "appid_uninstall_status = RpcCall ''request-appid-application-package-uninstall-status''"

section \<open>Parsers\<close>

definition appid_normalize_version_text :: "string \<Rightarrow> string option" where
  "appid_normalize_version_text raw =
     (let t = str_trim raw in
      if t = [] \<or> eq_ignore_ascii_case t ''n/a'' \<or> starts_with ''N/A('' t \<or> t = ''0'' then None else Some t)"

fun find_paren_or_space :: "string \<Rightarrow> nat option" where
  "find_paren_or_space [] = None"
| "find_paren_or_space (c # s) =
     (if c = CHR ''('' \<or> c = CHR '' '' then Some 0 else map_option Suc (find_paren_or_space s))"

definition appid_leading_version_number :: "string \<Rightarrow> string" where
  "appid_leading_version_number v =
     (let trimmed = str_trim v in
      case find_paren_or_space trimmed of Some i \<Rightarrow> str_trim (take i trimmed) | None \<Rightarrow> trimmed)"

definition appid_node_of :: "xml_lib \<Rightarrow> re_node \<Rightarrow> appid_node" where
  "appid_node_of X node =
     (let field = (\<lambda>name. Option.bind (text_of X (inner_xml node) name) appid_normalize_version_text)
      in \<lparr>an_re_name = re_name node, an_current_package_version = field ''version-detail'',
          an_release_date = field ''release-date''\<rparr>)"

definition parse_package_version :: "xml_lib \<Rightarrow> string \<Rightarrow> appid_node list sres" where
  "parse_package_version X reply =
     and_then (multi_re_split X reply) (\<lambda>split.
       if split = [] then Inl (SchemaMismatch ''get-appid-package-version'' ''multi-routing-engine-item'')
       else Inr (map (appid_node_of X) split))"

definition appid_parse_check_server_reply :: "xml_lib \<Rightarrow> string \<Rightarrow> string \<Rightarrow> string sres" where
  "appid_parse_check_server_reply X reply router =
     (let msg = (if str_contains ''<xnm:error'' reply \<or> str_contains ''xmlns:xnm'' reply
                 then opt_str (text_of X reply ''message'') else [])
      in if msg \<noteq> [] then Inl (SignaturePackageServerUnreachable router msg)
         else
           (case text_of X reply ''apppack-server-status-detail'' of
              None \<Rightarrow> Inl (SchemaMismatch ''request-appid-application-package-download-check-server''
                             ''apppack-server-status-detail'')
            | Some detail \<Rightarrow>
                (let dlower = xl_lowercase X detail in
                 if str_contains ''not reachable'' dlower \<or> str_contains ''verification failed'' dlower
                    \<or> str_contains ''failed;'' dlower \<or> str_contains ''could not connect'' dlower
                 then Inl (SignaturePackageServerUnreachable router detail)
                 else
                   (case extract_version_info detail of
                      Some v \<Rightarrow> Inr v
                    | None \<Rightarrow> Inl (SrxParse (''request-appid-application-package-download-check-server: missing ''
                        @ [SQ] @ ''Version info:NNNN'' @ [SQ] @ '' in detail text: '' @ xl_debug X detail))))))"

definition appid_parse_async_status_detail :: "xml_lib \<Rightarrow> string \<Rightarrow> async_status" where
  "appid_parse_async_status_detail X detail =
     (let t = str_trim detail; lower = xl_lowercase X t in
      if str_contains ''failed'' lower then AsyncFailed t
      else if starts_with ''downloaded'' lower \<or> starts_with ''installed'' lower \<or> starts_with ''uninstalled'' lower
      then AsyncDone
      else AsyncPending)"

section \<open>Plans\<close>

definition appid_version_matches :: "string \<Rightarrow> appid_node \<Rightarrow> bool" where
  "appid_version_matches target n =
     (case an_current_package_version n of
        None \<Rightarrow> False
      | Some v \<Rightarrow> appid_leading_version_number v = appid_leading_version_number target)"

definition appid_all_at_target :: "string \<Rightarrow> appid_node list \<Rightarrow> bool" where
  "appid_all_at_target target nodes \<longleftrightarrow> nodes \<noteq> [] \<and> list_all (appid_version_matches target) nodes"

definition appid_build_plan :: "appid_check_server_data \<Rightarrow> string option \<Rightarrow> string list \<Rightarrow> plan_outcome" where
  "appid_build_plan snapshot pinned blockers =
     (let target = resolve_target pinned (ac_latest_version snapshot) in
      if appid_all_at_target target (ac_nodes snapshot)
      then AlreadyAtTarget (new_already_at_target (ac_router snapshot) (ac_service snapshot)
             (opt_str (an_current_package_version (hd (ac_nodes snapshot)))) target)
      else NeedsConfirmation (InstallPlan
        \<lparr>ip_router = ac_router snapshot, ip_service = ac_service snapshot, ip_topology = ac_topology snapshot,
         ip_nodes = map (\<lambda>n. \<lparr>nv_re_name = an_re_name n,
             nv_current_package_version = or_na (an_current_package_version n),
             nv_current_detector_version = None\<rparr>) (ac_nodes snapshot),
         ip_target_package_version = target,
         ip_target_source = (if is_pinned pinned then Pinned else LatestFromCheckServer),
         ip_latest_from_check_server = (if is_pinned pinned then Some (ac_latest_version snapshot) else None),
         ip_estimated_package_size_bytes = None, ip_estimated_install_duration_seconds = None,
         ip_preflight_blockers = blockers,
         ip_warning = ''Will download AppID application package '' @ target @ '' and install it on ''
           @ ac_router snapshot @ '' ('' @ topology_words (ac_topology snapshot)
           @ ''). This briefly suspends application identification during package swap.''\<rparr>))"

definition uninstall_target :: "appid_check_server_data \<Rightarrow> string \<Rightarrow> string sres" where
  "uninstall_target snapshot router =
     (case find_map an_current_package_version (ac_nodes snapshot) of
        None \<Rightarrow> Inl (SignaturePackageNoUninstallTarget router)
      | Some v \<Rightarrow> Inr v)"

definition build_uninstall_plan :: "appid_check_server_data \<Rightarrow> string list \<Rightarrow> confirmation_plan sres" where
  "build_uninstall_plan snapshot blockers =
     and_then (uninstall_target snapshot (ac_router snapshot)) (\<lambda>current.
       Inr (UninstallPlan
         \<lparr>up_router = ac_router snapshot, up_service = ac_service snapshot, up_topology = ac_topology snapshot,
          up_current_package_version = current, up_preflight_blockers = blockers,
          up_warning = ''Will uninstall the active AppID signature package ('' @ current @ '') on ''
            @ ac_router snapshot @ '' ('' @ topology_words (ac_topology snapshot)
            @ ''). Application identification will be disabled until a fresh package is installed.''\<rparr>))"

section \<open>Checking the server\<close>

definition appid_check_server ::
    "'w srx_device \<Rightarrow> xml_lib \<Rightarrow> appid_package_args \<Rightarrow> (appid_check_server_data, 'w) srx_m" where
  "appid_check_server D X args =
     sx_bind (sx_ret (check_router (ap_router args))) (\<lambda>_.
     sx_bind (open_rpc D) (\<lambda>_.
     sx_bind (call D appid_package_version) (\<lambda>info.
     sx_bind (call D appid_check_server_req) (\<lambda>check.
     sx_bind (sx_ret (parse_package_version X info)) (\<lambda>nodes.
     sx_bind (sx_ret (appid_parse_check_server_reply X check (ap_router args))) (\<lambda>latest.
       sx_ret (Inr \<lparr>ac_router = ap_router args, ac_service = ServiceAppid,
         ac_topology = (if 1 < length nodes then ChassisCluster else Standalone),
         ac_latest_version = latest, ac_nodes = nodes,
         ac_update_available = list_ex (\<lambda>n. \<not> appid_version_matches latest n) nodes,
         ac_raw_xml = (if ap_include_raw args
           then Some (''<!-- package-version -->'' @ [NL] @ info @ [NL] @ ''<!-- check-server -->'' @ [NL] @ check)
           else None)\<rparr>)))))))"

definition appid_preflight ::
    "'w srx_device \<Rightarrow> xml_lib \<Rightarrow> appid_package_args \<Rightarrow> (appid_check_server_data \<times> string list, 'w) srx_m" where
  "appid_preflight D X args =
     sx_bind (license_active D X (ap_router args) AppId) (\<lambda>_.
     sx_bind (cluster_topology D X (ap_router args)) (\<lambda>topo.
     sx_bind (commit_window D X (ap_router args)) (\<lambda>blockers.
     sx_bind (appid_check_server D X args) (\<lambda>snapshot.
       sx_ret (Inr (snapshot\<lparr>ac_topology := topo\<rparr>, blockers))))))"

definition appid_preflight_uninstall ::
    "'w srx_device \<Rightarrow> xml_lib \<Rightarrow> appid_package_args \<Rightarrow> (appid_check_server_data \<times> string list, 'w) srx_m" where
  "appid_preflight_uninstall D X args =
     sx_bind (license_active D X (ap_router args) AppId) (\<lambda>_.
     sx_bind (cluster_topology D X (ap_router args)) (\<lambda>topo.
     sx_bind (commit_window D X (ap_router args)) (\<lambda>blockers.
     sx_bind (rpc_call D appid_package_version) (\<lambda>info.
     sx_bind (sx_ret (parse_package_version X info)) (\<lambda>nodes.
       sx_ret (Inr (\<lparr>ac_router = ap_router args, ac_service = ServiceAppid, ac_topology = topo,
         ac_latest_version = [], ac_nodes = nodes, ac_update_available = False, ac_raw_xml = None\<rparr>, blockers)))))))"

section \<open>Acting\<close>

definition appid_ctx :: "appid_package_args \<Rightarrow> string \<Rightarrow> string option \<Rightarrow> string \<Rightarrow> audit_ctx" where
  "appid_ctx args action caller correlation =
     \<lparr>ax_tool = ''manage_appid_signature_package'', ax_router = ap_router args, ax_action = action,
      ax_service = ''appid'', ax_caller = (case caller of None \<Rightarrow> ''unknown'' | Some c \<Rightarrow> c),
      ax_correlation = correlation\<rparr>"

definition appid_poll_status ::
    "'w srx_device \<Rightarrow> xml_lib \<Rightarrow> srx_request \<Rightarrow> string \<Rightarrow> nat \<Rightarrow> nat \<Rightarrow> string \<Rightarrow> string \<Rightarrow> (unit, 'w) srx_m" where
  "appid_poll_status D X req detail_element deadline started router action =
     poll_phase D X (appid_parse_async_status_detail X) req detail_element deadline started router action"

definition appid_download_and_poll ::
    "'w srx_device \<Rightarrow> xml_lib \<Rightarrow> appid_package_args \<Rightarrow> nat \<Rightarrow> nat \<Rightarrow> (unit, 'w) srx_m" where
  "appid_download_and_poll D X args outer_budget started =
     sx_bind (rpc_call D appid_download) (\<lambda>_.
       appid_poll_status D X appid_download_status ''apppack-download-status-detail''
         (started + outer_budget) started (ap_router args) ''download'')"

definition appid_install_and_poll ::
    "'w srx_device \<Rightarrow> xml_lib \<Rightarrow> appid_package_args \<Rightarrow> nat \<Rightarrow> nat \<Rightarrow> (unit, 'w) srx_m" where
  "appid_install_and_poll D X args outer_budget started =
     sx_bind (rpc_call D appid_install) (\<lambda>_.
       appid_poll_status D X appid_install_status ''apppack-install-status-detail''
         (started + outer_budget) started (ap_router args) ''install'')"

fun appid_verify_nodes :: "string \<Rightarrow> string \<Rightarrow> appid_node list \<Rightarrow> unit sres" where
  "appid_verify_nodes router target [] = Inr ()"
| "appid_verify_nodes router target (n # ns) =
     (if appid_version_matches target n then appid_verify_nodes router target ns
      else Inl (SignaturePackageVerificationFailed router target (or_na (an_current_package_version n))))"

definition appid_verify_installed_version ::
    "'w srx_device \<Rightarrow> xml_lib \<Rightarrow> appid_package_args \<Rightarrow> string \<Rightarrow> (string, 'w) srx_m" where
  "appid_verify_installed_version D X args target =
     sx_bind (rpc_call D appid_package_version) (\<lambda>info.
     sx_bind (sx_ret (parse_package_version X info)) (\<lambda>nodes.
     sx_bind (sx_ret (appid_verify_nodes (ap_router args) target nodes)) (\<lambda>_.
       sx_ret (Inr (case find_map an_current_package_version nodes of None \<Rightarrow> target | Some v \<Rightarrow> v)))))"

definition appid_run_install_destructive ::
    "'w srx_device \<Rightarrow> xml_lib \<Rightarrow> (json \<Rightarrow> string) \<Rightarrow> appid_package_args \<Rightarrow> string option \<Rightarrow> string
      \<Rightarrow> appid_check_server_data \<Rightarrow> (install_response, 'w) srx_m" where
  "appid_run_install_destructive D X pj args caller rid snapshot s0 =
     (let started = sx_now s0;
          outer_budget = clamp_timeout (ap_timeout args);
          target = resolve_target (ap_version args) (ac_latest_version snapshot);
          current = or_na (find_map an_current_package_version (ac_nodes snapshot));
          ctx = appid_ctx args ''download_and_install'' caller rid
      in if appid_all_at_target target (ac_nodes snapshot)
         then sx_ret (Inr (InstallAlreadyAtTarget (new_already_at_target (ap_router args) ServiceAppid
                (opt_str (an_current_package_version (hd (ac_nodes snapshot)))) target))) s0
         else
           sx_bind (put_audit pj ctx ''preflight_passed'' current target) (\<lambda>_.
           sx_bind (audit_failure pj ctx current target (appid_download_and_poll D X args outer_budget started)) (\<lambda>_.
           sx_bind (put_audit pj ctx ''download_complete'' current target) (\<lambda>_.
           sx_bind (audit_failure pj ctx current target (appid_install_and_poll D X args outer_budget started)) (\<lambda>_.
           sx_bind (put_audit pj ctx ''install_complete'' current target) (\<lambda>_.
           sx_bind (audit_failure pj ctx current target (appid_verify_installed_version D X args target)) (\<lambda>installed.
           sx_bind (put_audit pj ctx ''verified'' installed target) (\<lambda>_ s.
             Some (Inr (InstallCompleted \<lparr>dc_router = ap_router args, dc_service = ServiceAppid,
               dc_topology = ac_topology snapshot, dc_target_package_version = target,
               dc_installed_package_version = installed,
               dc_elapsed_seconds = (sx_now s - started) div 1000\<rparr>), s)))))))) s0)"

text \<open>
  The uninstall reports a failed request, a failed poll and a package that is still there to the audit log;
  obtaining the executor, and reading and parsing the version afterwards, are outside of that.
\<close>

definition no_package_left :: "string \<Rightarrow> appid_node list \<Rightarrow> unit sres" where
  "no_package_left router post_nodes =
     (case find_map an_current_package_version post_nodes of
        None \<Rightarrow> Inr ()
      | Some v \<Rightarrow> Inl (SignaturePackageVerificationFailed router ''N/A'' v))"

definition appid_run_uninstall_destructive ::
    "'w srx_device \<Rightarrow> xml_lib \<Rightarrow> (json \<Rightarrow> string) \<Rightarrow> appid_package_args \<Rightarrow> string option \<Rightarrow> string
      \<Rightarrow> appid_check_server_data \<Rightarrow> (uninstall_completed, 'w) srx_m" where
  "appid_run_uninstall_destructive D X pj args caller rid snapshot s0 =
     (let started = sx_now s0;
          outer_budget = clamp_timeout (ap_timeout args);
          ctx = appid_ctx args ''uninstall'' caller rid;
          none = ''(none)''
      in sx_bind (sx_ret (uninstall_target snapshot (ap_router args))) (\<lambda>previous.
         sx_bind (put_audit pj ctx ''preflight_passed'' previous none) (\<lambda>_.
         sx_bind (open_rpc D) (\<lambda>_.
         sx_bind (audit_failure pj ctx previous none (call D appid_uninstall_req)) (\<lambda>_.
         sx_bind (audit_failure pj ctx previous none
           (appid_poll_status D X appid_uninstall_status ''apppack-uninstall-status-detail'' (started + outer_budget)
              started (ap_router args) ''uninstall'')) (\<lambda>_.
         sx_bind (put_audit pj ctx ''install_complete'' previous none) (\<lambda>_.
         sx_bind (rpc_call D appid_package_version) (\<lambda>post.
         sx_bind (sx_ret (parse_package_version X post)) (\<lambda>post_nodes.
         sx_bind (audit_failure pj ctx previous none (sx_ret (no_package_left (ap_router args) post_nodes))) (\<lambda>_.
         sx_bind (put_audit pj ctx ''verified'' none none) (\<lambda>_ s.
           Some (Inr \<lparr>uc_router = ap_router args, uc_service = ServiceAppid, uc_topology = ac_topology snapshot,
             uc_previous_package_version = previous,
             uc_elapsed_seconds = (sx_now s - started) div 1000\<rparr>, s))))))))))) s0)"

section \<open>The verbs\<close>

definition appid_plan :: "appid_package_args \<Rightarrow> appid_check_server_data \<times> string list \<Rightarrow> (install_response + json) sres" where
  "appid_plan args = (\<lambda>(snapshot, _). Inr (install_outcome (appid_build_plan snapshot (ap_version args) [])))"

definition appid_uninstall_plan :: "appid_check_server_data \<times> string list \<Rightarrow> (uninstall_completed + json) sres" where
  "appid_uninstall_plan =
     (\<lambda>(snapshot, _). and_then (build_uninstall_plan snapshot []) (\<lambda>plan. Inr (Inr (plan_to_value plan))))"

definition appid_download_and_install ::
    "conf_lib \<Rightarrow> 'w srx_device \<Rightarrow> xml_lib \<Rightarrow> (json \<Rightarrow> string) \<Rightarrow> appid_package_args \<Rightarrow> string option \<Rightarrow> string \<Rightarrow> string
      \<Rightarrow> (install_response, 'w) srx_m" where
  "appid_download_and_install L D X pj args caller identity rid =
     two_call L D (ap_router args) ''manage_appid_signature_package/download_and_install'' caller identity rid
       (ap_confirm args) (ap_confirmation_token args)
       (appid_preflight D X args) (appid_plan args)
       (\<lambda>confirmed (snapshot, _). appid_run_install_destructive D X pj args caller confirmed snapshot)"

definition appid_uninstall ::
    "conf_lib \<Rightarrow> 'w srx_device \<Rightarrow> xml_lib \<Rightarrow> (json \<Rightarrow> string) \<Rightarrow> appid_package_args \<Rightarrow> string option \<Rightarrow> string \<Rightarrow> string
      \<Rightarrow> (uninstall_completed, 'w) srx_m" where
  "appid_uninstall L D X pj args caller identity rid =
     two_call L D (ap_router args) ''manage_appid_signature_package/uninstall'' caller identity rid
       (ap_confirm args) (ap_confirmation_token args)
       (appid_preflight_uninstall D X args) appid_uninstall_plan
       (\<lambda>confirmed (snapshot, _). appid_run_uninstall_destructive D X pj args caller confirmed snapshot)"

definition appid_run ::
    "conf_lib \<Rightarrow> 'w srx_device \<Rightarrow> xml_lib \<Rightarrow> (json \<Rightarrow> string) \<Rightarrow> appid_package_args \<Rightarrow> string option \<Rightarrow> string \<Rightarrow> string
      \<Rightarrow> (appid_response, 'w) srx_m" where
  "appid_run L D X pj args caller identity rid =
     (case ap_action args of
        AppidCheckServer \<Rightarrow> sx_map AppidCheckServerResp (appid_check_server D X args)
      | AppidDownloadAndInstall \<Rightarrow> sx_map AppidInstallResp (appid_download_and_install L D X pj args caller identity rid)
      | AppidUninstall \<Rightarrow> sx_map AppidUninstallResp (appid_uninstall L D X pj args caller identity rid))"

section \<open>What the steps can do\<close>

definition appid_changes :: "srx_request \<Rightarrow> bool" where
  "appid_changes req \<longleftrightarrow> req = appid_download \<or> req = appid_install \<or> req = appid_uninstall_req"

lemmas appid_requests = appid_changes_def appid_package_version_def appid_check_server_req_def appid_download_def
  appid_download_status_def appid_install_def appid_install_status_def appid_uninstall_req_def appid_uninstall_status_def

lemma framed_appid_check_server [frame_intros]: "framed (harmless appid_changes) (appid_check_server D X args)"
  unfolding appid_check_server_def by (intro frame_intros) (simp_all add: appid_requests)

lemma framed_appid_preflight: "framed (harmless appid_changes) (appid_preflight D X args)"
  unfolding appid_preflight_def by (intro frame_intros) (simp_all add: appid_requests)

lemma framed_appid_preflight_uninstall: "framed (harmless appid_changes) (appid_preflight_uninstall D X args)"
  unfolding appid_preflight_uninstall_def by (intro frame_intros) (simp_all add: appid_requests)

lemma framed_appid_poll_status [frame_intros]:
  "P (Sent req) \<Longrightarrow> framed P (appid_poll_status D X req el deadline started router action)"
  unfolding appid_poll_status_def by (intro frame_intros)

lemma framed_appid_polls [frame_intros]:
  "framed working (appid_download_and_poll D X args b t)" "framed working (appid_install_and_poll D X args b t)"
  "framed working (appid_verify_installed_version D X args target)"
  unfolding appid_download_and_poll_def appid_install_and_poll_def appid_verify_installed_version_def
  by (intro frame_intros; simp)+

lemma framed_appid_run_install: "framed working (appid_run_install_destructive D X pj args caller rid snapshot)"
proof (rule framedI)
  fix s
  show "\<exists>r s' evs. appid_run_install_destructive D X pj args caller rid snapshot s = Some (r, s')
      \<and> sx_log s' = sx_log s @ evs \<and> list_all working evs \<and> sx_store s' = sx_store s"
    unfolding appid_run_install_destructive_def Let_def
    by (cases "appid_all_at_target (resolve_target (ap_version args) (ac_latest_version snapshot)) (ac_nodes snapshot)";
        simp only: if_True if_False; rule framedD; (intro frame_intros; simp)+)
qed

lemma framed_appid_run_uninstall: "framed working (appid_run_uninstall_destructive D X pj args caller rid snapshot)"
proof (rule framedI)
  fix s
  show "\<exists>r s' evs. appid_run_uninstall_destructive D X pj args caller rid snapshot s = Some (r, s')
      \<and> sx_log s' = sx_log s @ evs \<and> list_all working evs \<and> sx_store s' = sx_store s"
    unfolding appid_run_uninstall_destructive_def Let_def by (rule framedD; (intro frame_intros; simp)+)
qed

interpretation appid_installing: confirmed_verb appid_changes "appid_preflight D X args"
  "\<lambda>confirmed (snapshot, _). appid_run_install_destructive D X pj args caller confirmed snapshot"
  by unfold_locales (auto intro: framed_appid_preflight framed_appid_run_install split: prod.split)

interpretation appid_removing: confirmed_verb appid_changes "appid_preflight_uninstall D X args"
  "\<lambda>confirmed (snapshot, _). appid_run_uninstall_destructive D X pj args caller confirmed snapshot"
  by unfold_locales (auto intro: framed_appid_preflight_uninstall framed_appid_run_uninstall split: prod.split)

section \<open>Properties\<close>

text \<open>Which confirmation allows an action: one for the plan that the verb of the action makes.\<close>

definition appid_entry ::
    "conf_lib \<Rightarrow> 'w srx_device \<Rightarrow> xml_lib \<Rightarrow> appid_package_args \<Rightarrow> confirmation_binding \<Rightarrow> confirmation_store \<Rightarrow> string \<Rightarrow> bool" where
  "appid_entry L D X args b st d \<longleftrightarrow>
     (case ap_action args of
        AppidCheckServer \<Rightarrow> False
      | AppidDownloadAndInstall \<Rightarrow> entry_for L (appid_preflight D X args) (appid_plan args) b st d
      | AppidUninstall \<Rightarrow> entry_for L (appid_preflight_uninstall D X args) appid_uninstall_plan b st d)"

text \<open>
  C19. Whatever the arguments, the device and the replies: a download, install or uninstall request for AppID is sent
  only while this router's lease is held and after the caller's token was used up under that lease; the lease is given
  back on every path; without \<^verbatim>\<open>confirm\<close> nothing on the device is changed; and the confirmation was
  issued to this caller for this router and device, for a plan with the digest of the plan made again under the lease.
\<close>

theorem appid_changes_are_authorised:
  assumes "appid_run L D X pj args caller identity rid s = Some (r, s')"
  shows "\<exists>evs. sx_log s' = sx_log s @ evs \<and> authorised appid_changes (ap_router args) False False evs
     \<and> (\<not> ap_confirm args \<longrightarrow> list_all (harmless appid_changes) evs)
     \<and> (\<forall>d. PlanConfirmed d \<in> set evs \<longrightarrow>
          appid_entry L D X args (new_binding caller (ap_router args) identity) (sx_store s) d)"
proof (cases "ap_action args")
  case AppidCheckServer
  then obtain r0 where "appid_check_server D X args s = Some (r0, s')"
    using assms by (auto simp: appid_run_def dest: sx_map_run)
  then obtain evs where "sx_log s' = sx_log s @ evs" "list_all (harmless appid_changes) evs"
    using framedE [OF framed_appid_check_server [of D X args], of s] by (metis Pair_inject option.inject)
  then show ?thesis using authorised_harmless [of appid_changes evs "ap_router args" False False "[]"] harmless_no_confirm
    by fastforce
next
  case AppidDownloadAndInstall
  then obtain r0 where "appid_download_and_install L D X pj args caller identity rid s = Some (r0, s')"
    using assms by (auto simp: appid_run_def dest: sx_map_run)
  then show ?thesis using AppidDownloadAndInstall
    by (simp add: appid_download_and_install_def appid_entry_def appid_installing.two_call_authorised)
next
  case AppidUninstall
  then obtain r0 where "appid_uninstall L D X pj args caller identity rid s = Some (r0, s')"
    using assms by (auto simp: appid_run_def dest: sx_map_run)
  then show ?thesis using AppidUninstall
    by (simp add: appid_uninstall_def appid_entry_def appid_removing.two_call_authorised)
qed

lemma appid_confirmed_call_returns:
  assumes "ap_confirm args"
  shows "appid_run L D X pj args caller identity rid s \<noteq> None"
proof -
  have "appid_check_server D X args s \<noteq> None" by (rule framedE [OF framed_appid_check_server, of D X args s]) simp
  moreover have "appid_download_and_install L D X pj args caller identity rid s \<noteq> None"
    unfolding appid_download_and_install_def by (rule appid_installing.two_call_returns [OF assms])
  moreover have "appid_uninstall L D X pj args caller identity rid s \<noteq> None"
    unfolding appid_uninstall_def by (rule appid_removing.two_call_returns [OF assms])
  ultimately show ?thesis by (cases "ap_action args") (simp_all add: appid_run_def sx_map_None_iff)
qed

definition reports_no_package :: "xml_lib \<Rightarrow> string \<Rightarrow> bool" where
  "reports_no_package X reply \<longleftrightarrow>
     (\<exists>nodes. parse_package_version X reply = Inr nodes \<and> nodes \<noteq> []
        \<and> list_all (\<lambda>n. an_current_package_version n = None) nodes)"

lemma find_map_None_iff: "find_map f xs = None \<longleftrightarrow> list_all (\<lambda>x. f x = None) xs"
  by (induction xs) (auto split: option.splits)

lemma find_map_Some: "find_map f xs = Some y \<Longrightarrow> \<exists>x\<in>set xs. f x = Some y"
  by (induction xs) (auto split: option.splits)

text \<open>
  An uninstall that answers without an error removed a package that was there: it names the version of a node from
  before, and the last thing the device said is that no node has a package any more.
\<close>

theorem appid_uninstall_is_verified:
  assumes "appid_run_uninstall_destructive D X pj args caller rid snapshot s = Some (Inr d, s')"
  shows "last_answer D appid_package_version (reports_no_package X) s'
     \<and> Some (uc_previous_package_version d) \<in> an_current_package_version ` set (ac_nodes snapshot)"
proof -
  from assms obtain previous post nodes s1 s2 where
    u: "uninstall_target snapshot (ap_router args) = Inr previous" "uc_previous_package_version d = previous"
    and p: "rpc_call D appid_package_version s1 = Some (Inr post, s2)" "parse_package_version X post = Inr nodes"
      "no_package_left (ap_router args) nodes = Inr ()"
      "last_answer D appid_package_version (reports_no_package X) s' = last_answer D appid_package_version (reports_no_package X) s2"
    by (auto simp: appid_run_uninstall_destructive_def Let_def sx_bind_Inr_iff sx_ret_def)
  have "nodes \<noteq> []" using p(2) by (auto simp: parse_package_version_def and_then_def split: sum.splits if_splits)
  then have "reports_no_package X post"
    using p(2,3) by (auto simp: reports_no_package_def no_package_left_def find_map_None_iff split: option.splits)
  then have "last_answer D appid_package_version (reports_no_package X) s2"
    using rpc_call_Inr [OF p(1)] by (auto simp: last_answer_def)
  moreover have "Some previous \<in> an_current_package_version ` set (ac_nodes snapshot)"
    using u(1) by (force simp: uninstall_target_def split: option.splits dest: find_map_Some)
  ultimately show ?thesis using u(2) p(4) by simp
qed

section \<open>A laboratory\<close>

definition lab_appid_xl :: xml_lib where
  "lab_appid_xl = \<lparr>xl_parse = \<lambda>s. Inr (if s = ''u'' then XElem ''apppack-uninstall-status-detail'' [] [XText ''uninstalled'']
       else XElem ''version-detail'' [] [XText ''0'']),
     xl_escape = id, xl_lowercase = id, xl_debug = id, xl_rfc3339 = \<lambda>s. Inl s\<rparr>"

definition lab_appid :: "nat srx_device" where
  "lab_appid = \<lparr>sd_rpc = \<lambda>_. Inr (),
     sd_call = \<lambda>req w. (Inr (if req = appid_uninstall_status then ''u'' else ''v''), 1, Suc w),
     sd_acquire = \<lambda>_ _ _ w. (Inr (), 1, w), sd_release = \<lambda>_ w. w\<rparr>"

definition lab_appid_args :: appid_package_args where
  "lab_appid_args = \<lparr>ap_router = ''srx1'', ap_action = AppidUninstall, ap_version = None, ap_confirm = True,
     ap_confirmation_token = Some ''tok'', ap_timeout = None, ap_include_raw = False\<rparr>"

definition lab_appid_snapshot :: appid_check_server_data where
  "lab_appid_snapshot = \<lparr>ac_router = ''srx1'', ac_service = ServiceAppid, ac_topology = Standalone, ac_latest_version = [],
     ac_nodes = [\<lparr>an_re_name = [], an_current_package_version = Some ''3458'', an_release_date = None\<rparr>],
     ac_update_available = False, ac_raw_xml = None\<rparr>"

definition lab_appid_run :: "nat srx_run" where
  "lab_appid_run = \<lparr>sx_now = 0, sx_world = 0,
     sx_store = \<lparr>st_entries = [(''tok'', lab_pending)], st_ttl = 10, st_capacity = 1\<rparr>, sx_draws = [], sx_log = []\<rparr>"

abbreviation lab_appid_next :: "srx_request \<Rightarrow> nat srx_run \<Rightarrow> nat srx_run" where
  "lab_appid_next req s \<equiv> emit (Sent req) (s\<lparr>sx_now := Suc (sx_now s), sx_world := Suc (sx_world s)\<rparr>)"

lemma lab_appid_send:
  "send lab_appid req s = (Inr (if req = appid_uninstall_status then ''u'' else ''v''), lab_appid_next req s)"
  by (simp add: send_def lab_appid_def map_err_def)

lemma lab_appid_open: "open_rpc lab_appid s = Some (Inr (), s)"
  by (simp add: open_rpc_def lab_appid_def map_err_def)

lemma lab_appid_texts:
  "text_of lab_appid_xl ''u'' ''apppack-uninstall-status-detail'' = Some ''uninstalled''"
  "appid_parse_async_status_detail lab_appid_xl ''uninstalled'' = AsyncDone"
  "parse_package_version lab_appid_xl ''v'' =
     Inr [\<lparr>an_re_name = [], an_current_package_version = None, an_release_date = None\<rparr>]"
  by code_simp+

lemma lab_appid_polled:
  assumes "sx_now s < deadline"
  shows "appid_poll_status lab_appid lab_appid_xl appid_uninstall_status ''apppack-uninstall-status-detail'' deadline started
     router action s = Some (Inr (), lab_appid_next appid_uninstall_status s)"
proof -
  have "sd_rpc lab_appid (sx_world s) = Inr ()" by (simp add: lab_appid_def)
  then show ?thesis using assms unfolding appid_poll_status_def poll_phase_def
    by (subst poll_status.simps) (simp add: lab_appid_send opt_str_def lab_appid_texts map_err_def)
qed

lemma lab_appid_fields:
  "sx_now lab_appid_run = 0" "clamp_timeout (ap_timeout lab_appid_args) = 600000"
  "uninstall_target lab_appid_snapshot router = Inr ''3458''"
  "appid_uninstall_req \<noteq> appid_uninstall_status" "appid_package_version \<noteq> appid_uninstall_status"
  by (simp_all add: appid_requests lab_appid_run_def lab_appid_args_def lab_appid_snapshot_def uninstall_target_def clamp_timeout_def)

theorem appid_changes_are_authorised_witness:
  "\<exists>r s'. appid_run lab_cl lab_appid lab_appid_xl (\<lambda>_. []) lab_appid_args (Some ''ops'') ''id1'' ''c1'' lab_appid_run = Some (r, s')
     \<and> authorised appid_changes ''srx1'' False False (sx_log s')"
proof -
  have "appid_run lab_cl lab_appid lab_appid_xl (\<lambda>_. []) lab_appid_args (Some ''ops'') ''id1'' ''c1'' lab_appid_run \<noteq> None"
    by (rule appid_confirmed_call_returns) (simp add: lab_appid_args_def)
  then obtain r s' where
    run: "appid_run lab_cl lab_appid lab_appid_xl (\<lambda>_. []) lab_appid_args (Some ''ops'') ''id1'' ''c1'' lab_appid_run = Some (r, s')"
    by fast
  have "ap_router lab_appid_args = ''srx1''" "sx_log lab_appid_run = []"
    by (simp_all add: lab_appid_args_def lab_appid_run_def)
  then show ?thesis using appid_changes_are_authorised [OF run] run by auto
qed

theorem appid_uninstall_is_verified_witness:
  "\<exists>d s'. appid_run_uninstall_destructive lab_appid lab_appid_xl (\<lambda>_. []) lab_appid_args (Some ''ops'') ''c1''
       lab_appid_snapshot lab_appid_run = Some (Inr d, s')
     \<and> last_answer lab_appid appid_package_version (reports_no_package lab_appid_xl) s'"
proof -
  have "\<exists>d s'. appid_run_uninstall_destructive lab_appid lab_appid_xl (\<lambda>_. []) lab_appid_args (Some ''ops'') ''c1''
       lab_appid_snapshot lab_appid_run = Some (Inr d, s')"
    unfolding appid_run_uninstall_destructive_def Let_def
    by (simp add: lab_appid_fields sx_bind_Inr_iff rpc_call_def call_def lab_appid_send lab_appid_open lab_appid_polled
        lab_appid_texts sx_ret_def no_package_left_def)
  then show ?thesis using appid_uninstall_is_verified by blast
qed

end
