(* ===== verification/Tool_Run.thy ===== *)
theory Tool_Run
  imports Changeset_Tools
begin

text \<open>
  How the long-running tools (file transfer, software upgrade) run: a step is a state transformer over the clock, the
  outside world and the record of what was done; it waits for answers under the cancellation token and under the
  time limits around it (\<^verbatim>\<open>select_cancel\<close>, \<^verbatim>\<open>select_cancel_raw\<close>, \<^verbatim>\<open>tokio::time::timeout\<close>). Time is in
  milliseconds. What lies outside is a parameter: a library of operations giving answers.
\<close>

section \<open>State\<close>

text \<open>The inputs of one SCP upload or download.\<close>

datatype ssh_host_key_mode = HkStrict | HkAcceptNew | HkAcceptAll

record scp_job =
  sj_private_key_path :: string
  sj_known_hosts_file :: string
  sj_username :: string
  sj_host :: string
  sj_port :: u16
  sj_local_path :: string
  sj_remote :: string
  sj_host_key_mode :: ssh_host_key_mode

text \<open>
  What a run does, in order: sessions opened and dropped, commands sent and what they said (nothing for an error),
  copies started and finished with their exit code, the per-router permit and the device lease taken and given
  back, local files renamed, removed or hashed (with the digest and the size).
\<close>

datatype tool_event =
    SessionOpened string
  | SessionFreed
  | CliSent string
  | CliSaid string "string option"
  | ScpStarted scp_job
  | ScpEnded int
  | PermitTaken string
  | PermitFreed string
  | TookLease string string
  | GaveLease string
  | LocalRename string string
  | LocalRemove string
  | LocalHashed string string u64

record 'w tool_run =
  tr_now :: nat
  tr_world :: 'w
  tr_log :: "tool_event list"

text \<open>When the token is cancelled, if ever, and the time limits in force, the innermost first.\<close>

record tool_ctx =
  cx_cancel :: "nat option"
  cx_limits :: "nat list"

text \<open>
  The outcome of a step: an error, a value, or that the time limit of the given number (counted from the outermost)
  elapsed while it waited.
\<close>

datatype 'a outcome = TErr jmcp_error | TElapsed nat | TOk 'a

type_synonym ('a, 'w) tool_m = "tool_ctx \<Rightarrow> 'w tool_run \<Rightarrow> ('a outcome \<times> 'w tool_run) option"

definition t_ret :: "'a \<Rightarrow> ('a, 'w) tool_m" where
  "t_ret a cx s = Some (TOk a, s)"

definition t_err :: "jmcp_error \<Rightarrow> ('a, 'w) tool_m" where
  "t_err e cx s = Some (TErr e, s)"

definition t_lift :: "'a jres \<Rightarrow> ('a, 'w) tool_m" where
  "t_lift r cx s = Some (case r of Inl e \<Rightarrow> TErr e | Inr a \<Rightarrow> TOk a, s)"

definition t_bind :: "('a, 'w) tool_m \<Rightarrow> ('a \<Rightarrow> ('b, 'w) tool_m) \<Rightarrow> ('b, 'w) tool_m" where
  "t_bind m f cx s =
     (case m cx s of
        None \<Rightarrow> None
      | Some (TErr e, s') \<Rightarrow> Some (TErr e, s')
      | Some (TElapsed k, s') \<Rightarrow> Some (TElapsed k, s')
      | Some (TOk a, s') \<Rightarrow> f a cx s')"

definition t_log :: "tool_event \<Rightarrow> 'w tool_run \<Rightarrow> 'w tool_run" where
  "t_log ev s = s\<lparr>tr_log := tr_log s @ [ev]\<rparr>"

definition t_world :: "('w \<Rightarrow> 'a) \<Rightarrow> ('a, 'w) tool_m" where
  "t_world f cx s = Some (TOk (f (tr_world s)), s)"

definition t_now :: "(nat, 'w) tool_m" where
  "t_now cx s = Some (TOk (tr_now s), s)"

definition t_cancelled :: "(bool, 'w) tool_m" where
  "t_cancelled cx s = Some (TOk (case cx_cancel cx of None \<Rightarrow> False | Some c \<Rightarrow> c \<le> tr_now s), s)"

text \<open>What a guard does when it goes out of scope, however the scope is left.\<close>

definition t_scoped :: "('w tool_run \<Rightarrow> 'w tool_run) \<Rightarrow> ('a, 'w) tool_m \<Rightarrow> ('a, 'w) tool_m" where
  "t_scoped release body cx s =
     (case body cx s of None \<Rightarrow> None | Some (r, s') \<Rightarrow> Some (r, release s'))"

section \<open>Waiting\<close>

text \<open>
  The limit that fires first for a wait that starts now, with its number. At a tie the inner one does: it is polled
  first.
\<close>

fun first_limit :: "nat \<Rightarrow> nat list \<Rightarrow> (nat \<times> nat) option" where
  "first_limit t [] = None"
| "first_limit t (d # ds) =
     (case first_limit t ds of
        None \<Rightarrow> Some (max t d, length ds)
      | Some (e, k) \<Rightarrow> if max t d \<le> e then Some (max t d, length ds) else Some (e, k))"

definition not_later :: "nat \<Rightarrow> nat option \<Rightarrow> bool" where
  "not_later t u = (case u of None \<Rightarrow> True | Some v \<Rightarrow> t \<le> v)"

text \<open>
  Waiting for an answer. Raced against the token, cancellation is looked at first: once cancelled, the operation is
  not started. An answer that is ready in the same instant as a limit wins over it. \<^verbatim>\<open>started\<close> is put on record when
  the operation is first polled. With no answer, no cancellation and no limit, the step never returns.
\<close>

definition t_settle ::
    "(nat \<times> nat) option \<Rightarrow> ('a, 'e, 'w) answer \<Rightarrow> 'w tool_run \<Rightarrow> (('e + 'a) outcome \<times> 'w tool_run) option" where
  "t_settle limit a s =
     (case takes a of
        Some t \<Rightarrow>
          if not_later (tr_now s + t) (map_option fst limit)
          then Some (TOk (says a), s\<lparr>tr_now := tr_now s + t, tr_world := after a\<rparr>)
          else map_option (\<lambda>(e, k). (TElapsed k, s\<lparr>tr_now := e, tr_world := dropped a\<rparr>)) limit
      | None \<Rightarrow> map_option (\<lambda>(e, k). (TElapsed k, s\<lparr>tr_now := e, tr_world := dropped a\<rparr>)) limit)"

definition t_await ::
    "bool \<Rightarrow> tool_event option \<Rightarrow> ('w \<Rightarrow> ('a, 'e, 'w) answer) \<Rightarrow> ('e + 'a, 'w) tool_m" where
  "t_await raced started oper cx s =
     (let n = tr_now s;
          a = oper (tr_world s);
          limit = first_limit n (cx_limits cx);
          s1 = (case started of None \<Rightarrow> s | Some ev \<Rightarrow> t_log ev s)
      in case (if raced then cx_cancel cx else None) of
           None \<Rightarrow> t_settle limit a s1
         | Some c \<Rightarrow>
             if c \<le> n then Some (TErr Cancelled, s)
             else if not_later c (map_option (\<lambda>t. n + t) (takes a)) \<and> not_later c (map_option fst limit)
             then Some (TErr Cancelled, s1\<lparr>tr_now := c, tr_world := dropped a\<rparr>)
             else t_settle limit a s1)"

text \<open>\<^verbatim>\<open>timeout(ms, body)\<close>: nothing when the limit set here elapsed.\<close>

definition t_timeout :: "nat \<Rightarrow> ('a, 'w) tool_m \<Rightarrow> ('a option, 'w) tool_m" where
  "t_timeout ms body cx s =
     (case body (cx\<lparr>cx_limits := (tr_now s + ms) # cx_limits cx\<rparr>) s of
        None \<Rightarrow> None
      | Some (TErr e, s') \<Rightarrow> Some (TErr e, s')
      | Some (TElapsed k, s') \<Rightarrow> Some (if k = length (cx_limits cx) then TOk None else TElapsed k, s')
      | Some (TOk a, s') \<Rightarrow> Some (TOk (Some a), s'))"

definition t_within :: "nat \<Rightarrow> jmcp_error \<Rightarrow> ('a, 'w) tool_m \<Rightarrow> ('a, 'w) tool_m" where
  "t_within ms e body =
     t_bind (t_timeout ms body) (\<lambda>r. case r of None \<Rightarrow> t_err e | Some a \<Rightarrow> t_ret a)"

definition t_sleep :: "nat \<Rightarrow> (unit, 'w) tool_m" where
  "t_sleep ms =
     t_bind (t_await True None (\<lambda>w. \<lparr>takes = Some ms, says = Inr () :: jmcp_error + unit, after = w, dropped = w\<rparr>))
       (\<lambda>_. t_ret ())"

section \<open>The library\<close>

datatype file_kind = FkRegular | FkSymlink | FkOther

text \<open>The SCP library's connection settings and errors; an I/O error carries whether it is an interruption.\<close>

datatype scp_host_key = ScpKnownHosts string | ScpAcceptNew string | ScpAcceptAll

record ssh_config_scp =
  sc_host :: string
  sc_port :: u16
  sc_username :: string
  sc_private_key :: string
  sc_host_key :: scp_host_key

datatype scp_error =
    ScpIo string bool
  | ScpAuth string
  | ScpConnect string
  | ScpHostKeyVerification string
  | ScpHostKeyRevoked string
  | ScpChannel string
  | ScpChannelClosed string
  | ScpClientPoisoned string

text \<open>
  The outside of the tools: the device manager (opening a session, a fresh one, a command on one, a command with
  its own session, dropping one), the transfer locks, the device leases, the file system and the hash, and the SCP
  client, which is handed the token.
\<close>

record ('g, 'c, 'w) tool_lib =
  tl_inventory :: "'w \<Rightarrow> inventory"
  tl_open :: "string \<Rightarrow> 'w \<Rightarrow> ('g, jmcp_error, 'w) answer"
  tl_open_fresh :: "string \<Rightarrow> 'w \<Rightarrow> ('g, jmcp_error, 'w) answer"
  tl_cli :: "string \<Rightarrow> 'g \<Rightarrow> 'w \<Rightarrow> (string, rustez_error, 'w) answer"
  tl_run_cli :: "string \<Rightarrow> string \<Rightarrow> 'w \<Rightarrow> (string, jmcp_error, 'w) answer"
  tl_drop :: "'g \<Rightarrow> 'w \<Rightarrow> 'w"
  tl_permit :: "string \<Rightarrow> 'w \<Rightarrow> (unit, jmcp_error, 'w) answer"
  tl_free_permit :: "string \<Rightarrow> 'w \<Rightarrow> 'w"
  tl_lease :: "string \<Rightarrow> string \<Rightarrow> string \<Rightarrow> 'w \<Rightarrow> (unit, jmcp_error, 'w) answer"
  tl_free_lease :: "string \<Rightarrow> 'w \<Rightarrow> 'w"
  tl_kind :: "string \<Rightarrow> 'w \<Rightarrow> file_kind option"
  tl_is_file :: "string \<Rightarrow> 'w \<Rightarrow> bool"
  tl_read :: "string \<Rightarrow> 'w \<Rightarrow> (string list, string, 'w) answer"
  tl_hash :: "string \<Rightarrow> string"
  tl_scp_connect :: "ssh_config_scp \<Rightarrow> nat option \<Rightarrow> 'w \<Rightarrow> ('c, scp_error, 'w) answer"
  tl_scp_upload :: "'c \<Rightarrow> string \<Rightarrow> string \<Rightarrow> nat option \<Rightarrow> 'w \<Rightarrow> (string list, scp_error, 'w) answer"
  tl_scp_download :: "'c \<Rightarrow> string \<Rightarrow> string \<Rightarrow> nat option \<Rightarrow> 'w \<Rightarrow> (string list, scp_error, 'w) answer"
  tl_scp_close :: "'c \<Rightarrow> 'w \<Rightarrow> (unit, scp_error, 'w) answer"
  tl_rename :: "string \<Rightarrow> string \<Rightarrow> 'w \<Rightarrow> (string + unit) \<times> 'w"
  tl_remove :: "string \<Rightarrow> 'w \<Rightarrow> 'w"

definition t_raced :: "tool_event option \<Rightarrow> ('w \<Rightarrow> ('a, jmcp_error, 'w) answer) \<Rightarrow> ('a, 'w) tool_m" where
  "t_raced started oper = t_bind (t_await True started oper) t_lift"

text \<open>A session in scope: opened, used by the body, dropped at its end.\<close>

definition free_session :: "('g, 'c, 'w) tool_lib \<Rightarrow> 'g \<Rightarrow> 'w tool_run \<Rightarrow> 'w tool_run" where
  "free_session L g s = t_log SessionFreed (s\<lparr>tr_world := tl_drop L g (tr_world s)\<rparr>)"

definition t_noted :: "('a \<Rightarrow> tool_event) \<Rightarrow> ('a, 'w) tool_m \<Rightarrow> ('a, 'w) tool_m" where
  "t_noted ev m = t_bind m (\<lambda>a cx s. Some (TOk a, t_log (ev a) s))"

definition with_session :: "('g, 'c, 'w) tool_lib \<Rightarrow> string \<Rightarrow> ('g \<Rightarrow> ('a, 'w) tool_m) \<Rightarrow> ('a, 'w) tool_m" where
  "with_session L router body =
     t_bind (t_noted (\<lambda>_. SessionOpened router) (t_raced None (tl_open L router)))
       (\<lambda>g. t_scoped (free_session L g) (body g))"

text \<open>A command on an open session, raced against the token or not; what it said is put on record.\<close>

definition said :: "'e + string \<Rightarrow> string option" where
  "said r = (case r of Inl _ \<Rightarrow> None | Inr out \<Rightarrow> Some out)"

definition t_cli :: "bool \<Rightarrow> ('g, 'c, 'w) tool_lib \<Rightarrow> 'g \<Rightarrow> string \<Rightarrow> (rustez_error + string, 'w) tool_m" where
  "t_cli raced L g command =
     t_noted (\<lambda>r. CliSaid command (said r)) (t_await raced (Some (CliSent command)) (tl_cli L command g))"

definition probe_failed :: "string \<Rightarrow> rustez_error \<Rightarrow> jmcp_error" where
  "probe_failed phase e = DeviceProbeFailed phase (rz_text e)"

definition t_probe :: "('g, 'c, 'w) tool_lib \<Rightarrow> 'g \<Rightarrow> string \<Rightarrow> string \<Rightarrow> (string, 'w) tool_m" where
  "t_probe L g command phase = t_bind (t_cli True L g command) (\<lambda>r. t_lift (map_err (probe_failed phase) r))"

section \<open>Steps return in time\<close>

text \<open>
  Under at least one limit that has not passed, the step returns, time has not run backwards, and no limit has been
  overstepped, whatever the outside does, never answering included.
\<close>

definition in_limits :: "tool_ctx \<Rightarrow> nat \<Rightarrow> bool" where
  "in_limits cx t \<longleftrightarrow> cx_limits cx \<noteq> [] \<and> list_all (\<lambda>d. t \<le> d) (cx_limits cx)"

definition timely :: "('a, 'w) tool_m \<Rightarrow> bool" where
  "timely m \<longleftrightarrow>
     (\<forall>cx s. in_limits cx (tr_now s) \<longrightarrow>
        (\<exists>r s'. m cx s = Some (r, s') \<and> tr_now s \<le> tr_now s' \<and> in_limits cx (tr_now s')
           \<and> (\<forall>k. r = TElapsed k \<longrightarrow> k < length (cx_limits cx))))"

named_theorems timely_intros

lemma timelyI:
  "(\<And>cx s. in_limits cx (tr_now s) \<Longrightarrow> \<exists>r s'. m cx s = Some (r, s') \<and> tr_now s \<le> tr_now s' \<and> in_limits cx (tr_now s')
      \<and> (\<forall>k. r = TElapsed k \<longrightarrow> k < length (cx_limits cx))) \<Longrightarrow> timely m"
  by (simp add: timely_def)

lemma timelyE:
  fixes m :: "('a, 'w) tool_m" and s :: "'w tool_run" and cx :: tool_ctx
  assumes "timely m" "in_limits cx (tr_now s)"
  obtains r s' where "m cx s = Some (r, s')" "tr_now s \<le> tr_now s'" "in_limits cx (tr_now s')"
    "\<forall>k. r = TElapsed k \<longrightarrow> k < length (cx_limits cx)"
  using assms unfolding timely_def by blast

lemma timely_pure [timely_intros]:
  "timely (t_ret a)" "timely (t_err e)" "timely (t_lift r)" "timely (t_world f)" "timely t_now" "timely t_cancelled"
  by (simp_all add: timely_def t_ret_def t_err_def t_lift_def t_world_def t_now_def t_cancelled_def split: sum.splits)

lemma timely_bind [timely_intros]:
  fixes m :: "('a, 'w) tool_m"
  assumes m: "timely m" and f: "\<And>a. timely (f a)"
  shows "timely (t_bind m f)"
proof (rule timelyI)
  fix cx :: tool_ctx and s :: "'w tool_run"
  assume "in_limits cx (tr_now s)"
  with m obtain r s' where 1: "m cx s = Some (r, s')" "tr_now s \<le> tr_now s'" "in_limits cx (tr_now s')"
    "\<forall>k. r = TElapsed k \<longrightarrow> k < length (cx_limits cx)"
    by (rule timelyE)
  show "\<exists>r s'. t_bind m f cx s = Some (r, s') \<and> tr_now s \<le> tr_now s' \<and> in_limits cx (tr_now s')
      \<and> (\<forall>k. r = TElapsed k \<longrightarrow> k < length (cx_limits cx))"
  proof (cases r)
    case (TOk a)
    from f 1(3) obtain r2 s2 where "f a cx s' = Some (r2, s2)" "tr_now s' \<le> tr_now s2" "in_limits cx (tr_now s2)"
      "\<forall>k. r2 = TElapsed k \<longrightarrow> k < length (cx_limits cx)"
      by (rule timelyE)
    with 1 TOk show ?thesis by (auto simp: t_bind_def)
  qed (use 1 in \<open>auto simp: t_bind_def\<close>)
qed

lemma timely_scoped [timely_intros]:
  fixes m :: "('a, 'w) tool_m"
  assumes "timely m" "\<And>s. tr_now (release s) = tr_now s"
  shows "timely (t_scoped release m)"
proof (rule timelyI)
  fix cx :: tool_ctx and s :: "'w tool_run"
  assume "in_limits cx (tr_now s)"
  with assms(1) obtain r s' where "m cx s = Some (r, s')" "tr_now s \<le> tr_now s'" "in_limits cx (tr_now s')"
    "\<forall>k. r = TElapsed k \<longrightarrow> k < length (cx_limits cx)"
    by (rule timelyE)
  with assms(2) show "\<exists>r s'. t_scoped release m cx s = Some (r, s') \<and> tr_now s \<le> tr_now s' \<and> in_limits cx (tr_now s')
      \<and> (\<forall>k. r = TElapsed k \<longrightarrow> k < length (cx_limits cx))"
    by (auto simp: t_scoped_def)
qed

lemma first_limit_in:
  "ds \<noteq> [] \<Longrightarrow> list_all (\<lambda>d. t \<le> d) ds \<Longrightarrow>
     \<exists>e k. first_limit t ds = Some (e, k) \<and> t \<le> e \<and> list_all (\<lambda>d. e \<le> d) ds \<and> k < length ds"
proof (induction ds)
  case (Cons d ds)
  show ?case
  proof (cases "ds = []")
    case True
    with Cons.prems show ?thesis by simp
  next
    case False
    with Cons obtain e k where "first_limit t ds = Some (e, k)" "t \<le> e" "list_all (\<lambda>d. e \<le> d) ds" "k < length ds"
      by auto
    with Cons.prems show ?thesis by (auto simp: list_all_iff max_def intro: order_trans)
  qed
qed simp

lemma t_log_simps [simp]:
  "tr_now (t_log ev s) = tr_now s" "tr_world (t_log ev s) = tr_world s" "tr_log (t_log ev s) = tr_log s @ [ev]"
  by (simp_all add: t_log_def)

lemma timely_await [timely_intros]:
  fixes oper :: "'w \<Rightarrow> ('a, 'e, 'w) answer"
  shows "timely (t_await raced started oper)"
proof (rule timelyI)
  fix cx :: tool_ctx and s :: "'w tool_run"
  assume l: "in_limits cx (tr_now s)"
  define s1 where "s1 = (case started of None \<Rightarrow> s | Some ev \<Rightarrow> t_log ev s)"
  define a where "a = oper (tr_world s)"
  from l obtain e k where e: "first_limit (tr_now s) (cx_limits cx) = Some (e, k)" "tr_now s \<le> e"
    "list_all (\<lambda>d. e \<le> d) (cx_limits cx)" "k < length (cx_limits cx)"
    using first_limit_in [of "cx_limits cx" "tr_now s"] by (auto simp: in_limits_def)
  have le: "in_limits cx t" if "t \<le> e" for t
    using l e(3) that by (auto simp: in_limits_def list_all_iff intro: order_trans)
  have n1: "tr_now s1 = tr_now s" by (simp add: s1_def split: option.split)
  have settle: "\<exists>r s'. t_settle (Some (e, k)) a s1 = Some (r, s') \<and> tr_now s \<le> tr_now s' \<and> in_limits cx (tr_now s')
      \<and> (\<forall>k. r = TElapsed k \<longrightarrow> k < length (cx_limits cx))"
    using e le by (auto simp: t_settle_def n1 not_later_def split: option.splits)
  show "\<exists>r s'. t_await raced started oper cx s = Some (r, s') \<and> tr_now s \<le> tr_now s' \<and> in_limits cx (tr_now s')
      \<and> (\<forall>k. r = TElapsed k \<longrightarrow> k < length (cx_limits cx))"
  proof (cases "if raced then cx_cancel cx else None")
    case None
    then show ?thesis using settle by (simp add: t_await_def Let_def e(1) s1_def a_def)
  next
    case (Some c)
    then show ?thesis using settle l le
      by (auto simp: t_await_def Let_def e(1) s1_def [symmetric] a_def [symmetric] not_later_def)
  qed
qed

lemma timely_timeout [timely_intros]:
  fixes m :: "('a, 'w) tool_m"
  assumes "timely m"
  shows "timely (t_timeout ms m)"
proof (rule timelyI)
  fix cx :: tool_ctx and s :: "'w tool_run"
  assume l: "in_limits cx (tr_now s)"
  let ?cx = "cx\<lparr>cx_limits := (tr_now s + ms) # cx_limits cx\<rparr>"
  from l have "in_limits ?cx (tr_now s)" by (simp add: in_limits_def)
  with assms obtain r s' where r: "m ?cx s = Some (r, s')" "tr_now s \<le> tr_now s'" "in_limits ?cx (tr_now s')"
    "\<forall>k. r = TElapsed k \<longrightarrow> k < length (cx_limits ?cx)"
    by (rule timelyE)
  then have "in_limits cx (tr_now s')" using l by (simp add: in_limits_def)
  with r show "\<exists>r s'. t_timeout ms m cx s = Some (r, s') \<and> tr_now s \<le> tr_now s' \<and> in_limits cx (tr_now s')
      \<and> (\<forall>k. r = TElapsed k \<longrightarrow> k < length (cx_limits cx))"
    by (cases r) (auto simp: t_timeout_def less_Suc_eq)
qed

lemma timely_within_limits [timely_intros]: "timely m \<Longrightarrow> timely (t_within ms e m)"
  by (auto simp: t_within_def intro!: timely_intros split: option.split)

text \<open>A body under a limit of its own needs no other: it returns, by then at the latest.\<close>

lemma timely_within:
  fixes m :: "('a, 'w) tool_m"
  assumes "timely m"
  shows "\<exists>r s'. t_within ms e m \<lparr>cx_cancel = c, cx_limits = []\<rparr> s = Some (r, s')
    \<and> tr_now s \<le> tr_now s' \<and> tr_now s' \<le> tr_now s + ms \<and> (\<forall>k. r \<noteq> TElapsed k)"
proof -
  let ?cx = "\<lparr>cx_cancel = c, cx_limits = [tr_now s + ms]\<rparr>"
  have "in_limits ?cx (tr_now s)" by (simp add: in_limits_def)
  with assms obtain r s' where r: "m ?cx s = Some (r, s')" "tr_now s \<le> tr_now s'" "in_limits ?cx (tr_now s')"
    "\<forall>k. r = TElapsed k \<longrightarrow> k < length (cx_limits ?cx)"
    by (rule timelyE)
  then show ?thesis
    by (cases r) (auto simp: t_within_def t_bind_def t_timeout_def t_err_def t_ret_def in_limits_def)
qed

lemma timely_noted [timely_intros]: "timely m \<Longrightarrow> timely (t_noted ev m)"
  unfolding t_noted_def by (rule timely_bind) (auto simp: timely_def)

lemma timely_session [timely_intros]: "(\<And>g. timely (body g)) \<Longrightarrow> timely (with_session L router body)"
  by (auto simp: with_session_def t_raced_def free_session_def intro!: timely_intros)

lemma timely_cli [timely_intros]: "timely (t_cli raced L g c)" "timely (t_probe L g c ph)" "timely (t_raced st oper)"
  "timely (t_sleep ms)"
  by (auto simp: t_cli_def t_probe_def t_raced_def t_sleep_def intro!: timely_intros)

section \<open>What steps put on record\<close>

definition on_record :: "tool_event option \<Rightarrow> 'w tool_run \<Rightarrow> 'w tool_run" where
  "on_record started s = (case started of None \<Rightarrow> s | Some ev \<Rightarrow> t_log ev s)"

lemma t_settle_outcomes:
  assumes "t_settle limit a s = Some (r, s')"
  obtains k t where "r = TElapsed k" "s' = s\<lparr>tr_now := t, tr_world := dropped a\<rparr>"
  | t where "r = TOk (says a)" "s' = s\<lparr>tr_now := t, tr_world := after a\<rparr>"
  using assms by (auto simp: t_settle_def split: option.splits if_splits)

lemma t_await_outcomes:
  assumes "t_await raced started oper cx s = Some (r, s')"
  obtains "r = TErr Cancelled" "s' = s" "raced"
  | t w where "r = TErr Cancelled" "s' = (on_record started s)\<lparr>tr_now := t, tr_world := w\<rparr>" "raced"
  | k t w where "r = TElapsed k" "s' = (on_record started s)\<lparr>tr_now := t, tr_world := w\<rparr>"
  | t where "r = TOk (says (oper (tr_world s)))"
      "s' = (on_record started s)\<lparr>tr_now := t, tr_world := after (oper (tr_world s))\<rparr>"
proof (cases "if raced then cx_cancel cx else None")
  case None
  with assms have "t_settle (first_limit (tr_now s) (cx_limits cx)) (oper (tr_world s)) (on_record started s) = Some (r, s')"
    by (simp add: t_await_def Let_def on_record_def)
  then show ?thesis by (rule t_settle_outcomes) (use that(3,4) in blast)+
next
  case (Some c)
  then have raced by (auto split: if_splits)
  let ?a = "oper (tr_world s)" and ?limit = "first_limit (tr_now s) (cx_limits cx)"
  have eq: "t_await raced started oper cx s =
      (if c \<le> tr_now s then Some (TErr Cancelled, s)
       else if not_later c (map_option (\<lambda>t. tr_now s + t) (takes ?a)) \<and> not_later c (map_option fst ?limit)
       then Some (TErr Cancelled, (on_record started s)\<lparr>tr_now := c, tr_world := dropped ?a\<rparr>)
       else t_settle ?limit ?a (on_record started s))"
    unfolding t_await_def Let_def Some on_record_def by (simp only: option.case)
  show ?thesis
  proof (cases "t_settle ?limit ?a (on_record started s) = Some (r, s')")
    case True
    then show ?thesis by (rule t_settle_outcomes) (use that(3,4) in blast)+
  next
    case False
    then show ?thesis using that(1,2) \<open>raced\<close> assms unfolding eq by (metis option.inject prod.inject)
  qed
qed

text \<open>
  Whatever the outside does, a step that starts with the record \<open>l\<close> leaves an outcome and a record that satisfy
  \<open>R\<close>.
\<close>

definition logs :: "('a, 'w) tool_m \<Rightarrow> ('a outcome \<Rightarrow> tool_event list \<Rightarrow> bool) \<Rightarrow> tool_event list \<Rightarrow> bool" where
  "logs m R l \<longleftrightarrow> (\<forall>cx s r s'. tr_log s = l \<longrightarrow> m cx s = Some (r, s') \<longrightarrow> R r (tr_log s'))"

named_theorems logs_intros

lemma logsD: "logs m R (tr_log s) \<Longrightarrow> m cx s = Some (r, s') \<Longrightarrow> R r (tr_log s')"
  unfolding logs_def by blast

lemma logs_mono: "logs m P l \<Longrightarrow> (\<And>r l'. P r l' \<Longrightarrow> R r l') \<Longrightarrow> logs m R l"
  unfolding logs_def by blast

lemma logs_ret [logs_intros]: "R (TOk a) l \<Longrightarrow> logs (t_ret a) R l"
  by (simp add: logs_def t_ret_def)

lemma logs_err [logs_intros]: "R (TErr e) l \<Longrightarrow> logs (t_err e) R l"
  by (simp add: logs_def t_err_def)

lemma logs_lift [logs_intros]:
  "(\<And>e. r = Inl e \<Longrightarrow> R (TErr e) l) \<Longrightarrow> (\<And>a. r = Inr a \<Longrightarrow> R (TOk a) l) \<Longrightarrow> logs (t_lift r) R l"
  by (cases r) (simp_all add: logs_def t_lift_def)

lemma logs_ask [logs_intros]:
  "(\<And>x. R (TOk x) l) \<Longrightarrow> logs (t_world f) R l"
  "(\<And>b. R' (TOk b) l) \<Longrightarrow> logs t_cancelled R' l"
  "(\<And>t. R'' (TOk t) l) \<Longrightarrow> logs t_now R'' l"
  by (simp_all add: logs_def t_world_def t_cancelled_def t_now_def)

text \<open>What goes on after a step: nothing unless it gave a value.\<close>

definition next_log :: "('a \<Rightarrow> tool_event list \<Rightarrow> bool) \<Rightarrow> ('b outcome \<Rightarrow> tool_event list \<Rightarrow> bool) \<Rightarrow> 'a outcome
    \<Rightarrow> tool_event list \<Rightarrow> bool" where
  "next_log ok R r l =
     (case r of TErr e \<Rightarrow> R (TErr e) l | TElapsed k \<Rightarrow> R (TElapsed k) l | TOk a \<Rightarrow> ok a l)"

lemma next_log_simps [simp]:
  "next_log ok R (TErr e) l = R (TErr e) l"
  "next_log ok R (TElapsed k) l = R (TElapsed k) l"
  "next_log ok R (TOk a) l = ok a l"
  by (simp_all add: next_log_def)

lemma logs_bind [logs_intros]: "logs m (next_log (\<lambda>a. logs (f a) R) R) l \<Longrightarrow> logs (t_bind m f) R l"
  unfolding logs_def t_bind_def by (fastforce split: option.splits prod.splits outcome.splits)

lemma logs_noted [logs_intros]: "logs m (next_log (\<lambda>a l'. R (TOk a) (l' @ [ev a])) R) l \<Longrightarrow> logs (t_noted ev m) R l"
  unfolding t_noted_def by (rule logs_bind) (auto simp: logs_def next_log_def elim!: logs_mono split: outcome.splits)

lemma logs_scoped [logs_intros]:
  "logs m (\<lambda>r l'. R r (l' @ es)) l \<Longrightarrow> (\<And>s. tr_log (release s) = tr_log s @ es) \<Longrightarrow> logs (t_scoped release m) R l"
  unfolding logs_def t_scoped_def by (fastforce split: option.splits)

lemma logs_timeout [logs_intros]:
  "logs m (\<lambda>r l'. case r of TErr e \<Rightarrow> R (TErr e) l' | TElapsed k \<Rightarrow> R (TOk None) l' \<and> R (TElapsed k) l'
       | TOk a \<Rightarrow> R (TOk (Some a)) l') l \<Longrightarrow> logs (t_timeout ms m) R l"
  unfolding logs_def t_timeout_def by (fastforce split: option.splits prod.splits outcome.splits if_splits)

lemma logs_within [logs_intros]:
  assumes "logs m (next_log (\<lambda>a. R (TOk a)) (\<lambda>r l'. R (TErr e) l' \<and> (\<forall>e'. r = TErr e' \<longrightarrow> R (TErr e') l')
      \<and> (\<forall>k. r = TElapsed k \<longrightarrow> R (TElapsed k) l'))) l"
  shows "logs (t_within ms e m) R l"
  unfolding t_within_def
  by (intro logs_bind logs_timeout logs_mono [OF assms])
    (auto simp: logs_def t_err_def t_ret_def next_log_def split: outcome.splits)

definition started_log :: "tool_event option \<Rightarrow> tool_event list" where
  "started_log started = (case started of None \<Rightarrow> [] | Some ev \<Rightarrow> [ev])"

lemma started_log_simps [simp]: "started_log None = []" "started_log (Some ev) = [ev]"
  by (simp_all add: started_log_def)

lemma on_record_log [simp]: "tr_log (on_record started s) = tr_log s @ started_log started"
  by (cases started) (simp_all add: on_record_def)

text \<open>After waiting, the operation is on record unless it never began; what it says can be anything.\<close>

lemma logs_await:
  assumes "raced \<Longrightarrow> R (TErr Cancelled) l" "raced \<Longrightarrow> R (TErr Cancelled) (l @ started_log started)"
    and "\<And>k. R (TElapsed k) (l @ started_log started)" and "\<And>x. R (TOk x) (l @ started_log started)"
  shows "logs (t_await raced started oper) R l"
  unfolding logs_def using assms by (auto elim!: t_await_outcomes)

text \<open>Every event is justified by what is on record before it.\<close>

fun each_after :: "(tool_event list \<Rightarrow> tool_event \<Rightarrow> bool) \<Rightarrow> tool_event list \<Rightarrow> tool_event list \<Rightarrow> bool" where
  "each_after P seen [] \<longleftrightarrow> True"
| "each_after P seen (e # es) \<longleftrightarrow> P seen e \<and> each_after P (seen @ [e]) es"

lemma each_after_iff:
  "each_after P seen es \<longleftrightarrow> (\<forall>pre e post. es = pre @ e # post \<longrightarrow> P (seen @ pre) e)"
proof (induction es arbitrary: seen)
  case (Cons x es)
  show ?case
  proof
    assume l: "each_after P seen (x # es)"
    show "\<forall>pre e post. x # es = pre @ e # post \<longrightarrow> P (seen @ pre) e"
    proof (intro allI impI)
      fix pre e post
      assume "x # es = pre @ e # post"
      with l Cons.IH [of "seen @ [x]"] show "P (seen @ pre) e" by (cases pre) auto
    qed
  next
    assume r: "\<forall>pre e post. x # es = pre @ e # post \<longrightarrow> P (seen @ pre) e"
    have "P seen x" using r [rule_format, of "[]" x es] by simp
    moreover have "P ((seen @ [x]) @ pre) e" if "es = pre @ e # post" for pre e post
      using r [rule_format, of "x # pre" e post] that by simp
    ultimately show "each_after P seen (x # es)" using Cons.IH [of "seen @ [x]"] by simp
  qed
qed simp

section \<open>Rules for the shared steps\<close>

lemma logs_raced [logs_intros]:
  assumes "\<And>e. R (TErr e) l" "\<And>e. R (TErr e) (l @ started_log started)" "\<And>k. R (TElapsed k) (l @ started_log started)"
    "\<And>x. R (TOk x) (l @ started_log started)"
  shows "logs (t_raced started oper) R l"
  unfolding t_raced_def by (intro logs_bind logs_await) (auto intro: assms logs_lift)

lemma logs_session [logs_intros]:
  assumes "\<And>e. R (TErr e) l" "\<And>k. R (TElapsed k) l"
    "\<And>g. logs (body g) (\<lambda>r l'. R r (l' @ [SessionFreed])) (l @ [SessionOpened router])"
  shows "logs (with_session L router body) R l"
  unfolding with_session_def
  by (intro logs_bind logs_noted logs_raced) (auto intro!: assms logs_scoped simp: free_session_def)

lemma logs_cli [logs_intros]:
  assumes "raced \<Longrightarrow> R (TErr Cancelled) l" "raced \<Longrightarrow> R (TErr Cancelled) (l @ [CliSent c])"
    "\<And>k. R (TElapsed k) (l @ [CliSent c])" "\<And>x. R (TOk x) (l @ [CliSent c, CliSaid c (said x)])"
  shows "logs (t_cli raced L g c) R l"
  unfolding t_cli_def by (intro logs_noted logs_await) (auto intro: assms)

lemma logs_probe [logs_intros]:
  assumes "\<And>e. R (TErr e) l" "\<And>e. R (TErr e) (l @ [CliSent c])" "\<And>k. R (TElapsed k) (l @ [CliSent c])"
    "\<And>e. R (TErr e) (l @ [CliSent c, CliSaid c None])" "\<And>out. R (TOk out) (l @ [CliSent c, CliSaid c (Some out)])"
  shows "logs (t_probe L g c ph) R l"
  unfolding t_probe_def
  by (intro logs_bind logs_cli) (auto intro!: assms logs_lift simp: said_def map_err_def split: sum.splits)

text \<open>The events a step adds, with its outcome.\<close>

definition adds :: "('a, 'w) tool_m \<Rightarrow> ('a outcome \<Rightarrow> tool_event list \<Rightarrow> bool) \<Rightarrow> bool" where
  "adds m Phi \<longleftrightarrow> (\<forall>cx s r s'. m cx s = Some (r, s') \<longrightarrow> (\<exists>es. tr_log s' = tr_log s @ es \<and> Phi r es))"

lemma addsI: "(\<And>l. logs m (\<lambda>r l'. \<exists>es. l' = l @ es \<and> Phi r es) l) \<Longrightarrow> adds m Phi"
  unfolding adds_def logs_def by blast

lemma addsD: "adds m Phi \<Longrightarrow> m cx s = Some (r, s') \<Longrightarrow> \<exists>es. tr_log s' = tr_log s @ es \<and> Phi r es"
  unfolding adds_def by blast

lemma adds_logs: "adds m Phi \<Longrightarrow> (\<And>r es. Phi r es \<Longrightarrow> R r (l @ es)) \<Longrightarrow> logs m R l"
  unfolding adds_def logs_def by metis

section \<open>Properties of records kept by every step\<close>

text \<open>
  A property of records that holds of the empty one and of two in a row is kept by any composition of steps that keep
  it.
\<close>

definition always :: "(tool_event list \<Rightarrow> bool) \<Rightarrow> ('a, 'w) tool_m \<Rightarrow> bool" where
  "always Q m \<longleftrightarrow> adds m (\<lambda>r es. Q es)"

named_theorems always_intros

lemma alwaysI:
  fixes m :: "('a, 'w) tool_m"
  assumes "\<And>cx (s :: 'w tool_run) r s'. m cx s = Some (r, s') \<Longrightarrow> \<exists>es. tr_log s' = tr_log s @ es \<and> Q es"
  shows "always Q m"
  using assms by (auto simp: always_def adds_def)

lemma alwaysD:
  fixes m :: "('a, 'w) tool_m" and s :: "'w tool_run"
  assumes "always Q m" "m cx s = Some (r, s')"
  obtains es where "tr_log s' = tr_log s @ es" "Q es"
  using assms unfolding always_def adds_def by blast

lemma always_mono: "always P m \<Longrightarrow> (\<And>es. P es \<Longrightarrow> Q es) \<Longrightarrow> always Q m"
  unfolding always_def adds_def by blast

lemma adds_conj: "adds m P \<Longrightarrow> adds m Q \<Longrightarrow> adds m (\<lambda>r es. P r es \<and> Q r es)"
  unfolding adds_def by (metis same_append_eq)

lemma adds_mono: "adds m P \<Longrightarrow> (\<And>r es. P r es \<Longrightarrow> Q r es) \<Longrightarrow> adds m Q"
  unfolding adds_def by blast

locale log_kind =
  fixes Q :: "tool_event list \<Rightarrow> bool"
  assumes nil: "Q []" and app: "Q es \<Longrightarrow> Q fs \<Longrightarrow> Q (es @ fs)"
begin

lemma always_pure [always_intros]:
  "always Q (t_ret a)" "always Q (t_err e)" "always Q (t_lift r)" "always Q (t_world f)" "always Q t_now"
  "always Q t_cancelled"
  using nil
  by (auto simp: always_def adds_def t_ret_def t_err_def t_lift_def t_world_def t_now_def t_cancelled_def)

lemma always_bind [always_intros]:
  fixes m :: "('a, 'w) tool_m" and f :: "'a \<Rightarrow> ('b, 'w) tool_m"
  assumes m: "always Q m" and f: "\<And>a. always Q (f a)"
  shows "always Q (t_bind m f)"
proof (rule alwaysI)
  fix cx and s :: "'w tool_run" and r s'
  assume run: "t_bind m f cx s = Some (r, s')"
  then obtain r1 s1 where m1: "m cx s = Some (r1, s1)" by (auto simp: t_bind_def split: option.splits)
  obtain es where es: "tr_log s1 = tr_log s @ es" "Q es" using alwaysD [OF m m1] by blast
  show "\<exists>es. tr_log s' = tr_log s @ es \<and> Q es"
  proof (cases r1)
    case (TOk a)
    with run m1 have "f a cx s1 = Some (r, s')" by (simp add: t_bind_def)
    from alwaysD [OF f this] obtain fs where "tr_log s' = tr_log s1 @ fs" "Q fs" by blast
    with es app show ?thesis by (intro exI [of _ "es @ fs"]) simp
  qed (use run m1 es in \<open>auto simp: t_bind_def\<close>)
qed

lemma always_await [always_intros]:
  assumes "\<And>e. started = Some e \<Longrightarrow> Q [e]"
  shows "always Q (t_await raced started oper)"
  by (rule alwaysI) (use assms nil in \<open>auto elim!: t_await_outcomes simp: started_log_def split: option.split\<close>)

lemma always_noted [always_intros]: "always Q m \<Longrightarrow> (\<And>a. Q [ev a]) \<Longrightarrow> always Q (t_noted ev m)"
  unfolding t_noted_def by (erule always_bind, rule alwaysI) auto

lemma always_timeout [always_intros]:
  fixes m :: "('a, 'w) tool_m"
  assumes "always Q m"
  shows "always Q (t_timeout ms m)"
proof (rule alwaysI)
  fix cx and s :: "'w tool_run" and r s'
  assume "t_timeout ms m cx s = Some (r, s')"
  then obtain cx' r' where "m cx' s = Some (r', s')"
    by (fastforce simp: t_timeout_def split: option.splits outcome.splits prod.splits if_splits)
  with assms show "\<exists>es. tr_log s' = tr_log s @ es \<and> Q es" by (auto elim: alwaysD)
qed

lemma always_within [always_intros]: "always Q m \<Longrightarrow> always Q (t_within ms e m)"
  by (auto simp: t_within_def intro!: always_intros split: option.split)

lemma always_quiet_steps [always_intros]: "always Q (t_raced None oper)" "always Q (t_sleep ms)"
  by (auto simp: t_raced_def t_sleep_def intro!: always_intros)

lemma always_commands [always_intros]:
  assumes "Q [CliSent c]" "\<And>x. Q [CliSaid c x]"
  shows "always Q (t_cli raced L g c)" "always Q (t_probe L g c ph)"
  using assms by (auto simp: t_cli_def t_probe_def intro!: always_intros)

text \<open>What a guard in scope puts on record, taken and given back around the body.\<close>

lemma always_guarded:
  fixes body :: "'b \<Rightarrow> ('a, 'w) tool_m"
  assumes m: "always Q m" and body: "\<And>a. always P (body a)"
    and rel: "\<And>a (s :: 'w tool_run). tr_log (release a s) = tr_log s @ [freed]"
    and around: "\<And>es. P es \<Longrightarrow> Q (taken # es @ [freed])"
  shows "always Q (t_bind (t_noted (\<lambda>_. taken) m) (\<lambda>a. t_scoped (release a) (body a)))"
proof (rule alwaysI)
  fix cx and s :: "'w tool_run" and r s'
  assume run: "t_bind (t_noted (\<lambda>_. taken) m) (\<lambda>a. t_scoped (release a) (body a)) cx s = Some (r, s')"
  then obtain r1 s1 where m1: "m cx s = Some (r1, s1)" by (auto simp: t_bind_def t_noted_def split: option.splits)
  obtain es where es: "tr_log s1 = tr_log s @ es" "Q es" using alwaysD [OF m m1] by blast
  show "\<exists>es. tr_log s' = tr_log s @ es \<and> Q es"
  proof (cases r1)
    case (TOk a)
    with run m1 obtain s2 where "body a cx (t_log taken s1) = Some (r, s2)" and s': "s' = release a s2"
      by (auto simp: t_bind_def t_noted_def t_scoped_def split: option.splits)
    from alwaysD [OF body this(1)] obtain fs where "tr_log s2 = tr_log s1 @ taken # fs" "P fs" by (auto simp: t_log_def)
    then show ?thesis using es app around
      by (intro exI [of _ "es @ taken # fs @ [freed]"]) (simp add: s' rel)
  qed (use run m1 es in \<open>auto simp: t_bind_def t_noted_def\<close>)
qed

end

text \<open>The first of the kinds: every event has a property.\<close>

interpretation events: log_kind "list_all P" for P
  by unfold_locales simp_all

lemma always_events_session [always_intros]:
  assumes "\<And>g. always (list_all P) (body g)" "P (SessionOpened router)" "P SessionFreed"
  shows "always (list_all P) (with_session L router body)"
  unfolding with_session_def
  by (rule events.always_guarded [where P = "list_all P" and freed = SessionFreed]) (use assms in \<open>auto intro!: always_intros simp: free_session_def\<close>)

end
