(* ===== verification/Transfer_Text.thy ===== *)
theory Transfer_Text
  imports Tool_Run Srx_Base
begin

text \<open>
  The pure parts of \<^verbatim>\<open>tools/transfer_file.rs\<close>: digests in hexadecimal, scrubbing the messages of the copy,
  checking names, and reading what the device prints about storage and checksums. Reading a floating-point number
  and scaling it, the debug form of a text and printing JSON are parameters.
\<close>

record text_lib =
  tx_scaled :: "string \<Rightarrow> nat \<Rightarrow> u64 option"
  tx_debug :: "string \<Rightarrow> string"
  tx_print :: "json \<Rightarrow> string"

definition MIN_FREE_HEADROOM_BYTES :: u64 where "MIN_FREE_HEADROOM_BYTES = 33554432"

section \<open>Digests\<close>

text \<open>A SHA-256 digest is a string of 32 bytes.\<close>

definition hex_digit :: "nat \<Rightarrow> char" where
  "hex_digit n = (if n < 10 then char_of (48 + n) else char_of (87 + n))"

definition hex_byte :: "char \<Rightarrow> string" where
  "hex_byte b = [hex_digit (byte b div 16), hex_digit (byte b mod 16)]"

definition hex32 :: "string \<Rightarrow> string" where
  "hex32 bytes = concat (map hex_byte bytes)"

section \<open>Scrubbing messages\<close>

definition is_path_byte :: "char \<Rightarrow> bool" where
  "is_path_byte b \<longleftrightarrow> is_ascii_alphanumeric b \<or> b \<in> set ''/._-+''"

text \<open>One to three digits, and what follows them.\<close>

definition digits3 :: "string \<Rightarrow> nat" where
  "digits3 s = length (takeWhile is_ascii_digit (take 3 s))"

fun match_octets :: "nat \<Rightarrow> nat \<Rightarrow> string \<Rightarrow> nat option" where
  "match_octets 0 used s = Some used"
| "match_octets (Suc k) used s =
     (let n = digits3 s; r = drop n s in
      if n = 0 then None
      else if k = 0 then Some (used + n)
      else (case r of c # r' \<Rightarrow> (if c = CHR ''.'' then match_octets k (used + n + 1) r' else None) | [] \<Rightarrow> None))"

definition match_ipv4 :: "string \<Rightarrow> nat option" where
  "match_ipv4 s =
     (case match_octets 4 0 s of
        None \<Rightarrow> None
      | Some n \<Rightarrow>
          (case drop n s of
             c # _ \<Rightarrow> if is_ascii_digit c \<or> c = CHR ''.'' then None else Some n
           | [] \<Rightarrow> Some n))"

text \<open>\<^verbatim>\<open>b as char\<close> pushed to a string: the Latin-1 character of the byte, in UTF-8.\<close>

definition latin1 :: "char \<Rightarrow> string" where
  "latin1 b = (if byte b < 128 then [b] else [char_of (192 + byte b div 64), char_of (128 + byte b mod 64)])"

lemma match_octets_ge: "match_octets k used s = Some n \<Longrightarrow> used \<le> n \<and> (0 < k \<longrightarrow> used < n)"
proof (induction k used s arbitrary: n rule: match_octets.induct)
  case (2 k used s)
  then show ?case by (fastforce simp: Let_def split: if_splits list.splits)
qed simp

lemma match_ipv4_pos: "match_ipv4 s = Some n \<Longrightarrow> 0 < n"
  using match_octets_ge [of 4 0 s] by (auto simp: match_ipv4_def split: option.splits list.splits if_splits)

function scrub_scp_stderr :: "string \<Rightarrow> string" where
  "scrub_scp_stderr s =
     (case s of
        [] \<Rightarrow> []
      | b # rest \<Rightarrow>
          if b = CHR ''/'' \<and> takeWhile is_path_byte rest \<noteq> []
          then ''<path>'' @ scrub_scp_stderr (dropWhile is_path_byte rest)
          else if is_ascii_digit b \<and> match_ipv4 s \<noteq> None
          then ''<host>'' @ scrub_scp_stderr (drop (the (match_ipv4 s)) s)
          else latin1 b @ scrub_scp_stderr rest)"
  by pat_completeness auto
termination
proof (relation "measure length", goal_cases)
  case (3 s b rest)
  then obtain n where "match_ipv4 s = Some n" by blast
  with match_ipv4_pos [of s n] 3 show ?case by simp
qed (auto simp: le_imp_less_Suc length_dropWhile_le)

declare scrub_scp_stderr.simps [simp del]

section \<open>Names\<close>

definition basename_byte :: "char \<Rightarrow> bool" where
  "basename_byte b \<longleftrightarrow> is_ascii_alphanumeric b \<or> b \<in> set ''._-''"

definition validate_source_basename :: "string \<Rightarrow> unit jres" where
  "validate_source_basename source =
     (if source = [] then Inl (BadSourcePath ''source_path is empty'')
      else if 255 < length source
      then Inl (BadSourcePath (''source_path exceeds 255 bytes (got '' @ show_nat (length source) @ '')''))
      else if starts_with ''.'' source
      then Inl (BadSourcePath (''source_path '' @ [SQ] @ source @ [SQ] @ '' must not start with '' @ [SQ] @ ''.'' @ [SQ]))
      else if CHR ''/'' \<in> set source \<or> CHR 0x5C \<in> set source
      then Inl (BadSourcePath (''source_path '' @ [SQ] @ source @ [SQ] @ '' must not contain '' @ [SQ] @ ''/'' @ [SQ]
        @ '' or '' @ [SQ, CHR 0x5C, CHR 0x5C, SQ] @ '' (basename only)''))
      else if str_contains ''..'' source
      then Inl (BadSourcePath (''source_path '' @ [SQ] @ source @ [SQ] @ '' must not contain '' @ [SQ] @ ''..'' @ [SQ]))
      else
        (case find (\<lambda>b. \<not> basename_byte b) source of
           Some bad \<Rightarrow> Inl (BadSourcePath (''source_path '' @ [SQ] @ source @ [SQ] @ '' contains disallowed byte 0x''
             @ hex_byte bad @ ''; only [A-Za-z0-9._-] are permitted''))
         | None \<Rightarrow> Inr ()))"

section \<open>Storage and checksums\<close>

lemma trim_start_head: "ws_len (trim_start s) = 0"
proof (induction s rule: trim_start.induct)
  case (1 s)
  show ?case
  proof (cases "s \<noteq> [] \<and> ws_len s \<noteq> 0")
    case True
    with 1 show ?thesis by (subst trim_start.simps) simp
  next
    case False
    moreover have "ws_len [] = 0" by (simp add: ws_len_def)
    ultimately show ?thesis by (subst trim_start.simps) auto
  qed
qed

lemma find_ws_pos: "ws_len t = 0 \<Longrightarrow> find_ws t = Some i \<Longrightarrow> 0 < i"
  by (cases t) (auto split: if_splits)

function split_whitespace :: "string \<Rightarrow> string list" where
  "split_whitespace s =
     (let t = trim_start s in
      if t = [] then []
      else (case find_ws t of None \<Rightarrow> [t] | Some i \<Rightarrow> take i t # split_whitespace (drop i t)))"
  by pat_completeness auto
termination
proof (relation "measure length", simp, goal_cases)
  case (1 s t i)
  then have "0 < i" using find_ws_pos trim_start_head by blast
  moreover have "0 < length t" using 1 by simp
  ultimately have "length (drop i t) < length t" by simp
  then show ?case using 1 length_trim_start_le [of s] by simp
qed

declare split_whitespace.simps [simp del]

definition parse_size_with_suffix :: "text_lib \<Rightarrow> string \<Rightarrow> u64 jres" where
  "parse_size_with_suffix X s =
     (let (num_part, mult) =
        (if s \<noteq> [] \<and> last s = CHR ''G'' then (butlast s, 1024 * 1024 * 1024)
         else if s \<noteq> [] \<and> last s = CHR ''M'' then (butlast s, 1024 * 1024)
         else if s \<noteq> [] \<and> last s = CHR ''K'' then (butlast s, 1024)
         else if s \<noteq> [] \<and> last s = CHR ''B'' then (butlast s, 1)
         else (s, 1))
      in case tx_scaled X num_part mult of
           Some n \<Rightarrow> Inr n
         | None \<Rightarrow> Inl (InsufficientDisk 0 0 (''could not parse storage size '' @ [SQ] @ s @ [SQ])))"

fun storage_rows :: "text_lib \<Rightarrow> string list \<Rightarrow> string option \<Rightarrow> u64 jres" where
  "storage_rows X [] root_mount_avail =
     (case root_mount_avail of
        Some avail \<Rightarrow> parse_size_with_suffix X avail
      | None \<Rightarrow> Inl (InsufficientDisk 0 0 ''no /var, /.mount/var, or /.mount row found in storage output''))"
| "storage_rows X (line # ls) root_mount_avail =
     (let trimmed = str_trim line; cols = split_whitespace trimmed in
      if trimmed = [] \<or> starts_with ''Filesystem'' trimmed \<or> length cols < 6 then storage_rows X ls root_mount_avail
      else if last cols = ''/var'' \<or> last cols = ''/.mount/var'' then parse_size_with_suffix X (cols ! 3)
      else storage_rows X ls (if last cols = ''/.mount'' then Some (cols ! 3) else root_mount_avail))"

definition parse_storage_free_bytes :: "text_lib \<Rightarrow> string \<Rightarrow> u64 jres" where
  "parse_storage_free_bytes X output = storage_rows X (str_lines output) None"

definition is_ascii_hexdigit :: "char \<Rightarrow> bool" where
  "is_ascii_hexdigit c \<longleftrightarrow> is_ascii_digit c \<or> (97 \<le> byte c \<and> byte c \<le> 102) \<or> (65 \<le> byte c \<and> byte c \<le> 70)"

definition hex_value :: "char \<Rightarrow> nat" where
  "hex_value c = (if is_ascii_digit c then byte c - 48 else if 97 \<le> byte c then byte c - 87 else byte c - 55)"

fun unhex :: "string \<Rightarrow> string" where
  "unhex (hi # lo # r) = char_of (hex_value hi * 16 + hex_value lo) # unhex r"
| "unhex _ = []"

definition after_last :: "char \<Rightarrow> string \<Rightarrow> string option" where
  "after_last c s = (if c \<in> set s then Some (rev (takeWhile (\<lambda>x. x \<noteq> c) (rev s))) else None)"

fun checksum_lines :: "string list \<Rightarrow> string option option" where
  "checksum_lines [] = None"
| "checksum_lines (line # ls) =
     (let trimmed = str_trim line in
      if trimmed = [] then checksum_lines ls
      else if str_contains ''No such file or directory'' trimmed then Some None
      else
        (case after_last (CHR ''='') trimmed of
           None \<Rightarrow> checksum_lines ls
         | Some tl_text \<Rightarrow>
             (let hex = str_trim tl_text in
              if length hex = 64 \<and> list_all is_ascii_hexdigit hex then Some (Some (unhex hex)) else checksum_lines ls)))"

definition parse_checksum_output :: "text_lib \<Rightarrow> string \<Rightarrow> string option jres" where
  "parse_checksum_output X output =
     (case checksum_lines (str_lines output) of
        Some r \<Rightarrow> Inr r
      | None \<Rightarrow> Inl (Validation (''unable to parse checksum output: '' @ tx_debug X output)))"

section \<open>What scrubbing leaves\<close>

text \<open>A slash with a path character after it.\<close>

fun shows_path :: "string \<Rightarrow> bool" where
  "shows_path (c # d # r) \<longleftrightarrow> (c = CHR ''/'' \<and> is_path_byte d) \<or> shows_path (d # r)"
| "shows_path _ \<longleftrightarrow> False"

lemma shows_path_Cons: "shows_path (c # s) \<longleftrightarrow> (c = CHR ''/'' \<and> s \<noteq> [] \<and> is_path_byte (hd s)) \<or> shows_path s"
  by (cases s) auto

lemma shows_path_append: "CHR ''/'' \<notin> set u \<Longrightarrow> shows_path (u @ s) \<longleftrightarrow> shows_path s"
  by (induction u) (auto simp: shows_path_Cons)

lemma byte_char_of: "n < 256 \<Longrightarrow> byte (char_of n) = n"
  by (simp add: byte_def)

lemma byte_less: "byte c < 256"
  by (simp add: byte_def)

lemma high_not_path: "128 \<le> byte x \<Longrightarrow> \<not> is_path_byte x \<and> x \<noteq> CHR ''/''"
  by (auto simp: is_path_byte_def is_ascii_alphanumeric_def byte_def)

lemma latin1_high: "128 \<le> byte b \<Longrightarrow> CHR ''/'' \<notin> set (latin1 b) \<and> \<not> is_path_byte (hd (latin1 b))"
proof -
  assume b: "128 \<le> byte b"
  have d: "byte b div 64 \<le> 3" using byte_less [of b] by simp
  have "128 \<le> byte (char_of (192 + byte b div 64))" using d by (subst byte_char_of) simp_all
  moreover have "128 \<le> byte (char_of (128 + byte b mod 64))" by (subst byte_char_of) simp_all
  ultimately show ?thesis using b high_not_path by (simp add: latin1_def) metis
qed

lemma latin1_low: "byte b < 128 \<Longrightarrow> latin1 b = [b]"
  by (simp add: latin1_def)

lemma digit_is_path: "is_ascii_digit c \<Longrightarrow> is_path_byte c"
  by (auto simp: is_path_byte_def is_ascii_alphanumeric_def is_ascii_digit_def)

lemma scrub_head:
  assumes "takeWhile is_path_byte s = []"
  shows "scrub_scp_stderr s = [] \<or> \<not> is_path_byte (hd (scrub_scp_stderr s))"
proof (cases s)
  case (Cons b rest)
  with assms have b: "\<not> is_path_byte b" by (auto split: if_splits)
  then have "b \<noteq> CHR ''/''" "\<not> is_ascii_digit b" using digit_is_path by (auto simp: is_path_byte_def)
  then have "scrub_scp_stderr s = latin1 b @ scrub_scp_stderr rest" by (subst scrub_scp_stderr.simps) (simp add: Cons)
  then show ?thesis using b latin1_high [of b] latin1_low [of b] by (cases "byte b < 128") (auto simp: latin1_def)
qed (simp add: scrub_scp_stderr.simps)

text \<open>
  No absolute path is left in a scrubbed message: nowhere does a slash stand before a character a path could go
  on with.
\<close>

theorem scrubbed_message_shows_no_path: "\<not> shows_path (scrub_scp_stderr s)"
proof (induction s rule: scrub_scp_stderr.induct)
  case (1 s)
  show ?case
  proof (cases s)
    case Nil
    then show ?thesis by (simp add: scrub_scp_stderr.simps)
  next
    case (Cons b rest)
    consider (path) "b = CHR ''/''" "takeWhile is_path_byte rest \<noteq> []"
      | (host) "\<not> (b = CHR ''/'' \<and> takeWhile is_path_byte rest \<noteq> [])" "is_ascii_digit b \<and> match_ipv4 s \<noteq> None"
      | (copy) "\<not> (b = CHR ''/'' \<and> takeWhile is_path_byte rest \<noteq> [])" "\<not> (is_ascii_digit b \<and> match_ipv4 s \<noteq> None)"
      by blast
    then show ?thesis
    proof cases
      case path
      then have "scrub_scp_stderr s = ''<path>'' @ scrub_scp_stderr (dropWhile is_path_byte rest)"
        by (subst scrub_scp_stderr.simps) (auto simp: Cons)
      then show ?thesis using "1.IH"(1) [OF Cons] path shows_path_append [of "''<path>''"] by simp
    next
      case host
      then have "scrub_scp_stderr s = ''<host>'' @ scrub_scp_stderr (drop (the (match_ipv4 s)) s)"
        by (subst scrub_scp_stderr.simps) (auto simp: Cons)
      then show ?thesis using "1.IH"(2) [OF Cons host] shows_path_append [of "''<host>''"] by simp
    next
      case copy
      have e: "scrub_scp_stderr s = latin1 b @ scrub_scp_stderr rest"
        using copy by (subst scrub_scp_stderr.simps) (auto simp: Cons)
      have ih: "\<not> shows_path (scrub_scp_stderr rest)" using "1.IH"(3) [OF Cons copy] .
      show ?thesis
      proof (cases "byte b < 128")
        case True
        then show ?thesis using ih copy(1) scrub_head [of rest] by (auto simp: e latin1_low shows_path_Cons)
      next
        case False
        then show ?thesis using ih latin1_high [of b] by (simp add: e shows_path_append)
      qed
    qed
  qed
qed

text \<open>An address at the end of a sentence is not taken for one.\<close>

lemma address_before_full_stop_stays:
  "scrub_scp_stderr ''ssh: connect to 10.0.0.1.'' = ''ssh: connect to 10.0.0.1.''"
  by code_simp

text \<open>Other than ASCII comes out changed.\<close>

lemma scrub_changes_non_ascii: "scrub_scp_stderr [CHR 0xC3, CHR 0xA9] = [CHR 0xC3, CHR 0x83, CHR 0xC2, CHR 0xA9]"
  by code_simp

section \<open>Accepted names\<close>

lemma basename_ok:
  "validate_source_basename s = Inr u \<Longrightarrow>
     s \<noteq> [] \<and> length s \<le> 255 \<and> list_all basename_byte s \<and> hd s \<noteq> CHR ''.'' \<and> CHR ''/'' \<notin> set s \<and> \<not> str_contains ''..'' s"
  by (cases s) (auto simp: validate_source_basename_def starts_with_def find_None_iff list_all_iff
      split: if_splits option.splits)

section \<open>Digests come back\<close>

lemma unhex_hex32: "unhex (hex32 d) = d"
proof (induction d)
  case (Cons b d)
  have v: "hex_value (hex_digit n) = n" if "n < 16" for n
    using that by (auto simp: hex_value_def hex_digit_def is_ascii_digit_def byte_char_of)
  have "byte b div 16 < 16" "byte b mod 16 < 16" using byte_less [of b] by simp_all
  then have "char_of (hex_value (hex_digit (byte b div 16)) * 16 + hex_value (hex_digit (byte b mod 16))) = b"
    by (simp only: v) (simp add: byte_def)
  with Cons show ?case by (simp add: hex32_def hex_byte_def)
qed (simp add: hex32_def)

lemma hex32_digits: "list_all is_ascii_hexdigit (hex32 d) \<and> length (hex32 d) = 2 * length d"
proof -
  have "is_ascii_hexdigit (hex_digit n)" if "n < 16" for n
    using that by (auto simp: is_ascii_hexdigit_def hex_digit_def is_ascii_digit_def byte_char_of)
  moreover have "byte b div 16 < 16" for b using byte_less [of b] by simp
  ultimately show ?thesis by (induction d) (auto simp: hex32_def hex_byte_def)
qed

lemma ws_len_ascii: "list_all (\<lambda>c. byte c < 128) s \<Longrightarrow> ws_len s \<le> 1"
proof (cases s)
  case (Cons a r)
  assume "list_all (\<lambda>c. byte c < 128) s"
  then have "byte a < 128" by (simp add: Cons)
  then have "byte a \<noteq> 194" "byte a \<noteq> 225" "byte a \<noteq> 226" "byte a \<noteq> 227" by simp_all
  then show ?thesis by (simp add: Cons ws_len_def split: list.split)
qed (simp add: ws_len_def)

lemma ws_len_visible: "33 \<le> byte a \<Longrightarrow> byte a < 128 \<Longrightarrow> ws_len (a # r) = 0"
  by (simp add: ws_len_def split: list.split)

text \<open>A line of ASCII that begins and ends with visible characters is its own trimmed form.\<close>

lemma str_trim_visible:
  assumes "list_all (\<lambda>c. byte c < 128) s" "s \<noteq> []" "33 \<le> byte (hd s)" "33 \<le> byte (last s)"
  shows "str_trim s = s"
proof -
  have hd: "byte (hd s) < 128" "byte (last s) < 128" using assms(1,2) by (auto simp: list_all_iff)
  have 1: "trim_start s = s"
    using assms(2,3) hd(1) ws_len_visible [of "hd s" "tl s"] by (intro trim_start_no_ws) simp
  have l: "drop (length s - 1) s = [last s]" using assms(2) by (metis append_butlast_last_id append_eq_conv_conj length_butlast)
  have "ws_len (drop (length s - 1) s) = 0" unfolding l using assms(4) hd(2) by (rule ws_len_visible)
  moreover have "ws_len (drop k s) \<le> 1" for k
    by (rule ws_len_ascii) (use assms(1) in \<open>auto simp: list_all_iff dest: in_set_dropD\<close>)
  ultimately have "ws_suffix_len s = 0"
    unfolding ws_suffix_len_def Let_def by (metis One_nat_def numeral_2_eq_2 numeral_3_eq_3 not_less_eq_eq le_refl zero_neq_one)
  then have "trim_end s = s" by (subst trim_end.simps) simp
  with 1 show ?thesis by (simp add: str_trim_def)
qed

lemma sublist_pair_Cons:
  "sublist [a, b] (x # s) \<longleftrightarrow> (x = a \<and> s \<noteq> [] \<and> hd s = b) \<or> sublist [a, b] s"
  by (cases s) (auto simp: sublist_Cons_right)

lemma sublist_pair_skip: "a \<notin> set u \<Longrightarrow> sublist [a, b] (u @ s) \<longleftrightarrow> sublist [a, b] s"
  by (induction u) (auto simp: sublist_pair_Cons)

lemma hexdigit_byte: "is_ascii_hexdigit c \<Longrightarrow> 33 \<le> byte c \<and> byte c < 128 \<and> c \<noteq> CHR ''='' \<and> c \<noteq> SP \<and> c \<noteq> CHR ''s'' \<and> c \<noteq> NL"
  by (auto simp: is_ascii_hexdigit_def is_ascii_digit_def byte_def)

lemma basename_byte_visible: "basename_byte c \<Longrightarrow> 33 \<le> byte c \<and> byte c < 128 \<and> c \<noteq> SP \<and> c \<noteq> NL"
  by (auto simp: basename_byte_def is_ascii_alphanumeric_def byte_def)

text \<open>What the device prints for a digest of a file under \<^verbatim>\<open>/var/tmp\<close>.\<close>

definition checksum_line :: "string \<Rightarrow> string \<Rightarrow> string" where
  "checksum_line name d = ''SHA256 (/var/tmp/'' @ name @ '') = '' @ hex32 d"

lemma checksum_line_ascii:
  assumes "list_all basename_byte name"
  shows "list_all (\<lambda>c. byte c < 128 \<and> c \<noteq> NL) (checksum_line name d)"
proof -
  have "list_all (\<lambda>c. byte c < 128 \<and> c \<noteq> NL) name" "list_all (\<lambda>c. byte c < 128 \<and> c \<noteq> NL) (hex32 d)"
    using assms hex32_digits [of d] basename_byte_visible hexdigit_byte by (auto simp: list_all_iff)
  then show ?thesis by (simp add: checksum_line_def byte_def)
qed

lemma checksum_line_not_missing:
  assumes "list_all basename_byte name"
  shows "\<not> str_contains ''No such file or directory'' (checksum_line name d)"
proof
  assume "str_contains ''No such file or directory'' (checksum_line name d)"
  then have "sublist ''No such file or directory'' (checksum_line name d)"
    unfolding str_contains_def str_find_Some_iff_sublist .
  moreover have "sublist [SP, CHR ''s''] ''No such file or directory''" by code_simp
  ultimately have p: "sublist [SP, CHR ''s''] (checksum_line name d)" using sublist_order.order.trans by blast
  have n: "SP \<notin> set name" "SP \<notin> set (hex32 d)" "CHR ''s'' \<notin> set (hex32 d)"
    using assms hex32_digits [of d] basename_byte_visible hexdigit_byte by (auto simp: list_all_iff)
  have "\<not> sublist [SP, CHR ''s''] (hex32 d)" using n(2) sublist_pair_skip [of SP "hex32 d" "CHR ''s''" "[]"] by simp
  moreover have "hex32 d = [] \<or> hd (hex32 d) \<noteq> CHR ''s''" using n(3) by (metis hd_in_set)
  ultimately have "\<not> sublist [SP, CHR ''s''] ('') = '' @ hex32 d)" by (auto simp: sublist_pair_Cons)
  then have "\<not> sublist [SP, CHR ''s''] (name @ '') = '' @ hex32 d)" using sublist_pair_skip [OF n(1)] by blast
  then have "\<not> sublist [SP, CHR ''s''] (checksum_line name d)" by (simp add: checksum_line_def sublist_pair_Cons)
  with p show False by blast
qed

text \<open>
  C36. A digest survives the device's report: for every accepted file name, reading the line that reports the digest
  in hexadecimal gives back exactly its 32 bytes.
\<close>

theorem checksum_round_trip:
  assumes "validate_source_basename name = Inr u" "length d = 32"
  shows "parse_checksum_output X (checksum_line name d) = Inr (Some d)"
proof -
  have nm: "list_all basename_byte name" using basename_ok [OF assms(1)] by simp
  note h = hex32_digits [of d]
  have hne: "hex32 d \<noteq> []" using h assms(2) by auto
  have lst: "last (checksum_line name d) = last (hex32 d)" using hne by (simp add: checksum_line_def)
  have hv: "33 \<le> byte (hd (hex32 d))" "33 \<le> byte (last (hex32 d))"
    using h hne hexdigit_byte hd_in_set last_in_set by (auto simp: list_all_iff)
  have tr: "str_trim (checksum_line name d) = checksum_line name d"
  proof (rule str_trim_visible)
    show "list_all (\<lambda>c. byte c < 128) (checksum_line name d)"
      using checksum_line_ascii [OF nm, of d] by (auto simp: list_all_iff)
    show "33 \<le> byte (last (checksum_line name d))" using hv(2) by (simp add: lst)
  qed (simp_all add: checksum_line_def byte_def)
  have ln: "str_lines (checksum_line name d) = [checksum_line name d]"
  proof (rule str_lines_single)
    show "NL \<notin> set (checksum_line name d)" using checksum_line_ascii [OF nm, of d] by (auto simp: list_all_iff)
  qed (simp add: checksum_line_def)
  have "CHR ''='' \<notin> set (SP # hex32 d)" using h hexdigit_byte by (auto simp: list_all_iff)
  then have al: "after_last (CHR ''='') (checksum_line name d) = Some (SP # hex32 d)"
    unfolding after_last_def checksum_line_def by (simp, subst takeWhile_append2) auto
  have "byte (hd (hex32 d)) < 128" using h hne hexdigit_byte hd_in_set by (auto simp: list_all_iff)
  then have w0: "ws_len (hex32 d) = 0" using ws_len_visible [OF hv(1), of "tl (hex32 d)"] hne by simp
  have "ws_len (SP # hex32 d) = 1" by (simp add: ws_len_def byte_def)
  then have "trim_start (SP # hex32 d) = hex32 d"
    by (subst trim_start.simps) (simp add: trim_start_no_ws [OF w0])
  moreover have "str_trim (hex32 d) = hex32 d"
    using h hne hv hexdigit_byte by (intro str_trim_visible) (auto simp: list_all_iff)
  ultimately have th: "str_trim (SP # hex32 d) = hex32 d"
    using trim_start_no_ws [OF w0] by (simp add: str_trim_def)
  have "checksum_line name d \<noteq> []" by (simp add: checksum_line_def)
  then show ?thesis using h assms(2) checksum_line_not_missing [OF nm, of d]
    by (simp add: parse_checksum_output_def ln tr al th unhex_hex32 Let_def)
qed

theorem checksum_round_trip_witness:
  "\<forall>X. parse_checksum_output X (checksum_line ''junos.tgz'' (replicate 32 (CHR 0xAB))) = Inr (Some (replicate 32 (CHR 0xAB)))"
proof (intro allI checksum_round_trip)
  show "validate_source_basename ''junos.tgz'' = Inr ()" by code_simp
qed simp

end
