(* ===== verification/Transfer_File.thy ===== *)
theory Transfer_File
  imports Transfer_Text
begin

text \<open>
  \<^verbatim>\<open>tools/transfer_file.rs\<close> and \<^verbatim>\<open>tools/fetch_file.rs\<close>: copying a staged file to a device's \<^verbatim>\<open>/var/tmp\<close> and
  back. The SCP client, the file system, the hash function and the device manager are the library of
  \<^verbatim>\<open>Tool_Run\<close>.
\<close>

section \<open>Copying\<close>

record scp_outcome =
  so_exit_code :: int
  so_stderr :: string

text \<open>An interruption stays an I/O error; every other error becomes an outcome with exit code 255.\<close>

fun synthesize_outcome :: "scp_error \<Rightarrow> (string \<times> bool) + scp_outcome" where
  "synthesize_outcome (ScpIo m interrupted) =
     (if interrupted then Inl (m, True) else Inr \<lparr>so_exit_code = 255, so_stderr = m\<rparr>)"
| "synthesize_outcome (ScpAuth m) = Inr \<lparr>so_exit_code = 255, so_stderr = m\<rparr>"
| "synthesize_outcome (ScpConnect m) = Inr \<lparr>so_exit_code = 255, so_stderr = m\<rparr>"
| "synthesize_outcome (ScpHostKeyVerification m) = Inr \<lparr>so_exit_code = 255, so_stderr = m\<rparr>"
| "synthesize_outcome (ScpHostKeyRevoked m) = Inr \<lparr>so_exit_code = 255, so_stderr = m\<rparr>"
| "synthesize_outcome (ScpChannel m) = Inr \<lparr>so_exit_code = 255, so_stderr = m\<rparr>"
| "synthesize_outcome (ScpChannelClosed m) = Inr \<lparr>so_exit_code = 255, so_stderr = m\<rparr>"
| "synthesize_outcome (ScpClientPoisoned m) = Inr \<lparr>so_exit_code = 255, so_stderr = m\<rparr>"

fun scp_host_key_verification :: "ssh_host_key_mode \<Rightarrow> string \<Rightarrow> scp_host_key" where
  "scp_host_key_verification HkStrict f = ScpKnownHosts f"
| "scp_host_key_verification HkAcceptNew f = ScpAcceptNew f"
| "scp_host_key_verification HkAcceptAll f = ScpAcceptAll"

definition scp_config :: "scp_job \<Rightarrow> ssh_config_scp" where
  "scp_config job = \<lparr>sc_host = sj_host job, sc_port = sj_port job, sc_username = sj_username job,
     sc_private_key = sj_private_key_path job,
     sc_host_key = scp_host_key_verification (sj_host_key_mode job) (sj_known_hosts_file job)\<rparr>"

definition classify_scp_failure :: "scp_outcome \<Rightarrow> string \<Rightarrow> string \<Rightarrow> jmcp_error" where
  "classify_scp_failure out device_name known_hosts_file =
     (if str_contains ''@revoked'' (so_stderr out) then HostKeyRevoked device_name known_hosts_file
      else if str_contains ''Host key verification failed'' (so_stderr out)
        \<or> str_contains ''REMOTE HOST IDENTIFICATION HAS CHANGED'' (so_stderr out)
      then HostKeyMismatch device_name known_hosts_file
      else if so_exit_code out = 255
        \<and> (str_contains ''Connection timed out'' (so_stderr out) \<or> str_contains ''No route to host'' (so_stderr out))
      then ConnectTimeout device_name
      else ScpFailed (so_exit_code out) (scrub_scp_stderr (so_stderr out)))"

text \<open>
  \<^verbatim>\<open>MecmcpScpRunner::run\<close> and \<^verbatim>\<open>fetch\<close>: connect, copy, close. The token goes to the client; the waits themselves
  are not raced against it.
\<close>

definition scp_token :: "(nat option, 'w) tool_m" where
  "scp_token cx s = Some (TOk (cx_cancel cx), s)"

definition scp_with ::
    "('g, 'c, 'w) tool_lib \<Rightarrow> scp_job \<Rightarrow> ('c \<Rightarrow> nat option \<Rightarrow> 'w \<Rightarrow> (string list, scp_error, 'w) answer)
       \<Rightarrow> ((string \<times> bool) + scp_outcome, 'w) tool_m" where
  "scp_with L job copy =
     t_bind scp_token (\<lambda>ct.
     t_bind (t_await False (Some (ScpStarted job)) (tl_scp_connect L (scp_config job) ct)) (\<lambda>conn.
       case conn of
         Inl e \<Rightarrow> t_ret (synthesize_outcome e)
       | Inr client \<Rightarrow>
           t_bind (t_await False None (copy client ct)) (\<lambda>r.
             case r of
               Inl e \<Rightarrow> t_ret (synthesize_outcome e)
             | Inr messages \<Rightarrow>
                 t_bind (t_await False None (tl_scp_close L client)) (\<lambda>_.
                   t_ret (Inr \<lparr>so_exit_code = 0, so_stderr = str_join [NL] messages\<rparr>)))))"

definition ended_code :: "(string \<times> bool) + scp_outcome \<Rightarrow> int" where
  "ended_code r = (case r of Inl _ \<Rightarrow> - 1 | Inr out \<Rightarrow> so_exit_code out)"

definition scp_run :: "('g, 'c, 'w) tool_lib \<Rightarrow> scp_job \<Rightarrow> ((string \<times> bool) + scp_outcome, 'w) tool_m" where
  "scp_run L job =
     t_noted (\<lambda>r. ScpEnded (ended_code r)) (scp_with L job (\<lambda>c ct. tl_scp_upload L c (sj_local_path job) (sj_remote job) ct))"

definition scp_fetch :: "('g, 'c, 'w) tool_lib \<Rightarrow> scp_job \<Rightarrow> ((string \<times> bool) + scp_outcome, 'w) tool_m" where
  "scp_fetch L job =
     t_noted (\<lambda>r. ScpEnded (ended_code r)) (scp_with L job (\<lambda>c ct. tl_scp_download L c (sj_remote job) (sj_local_path job) ct))"

section \<open>Shared steps\<close>

record transfer_cfg =
  tc_staging_dir :: string
  tc_known_hosts_file :: string
  tc_host_key_mode :: ssh_host_key_mode

definition path_join :: "string \<Rightarrow> string \<Rightarrow> string" where
  "path_join d n = (if d = [] \<or> last d = CHR ''/'' then d @ n else d @ ''/'' @ n)"

text \<open>The blocks of the file are read, hashed and counted.\<close>

definition sha256_file_cancellable :: "('g, 'c, 'w) tool_lib \<Rightarrow> string \<Rightarrow> (string \<times> u64, 'w) tool_m" where
  "sha256_file_cancellable L path =
     t_noted (\<lambda>(sha, sz). LocalHashed path sha sz)
       (t_bind (t_await True None (tl_read L path)) (\<lambda>r.
         case r of
           Inl e \<Rightarrow> t_err (Io e)
         | Inr blocks \<Rightarrow> t_ret (tl_hash L (concat blocks), foldl (\<lambda>sz b. sz + of_nat (length b)) 0 blocks)))"

definition check_known_hosts :: "('g, 'c, 'w) tool_lib \<Rightarrow> transfer_cfg \<Rightarrow> (unit, 'w) tool_m" where
  "check_known_hosts L cfg =
     t_bind (t_world (tl_is_file L (tc_known_hosts_file cfg))) (\<lambda>present.
       if present \<or> tc_host_key_mode cfg = HkAcceptNew \<or> tc_host_key_mode cfg = HkAcceptAll then t_ret ()
       else t_err (KnownHostsMissing (tc_known_hosts_file cfg)))"

definition free_permit :: "('g, 'c, 'w) tool_lib \<Rightarrow> string \<Rightarrow> 'w tool_run \<Rightarrow> 'w tool_run" where
  "free_permit L router s = t_log (PermitFreed router) (s\<lparr>tr_world := tl_free_permit L router (tr_world s)\<rparr>)"

definition with_permit :: "('g, 'c, 'w) tool_lib \<Rightarrow> string \<Rightarrow> ('a, 'w) tool_m \<Rightarrow> ('a, 'w) tool_m" where
  "with_permit L router body =
     t_bind (t_noted (\<lambda>_. PermitTaken router) (t_raced None (tl_permit L router)))
       (\<lambda>_. t_scoped (free_permit L router) body)"

definition check_staged :: "('g, 'c, 'w) tool_lib \<Rightarrow> string \<Rightarrow> (unit, 'w) tool_m" where
  "check_staged L path =
     t_bind (t_world (tl_kind L path)) (\<lambda>meta.
       case meta of
         None \<Rightarrow> t_err (BadSourcePath (''staged file not found or unreadable: '' @ path))
       | Some FkSymlink \<Rightarrow> t_err (BadSourcePath (''staged path is a symlink, refusing to follow: '' @ path))
       | Some FkOther \<Rightarrow> t_err (BadSourcePath (''staged path is not a regular file: '' @ path))
       | Some FkRegular \<Rightarrow> t_ret ())"

definition ssh_key_of :: "string \<Rightarrow> inventory \<Rightarrow> (device_entry \<times> string) jres" where
  "ssh_key_of device iv =
     and_then (inv_get iv device) (\<lambda>entry.
       case auth entry of Password _ \<Rightarrow> Inl (UnsupportedAuth device) | SshKey k \<Rightarrow> Inr (entry, k))"

definition scp_result :: "(string \<times> bool) + scp_outcome \<Rightarrow> scp_outcome jres" where
  "scp_result r = (case r of Inl (m, interrupted) \<Rightarrow> Inl (if interrupted then Cancelled else Io m) | Inr out \<Rightarrow> Inr out)"

definition remote_of :: "string \<Rightarrow> string" where
  "remote_of basename = ''/var/tmp/'' @ basename"

definition checksum_cmd :: "string \<Rightarrow> string" where
  "checksum_cmd basename = ''file checksum sha-256 '' @ remote_of basename"

section \<open>transfer_file\<close>

record transfer_args =
  ta_device :: string
  ta_source_path :: string
  ta_force :: bool
  ta_verify :: bool
  ta_timeout :: u64

definition skipped_response :: "string \<Rightarrow> string \<Rightarrow> u64 \<Rightarrow> json" where
  "skipped_response basename sha sz =
     JObj [(''status'', JStr ''skipped''), (''remote_path'', JStr (remote_of basename)), (''size_bytes'', JNat (unat sz)),
       (''sha256'', JStr (hex32 sha)), (''verified'', JBool True),
       (''message'', JStr ''destination already present with matching sha256; no transfer performed'')]"

definition transferred_response :: "string \<Rightarrow> string \<Rightarrow> u64 \<Rightarrow> bool \<Rightarrow> json" where
  "transferred_response basename sha sz verified =
     JObj [(''status'', JStr ''transferred''), (''remote_path'', JStr (remote_of basename)),
       (''size_bytes'', JNat (unat sz)), (''sha256'', JStr (hex32 sha)), (''verified'', JBool verified)]"

definition transfer_job :: "transfer_cfg \<Rightarrow> device_entry \<Rightarrow> string \<Rightarrow> string \<Rightarrow> scp_job" where
  "transfer_job cfg entry key local_path =
     \<lparr>sj_private_key_path = key, sj_known_hosts_file = tc_known_hosts_file cfg, sj_username = username entry,
      sj_host = ip entry, sj_port = port entry, sj_local_path = local_path, sj_remote = ''/var/tmp/'',
      sj_host_key_mode = tc_host_key_mode cfg\<rparr>"

text \<open>The check after the copy; a copy that does not match is deleted again, as far as that goes.\<close>

definition verify_copy ::
    "text_lib \<Rightarrow> ('g, 'c, 'w) tool_lib \<Rightarrow> transfer_args \<Rightarrow> 'g \<Rightarrow> string \<Rightarrow> u64 \<Rightarrow> (json, 'w) tool_m" where
  "verify_copy X L args g local_sha local_size =
     (let basename = ta_source_path args in
      t_bind (t_probe L g (checksum_cmd basename) ''verify_checksum'') (\<lambda>verify_out.
      t_bind (t_lift (parse_checksum_output X verify_out)) (\<lambda>post.
        case post of
          None \<Rightarrow>
            if ta_verify args then t_err (VerifyMismatch (remote_of basename) (hex32 local_sha) ''<missing>'')
            else t_ret (transferred_response basename local_sha local_size False)
        | Some sha \<Rightarrow>
            if ta_verify args \<and> sha \<noteq> local_sha
            then t_bind (t_cli False L g (''file delete '' @ remote_of basename)) (\<lambda>_.
              t_err (VerifyMismatch (remote_of basename) (hex32 local_sha) (hex32 sha)))
            else t_ret (transferred_response basename local_sha local_size (sha = local_sha)))))"

definition copy_and_verify ::
    "text_lib \<Rightarrow> ('g, 'c, 'w) tool_lib \<Rightarrow> transfer_cfg \<Rightarrow> transfer_args \<Rightarrow> device_entry \<times> string \<Rightarrow> 'g \<Rightarrow> string \<Rightarrow> u64
       \<Rightarrow> (json, 'w) tool_m" where
  "copy_and_verify X L cfg args ek g local_sha local_size =
     (let job = transfer_job cfg (fst ek) (snd ek) (path_join (tc_staging_dir cfg) (ta_source_path args)) in
      t_bind (scp_run L job) (\<lambda>r.
      t_bind (t_lift (scp_result r)) (\<lambda>out.
        if so_exit_code out \<noteq> 0 then t_err (classify_scp_failure out (ta_device args) (tc_known_hosts_file cfg))
        else verify_copy X L args g local_sha local_size)))"

definition transfer_session ::
    "text_lib \<Rightarrow> ('g, 'c, 'w) tool_lib \<Rightarrow> transfer_cfg \<Rightarrow> transfer_args \<Rightarrow> device_entry \<times> string \<Rightarrow> string \<Rightarrow> u64 \<Rightarrow> 'g
       \<Rightarrow> (json, 'w) tool_m" where
  "transfer_session X L cfg args ek local_sha local_size g =
     (let basename = ta_source_path args; required = saturating_add local_size MIN_FREE_HEADROOM_BYTES in
      t_bind (t_probe L g ''show system storage no-forwarding'' ''storage_probe'') (\<lambda>storage_out.
      t_bind (t_lift (parse_storage_free_bytes X storage_out)) (\<lambda>free_bytes.
        if free_bytes < required
        then t_err (InsufficientDisk free_bytes required (''device '' @ [SQ] @ ta_device args @ [SQ] @ '' /var/tmp''))
        else
          t_bind (t_probe L g (checksum_cmd basename) ''remote_checksum'') (\<lambda>probe_out.
          t_bind (t_lift (parse_checksum_output X probe_out)) (\<lambda>pre.
            case pre of
              None \<Rightarrow> copy_and_verify X L cfg args ek g local_sha local_size
            | Some remote \<Rightarrow>
                if remote = local_sha then t_ret (skipped_response basename local_sha local_size)
                else if \<not> ta_force args
                then t_err (DestExistsDiffers (remote_of basename) (hex32 local_sha) (hex32 remote))
                else copy_and_verify X L cfg args ek g local_sha local_size)))))"

definition transfer_body ::
    "text_lib \<Rightarrow> ('g, 'c, 'w) tool_lib \<Rightarrow> transfer_cfg \<Rightarrow> transfer_args \<Rightarrow> (json, 'w) tool_m" where
  "transfer_body X L cfg args =
     (let local_path = path_join (tc_staging_dir cfg) (ta_source_path args) in
      t_bind t_cancelled (\<lambda>cancelled.
        if cancelled then t_err Cancelled
        else
          t_bind (t_lift (validate_source_basename (ta_source_path args))) (\<lambda>_.
          t_bind (check_known_hosts L cfg) (\<lambda>_.
          with_permit L (ta_device args) (
            t_bind (check_staged L local_path) (\<lambda>_.
            t_bind (sha256_file_cancellable L local_path) (\<lambda>(local_sha, local_size).
            t_bind (t_world (tl_inventory L)) (\<lambda>iv.
            t_bind (t_lift (ssh_key_of (ta_device args) iv)) (\<lambda>ek.
              with_session L (ta_device args) (transfer_session X L cfg args ek local_sha local_size))))))))))"

definition transfer_file ::
    "text_lib \<Rightarrow> ('g, 'c, 'w) tool_lib \<Rightarrow> transfer_cfg \<Rightarrow> transfer_args \<Rightarrow> (json, 'w) tool_m" where
  "transfer_file X L cfg args =
     t_within (unat (ta_timeout args) * 1000) (TransferOuterTimeout (unat (ta_timeout args) * 1000))
       (transfer_body X L cfg args)"

section \<open>fetch_file\<close>

record fetch_args =
  fa_device :: string
  fa_remote_path :: string
  fa_local_name :: "string option"
  fa_force :: bool
  fa_verify :: bool
  fa_timeout :: u64

definition fetch_skipped :: "string \<Rightarrow> string \<Rightarrow> string \<Rightarrow> u64 \<Rightarrow> json" where
  "fetch_skipped local_path remote_basename sha sz =
     JObj [(''status'', JStr ''skipped''), (''local_path'', JStr local_path), (''remote_path'', JStr (remote_of remote_basename)),
       (''size_bytes'', JNat (unat sz)), (''sha256'', JStr (hex32 sha)), (''verified'', JBool True),
       (''message'', JStr ''local file already present with matching sha256; no fetch performed'')]"

definition remove_local :: "('g, 'c, 'w) tool_lib \<Rightarrow> string \<Rightarrow> (unit, 'w) tool_m" where
  "remove_local L path cx s = Some (TOk (), t_log (LocalRemove path) (s\<lparr>tr_world := tl_remove L path (tr_world s)\<rparr>))"

definition rename_local :: "('g, 'c, 'w) tool_lib \<Rightarrow> string \<Rightarrow> string \<Rightarrow> (unit, 'w) tool_m" where
  "rename_local L old new cx s =
     (let (r, w) = tl_rename L old new (tr_world s) in
      case r of
        Inl e \<Rightarrow> Some (TErr (Io e), s\<lparr>tr_world := w\<rparr>)
      | Inr _ \<Rightarrow> Some (TOk (), t_log (LocalRename old new) (s\<lparr>tr_world := w\<rparr>)))"

definition fetch_job :: "transfer_cfg \<Rightarrow> device_entry \<Rightarrow> string \<Rightarrow> string \<Rightarrow> string \<Rightarrow> scp_job" where
  "fetch_job cfg entry key remote partial =
     \<lparr>sj_private_key_path = key, sj_known_hosts_file = tc_known_hosts_file cfg, sj_username = username entry,
      sj_host = ip entry, sj_port = port entry, sj_local_path = partial, sj_remote = remote,
      sj_host_key_mode = tc_host_key_mode cfg\<rparr>"

definition download_and_promote ::
    "('g, 'c, 'w) tool_lib \<Rightarrow> transfer_cfg \<Rightarrow> fetch_args \<Rightarrow> device_entry \<times> string \<Rightarrow> string \<Rightarrow> string \<Rightarrow> (json, 'w) tool_m" where
  "download_and_promote L cfg args ek local_basename remote_sha =
     (let local_path = path_join (tc_staging_dir cfg) local_basename;
          partial_path = path_join (tc_staging_dir cfg) (local_basename @ ''.partial'');
          remote_path = remote_of (fa_remote_path args) in
      t_bind (remove_local L partial_path) (\<lambda>_.
      t_bind (scp_fetch L (fetch_job cfg (fst ek) (snd ek) remote_path partial_path)) (\<lambda>r.
        case scp_result r of
          Inl e \<Rightarrow> t_bind (remove_local L partial_path) (\<lambda>_. t_err e)
        | Inr out \<Rightarrow>
            if so_exit_code out \<noteq> 0
            then t_bind (remove_local L partial_path) (\<lambda>_.
              t_err (classify_scp_failure out (fa_device args) (tc_known_hosts_file cfg)))
            else
              t_bind (sha256_file_cancellable L partial_path) (\<lambda>(post_sha, post_size).
                if fa_verify args \<and> post_sha \<noteq> remote_sha
                then t_bind (remove_local L partial_path) (\<lambda>_.
                  t_err (FetchVerifyMismatch local_path (hex32 post_sha) (hex32 remote_sha)))
                else
                  t_bind (rename_local L partial_path local_path) (\<lambda>_.
                    t_ret (JObj [(''status'', JStr ''fetched''), (''local_path'', JStr local_path),
                      (''remote_path'', JStr remote_path), (''size_bytes'', JNat (unat post_size)),
                      (''sha256'', JStr (hex32 post_sha)), (''verified'', JBool (post_sha = remote_sha))]))))))"

definition fetch_session ::
    "text_lib \<Rightarrow> ('g, 'c, 'w) tool_lib \<Rightarrow> transfer_cfg \<Rightarrow> fetch_args \<Rightarrow> device_entry \<times> string \<Rightarrow> string \<Rightarrow> 'g \<Rightarrow> (json, 'w) tool_m" where
  "fetch_session X L cfg args ek local_basename g =
     (let local_path = path_join (tc_staging_dir cfg) local_basename in
      t_bind (t_probe L g (checksum_cmd (fa_remote_path args)) ''remote_checksum'') (\<lambda>probe_out.
      t_bind (t_lift (parse_checksum_output X probe_out)) (\<lambda>pre.
        case pre of
          None \<Rightarrow> t_err (RemoteFileMissing (fa_device args) (remote_of (fa_remote_path args)))
        | Some remote_sha \<Rightarrow>
            t_bind (t_world (tl_kind L local_path)) (\<lambda>meta.
              case meta of
                Some FkSymlink \<Rightarrow>
                  t_err (BadSourcePath (''local destination is a symlink, refusing to overwrite: '' @ local_path))
              | Some FkRegular \<Rightarrow>
                  t_bind (sha256_file_cancellable L local_path) (\<lambda>(local_sha, local_size).
                    if local_sha = remote_sha then t_ret (fetch_skipped local_path (fa_remote_path args) local_sha local_size)
                    else if \<not> fa_force args
                    then t_err (LocalDestExistsDiffers local_path (hex32 local_sha) (hex32 remote_sha))
                    else download_and_promote L cfg args ek local_basename remote_sha)
              | _ \<Rightarrow> download_and_promote L cfg args ek local_basename remote_sha))))"

definition fetch_body ::
    "text_lib \<Rightarrow> ('g, 'c, 'w) tool_lib \<Rightarrow> transfer_cfg \<Rightarrow> fetch_args \<Rightarrow> (json, 'w) tool_m" where
  "fetch_body X L cfg args =
     (let local_basename = (case fa_local_name args of Some n \<Rightarrow> n | None \<Rightarrow> fa_remote_path args) in
      t_bind t_cancelled (\<lambda>cancelled.
        if cancelled then t_err Cancelled
        else
          t_bind (t_lift (validate_source_basename (fa_remote_path args))) (\<lambda>_.
          t_bind (t_lift (validate_source_basename local_basename)) (\<lambda>_.
          t_bind (check_known_hosts L cfg) (\<lambda>_.
          with_permit L (fa_device args) (
            t_bind (t_world (tl_inventory L)) (\<lambda>iv.
            t_bind (t_lift (ssh_key_of (fa_device args) iv)) (\<lambda>ek.
              with_session L (fa_device args) (fetch_session X L cfg args ek local_basename)))))))))"

definition fetch_file ::
    "text_lib \<Rightarrow> ('g, 'c, 'w) tool_lib \<Rightarrow> transfer_cfg \<Rightarrow> fetch_args \<Rightarrow> (json, 'w) tool_m" where
  "fetch_file X L cfg args =
     t_within (unat (fa_timeout args) * 1000) (TransferOuterTimeout (unat (fa_timeout args) * 1000))
       (fetch_body X L cfg args)"

section \<open>The tools return\<close>

lemma timely_shared [timely_intros]:
  "timely (sha256_file_cancellable L path)" "timely (check_known_hosts L cfg)" "timely (check_staged L path)"
  "timely (scp_run L job)" "timely (scp_fetch L job)" "timely (remove_local L path)" "timely (rename_local L old new)"
proof -
  show "timely (sha256_file_cancellable L path)"
    by (auto simp: sha256_file_cancellable_def intro!: timely_intros split: sum.split)
  show "timely (check_known_hosts L cfg)" by (auto simp: check_known_hosts_def intro!: timely_intros)
  show "timely (check_staged L path)"
    by (auto simp: check_staged_def intro!: timely_intros split: option.split file_kind.split)
  have "timely scp_token" by (simp add: timely_def scp_token_def)
  then have "timely (scp_with L job copy)" for copy
    by (auto simp: scp_with_def intro!: timely_intros split: sum.split)
  then show "timely (scp_run L job)" "timely (scp_fetch L job)" by (auto simp: scp_run_def scp_fetch_def intro!: timely_intros)
  show "timely (remove_local L path)" by (simp add: timely_def remove_local_def)
  show "timely (rename_local L old new)"
    by (auto simp: timely_def rename_local_def split: prod.splits sum.splits)
qed

lemma timely_permit [timely_intros]: "timely body \<Longrightarrow> timely (with_permit L router body)"
  by (auto simp: with_permit_def free_permit_def intro!: timely_intros)

lemma timely_transfer: "timely (transfer_body X L cfg args)"
proof -
  have v: "timely (verify_copy X L args g sha sz)" for g sha sz
    by (auto simp: verify_copy_def Let_def intro!: timely_intros split: option.split)
  have c: "timely (copy_and_verify X L cfg args ek g sha sz)" for ek g sha sz
    by (auto simp: copy_and_verify_def Let_def intro!: timely_intros v)
  have "timely (transfer_session X L cfg args ek sha sz g)" for ek sha sz g
    by (auto simp: transfer_session_def Let_def intro!: timely_intros c split: option.split)
  then show ?thesis by (auto simp: transfer_body_def Let_def intro!: timely_intros)
qed

lemma timely_fetch: "timely (fetch_body X L cfg args)"
proof -
  have d: "timely (download_and_promote L cfg args ek name sha)" for ek name sha
    by (auto simp: download_and_promote_def Let_def intro!: timely_intros split: sum.split)
  have "timely (fetch_session X L cfg args ek name g)" for ek name g
    by (auto simp: fetch_session_def Let_def intro!: timely_intros d split: option.split file_kind.split)
  then show ?thesis by (auto simp: fetch_body_def Let_def intro!: timely_intros)
qed

text \<open>
  A transfer, either way, returns within the time the caller gave it, whatever the device, the copy, the file
  system and the other transfers do, never answering included; a limit that elapses comes back as the tool's own
  timeout error.
\<close>

theorem transfers_return_in_time:
  "(\<exists>r s'. transfer_file X L cfg targs \<lparr>cx_cancel = ct, cx_limits = []\<rparr> s = Some (r, s')
     \<and> tr_now s' \<le> tr_now s + unat (ta_timeout targs) * 1000 \<and> (\<forall>k. r \<noteq> TElapsed k))
   \<and> (\<exists>r s'. fetch_file X L cfg fargs \<lparr>cx_cancel = ct, cx_limits = []\<rparr> s = Some (r, s')
     \<and> tr_now s' \<le> tr_now s + unat (fa_timeout fargs) * 1000 \<and> (\<forall>k. r \<noteq> TElapsed k))"
  using timely_within [OF timely_transfer] timely_within [OF timely_fetch] unfolding transfer_file_def fetch_file_def
  by meson

section \<open>What a transfer does\<close>

lemma logs_sha [logs_intros]:
  assumes "\<And>e. R (TErr e) l" "\<And>k. R (TElapsed k) l"
    "\<And>sha sz. R (TOk (sha, sz)) (l @ [LocalHashed path sha sz])"
  shows "logs (sha256_file_cancellable L path) R l"
  unfolding sha256_file_cancellable_def
  by (intro logs_noted logs_bind logs_await) (auto intro!: assms logs_err logs_ret split: sum.split)

lemma logs_known_hosts [logs_intros]:
  assumes "\<And>e. R (TErr e) l" "R (TOk ()) l"
  shows "logs (check_known_hosts L cfg) R l"
  unfolding check_known_hosts_def by (intro logs_bind logs_ask) (auto intro!: assms logs_err logs_ret)

lemma logs_staged [logs_intros]:
  assumes "\<And>e. R (TErr e) l" "R (TOk ()) l"
  shows "logs (check_staged L path) R l"
  unfolding check_staged_def
  by (intro logs_bind logs_ask) (auto intro!: assms logs_err logs_ret split: option.split file_kind.split)

lemma logs_permit [logs_intros]:
  assumes "\<And>e. R (TErr e) l" "\<And>k. R (TElapsed k) l"
    "logs body (\<lambda>r l'. R r (l' @ [PermitFreed router])) (l @ [PermitTaken router])"
  shows "logs (with_permit L router body) R l"
  unfolding with_permit_def
  by (intro logs_bind logs_noted logs_raced) (auto intro!: assms logs_scoped simp: free_permit_def)

lemma logs_scp_with:
  assumes "\<And>k. R (TElapsed k) (l @ [ScpStarted job])" "\<And>x. R (TOk x) (l @ [ScpStarted job])"
  shows "logs (scp_with L job copy) R l"
proof -
  have t: "logs scp_token Q l" if "\<And>x. Q (TOk x) l" for Q using that by (simp add: logs_def scp_token_def)
  show ?thesis unfolding scp_with_def
    by (intro logs_bind t) (auto intro!: assms logs_bind logs_await logs_ret split: sum.split)
qed

lemma logs_scp [logs_intros]:
  assumes "\<And>k. R (TElapsed k) (l @ [ScpStarted job])"
    "\<And>x. R (TOk x) (l @ [ScpStarted job, ScpEnded (ended_code x)])"
  shows "logs (scp_run L job) R l" "logs (scp_fetch L job) R l"
  unfolding scp_run_def scp_fetch_def by (auto intro!: logs_noted logs_scp_with assms)

text \<open>What must be on record before a copy to the device starts.\<close>

definition upload_justified ::
    "text_lib \<Rightarrow> transfer_cfg \<Rightarrow> transfer_args \<Rightarrow> tool_event list \<Rightarrow> tool_event \<Rightarrow> bool" where
  "upload_justified X cfg args seen e =
     (case e of
        ScpStarted job \<Rightarrow>
          is_ok (validate_source_basename (ta_source_path args))
          \<and> sj_local_path job = path_join (tc_staging_dir cfg) (ta_source_path args) \<and> sj_remote job = ''/var/tmp/''
          \<and> sj_host_key_mode job = tc_host_key_mode cfg
          \<and> PermitTaken (ta_device args) \<in> set seen \<and> PermitFreed (ta_device args) \<notin> set seen
          \<and> (\<exists>sha sz out free. LocalHashed (sj_local_path job) sha sz \<in> set seen
               \<and> CliSaid ''show system storage no-forwarding'' (Some out) \<in> set seen
               \<and> parse_storage_free_bytes X out = Inr free \<and> saturating_add sz MIN_FREE_HEADROOM_BYTES \<le> free)
          \<and> (\<exists>out pre. CliSaid (checksum_cmd (ta_source_path args)) (Some out) \<in> set seen
               \<and> parse_checksum_output X out = Inr pre \<and> (pre = None \<or> ta_force args))
      | _ \<Rightarrow> True)"

lemma upload_justified_other [simp]:
  "(\<And>job. e \<noteq> ScpStarted job) \<Longrightarrow> upload_justified X cfg args seen e"
  by (cases e) (simp_all add: upload_justified_def, blast)

lemma upload_starts:
  "adds (transfer_body X L cfg args) (\<lambda>r es. each_after (upload_justified X cfg args) [] es)"
proof (rule addsI)
  fix l
  show "logs (transfer_body X L cfg args) (\<lambda>r l'. \<exists>es. l' = l @ es \<and> each_after (upload_justified X cfg args) [] es) l"
    unfolding transfer_body_def Let_def
    by (auto simp: transfer_session_def copy_and_verify_def verify_copy_def Let_def
        intro!: logs_intros split: option.split)
      (auto simp: upload_justified_def transfer_job_def is_ok_def not_less)
qed

text \<open>
  C14. A copy to a device starts only for a name that cannot leave the staging directory, from that directory, with
  the configured host-key check, while the device's permit is held, after the device reported room for the file just
  read and the head room, and after it reported that the file is not there, unless the caller forced it.
\<close>

theorem upload_is_justified:
  assumes "transfer_file X L cfg args cx s = Some (r, s')" "tr_log s' = tr_log s @ pre @ ScpStarted job # post"
  shows "upload_justified X cfg args pre (ScpStarted job)"
proof -
  have "adds (transfer_file X L cfg args) (\<lambda>r es. each_after (upload_justified X cfg args) [] es)"
    unfolding transfer_file_def
    by (intro addsI logs_within adds_logs [OF upload_starts]) (auto simp: next_log_def split: outcome.splits)
  from addsD [OF this assms(1)] assms(2) show ?thesis by (auto simp: each_after_iff)
qed

text \<open>What a report of success says.\<close>

definition transfer_report :: "text_lib \<Rightarrow> transfer_cfg \<Rightarrow> transfer_args \<Rightarrow> json outcome \<Rightarrow> tool_event list \<Rightarrow> bool" where
  "transfer_report X cfg args r es \<longleftrightarrow>
     (\<forall>j. r = TOk j \<longrightarrow>
        (\<exists>sha sz out. j = skipped_response (ta_source_path args) sha sz
           \<and> LocalHashed (path_join (tc_staging_dir cfg) (ta_source_path args)) sha sz \<in> set es
           \<and> CliSaid (checksum_cmd (ta_source_path args)) (Some out) \<in> set es
           \<and> parse_checksum_output X out = Inr (Some sha) \<and> (\<forall>job. ScpStarted job \<notin> set es))
        \<or> (\<exists>sha sz v out before later. j = transferred_response (ta_source_path args) sha sz v
           \<and> (ta_verify args \<longrightarrow> v) \<and> es = before @ ScpEnded 0 # later
           \<and> LocalHashed (path_join (tc_staging_dir cfg) (ta_source_path args)) sha sz \<in> set before
           \<and> CliSaid (checksum_cmd (ta_source_path args)) (Some out) \<in> set later
           \<and> (v \<longrightarrow> parse_checksum_output X out = Inr (Some sha))))"

lemma transfer_report_fail [simp]: "transfer_report X cfg args (TErr e) es" "transfer_report X cfg args (TElapsed k) es"
  by (simp_all add: transfer_report_def)

lemma scp_result_ok: "scp_result r = Inr out \<Longrightarrow> ended_code r = so_exit_code out"
  by (auto simp: scp_result_def ended_code_def split: sum.splits if_splits)

lemma transferred_report:
  assumes "LocalHashed (path_join (tc_staging_dir cfg) (ta_source_path args)) sha sz \<in> set before"
    "CliSaid (checksum_cmd (ta_source_path args)) (Some out) \<in> set later" "ta_verify args \<longrightarrow> v"
    "v \<longrightarrow> parse_checksum_output X out = Inr (Some sha)"
  shows "transfer_report X cfg args (TOk (transferred_response (ta_source_path args) sha sz v)) (before @ ScpEnded 0 # later)"
  using assms unfolding transfer_report_def by blast

lemma skipped_report:
  assumes "\<exists>out. CliSaid (checksum_cmd (ta_source_path args)) (Some out) \<in> set es
      \<and> parse_checksum_output X out = Inr (Some sha)"
    "LocalHashed (path_join (tc_staging_dir cfg) (ta_source_path args)) sha sz \<in> set es" "\<And>job. ScpStarted job \<notin> set es"
  shows "transfer_report X cfg args (TOk (skipped_response (ta_source_path args) sha sz)) es"
  using assms unfolding transfer_report_def by blast

lemma verify_reports:
  "adds (verify_copy X L args g sha sz) (\<lambda>r es. \<forall>j. r = TOk j \<longrightarrow>
     (\<exists>v out. j = transferred_response (ta_source_path args) sha sz v \<and> (ta_verify args \<longrightarrow> v)
        \<and> CliSaid (checksum_cmd (ta_source_path args)) (Some out) \<in> set es
        \<and> (v \<longrightarrow> parse_checksum_output X out = Inr (Some sha))))"
  unfolding verify_copy_def Let_def
  by (rule addsI) (auto simp: transferred_response_def ex_bool_eq intro!: logs_intros split: option.split)

lemma transfer_report_append:
  assumes "transfer_report X cfg args r es" "\<And>job. ScpStarted job \<notin> set back"
  shows "transfer_report X cfg args r (es @ back)"
proof (cases r)
  case (TOk j)
  with assms(1) consider
    (skip) sha sz out where "j = skipped_response (ta_source_path args) sha sz"
      "LocalHashed (path_join (tc_staging_dir cfg) (ta_source_path args)) sha sz \<in> set es"
      "CliSaid (checksum_cmd (ta_source_path args)) (Some out) \<in> set es" "parse_checksum_output X out = Inr (Some sha)"
      "\<forall>job. ScpStarted job \<notin> set es"
    | (sent) sha sz v out before later where "j = transferred_response (ta_source_path args) sha sz v"
      "ta_verify args \<longrightarrow> v" "es = before @ ScpEnded 0 # later"
      "LocalHashed (path_join (tc_staging_dir cfg) (ta_source_path args)) sha sz \<in> set before"
      "CliSaid (checksum_cmd (ta_source_path args)) (Some out) \<in> set later"
      "v \<longrightarrow> parse_checksum_output X out = Inr (Some sha)"
    unfolding transfer_report_def by blast
  then show ?thesis
  proof cases
    case skip
    with assms(2) show ?thesis unfolding TOk by (auto intro!: skipped_report)
  next
    case sent
    have "transfer_report X cfg args (TOk j) (before @ ScpEnded 0 # later @ back)"
      unfolding sent(1) by (rule transferred_report) (use sent in auto)
    with sent(3) show ?thesis by (simp add: TOk)
  qed
qed simp_all

lemma copy_reports:
  assumes "\<And>job. ScpStarted job \<notin> set back"
    and hashed: "LocalHashed (path_join (tc_staging_dir cfg) (ta_source_path args)) sha sz \<in> set front"
  shows "logs (copy_and_verify X L cfg args ek g sha sz)
    (\<lambda>r l'. \<exists>es. l' @ back = l @ es \<and> transfer_report X cfg args r es) (l @ front)"
proof -
  have "logs (verify_copy X L args g sha sz)
      (\<lambda>r l'. \<exists>es. l' @ back = l @ es \<and> transfer_report X cfg args r es) (l @ front @ [ScpStarted job, ScpEnded 0])" for job
  proof (rule adds_logs [OF verify_reports])
    fix r es
    assume v: "\<forall>j. r = TOk j \<longrightarrow> (\<exists>v out. j = transferred_response (ta_source_path args) sha sz v \<and> (ta_verify args \<longrightarrow> v)
        \<and> CliSaid (checksum_cmd (ta_source_path args)) (Some out) \<in> set es
        \<and> (v \<longrightarrow> parse_checksum_output X out = Inr (Some sha)))"
    have "transfer_report X cfg args r ((front @ [ScpStarted job]) @ ScpEnded 0 # es)"
    proof (cases r)
      case (TOk j)
      with v hashed show ?thesis using transferred_report [of cfg args sha sz "front @ [ScpStarted job]"] by fastforce
    qed simp_all
    from transfer_report_append [OF this assms(1)]
    show "\<exists>es'. ((l @ front @ [ScpStarted job, ScpEnded 0]) @ es) @ back = l @ es' \<and> transfer_report X cfg args r es'" by simp
  qed
  then show ?thesis unfolding copy_and_verify_def Let_def
    by (auto intro!: logs_intros simp: scp_result_ok)
qed

lemma transfer_reports: "adds (transfer_body X L cfg args) (transfer_report X cfg args)"
proof (rule addsI)
  fix l
  let ?d = "ta_device args" and ?c = "checksum_cmd (ta_source_path args)"
  have c: "logs (copy_and_verify X L cfg args ek g sha sz)
      (\<lambda>r l'. \<exists>es. l' @ [SessionFreed, PermitFreed ?d] = l @ es \<and> transfer_report X cfg args r es) (l @ front)"
    if "LocalHashed (path_join (tc_staging_dir cfg) (ta_source_path args)) sha sz \<in> set front" for ek g sha sz front
    by (rule copy_reports) (simp_all add: that)
  show "logs (transfer_body X L cfg args) (\<lambda>r l'. \<exists>es. l' = l @ es \<and> transfer_report X cfg args r es) l"
    unfolding transfer_body_def transfer_session_def Let_def
    by (auto intro!: logs_intros skipped_report c split: option.split) blast+
qed

lemma transfer_file_reports: "adds (transfer_file X L cfg args) (transfer_report X cfg args)"
  unfolding transfer_file_def
  by (intro addsI logs_within adds_logs [OF transfer_reports]) (auto simp: next_log_def split: outcome.splits)

text \<open>
  C15. What a transfer reports as done is done: a skipped copy means the device reported the digest of the local file
  as it was read in this run, and nothing was copied; a finished copy was followed by a fresh checksum from the device, which for a report marked
  verified is the digest of the local file, and with verification asked for every such report is so marked.
\<close>

theorem transfer_report_is_true:
  assumes "transfer_file X L cfg args cx s = Some (r, s')"
  shows "\<exists>es. tr_log s' = tr_log s @ es \<and> transfer_report X cfg args r es"
  by (rule addsD [OF transfer_file_reports assms])

section \<open>A transfer in the laboratory\<close>

text \<open>A device with one router, an empty \<^verbatim>\<open>/var/tmp\<close> and one staged file; the world counts the checksums asked for.\<close>

definition quick :: "'a \<Rightarrow> 'w \<Rightarrow> ('a, 'e, 'w) answer" where
  "quick v w = \<lparr>takes = Some 5, says = Inr v, after = w, dropped = w\<rparr>"

definition bench_digest :: string where "bench_digest = replicate 32 (CHR 0xAB)"

definition bench_entry :: device_entry where
  "bench_entry = snd (hd (devices (dm_inventory lab_dm)))\<lparr>auth := SshKey ''/k''\<rparr>"

definition bench_inv :: inventory where
  "bench_inv = (dm_inventory lab_dm)\<lparr>devices := [(''r1'', bench_entry)]\<rparr>"

definition bench_cli :: "string \<Rightarrow> unit \<Rightarrow> nat \<Rightarrow> (string, rustez_error, nat) answer" where
  "bench_cli c g w =
     (if c = ''show system storage no-forwarding'' then quick ''/dev/x 10G 2G 7B 23% /var'' w
      else if c = checksum_cmd ''f'' then
        quick (if w = 0 then ''error: stat: /var/tmp/f: No such file or directory'' else checksum_line ''f'' bench_digest) (Suc w)
      else quick [] w)"

definition bench :: "(unit, unit, nat) tool_lib" where
  "bench = \<lparr>tl_inventory = \<lambda>_. bench_inv, tl_open = \<lambda>_. quick (), tl_open_fresh = \<lambda>_. quick (),
     tl_cli = bench_cli, tl_run_cli = \<lambda>_ _. quick [], tl_drop = \<lambda>_ w. w,
     tl_permit = \<lambda>_. quick (), tl_free_permit = \<lambda>_ w. w, tl_lease = \<lambda>_ _ _. quick (), tl_free_lease = \<lambda>_ w. w,
     tl_kind = \<lambda>_ _. Some FkRegular, tl_is_file = \<lambda>_ _. True, tl_read = \<lambda>_. quick [''abc''], tl_hash = \<lambda>_. bench_digest,
     tl_scp_connect = \<lambda>_ _. quick (), tl_scp_upload = \<lambda>_ _ _ _. quick [], tl_scp_download = \<lambda>_ _ _ _. quick [],
     tl_scp_close = \<lambda>_. quick (), tl_rename = \<lambda>_ _ w. (Inr (), w), tl_remove = \<lambda>_ w. w\<rparr>"

definition bench_text :: text_lib where
  "bench_text = \<lparr>tx_scaled = \<lambda>_ _. Some 7000000000, tx_debug = id, tx_print = \<lambda>_. []\<rparr>"

definition bench_cfg :: transfer_cfg where
  "bench_cfg = \<lparr>tc_staging_dir = ''/s'', tc_known_hosts_file = ''/kh'', tc_host_key_mode = HkStrict\<rparr>"

definition bench_args :: transfer_args where
  "bench_args = \<lparr>ta_device = ''r1'', ta_source_path = ''f'', ta_force = False, ta_verify = True, ta_timeout = 600\<rparr>"

definition bench_job :: scp_job where
  "bench_job = transfer_job bench_cfg bench_entry ''/k'' ''/s/f''"

abbreviation bench_ctx :: tool_ctx where "bench_ctx \<equiv> \<lparr>cx_cancel = None, cx_limits = []\<rparr>"
abbreviation bench_start :: "nat tool_run" where "bench_start \<equiv> \<lparr>tr_now = 0, tr_world = 0, tr_log = []\<rparr>"

definition bench_before :: "tool_event list" where
  "bench_before = [PermitTaken ''r1'', LocalHashed ''/s/f'' bench_digest 3, SessionOpened ''r1'', CliSent ''show system storage no-forwarding'',
     CliSaid ''show system storage no-forwarding'' (Some ''/dev/x 10G 2G 7B 23% /var''),
     CliSent (checksum_cmd ''f''), CliSaid (checksum_cmd ''f'') (Some ''error: stat: /var/tmp/f: No such file or directory'')]"

definition bench_later :: "tool_event list" where
  "bench_later = [ScpEnded 0, CliSent (checksum_cmd ''f''),
     CliSaid (checksum_cmd ''f'') (Some (checksum_line ''f'' bench_digest)), SessionFreed, PermitFreed ''r1'']"

lemma bench_facts:
  "validate_source_basename ''f'' = Inr ()"
  "parse_storage_free_bytes bench_text ''/dev/x 10G 2G 7B 23% /var'' = Inr 7000000000"
  "parse_checksum_output bench_text ''error: stat: /var/tmp/f: No such file or directory'' = Inr None"
  "parse_checksum_output bench_text (checksum_line ''f'' bench_digest) = Inr (Some bench_digest)"
  by code_simp+

lemma bench_key: "ssh_key_of ''r1'' bench_inv = Inr (bench_entry, ''/k'')"
  by (simp add: ssh_key_of_def inv_get_def bench_inv_def bench_entry_def lab_dm_def)

lemma bench_room: "(7000000000 < saturating_add (3 :: u64) MIN_FREE_HEADROOM_BYTES) = False"
  by (simp add: saturating_add_def MIN_FREE_HEADROOM_BYTES_def word_less_alt)

lemmas tool_run_defs = t_within_def t_timeout_def t_bind_def t_ret_def t_err_def t_lift_def t_world_def t_cancelled_def
  t_scoped_def t_noted_def t_raced_def t_log_def t_cli_def t_probe_def t_await_def t_settle_def not_later_def
  with_session_def free_session_def said_def map_err_def Let_def

lemmas transfer_run_defs = transfer_file_def transfer_body_def check_known_hosts_def with_permit_def free_permit_def
  check_staged_def sha256_file_cancellable_def transfer_session_def copy_and_verify_def verify_copy_def scp_run_def
  scp_with_def scp_token_def scp_result_def ended_code_def

lemma bench_runs:
  "transfer_file bench_text bench bench_cfg bench_args bench_ctx bench_start =
     Some (TOk (transferred_response ''f'' bench_digest 3 True),
       \<lparr>tr_now = 45, tr_world = 2, tr_log = bench_before @ ScpStarted bench_job # bench_later\<rparr>)"
  by (simp add: transfer_run_defs tool_run_defs bench_facts bench_key bench_room bench_def bench_cfg_def bench_args_def bench_cli_def quick_def
      bench_before_def bench_later_def bench_job_def checksum_cmd_def remote_of_def path_join_def)

theorem upload_is_justified_witness:
  "upload_justified bench_text bench_cfg bench_args bench_before (ScpStarted bench_job)"
  by (rule upload_is_justified [OF bench_runs]) simp

theorem transfer_report_is_true_witness:
  "transfer_report bench_text bench_cfg bench_args (TOk (transferred_response ''f'' bench_digest 3 True))
     (bench_before @ ScpStarted bench_job # bench_later)"
  using transfer_report_is_true [OF bench_runs] by simp

end
