(* ===== verification/Upgrade_Checks.thy ===== *)
theory Upgrade_Checks
  imports Transfer_Text Helpers
begin

text \<open>
  The pure parts of \<^verbatim>\<open>tools/upgrade_junos.rs\<close>: reading the version, the cluster status and the commit-confirmed
  window from the device's output, comparing two baselines, and the decision before an upgrade.
\<close>

section \<open>Reading the device\<close>

fun version_lines :: "string list \<Rightarrow> string option" where
  "version_lines [] = None"
| "version_lines (line # ls) =
     (case strip_prefix ''Junos:'' (str_trim line) of
        None \<Rightarrow> version_lines ls
      | Some rest \<Rightarrow> if str_trim rest \<noteq> [] then Some (str_trim rest) else version_lines ls)"

definition parse_junos_version :: "string \<Rightarrow> string option" where
  "parse_junos_version output = version_lines (str_lines output)"

definition detect_cluster_active :: "string \<Rightarrow> bool" where
  "detect_cluster_active output = list_ex (\<lambda>line. starts_with ''Cluster ID:'' (str_trim line)) (str_lines output)"

definition checked_add :: "'a::len word \<Rightarrow> 'a word \<Rightarrow> 'a word option" where
  "checked_add x y = (if unat x + unat y < 2 ^ LENGTH('a) then Some (x + y) else None)"

text \<open>The loop over the characters, with the total, the number being read and whether there is one.\<close>

fun rollback_chars :: "string \<Rightarrow> u64 \<Rightarrow> u64 \<Rightarrow> bool \<Rightarrow> u64 option" where
  "rollback_chars [] total_secs num have_num = (if have_num then None else Some total_secs)"
| "rollback_chars (c # cs) total_secs num have_num =
     (if is_ascii_digit c
      then (case checked_mul num 10 of
              None \<Rightarrow> None
            | Some n \<Rightarrow>
                (case checked_add n (of_nat (byte c - 48)) of
                   None \<Rightarrow> None
                 | Some n' \<Rightarrow> rollback_chars cs total_secs n' True))
      else if c = CHR ''m''
      then (if \<not> have_num then None
            else (case checked_mul num 60 of
                    None \<Rightarrow> None
                  | Some secs \<Rightarrow>
                      (case checked_add total_secs secs of
                         None \<Rightarrow> None
                       | Some t \<Rightarrow> rollback_chars cs t 0 False)))
      else if c = CHR ''s''
      then (if \<not> have_num then None
            else (case checked_add total_secs num of
                    None \<Rightarrow> None
                  | Some t \<Rightarrow> rollback_chars cs t 0 False))
      else None)"

definition parse_rollback_duration :: "string \<Rightarrow> u64 option" where
  "parse_rollback_duration token = rollback_chars token 0 0 False"

definition first_token :: "string \<Rightarrow> string" where
  "first_token s = (case find_ws s of None \<Rightarrow> s | Some i \<Rightarrow> take i s)"

fun rollback_lines :: "string list \<Rightarrow> u64 option" where
  "rollback_lines [] = None"
| "rollback_lines (line # ls) =
     (let t = str_trim line in
      case str_find ''rollback in '' t of
        None \<Rightarrow> rollback_lines ls
      | Some idx \<Rightarrow> parse_rollback_duration (first_token (drop (idx + length ''rollback in '') t)))"

definition detect_active_commit_confirmed :: "string \<Rightarrow> u64 option" where
  "detect_active_commit_confirmed output = rollback_lines (str_lines output)"

section \<open>Baselines\<close>

text \<open>A \<^verbatim>\<open>BTreeMap\<close> of texts is the list of its entries in the order of the keys.\<close>

fun bt_insert :: "string \<Rightarrow> 'v \<Rightarrow> (string \<times> 'v) list \<Rightarrow> (string \<times> 'v) list" where
  "bt_insert k v [] = [(k, v)]"
| "bt_insert k v ((k', v') # m) =
     (if k = k' then (k, v) # m else if k < k' then (k, v) # (k', v') # m else (k', v') # bt_insert k v m)"

record baseline_diff =
  bd_added :: "string list"
  bd_removed :: "string list"

definition content_lines :: "(string \<times> string) list \<Rightarrow> string \<Rightarrow> string list" where
  "content_lines m k =
     (case map_of m k of None \<Rightarrow> [] | Some s \<Rightarrow> filter (\<lambda>l. l \<noteq> []) (map str_trim (str_lines s)))"

definition diff_baseline :: "(string \<times> string) list \<Rightarrow> (string \<times> string) list \<Rightarrow> (string \<times> baseline_diff) list" where
  "diff_baseline pre post =
     map (\<lambda>k. (k, \<lparr>bd_added = filter (\<lambda>l. l \<notin> set (content_lines pre k)) (content_lines post k),
                   bd_removed = filter (\<lambda>l. l \<notin> set (content_lines post k)) (content_lines pre k)\<rparr>))
       (sort (remdups (map fst pre @ map fst post)))"

section \<open>The decision\<close>

record upgrade_args =
  ua_device :: string
  ua_source_path :: string
  ua_target_version :: string
  ua_confirm :: bool
  ua_timeout :: u64
  ua_reboot_wait_secs :: u64

definition UPGRADE_DISK_HEADROOM_BYTES :: u64 where "UPGRADE_DISK_HEADROOM_BYTES = 32 * 1024 * 1024"

definition ESTIMATED_OUTAGE_SECONDS :: u64 where "ESTIMATED_OUTAGE_SECONDS = 420"

record preflight_facts =
  pf_cluster_status_output :: string
  pf_version_output :: string
  pf_commit_output :: string
  pf_storage_output :: string
  pf_local_image_size :: u64
  pf_local_image_sha256 :: string
  pf_image_basename :: string

datatype preflight_decision =
    PdClusterUnsupported
  | PdUnparseableVersion
  | PdUnparseableStorage
  | PdAlreadyAtTarget string
  | PdCommitConfirmedActive u64
  | PdInsufficientDisk u64 u64
  | PdConfirmationRequired json
  | PdProceed

text \<open>The dash and the multiplication sign of the messages are written as their UTF-8 bytes.\<close>

definition confirmation_payload :: "preflight_facts \<Rightarrow> upgrade_args \<Rightarrow> string \<Rightarrow> u64 \<Rightarrow> json" where
  "confirmation_payload facts args current_version free =
     JObj [(''code'', JStr ''confirmation_required''), (''router'', JStr (ua_device args)),
       (''current_version'', JStr current_version), (''target_version'', JStr (ua_target_version args)),
       (''image_basename'', JStr (pf_image_basename facts)), (''image_size_bytes'', JNat (unat (pf_local_image_size facts))),
       (''device_var_free_bytes'', JNat (unat free)),
       (''estimated_outage_seconds'', JNat (unat ESTIMATED_OUTAGE_SECONDS)), (''preflight_blockers'', JList []),
       (''warning'', JStr (''DESTRUCTIVE: this will install a new Junos image and REBOOT the device, causing an outage of ''
          @ ''approximately 5'' @ [CHR 0xE2, CHR 0x80, CHR 0x93] @ ''7 minutes. Re-call with confirm=true to proceed.''))]"

definition required_bytes :: "u64 \<Rightarrow> u64" where
  "required_bytes sz = saturating_add (saturating_mul sz 2) UPGRADE_DISK_HEADROOM_BYTES"

definition evaluate_preflight :: "text_lib \<Rightarrow> preflight_facts \<Rightarrow> upgrade_args \<Rightarrow> preflight_decision" where
  "evaluate_preflight X facts args =
     (if detect_cluster_active (pf_cluster_status_output facts) then PdClusterUnsupported
      else case parse_junos_version (pf_version_output facts) of
        None \<Rightarrow> PdUnparseableVersion
      | Some current_version \<Rightarrow>
          if current_version = ua_target_version args then PdAlreadyAtTarget current_version
          else case detect_active_commit_confirmed (pf_commit_output facts) of
            Some rollback_secs \<Rightarrow> PdCommitConfirmedActive rollback_secs
          | None \<Rightarrow>
              (case parse_storage_free_bytes X (pf_storage_output facts) of
                 Inl _ \<Rightarrow> PdUnparseableStorage
               | Inr free \<Rightarrow>
                   if free < required_bytes (pf_local_image_size facts)
                   then PdInsufficientDisk free (required_bytes (pf_local_image_size facts))
                   else if \<not> ua_confirm args
                   then PdConfirmationRequired (confirmation_payload facts args current_version free)
                   else PdProceed))"

text \<open>A decision to proceed is not for this function, which panics on it: no result.\<close>

definition finish_preflight :: "text_lib \<Rightarrow> preflight_decision \<Rightarrow> upgrade_args \<Rightarrow> json jres option" where
  "finish_preflight X decision args =
     (case decision of
        PdClusterUnsupported \<Rightarrow> Some (Inl (UpgradeClusterUnsupported (ua_device args)))
      | PdUnparseableVersion \<Rightarrow>
          Some (Inl (DeviceProbeFailed ''version_parse'' ''could not parse Junos version from `show version`''))
      | PdUnparseableStorage \<Rightarrow>
          Some (Inl (DeviceProbeFailed ''storage_parse'' ''could not parse free bytes from `show system storage`''))
      | PdAlreadyAtTarget current_version \<Rightarrow>
          Some (Inr (JObj [(''status'', JStr ''already_at_target''), (''router'', JStr (ua_device args)),
            (''current_version'', JStr current_version), (''target_version'', JStr (ua_target_version args)),
            (''message'', JStr ''device already running target version; no action taken'')]))
      | PdCommitConfirmedActive rollback_secs \<Rightarrow>
          Some (Inl (UpgradeCommitConfirmedActive (ua_device args) rollback_secs))
      | PdInsufficientDisk free required \<Rightarrow>
          Some (Inl (InsufficientDisk free required (''device '' @ [SQ] @ ua_device args @ [SQ]
            @ '' /var/tmp (install needs 2'' @ [CHR 0xC3, CHR 0x97] @ '' image + 32 MiB headroom)'')))
      | PdConfirmationRequired j \<Rightarrow> Some (Inl (ConfirmationRequired (tx_print X j)))
      | PdProceed \<Rightarrow> None)"

section \<open>What the checks decide\<close>

lemma checked_add_Some_iff:
  "checked_add x y = Some z \<longleftrightarrow> unat x + unat y < 2 ^ LENGTH('a) \<and> unat z = unat x + unat y"
  for x y z :: "'a::len word"
  by (auto simp: checked_add_def unat_add_no_overflow word_unat_eq_iff)

lemma parse_digits_ge: "parse_digits a ds = Some n \<Longrightarrow> a \<le> n"
  by (induction ds arbitrary: a) (fastforce split: if_splits)+

text \<open>Digits are read as one number, and refused as a whole when it does not fit.\<close>

lemma rollback_digits:
  assumes "parse_digits (unat num) ds = Some n"
  shows "rollback_chars (ds @ rest) t num h =
    (if n < 2 ^ 64 then rollback_chars rest t (of_nat n) (h \<or> ds \<noteq> []) else None)"
  using assms
proof (induction ds arbitrary: num h)
  case Nil
  then show ?case using unsigned_less [of num] by auto
next
  case (Cons c cs)
  then have c: "is_ascii_digit c" and p: "parse_digits (10 * unat num + (byte c - 48)) cs = Some n"
    by (auto split: if_splits)
  have d: "byte c - 48 < 10" using c by (auto simp: is_ascii_digit_def)
  have ud: "unat (of_nat (byte c - 48) :: u64) = byte c - 48" using d by (simp add: unat_of_nat take_bit_eq_mod)
  show ?case
  proof (cases "10 * unat num + (byte c - 48) < 2 ^ 64")
    case True
    have m: "checked_mul num 10 = Some (num * 10)" using True by (simp add: checked_mul_def mult.commute)
    have um: "unat (num * 10) = 10 * unat num" using m by (simp add: checked_mul_Some_iff mult.commute)
    have a: "checked_add (num * 10) (of_nat (byte c - 48)) = Some (num * 10 + of_nat (byte c - 48))"
      using True by (simp add: checked_add_def um ud)
    have ua: "unat (num * 10 + of_nat (byte c - 48)) = 10 * unat num + (byte c - 48)"
      using a by (simp add: checked_add_Some_iff um ud)
    show ?thesis using Cons.IH [of "num * 10 + of_nat (byte c - 48)" True] p c m a by (simp add: ua)
  next
    case False
    have "rollback_chars ((c # cs) @ rest) t num h = None"
    proof (cases "checked_mul num 10")
      case (Some n1)
      then have "unat n1 = 10 * unat num" by (simp add: checked_mul_Some_iff mult.commute)
      with False c Some show ?thesis by (simp add: checked_add_def ud)
    qed (use c in simp)
    moreover have "\<not> n < 2 ^ 64" using parse_digits_ge [OF p] False by simp
    ultimately show ?thesis by simp
  qed
qed

text \<open>
  The window the device prints as minutes and seconds is read back exactly, as one number of seconds; a window
  that does not fit into 64 bits is not read at all, never wrapped around.
\<close>

theorem rollback_window_is_read_back:
  "parse_rollback_duration (show_nat m @ ''m'' @ show_nat s @ ''s'') =
     (if 60 * m + s < 2 ^ 64 then Some (of_nat (60 * m + s)) else None)"
proof -
  have m: "parse_rollback_duration (show_nat m @ ''m'' @ show_nat s @ ''s'') =
      (if m < 2 ^ 64 then rollback_chars (''m'' @ show_nat s @ ''s'') 0 (of_nat m) True else None)"
    unfolding parse_rollback_duration_def
    by (subst rollback_digits [of 0 _ m]) (simp_all add: parse_digits_show_nat show_nat_not_Nil)
  show ?thesis
  proof (cases "60 * m < 2 ^ 64")
    case True
    then have um: "unat (of_nat m :: u64) = m" by (simp add: unat_of_nat take_bit_eq_mod)
    have cm: "checked_mul (of_nat m :: u64) 60 = Some (of_nat (60 * m))"
      using True by (simp add: checked_mul_def um mult.commute)
    have u60: "unat (of_nat (60 * m) :: u64) = 60 * m" using True by (simp only: unat_of_nat take_bit_eq_mod) simp
    have "rollback_chars (''m'' @ show_nat s @ ''s'') 0 (of_nat m) True
        = rollback_chars (show_nat s @ ''s'') (of_nat (60 * m)) 0 False"
      using cm True u60 by (simp add: checked_add_def is_ascii_digit_def byte_def)
    also have "\<dots> = (if s < 2 ^ 64 then rollback_chars ''s'' (of_nat (60 * m)) (of_nat s) True else None)"
      by (subst rollback_digits [of 0 _ s]) (simp_all add: parse_digits_show_nat show_nat_not_Nil)
    also have "\<dots> = (if 60 * m + s < 2 ^ 64 then Some (of_nat (60 * m + s)) else None)"
    proof (cases "s < 2 ^ 64")
      case True
      then have "unat (of_nat s :: u64) = s" by (simp add: unat_of_nat take_bit_eq_mod)
      then show ?thesis using True u60 by (simp add: checked_add_def is_ascii_digit_def byte_def)
    qed simp
    finally show ?thesis using m True by simp
  next
    case False
    have "checked_mul (of_nat m :: u64) 60 = None" if "m < 2 ^ 64"
    proof -
      from that have "unat (of_nat m :: u64) = m" by (simp add: unat_of_nat take_bit_eq_mod)
      with False show ?thesis by (simp add: checked_mul_def)
    qed
    with m False show ?thesis by (simp add: is_ascii_digit_def byte_def)
  qed
qed

text \<open>A window printed in any other unit is taken for no window.\<close>

lemma window_in_hours_is_not_seen: "detect_active_commit_confirmed ''commit confirmed, rollback in 1h5m'' = None"
proof -
  have "str_lines ''commit confirmed, rollback in 1h5m'' = [''commit confirmed, rollback in 1h5m'']"
    "str_trim ''commit confirmed, rollback in 1h5m'' = ''commit confirmed, rollback in 1h5m''"
    "str_find ''rollback in '' ''commit confirmed, rollback in 1h5m'' = Some 18"
    "first_token ''1h5m'' = ''1h5m''"
    by code_simp+
  moreover have "parse_rollback_duration ''1h5m'' = None"
    by (simp add: parse_rollback_duration_def checked_mul_def checked_add_def is_ascii_digit_def byte_def)
  ultimately show ?thesis by (simp add: detect_active_commit_confirmed_def)
qed

lemma preflight_proceeds_iff:
  "evaluate_preflight X facts args = PdProceed \<longleftrightarrow>
     \<not> detect_cluster_active (pf_cluster_status_output facts) \<and> ua_confirm args
     \<and> detect_active_commit_confirmed (pf_commit_output facts) = None
     \<and> (\<exists>v. parse_junos_version (pf_version_output facts) = Some v \<and> v \<noteq> ua_target_version args)
     \<and> (\<exists>free. parse_storage_free_bytes X (pf_storage_output facts) = Inr free
          \<and> required_bytes (pf_local_image_size facts) \<le> free)"
  by (auto simp: evaluate_preflight_def split: option.splits sum.splits if_splits)

lemma finish_preflight_None_iff: "finish_preflight X d args = None \<longleftrightarrow> d = PdProceed"
  by (simp add: finish_preflight_def split: preflight_decision.split)

text \<open>The room asked for holds the image twice, even where the sum would not fit into 64 bits.\<close>

lemma required_bytes_enough:
  assumes "required_bytes sz \<le> free"
  shows "2 * unat sz + 33554432 \<le> unat free \<or> free = - 1"
proof (cases "unat sz * 2 + 33554432 < 2 ^ 64")
  case True
  then have m: "saturating_mul sz 2 = sz * 2" "unat (sz * 2) = unat sz * 2"
    by (simp_all add: saturating_mul_def unat_mult_no_overflow)
  then have "unat (required_bytes sz) = unat sz * 2 + 33554432"
    using True by (simp add: required_bytes_def saturating_add_def UPGRADE_DISK_HEADROOM_BYTES_def unat_add_no_overflow)
  with assms show ?thesis by (simp add: word_le_nat_alt)
next
  case False
  have "required_bytes sz = - 1"
  proof (cases "unat sz * 2 < 2 ^ 64")
    case True
    then have "saturating_mul sz 2 = sz * 2" "unat (sz * 2) = unat sz * 2"
      by (simp_all add: saturating_mul_def unat_mult_no_overflow)
    with False show ?thesis by (simp add: required_bytes_def saturating_add_def UPGRADE_DISK_HEADROOM_BYTES_def)
  next
    case False
    then have "saturating_mul sz 2 = - 1" by (simp add: saturating_mul_def)
    then show ?thesis
      by (simp add: required_bytes_def saturating_add_def UPGRADE_DISK_HEADROOM_BYTES_def unsigned_minus_1_eq_mask
          mask_eq_exp_minus_1)
  qed
  with assms show ?thesis by (simp add: word_order.extremum_unique)
qed

section \<open>What a comparison of baselines says\<close>

lemma bt_insert_lookup: "map_of (bt_insert k v m) = (map_of m)(k \<mapsto> v)"
  by (induction k v m rule: bt_insert.induct) (auto simp: fun_eq_iff)

lemma bt_insert_sorted:
  assumes "sorted_wrt (<) (map fst m)"
  shows "sorted_wrt (<) (map fst (bt_insert k v m))"
  using assms
proof (induction k v m rule: bt_insert.induct)
  case (2 k v k' v' m)
  moreover have "fst ` set (bt_insert k v m) = insert k (fst ` set m)"
    by (induction k v m rule: bt_insert.induct) auto
  ultimately show ?case by auto
qed simp

lemma diff_baseline_lookup:
  assumes "map_of (diff_baseline pre post) k = Some d"
  shows "bd_added d = filter (\<lambda>l. l \<notin> set (content_lines pre k)) (content_lines post k)"
    and "bd_removed d = filter (\<lambda>l. l \<notin> set (content_lines post k)) (content_lines pre k)"
  using map_of_SomeD [OF assms] by (auto simp: diff_baseline_def)

lemma diff_baseline_keys: "fst ` set (diff_baseline pre post) = fst ` set pre \<union> fst ` set post"
  by (force simp: diff_baseline_def image_iff)

lemma diff_baseline_rebuilds:
  assumes "map_of (diff_baseline pre post) k = Some d"
  shows "set (content_lines post k) = (set (content_lines pre k) - set (bd_removed d)) \<union> set (bd_added d)"
  by (auto simp: diff_baseline_lookup [OF assms])

end
