(* ===== verification/Upgrade_Junos.thy ===== *)
theory Upgrade_Junos
  imports Transfer_File Upgrade_Checks Device_Pool
begin

text \<open>
  \<^verbatim>\<open>tools/upgrade_junos.rs\<close>: the upgrade itself. The facts are gathered, the decision is made, and, to proceed,
  made again under the device's lease; then come the baseline, the copy of the image, the installation with its
  reboot, the wait for the new version, and the report.
\<close>

section \<open>Gathering facts\<close>

definition error_indicates_stale_session :: "string \<Rightarrow> bool" where
  "error_indicates_stale_session err = error_is_transient err"

definition install_error_indicates_session_drop :: "string \<Rightarrow> bool" where
  "install_error_indicates_session_drop err =
     (let lower = to_ascii_lowercase err in
      list_ex (\<lambda>needle. str_contains needle lower)
        [''connection closed'', ''connection reset'', ''broken pipe'', ''unexpected eof'', ''early eof'',
         ''channel closed'', ''session closed''])"

definition run_probe :: "('g, 'c, 'w) tool_lib \<Rightarrow> 'g \<Rightarrow> string \<Rightarrow> string \<Rightarrow> (string, 'w) tool_m" where
  "run_probe L g command phase = t_probe L g command phase"

definition with_fresh_session :: "('g, 'c, 'w) tool_lib \<Rightarrow> string \<Rightarrow> ('g \<Rightarrow> ('a, 'w) tool_m) \<Rightarrow> ('a, 'w) tool_m" where
  "with_fresh_session L router body =
     t_bind (t_noted (\<lambda>_. SessionOpened router) (t_raced None (tl_open_fresh L router)))
       (\<lambda>g. t_scoped (free_session L g) (body g))"

text \<open>
  The session and the first answer are handed on to what follows, in whose scope the session lives. A session that
  turns out stale is dropped before the fresh one is opened.
\<close>

definition open_validated ::
    "('g, 'c, 'w) tool_lib \<Rightarrow> string \<Rightarrow> string \<Rightarrow> string \<Rightarrow> ('g \<Rightarrow> string \<Rightarrow> ('a, 'w) tool_m) \<Rightarrow> ('a, 'w) tool_m" where
  "open_validated L router command phase body =
     t_bind
       (with_session L router (\<lambda>g.
          t_bind (t_cli True L g command) (\<lambda>r.
            case r of
              Inr out \<Rightarrow> t_bind (body g out) (\<lambda>a. t_ret (Some a))
            | Inl e \<Rightarrow>
                if error_indicates_stale_session (rz_text e) then t_ret None else t_err (probe_failed phase e))))
       (\<lambda>res.
          case res of
            Some a \<Rightarrow> t_ret a
          | None \<Rightarrow> with_fresh_session L router (\<lambda>g. t_bind (run_probe L g command phase) (body g)))"

definition VERSION_CMD :: string where "VERSION_CMD = ''show version | match Junos:''"

definition gather_facts ::
    "('g, 'c, 'w) tool_lib \<Rightarrow> string \<Rightarrow> string \<Rightarrow> u64 \<Rightarrow> string \<Rightarrow> (preflight_facts, 'w) tool_m" where
  "gather_facts L router image_basename local_size local_sha =
     open_validated L router ''show chassis cluster status'' ''cluster_probe'' (\<lambda>g cluster_status_output.
       t_bind (run_probe L g VERSION_CMD ''version_probe'') (\<lambda>version_output.
       t_bind (run_probe L g ''show system commit'' ''commit_probe'') (\<lambda>commit_output.
       t_bind (run_probe L g ''show system storage no-forwarding'' ''storage_probe'') (\<lambda>storage_output.
         t_ret \<lparr>pf_cluster_status_output = cluster_status_output, pf_version_output = version_output,
           pf_commit_output = commit_output, pf_storage_output = storage_output, pf_local_image_size = local_size,
           pf_local_image_sha256 = local_sha, pf_image_basename = image_basename\<rparr>))))"

section \<open>The reboot\<close>

text \<open>One attempt: nothing when its own deadline elapsed.\<close>

definition version_attempt ::
    "('g, 'c, 'w) tool_lib \<Rightarrow> string \<Rightarrow> nat \<Rightarrow> ((jmcp_error + string) option, 'w) tool_m" where
  "version_attempt L router attempt_deadline =
     t_timeout attempt_deadline
       (t_noted (\<lambda>r. CliSaid VERSION_CMD (said r)) (t_await True (Some (CliSent VERSION_CMD)) (tl_run_cli L router VERSION_CMD)))"

text \<open>What an attempt means: the end of the wait, or the last version seen.\<close>

definition judge_attempt ::
    "string \<Rightarrow> string option \<Rightarrow> (jmcp_error + string) option \<Rightarrow> string jres + string option" where
  "judge_attempt target_version last_observed attempt =
     (case attempt of
        Some (Inr output) \<Rightarrow>
          (case parse_junos_version output of
             Some observed \<Rightarrow> if observed = target_version then Inl (Inr output) else Inr (Some observed)
           | None \<Rightarrow> Inr last_observed)
      | Some (Inl err) \<Rightarrow> if \<not> error_is_transient (error_to_string err) then Inl (Inl err) else Inr last_observed
      | None \<Rightarrow> Inr last_observed)"

definition reboot_failed :: "string \<Rightarrow> string \<Rightarrow> nat \<Rightarrow> string option \<Rightarrow> jmcp_error" where
  "reboot_failed router target_version budget last_observed =
     (case last_observed of
        Some observed \<Rightarrow> UpgradePostVerifyMismatch router target_version observed
      | None \<Rightarrow> UpgradeRebootTimeout router (of_nat (budget div 1000)))"

partial_function (option) wait_poll ::
    "('g, 'c, 'w) tool_lib \<Rightarrow> string \<Rightarrow> string \<Rightarrow> nat \<Rightarrow> nat \<Rightarrow> nat \<Rightarrow> nat \<Rightarrow> string option
       \<Rightarrow> tool_ctx \<Rightarrow> 'w tool_run \<Rightarrow> (string outcome \<times> 'w tool_run) option" where
  "wait_poll L router target_version budget poll_interval attempt_deadline start last_observed cx s =
     Option.bind (version_attempt L router attempt_deadline cx s) (\<lambda>(r, s1).
       case r of
         TErr e \<Rightarrow> Some (TErr e, s1)
       | TElapsed k \<Rightarrow> Some (TElapsed k, s1)
       | TOk attempt \<Rightarrow>
           (case judge_attempt target_version last_observed attempt of
              Inl res \<Rightarrow> t_lift res cx s1
            | Inr observed \<Rightarrow>
                if budget \<le> tr_now s1 - start
                then Some (TErr (reboot_failed router target_version budget observed), s1)
                else Option.bind (t_sleep poll_interval cx s1) (\<lambda>(r2, s2).
                  case r2 of
                    TErr e \<Rightarrow> Some (TErr e, s2)
                  | TElapsed k \<Rightarrow> Some (TElapsed k, s2)
                  | TOk _ \<Rightarrow>
                      wait_poll L router target_version budget poll_interval attempt_deadline start observed cx s2)))"

definition wait_for_version ::
    "('g, 'c, 'w) tool_lib \<Rightarrow> string \<Rightarrow> string \<Rightarrow> nat \<Rightarrow> nat \<Rightarrow> nat \<Rightarrow> nat \<Rightarrow> (string, 'w) tool_m" where
  "wait_for_version L router target_version budget initial_delay poll_interval attempt_deadline =
     t_bind t_now (\<lambda>start.
     t_bind (t_sleep initial_delay) (\<lambda>_.
       wait_poll L router target_version budget poll_interval attempt_deadline start None))"

section \<open>The destructive path\<close>

definition BASELINE_COMMANDS :: "string list" where
  "BASELINE_COMMANDS =
     [''show version'', ''show interfaces terse | except '' @ [DQ, CHR 0x5C] @ ''.[0-9]+ '' @ [DQ], ''show route summary'',
      ''show security flow session summary'', ''show system alarms'', ''show system core-dumps no-forwarding'']"

fun baseline_loop ::
    "('g, 'c, 'w) tool_lib \<Rightarrow> 'g \<Rightarrow> string list \<Rightarrow> (string \<times> string) list \<Rightarrow> ((string \<times> string) list, 'w) tool_m" where
  "baseline_loop L g [] out = t_ret out"
| "baseline_loop L g (cmd # cmds) out =
     t_bind (t_cli True L g cmd) (\<lambda>r.
       baseline_loop L g cmds
         (bt_insert cmd (case r of Inr s \<Rightarrow> s | Inl e \<Rightarrow> ''<error capturing: '' @ rz_text e @ ''>'') out))"

definition capture_baseline :: "('g, 'c, 'w) tool_lib \<Rightarrow> string \<Rightarrow> ((string \<times> string) list, 'w) tool_m" where
  "capture_baseline L device_name = with_session L device_name (\<lambda>g. baseline_loop L g BASELINE_COMMANDS [])"

definition build_transfer_args :: "upgrade_args \<Rightarrow> transfer_args" where
  "build_transfer_args args =
     \<lparr>ta_device = ua_device args, ta_source_path = ua_source_path args, ta_force = False, ta_verify = True,
      ta_timeout = ua_timeout args\<rparr>"

record build_success_args =
  bs_router :: string
  bs_from_version :: string
  bs_to_version :: string
  bs_image_basename :: string
  bs_image_sha256 :: string
  bs_elapsed_seconds :: nat
  bs_preflight_secs :: nat
  bs_transfer_secs :: nat
  bs_install_secs :: nat
  bs_reboot_wait_secs :: nat
  bs_postverify_secs :: nat
  bs_pre_baseline :: "(string \<times> string) list"
  bs_post_baseline :: "(string \<times> string) list"

definition baseline_json :: "(string \<times> string) list \<Rightarrow> json" where
  "baseline_json m = JObj (map (\<lambda>(k, v). (k, JStr v)) m)"

definition diff_json :: "(string \<times> baseline_diff) list \<Rightarrow> json" where
  "diff_json m =
     JObj (map (\<lambda>(k, d). (k, JObj [(''added'', JList (map JStr (bd_added d))), (''removed'', JList (map JStr (bd_removed d)))])) m)"

definition build_success_response :: "build_success_args \<Rightarrow> (string \<times> json) list" where
  "build_success_response a =
     [(''status'', JStr ''upgraded''), (''router'', JStr (bs_router a)), (''from_version'', JStr (bs_from_version a)),
      (''to_version'', JStr (bs_to_version a)), (''image_basename'', JStr (bs_image_basename a)),
      (''image_sha256'', JStr (hex32 (bs_image_sha256 a))), (''elapsed_seconds'', JNat (bs_elapsed_seconds a)),
      (''phase_timings'', JObj [(''preflight_secs'', JNat (bs_preflight_secs a)), (''transfer_secs'', JNat (bs_transfer_secs a)),
         (''install_secs'', JNat (bs_install_secs a)), (''reboot_wait_secs'', JNat (bs_reboot_wait_secs a)),
         (''postverify_secs'', JNat (bs_postverify_secs a))]),
      (''pre_baseline'', baseline_json (bs_pre_baseline a)), (''post_baseline'', baseline_json (bs_post_baseline a)),
      (''baseline_diff'', diff_json (diff_baseline (bs_pre_baseline a) (bs_post_baseline a)))]"

definition install_cmd :: "string \<Rightarrow> string" where
  "install_cmd basename = ''request system software add /var/tmp/'' @ basename @ '' no-copy reboot''"

text \<open>The installation is not raced against the token: what the device accepted cannot be taken back.\<close>

definition install_image :: "('g, 'c, 'w) tool_lib \<Rightarrow> upgrade_args \<Rightarrow> (string, 'w) tool_m" where
  "install_image L args =
     with_session L (ua_device args) (\<lambda>g.
       t_bind (t_cli False L g (install_cmd (ua_source_path args))) (\<lambda>r.
         case r of
           Inr out \<Rightarrow> t_bind t_cancelled (\<lambda>cancelled. if cancelled then t_err Cancelled else t_ret out)
         | Inl e \<Rightarrow>
             if install_error_indicates_session_drop (rz_text e) then t_ret []
             else t_err (DeviceProbeFailed ''install_rpc'' (rz_text e))))"

definition run_destructive ::
    "text_lib \<Rightarrow> ('g, 'c, 'w) tool_lib \<Rightarrow> transfer_cfg \<Rightarrow> upgrade_args \<Rightarrow> preflight_facts \<Rightarrow> string option \<Rightarrow> string
       \<Rightarrow> (json, 'w) tool_m" where
  "run_destructive X L cfg args facts auth_warning correlation_id =
     t_bind t_now (\<lambda>started.
     t_bind (capture_baseline L (ua_device args)) (\<lambda>pre_baseline.
     t_bind t_now (\<lambda>phase1_done.
     t_bind (transfer_file X L cfg (build_transfer_args args)) (\<lambda>_.
     t_bind t_now (\<lambda>phase2_done.
     t_bind (install_image L args) (\<lambda>_.
     t_bind t_now (\<lambda>phase3_done.
     t_bind (wait_for_version L (ua_device args) (ua_target_version args) (unat (ua_reboot_wait_secs args) * 1000)
       30000 15000 30000) (\<lambda>_.
     t_bind t_now (\<lambda>phase4_done.
     t_bind (capture_baseline L (ua_device args)) (\<lambda>post_baseline.
     t_bind t_now (\<lambda>ended.
       t_ret (JObj (build_success_response
          \<lparr>bs_router = ua_device args,
           bs_from_version =
             (case parse_junos_version (pf_version_output facts) of Some v \<Rightarrow> v | None \<Rightarrow> ''<unknown>''),
           bs_to_version = ua_target_version args, bs_image_basename = ua_source_path args,
           bs_image_sha256 = pf_local_image_sha256 facts, bs_elapsed_seconds = (ended - started) div 1000,
           bs_preflight_secs = 0, bs_transfer_secs = (phase2_done - phase1_done) div 1000,
           bs_install_secs = (phase3_done - phase2_done) div 1000,
           bs_reboot_wait_secs = (phase4_done - phase3_done) div 1000, bs_postverify_secs = 0,
           bs_pre_baseline = pre_baseline, bs_post_baseline = post_baseline\<rparr>
          @ [(''correlation_id'', JStr correlation_id)]
          @ (case auth_warning of None \<Rightarrow> [] | Some w \<Rightarrow> [(''warning'', JStr w)]))))))))))))))"

section \<open>The tool\<close>

definition free_lease :: "('g, 'c, 'w) tool_lib \<Rightarrow> string \<Rightarrow> 'w tool_run \<Rightarrow> 'w tool_run" where
  "free_lease L router s = t_log (GaveLease router) (s\<lparr>tr_world := tl_free_lease L router (tr_world s)\<rparr>)"

definition with_device_lease ::
    "('g, 'c, 'w) tool_lib \<Rightarrow> string \<Rightarrow> string \<Rightarrow> string \<Rightarrow> ('a, 'w) tool_m \<Rightarrow> ('a, 'w) tool_m" where
  "with_device_lease L router operation correlation_id body =
     t_bind (t_noted (\<lambda>_. TookLease router correlation_id) (t_raced None (tl_lease L router operation correlation_id)))
       (\<lambda>_. t_scoped (free_lease L router) body)"

definition t_panics :: "('a, 'w) tool_m" where
  "t_panics cx s = None"

definition report_preflight ::
    "text_lib \<Rightarrow> preflight_decision \<Rightarrow> upgrade_args \<Rightarrow> (json, 'w) tool_m" where
  "report_preflight X decision args =
     (case finish_preflight X decision args of Some r \<Rightarrow> t_lift r | None \<Rightarrow> t_panics)"

definition dispatch_preflight ::
    "text_lib \<Rightarrow> ('g, 'c, 'w) tool_lib \<Rightarrow> transfer_cfg \<Rightarrow> upgrade_args \<Rightarrow> preflight_facts \<Rightarrow> string option \<Rightarrow> string
       \<Rightarrow> (json, 'w) tool_m" where
  "dispatch_preflight X L cfg args facts auth_warning correlation_id =
     (let initial_decision = evaluate_preflight X facts args in
      if initial_decision \<noteq> PdProceed then report_preflight X initial_decision args
      else
        with_device_lease L (ua_device args) ''upgrade_junos'' correlation_id (
          t_bind (gather_facts L (ua_device args) (pf_image_basename facts) (pf_local_image_size facts)
            (pf_local_image_sha256 facts)) (\<lambda>locked_facts.
          let locked_decision = evaluate_preflight X locked_facts args in
          if locked_decision \<noteq> PdProceed then report_preflight X locked_decision args
          else run_destructive X L cfg args locked_facts auth_warning correlation_id)))"

definition upgrade_authority :: "upgrade_args \<Rightarrow> bool \<Rightarrow> inventory \<Rightarrow> string option jres" where
  "upgrade_authority args allow_plane_owned_writes iv =
     and_then (inv_get iv (ua_device args)) (\<lambda>entry.
       case auth entry of
         Password _ \<Rightarrow> Inl (UnsupportedAuth (ua_device args))
       | SshKey _ \<Rightarrow>
           check_plane_owned_operation ''upgrade_junos'' (ua_device args) (config_authority entry) allow_plane_owned_writes)"

definition upgrade_run ::
    "text_lib \<Rightarrow> ('g, 'c, 'w) tool_lib \<Rightarrow> transfer_cfg \<Rightarrow> upgrade_args \<Rightarrow> bool \<Rightarrow> string \<Rightarrow> (json, 'w) tool_m" where
  "upgrade_run X L cfg args allow_plane_owned_writes correlation_id =
     t_bind t_cancelled (\<lambda>cancelled.
       if cancelled then t_err Cancelled
       else
         t_bind (t_lift (validate_source_basename (ua_source_path args))) (\<lambda>_.
         t_bind (t_world (tl_inventory L)) (\<lambda>iv.
         t_bind (t_lift (upgrade_authority args allow_plane_owned_writes iv)) (\<lambda>auth_warning.
         let local_path = path_join (tc_staging_dir cfg) (ua_source_path args) in
         t_bind (check_staged L local_path) (\<lambda>_.
         t_bind (sha256_file_cancellable L local_path) (\<lambda>(local_sha, local_size).
         t_bind (gather_facts L (ua_device args) (ua_source_path args) local_size local_sha) (\<lambda>facts.
           dispatch_preflight X L cfg args facts auth_warning correlation_id)))))))"

definition upgrade_junos ::
    "text_lib \<Rightarrow> ('g, 'c, 'w) tool_lib \<Rightarrow> transfer_cfg \<Rightarrow> upgrade_args \<Rightarrow> bool \<Rightarrow> string \<Rightarrow> (json, 'w) tool_m" where
  "upgrade_junos X L cfg args allow_plane_owned_writes correlation_id =
     t_within (unat (ua_timeout args) * 1000) (UpgradeOuterTimeout (unat (ua_timeout args) * 1000))
       (upgrade_run X L cfg args allow_plane_owned_writes correlation_id)"

end
