(* ===== verification/Upgrade_Safety.thy ===== *)
theory Upgrade_Safety
  imports Upgrade_Junos
begin

text \<open>
  What the upgrade and transfer tools keep to: they return in time, give back every session, permit and lease, install
  only what was checked, confirmed and verified, and report only what the device said.
\<close>

section \<open>The upgrade returns\<close>

lemma timely_fresh [timely_intros]: "(\<And>g. timely (body g)) \<Longrightarrow> timely (with_fresh_session L router body)"
  by (auto simp: with_fresh_session_def free_session_def intro!: timely_intros)

lemma timely_validated [timely_intros]:
  "(\<And>g out. timely (body g out)) \<Longrightarrow> timely (open_validated L router c ph body)"
  by (auto simp: open_validated_def run_probe_def intro!: timely_intros split: sum.split option.split)

lemma timely_gather [timely_intros]: "timely (gather_facts L router name sz sha)"
  by (auto simp: gather_facts_def run_probe_def intro!: timely_intros)

lemma timely_baseline [timely_intros]: "timely (capture_baseline L router)"
proof -
  have "timely (baseline_loop L g cmds out)" for g cmds out
    by (induction cmds arbitrary: out) (auto intro!: timely_intros)
  then show ?thesis by (auto simp: capture_baseline_def intro!: timely_intros)
qed

lemma timely_attempt [timely_intros]: "timely (version_attempt L router d)"
  by (auto simp: version_attempt_def intro!: timely_intros)

text \<open>A sleep that ends moves the clock by its length.\<close>

lemma t_sleep_moves: "t_sleep ms cx s = Some (TOk u, s') \<Longrightarrow> tr_now s' = tr_now s + ms"
  by (auto simp: t_sleep_def t_bind_def t_await_def t_settle_def t_ret_def Let_def
      split: option.splits if_splits outcome.splits)

text \<open>
  Under a limit the poll loop ends, since every round takes at least the poll interval: by induction on the time that
  is left.
\<close>

lemma timely_poll:
  fixes L :: "('g, 'c, 'w) tool_lib"
  assumes "0 < poll_interval"
  shows "timely (wait_poll L router target budget poll_interval deadline start seen)"
proof (rule timelyI)
  fix cx :: tool_ctx and s :: "'w tool_run"
  assume "in_limits cx (tr_now s)"
  then show "\<exists>r s'. wait_poll L router target budget poll_interval deadline start seen cx s = Some (r, s')
      \<and> tr_now s \<le> tr_now s' \<and> in_limits cx (tr_now s') \<and> (\<forall>k. r = TElapsed k \<longrightarrow> k < length (cx_limits cx))"
  proof (induction "hd (cx_limits cx) - tr_now s" arbitrary: s seen rule: less_induct)
    case less
    obtain a s1 where a: "version_attempt L router deadline cx s = Some (a, s1)" "tr_now s \<le> tr_now s1"
      "in_limits cx (tr_now s1)" "\<forall>k. a = TElapsed k \<longrightarrow> k < length (cx_limits cx)"
      using timelyE [OF timely_attempt less.prems] by blast
    obtain b s2 where b: "t_sleep poll_interval cx s1 = Some (b, s2)" "tr_now s1 \<le> tr_now s2"
      "in_limits cx (tr_now s2)" "\<forall>k. b = TElapsed k \<longrightarrow> k < length (cx_limits cx)"
      using timelyE [OF timely_cli(4) a(3)] by blast
    have next_round: "\<exists>r s'. wait_poll L router target budget poll_interval deadline start obs cx s2 = Some (r, s')
        \<and> tr_now s2 \<le> tr_now s' \<and> in_limits cx (tr_now s') \<and> (\<forall>k. r = TElapsed k \<longrightarrow> k < length (cx_limits cx))"
      if "b = TOk u" for u obs
    proof (rule less.hyps)
      have "tr_now s2 = tr_now s1 + poll_interval" using b(1) that by (simp add: t_sleep_moves)
      moreover have "tr_now s2 \<le> hd (cx_limits cx)" using b(3) by (cases "cx_limits cx") (auto simp: in_limits_def)
      ultimately show "hd (cx_limits cx) - tr_now s2 < hd (cx_limits cx) - tr_now s" using a(2) assms by linarith
    qed (rule b(3))
    have "\<exists>r s'. wait_poll L router target budget poll_interval deadline start obs cx s2 = Some (r, s')
        \<and> tr_now s \<le> tr_now s' \<and> in_limits cx (tr_now s') \<and> (\<forall>k. r = TElapsed k \<longrightarrow> k < length (cx_limits cx))"
      if "b = TOk u" for u obs
      using next_round [OF that, of obs] a(2) b(2) by (meson order_trans)
    then show ?case
      by (subst wait_poll.simps)
        (use a b in \<open>auto simp: t_lift_def split: outcome.split sum.split dest: order_trans\<close>)
  qed
qed

lemma timely_wait [timely_intros]: "0 < poll \<Longrightarrow> timely (wait_for_version L router target budget delay poll deadline)"
  unfolding wait_for_version_def by (intro timely_bind timely_pure timely_cli timely_poll)

lemma timely_transfer_file [timely_intros]: "timely (transfer_file X L cfg args)"
  unfolding transfer_file_def by (intro timely_within_limits timely_transfer)

lemma timely_install [timely_intros]: "timely (install_image L args)"
  by (auto simp: install_image_def intro!: timely_intros split: sum.split)

lemma timely_lease [timely_intros]: "timely body \<Longrightarrow> timely (with_device_lease L router tool corr body)"
  by (auto simp: with_device_lease_def free_lease_def intro!: timely_intros)

lemma timely_report [timely_intros]: "d \<noteq> PdProceed \<Longrightarrow> timely (report_preflight X d args)"
  using finish_preflight_None_iff [of X d args]
  by (auto simp: report_preflight_def intro!: timely_intros split: option.split)

lemma timely_upgrade: "timely (upgrade_run X L cfg args writes corr)"
proof -
  have "timely (run_destructive X L cfg args facts w corr)" for facts w
    unfolding run_destructive_def by (intro timely_intros) simp
  then have "timely (dispatch_preflight X L cfg args facts w corr)" for facts w
    by (auto simp: dispatch_preflight_def Let_def intro!: timely_intros)
  then show ?thesis by (auto simp: upgrade_run_def Let_def intro!: timely_intros)
qed

text \<open>
  C13. An upgrade returns within the time the caller gave it, whatever the device does: one that never comes back from
  its reboot, or comes back with another version, ends the wait as well, and no run ends in a panic.
\<close>

theorem upgrade_returns_in_time:
  "\<exists>r s'. upgrade_junos X L cfg args writes corr \<lparr>cx_cancel = ct, cx_limits = []\<rparr> s = Some (r, s')
     \<and> tr_now s' \<le> tr_now s + unat (ua_timeout args) * 1000 \<and> (\<forall>k. r \<noteq> TElapsed k)"
  using timely_within [OF timely_upgrade] unfolding upgrade_junos_def by meson

section \<open>The poll loop's record\<close>

lemma always_panics [always_intros]: "always Q t_panics"
  by (simp add: always_def adds_def t_panics_def)

lemma outcome_case_Some:
  assumes "(case r of TErr e \<Rightarrow> f e | TElapsed k \<Rightarrow> g k | TOk a \<Rightarrow> h a) = Some y"
  obtains e where "r = TErr e" "f e = Some y" | k where "r = TElapsed k" "g k = Some y" | a where "r = TOk a" "h a = Some y"
  using assms by (cases r) auto

lemma sleep_log: "t_sleep ms cx s = Some (r, s') \<Longrightarrow> tr_log s' = tr_log s"
  by (auto simp: t_sleep_def t_bind_def t_ret_def split: option.splits outcome.splits elim!: t_await_outcomes)

lemma attempt_said:
  "version_attempt L router dl cx s = Some (TOk (Some (Inr out)), s') \<Longrightarrow>
     tr_log s' = tr_log s @ [CliSent VERSION_CMD, CliSaid VERSION_CMD (Some out)]"
  by (auto simp: version_attempt_def t_timeout_def t_noted_def t_bind_def said_def t_log_def
      split: option.splits outcome.splits if_splits elim!: t_await_outcomes)

lemma judge_ends:
  "judge_attempt target seen a = Inl (Inr out) \<Longrightarrow> a = Some (Inr out) \<and> parse_junos_version out = Some target"
  by (auto simp: judge_attempt_def split: option.splits sum.splits if_splits)

text \<open>
  What holds of every round of the poll loop holds of the loop; and a loop that gives a value ends with an attempt that
  showed the target version.
\<close>

lemma wait_poll_invariant:
  fixes L :: "('g, 'c, 'w) tool_lib" and s :: "'w tool_run"
  assumes run: "wait_poll L router target budget poll deadline start seen cx s = Some (r, s')"
    and refl: "\<And>l. I l l" and trans: "\<And>a b c. I a b \<Longrightarrow> I b c \<Longrightarrow> I a c"
    and att: "\<And>cx (s :: 'w tool_run) r s'. version_attempt L router deadline cx s = Some (r, s') \<Longrightarrow> I (tr_log s) (tr_log s')"
  shows "I (tr_log s) (tr_log s') \<and> (\<forall>out. r = TOk out \<longrightarrow> parse_junos_version out = Some target
    \<and> (\<exists>l. I (tr_log s) l \<and> tr_log s' = l @ [CliSent VERSION_CMD, CliSaid VERSION_CMD (Some out)]))"
proof -
  define P where "P target s y \<longleftrightarrow> I (tr_log s) (tr_log (snd y)) \<and> (\<forall>out. fst y = TOk out \<longrightarrow>
      parse_junos_version out = Some target
      \<and> (\<exists>l. I (tr_log s) l \<and> tr_log (snd y) = l @ [CliSent VERSION_CMD, CliSaid VERSION_CMD (Some out)]))"
    for target and s :: "'w tool_run" and y :: "string outcome \<times> 'w tool_run"
  have "(\<forall>cx s r s'. version_attempt L router deadline cx s = Some (r, s') \<longrightarrow> I (tr_log s) (tr_log s'))
      \<longrightarrow> P target s (r, s')"
  proof (rule wait_poll.raw_induct [where P = "\<lambda>L router target budget poll deadline start seen cx s y.
        (\<forall>cx s r s'. version_attempt L router deadline cx s = Some (r, s') \<longrightarrow> I (tr_log s) (tr_log s'))
        \<longrightarrow> P target s y", OF _ run], goal_cases)
    case (1 f L router target budget poll deadline start seen cx s y)
    show ?case
    proof
      assume att: "\<forall>cx s r s'. version_attempt L router deadline cx s = Some (r, s') \<longrightarrow> I (tr_log s) (tr_log s')"
      from 1(2) obtain a s1 where a: "version_attempt L router deadline cx s = Some (a, s1)"
        by (auto simp: Option.bind_eq_Some_conv)
      with att have 2: "I (tr_log s) (tr_log s1)" by blast
      from 1(2) a consider
        (ended) "tr_log (snd y) = tr_log s1" "\<forall>out. fst y = TOk out \<longrightarrow> a = TOk (Some (Inr out)) \<and> parse_junos_version out = Some target"
        | (again) obs s2 where "t_sleep poll cx s1 = Some (TOk (), s2)"
            "f L router target budget poll deadline start obs cx s2 = Some y"
        by (cases a) (auto simp: Option.bind_eq_Some_conv t_lift_def elim!: outcome_case_Some
            split: sum.splits if_splits dest: sleep_log judge_ends)
      then show "P target s y"
      proof cases
        case ended
        then show ?thesis using 2 refl a attempt_said [of L router deadline cx s _ s1] unfolding P_def by auto
      next
        case again
        then have "P target s2 y" using 1(1) att by blast
        then show ?thesis using 2 trans unfolding P_def sleep_log [OF again(1)] by blast
      qed
    qed
  qed
  then show ?thesis using att by (simp add: P_def)
qed

context log_kind
begin

lemma always_wait:
  fixes L :: "('g, 'c, 'w) tool_lib"
  assumes "\<And>dl. always Q (version_attempt L router dl)"
  shows "always Q (wait_for_version L router target budget delay poll dl)"
proof -
  have "always Q (wait_poll L router target budget poll dl start seen)" for start seen
  proof (rule alwaysI, rule wait_poll_invariant [THEN conjunct1], assumption)
    fix cx and s :: "'w tool_run" and r s'
    assume "version_attempt L router dl cx s = Some (r, s')"
    with assms show "\<exists>es. tr_log s' = tr_log s @ es \<and> Q es" by (rule alwaysD) blast
  next
    fix a b c
    assume "\<exists>es. b = a @ es \<and> Q es" and "\<exists>es. c = b @ es \<and> Q es"
    then show "\<exists>es. c = a @ es \<and> Q es" using app by (metis append.assoc)
  qed (simp add: nil)
  then show ?thesis by (auto simp: wait_for_version_def intro!: always_intros)
qed

end

section \<open>Guards are given back\<close>

text \<open>
  The sessions, transfer permits and leases a run holds, the last one taken first. Only the one on top may be given
  back, and no permit or lease is asked for by a run that holds it already.
\<close>

datatype guard = GSession | GPermit string | GLease string

fun held :: "guard list \<Rightarrow> tool_event list \<Rightarrow> guard list option" where
  "held st [] = Some st"
| "held st (SessionOpened d # es) = held (GSession # st) es"
| "held st (PermitTaken d # es) = (if GPermit d \<in> set st then None else held (GPermit d # st) es)"
| "held st (TookLease d c # es) = (if GLease d \<in> set st then None else held (GLease d # st) es)"
| "held st (SessionFreed # es) = (case st of g # st' \<Rightarrow> if g = GSession then held st' es else None | [] \<Rightarrow> None)"
| "held st (PermitFreed d # es) = (case st of g # st' \<Rightarrow> if g = GPermit d then held st' es else None | [] \<Rightarrow> None)"
| "held st (GaveLease d # es) = (case st of g # st' \<Rightarrow> if g = GLease d then held st' es else None | [] \<Rightarrow> None)"
| "held st (_ # es) = held st es"

lemma held_append: "held st (es @ fs) = Option.bind (held st es) (\<lambda>st'. held st' fs)"
  by (induction st es rule: held.induct) (auto split: list.split)

text \<open>Started without the guards of \<open>B\<close>, such a record ends with the guards it started with.\<close>

definition gives_back :: "guard set \<Rightarrow> tool_event list \<Rightarrow> bool" where
  "gives_back B es \<longleftrightarrow> (\<forall>st. set st \<inter> B = {} \<longrightarrow> held st es = Some st)"

interpretation guards: log_kind "gives_back B" for B
  by unfold_locales (simp_all add: gives_back_def held_append)

abbreviation keeps :: "guard set \<Rightarrow> ('a, 'w) tool_m \<Rightarrow> bool" where
  "keeps B \<equiv> always (gives_back B)"

lemma keeps_mono: "keeps A m \<Longrightarrow> A \<subseteq> B \<Longrightarrow> keeps B m"
  by (erule always_mono) (auto simp: gives_back_def)

lemma gives_back_events [simp]:
  "gives_back B [CliSent c]" "gives_back B [CliSaid c x]" "gives_back B [ScpStarted j]" "gives_back B [ScpEnded n]"
  "gives_back B [LocalRename p q]" "gives_back B [LocalRemove p]" "gives_back B [LocalHashed p h z]"
  by (simp_all add: gives_back_def)

lemma gives_back_session:
  assumes "gives_back B es" "GSession \<notin> B"
  shows "gives_back B (SessionOpened d # es @ [SessionFreed])"
  using assms by (auto simp: gives_back_def held_append)

lemma gives_back_permit:
  assumes "gives_back B es" "GPermit d \<notin> B"
  shows "gives_back (insert (GPermit d) B) (PermitTaken d # es @ [PermitFreed d])"
  using assms by (auto simp: gives_back_def held_append)

lemma gives_back_lease:
  assumes "gives_back B es" "GLease d \<notin> B"
  shows "gives_back (insert (GLease d) B) (TookLease d c # es @ [GaveLease d])"
  using assms by (auto simp: gives_back_def held_append)

lemma keeps_sessions [always_intros]:
  assumes "\<And>g. keeps B (body g)" "GSession \<notin> B"
  shows "keeps B (with_session L router body)" "keeps B (with_fresh_session L router body)"
  unfolding with_session_def with_fresh_session_def
  by (rule guards.always_guarded [where P = "gives_back B" and freed = SessionFreed];
      use assms in \<open>simp add: always_intros free_session_def gives_back_session\<close>)+

lemma keeps_permit:
  assumes "keeps B body" "GPermit router \<notin> B"
  shows "keeps (insert (GPermit router) B) (with_permit L router body)"
  unfolding with_permit_def
  by (rule guards.always_guarded [where P = "gives_back B" and freed = "PermitFreed router"];
      use assms in \<open>simp add: always_intros free_permit_def gives_back_permit\<close>)

lemma keeps_lease:
  assumes "keeps B body" "GLease router \<notin> B"
  shows "keeps (insert (GLease router) B) (with_device_lease L router tool corr body)"
  unfolding with_device_lease_def
  by (rule guards.always_guarded [where P = "gives_back B" and freed = "GaveLease router"];
      use assms in \<open>simp add: always_intros free_lease_def gives_back_lease\<close>)

lemma keeps_shared [always_intros]:
  "keeps B (sha256_file_cancellable L path)" "keeps B (check_known_hosts L cfg)" "keeps B (check_staged L path)"
  "keeps B (scp_run L job)" "keeps B (scp_fetch L job)" "keeps B (remove_local L path)" "keeps B (rename_local L old new)"
proof -
  show "keeps B (sha256_file_cancellable L path)"
    by (auto simp: sha256_file_cancellable_def intro!: always_intros split: sum.split)
  show "keeps B (check_known_hosts L cfg)" by (auto simp: check_known_hosts_def intro!: always_intros)
  show "keeps B (check_staged L path)"
    by (auto simp: check_staged_def intro!: always_intros split: option.split file_kind.split)
  have "keeps B scp_token" by (auto simp: always_def adds_def scp_token_def guards.nil)
  then have "keeps B (scp_with L job copy)" for copy
    by (auto simp: scp_with_def intro!: always_intros split: sum.split)
  then show "keeps B (scp_run L job)" "keeps B (scp_fetch L job)"
    by (auto simp: scp_run_def scp_fetch_def intro!: always_intros)
  show "keeps B (remove_local L path)" by (auto simp: always_def adds_def remove_local_def)
  show "keeps B (rename_local L old new)"
    by (auto simp: always_def adds_def rename_local_def guards.nil split: prod.splits sum.splits)
qed

lemma keeps_transfer: "keeps {GPermit (ta_device args)} (transfer_file X L cfg args)"
proof -
  have v: "keeps {} (verify_copy X L args g sha sz)" for g sha sz
    by (auto simp: verify_copy_def Let_def intro!: always_intros split: option.split)
  have c: "keeps {} (copy_and_verify X L cfg args ek g sha sz)" for ek g sha sz
    by (auto simp: copy_and_verify_def Let_def intro!: always_intros v)
  have t: "keeps {} (transfer_session X L cfg args ek sha sz g)" for ek sha sz g
    by (auto simp: transfer_session_def Let_def intro!: always_intros c split: option.split)
  show ?thesis
    by (auto simp: transfer_file_def transfer_body_def Let_def intro!: always_intros keeps_permit t)
qed

lemma keeps_fetch: "keeps {GPermit (fa_device args)} (fetch_file X L cfg args)"
proof -
  have d: "keeps {} (download_and_promote L cfg args ek name sha)" for ek name sha
    by (auto simp: download_and_promote_def Let_def intro!: always_intros split: sum.split)
  have f: "keeps {} (fetch_session X L cfg args ek name g)" for ek name g
    by (auto simp: fetch_session_def Let_def intro!: always_intros d split: option.split file_kind.split)
  show ?thesis
    by (auto simp: fetch_file_def fetch_body_def Let_def intro!: always_intros keeps_permit f)
qed

lemma keeps_upgrade_steps [always_intros]:
  "keeps {GPermit d} (gather_facts L router name sz sha)" "keeps {GPermit d} (capture_baseline L router)"
  "keeps {GPermit d} (install_image L uargs)" "keeps B (version_attempt L router dl)"
proof -
  show "keeps {GPermit d} (gather_facts L router name sz sha)"
    by (auto simp: gather_facts_def open_validated_def run_probe_def intro!: always_intros split: sum.split option.split)
  have "keeps {GPermit d} (baseline_loop L g cmds out)" for g cmds out
    by (induction cmds arbitrary: out) (auto intro!: always_intros)
  then show "keeps {GPermit d} (capture_baseline L router)" by (auto simp: capture_baseline_def intro!: always_intros)
  show "keeps {GPermit d} (install_image L uargs)" by (auto simp: install_image_def intro!: always_intros split: sum.split)
  show "keeps B (version_attempt L router dl)" by (auto simp: version_attempt_def intro!: always_intros)
qed

lemma keeps_wait [always_intros]:
  fixes L :: "('g, 'c, 'w) tool_lib"
  shows "keeps B (wait_for_version L router target budget delay poll dl)"
  by (rule guards.always_wait) (auto intro!: always_intros)

lemma keeps_upgrade:
  fixes L :: "('g, 'c, 'w) tool_lib"
  shows "keeps {GPermit (ua_device args), GLease (ua_device args)} (upgrade_junos X L cfg args writes corr)"
proof -
  let ?B = "{GPermit (ua_device args)}" and ?C = "{GPermit (ua_device args), GLease (ua_device args)}"
  have t: "keeps ?B (transfer_file X L cfg (build_transfer_args args))"
    using keeps_transfer [of "build_transfer_args args"] by (simp add: build_transfer_args_def)
  have r: "keeps B (report_preflight X d args)" for B d
    by (auto simp: report_preflight_def intro!: always_intros split: option.split)
  have rd: "keeps ?B (run_destructive X L cfg args facts w corr)" for facts w
    unfolding run_destructive_def by (intro always_intros t)
  have g: "keeps ?C (gather_facts L router name sz sha)" for router name sz sha
    by (rule keeps_mono [OF keeps_upgrade_steps(1)]) simp
  have l: "keeps ?C (with_device_lease L (ua_device args) tool corr body)" if "keeps ?B body" for tool and body :: "(json, 'w) tool_m"
    using keeps_lease [OF that, of "ua_device args"] by (simp add: insert_commute)
  have "keeps ?C (dispatch_preflight X L cfg args facts w corr)" for facts w
    by (auto simp: dispatch_preflight_def Let_def intro!: always_intros l r rd)
  then show ?thesis by (auto simp: upgrade_junos_def upgrade_run_def Let_def intro!: always_intros g)
qed

text \<open>
  C10. However a transfer, a fetch or an upgrade ends (a result, an error, a cancellation, a limit that elapsed), it has
  given back every session, permit and lease it took, the last one first; and none ever asks for a device's permit or
  lease while it holds it, which it would wait for until its time is up.
\<close>

theorem guards_are_given_back:
  assumes "transfer_file X L cfg targs cx s = Some (rt, st) \<and> es = drop (length (tr_log s)) (tr_log st)
    \<or> fetch_file X L cfg fargs cx s = Some (rf, st) \<and> es = drop (length (tr_log s)) (tr_log st)
    \<or> upgrade_junos X L cfg uargs writes corr cx s = Some (ru, st) \<and> es = drop (length (tr_log s)) (tr_log st)"
  shows "held [] es = Some []"
  using assms
proof (elim disjE conjE)
  assume "transfer_file X L cfg targs cx s = Some (rt, st)" "es = drop (length (tr_log s)) (tr_log st)"
  then show ?thesis using alwaysD [OF keeps_transfer] unfolding gives_back_def by fastforce
next
  assume "fetch_file X L cfg fargs cx s = Some (rf, st)" "es = drop (length (tr_log s)) (tr_log st)"
  then show ?thesis using alwaysD [OF keeps_fetch] unfolding gives_back_def by fastforce
next
  assume "upgrade_junos X L cfg uargs writes corr cx s = Some (ru, st)" "es = drop (length (tr_log s)) (tr_log st)"
  then show ?thesis using alwaysD [OF keeps_upgrade] unfolding gives_back_def by fastforce
qed

theorem guards_are_given_back_witness:
  "held [] (bench_before @ ScpStarted bench_job # bench_later) = Some []"
  by (rule guards_are_given_back [of bench_text bench bench_cfg bench_args bench_ctx bench_start
      "TOk (transferred_response ''f'' bench_digest 3 True)"
      "\<lparr>tr_now = 45, tr_world = 2, tr_log = bench_before @ ScpStarted bench_job # bench_later\<rparr>"])
    (use bench_runs in simp)

end
