(* ===== verification/Upgrade_Report.thy ===== *)
theory Upgrade_Report
  imports Upgrade_Safety
begin

text \<open>
  When an upgrade installs, and what its report means: the record of a run, split at the installation command.
\<close>

section \<open>Steps in a row\<close>

lemma adds_bindI:
  fixes m :: "('a, 'w) tool_m" and f :: "'a \<Rightarrow> ('b, 'w) tool_m"
  assumes m: "adds m A" and ok: "\<And>a es. A (TOk a) es \<Longrightarrow> adds (f a) (\<lambda>r fs. C r (es @ fs))"
    and err: "\<And>e es. A (TErr e) es \<Longrightarrow> C (TErr e) es" and el: "\<And>k es. A (TElapsed k) es \<Longrightarrow> C (TElapsed k) es"
  shows "adds (t_bind m f) C"
  unfolding adds_def
proof (intro allI impI)
  fix cx and s :: "'w tool_run" and r s'
  assume run: "t_bind m f cx s = Some (r, s')"
  then obtain r1 s1 where m1: "m cx s = Some (r1, s1)" by (auto simp: t_bind_def split: option.splits)
  from addsD [OF m this] obtain es where es: "tr_log s1 = tr_log s @ es" "A r1 es" by blast
  show "\<exists>es. tr_log s' = tr_log s @ es \<and> C r es"
  proof (cases r1)
    case (TOk a)
    with run m1 have "f a cx s1 = Some (r, s')" by (simp add: t_bind_def)
    from addsD [OF ok this] es TOk show ?thesis by fastforce
  qed (use run m1 es err el in \<open>auto simp: t_bind_def\<close>)
qed

lemma adds_now: "(\<And>t. adds (f t) C) \<Longrightarrow> adds (t_bind t_now f) C"
  by (rule adds_bindI [where A = "\<lambda>r es. es = [] \<and> (\<exists>t. r = TOk t)"]) (auto simp: adds_def t_now_def)

lemma adds_ret: "C (TOk a) [] \<Longrightarrow> adds (t_ret a) C"
  by (simp add: adds_def t_ret_def)

section \<open>Before, at and after the installation\<close>

text \<open>Events other than the installation command and the end of a lease.\<close>

definition plain :: "string \<Rightarrow> tool_event \<Rightarrow> bool" where
  "plain name e \<longleftrightarrow> e \<noteq> CliSent (install_cmd name) \<and> (\<forall>d. e \<noteq> GaveLease d)"

lemma plain_simps [simp]:
  "plain name (CliSent c) \<longleftrightarrow> c \<noteq> install_cmd name" "plain name (CliSaid c x)" "plain name (SessionOpened d)"
  "plain name SessionFreed" "plain name (ScpStarted j)" "plain name (ScpEnded n)" "plain name (PermitTaken d)"
  "plain name (PermitFreed d)" "plain name (TookLease d corr)" "\<not> plain name (GaveLease d)" "plain name (LocalRename p q)"
  "plain name (LocalRemove p)" "plain name (LocalHashed p h z)"
  by (simp_all add: plain_def)

lemma other_commands [simp]:
  "checksum_cmd n \<noteq> install_cmd name" "VERSION_CMD \<noteq> install_cmd name" "CHR ''s'' # c \<noteq> install_cmd name"
  "CHR ''f'' # c \<noteq> install_cmd name"
  by (simp_all add: checksum_cmd_def VERSION_CMD_def install_cmd_def)

lemma plain_session [always_intros]:
  assumes "\<And>g. always (list_all (plain name)) (body g)"
  shows "always (list_all (plain name)) (with_fresh_session L router body)"
  unfolding with_fresh_session_def
  by (rule events.always_guarded [where P = "list_all (plain name)" and freed = SessionFreed])
    (use assms in \<open>auto intro!: always_intros simp: free_session_def\<close>)

lemma plain_permit:
  assumes "always (list_all (plain name)) body"
  shows "always (list_all (plain name)) (with_permit L router body)"
  unfolding with_permit_def
  by (rule events.always_guarded [where P = "list_all (plain name)" and freed = "PermitFreed router"])
    (use assms in \<open>auto intro!: always_intros simp: free_permit_def\<close>)

lemma plain_shared [always_intros]:
  "always (list_all (plain name)) (sha256_file_cancellable L path)"
  "always (list_all (plain name)) (check_known_hosts L cfg)" "always (list_all (plain name)) (check_staged L path)"
  "always (list_all (plain name)) (scp_run L job)"
proof -
  show "always (list_all (plain name)) (sha256_file_cancellable L path)"
    by (auto simp: sha256_file_cancellable_def intro!: always_intros split: sum.split)
  show "always (list_all (plain name)) (check_known_hosts L cfg)"
    by (auto simp: check_known_hosts_def intro!: always_intros)
  show "always (list_all (plain name)) (check_staged L path)"
    by (auto simp: check_staged_def intro!: always_intros split: option.split file_kind.split)
  have "always (list_all (plain name)) scp_token" by (auto simp: always_def adds_def scp_token_def)
  then show "always (list_all (plain name)) (scp_run L job)"
    by (auto simp: scp_run_def scp_with_def intro!: always_intros split: sum.split)
qed

lemma plain_transfer: "always (list_all (plain name)) (transfer_file X L cfg args)"
proof -
  have v: "always (list_all (plain name)) (verify_copy X L args g sha sz)" for g sha sz
    by (auto simp: verify_copy_def Let_def intro!: always_intros split: option.split)
  have c: "always (list_all (plain name)) (copy_and_verify X L cfg args ek g sha sz)" for ek g sha sz
    by (auto simp: copy_and_verify_def Let_def intro!: always_intros v)
  have t: "always (list_all (plain name)) (transfer_session X L cfg args ek sha sz g)" for ek sha sz g
    by (auto simp: transfer_session_def Let_def intro!: always_intros c split: option.split)
  show ?thesis
    by (auto simp: transfer_file_def transfer_body_def Let_def intro!: always_intros plain_permit t)
qed

lemma plain_baseline: "always (list_all (plain name)) (capture_baseline L router)"
proof -
  have "list_all (\<lambda>c. c \<noteq> install_cmd name) cmds \<Longrightarrow> always (list_all (plain name)) (baseline_loop L g cmds out)" for g cmds out
    by (induction cmds arbitrary: out) (auto intro!: always_intros)
  then show ?thesis
    by (auto simp: capture_baseline_def BASELINE_COMMANDS_def intro!: always_intros)
qed

lemma plain_wait: "always (list_all (plain name)) (wait_for_version L router target budget delay poll dl)"
  by (rule events.always_wait) (auto simp: version_attempt_def intro!: always_intros)

text \<open>The facts of a decision are what the device said.\<close>

definition facts_said :: "preflight_facts \<Rightarrow> tool_event list \<Rightarrow> bool" where
  "facts_said facts es \<longleftrightarrow>
     CliSaid ''show chassis cluster status'' (Some (pf_cluster_status_output facts)) \<in> set es
     \<and> CliSaid VERSION_CMD (Some (pf_version_output facts)) \<in> set es
     \<and> CliSaid ''show system commit'' (Some (pf_commit_output facts)) \<in> set es
     \<and> CliSaid ''show system storage no-forwarding'' (Some (pf_storage_output facts)) \<in> set es"

lemma logs_fresh [logs_intros]:
  assumes "\<And>e. R (TErr e) l" "\<And>k. R (TElapsed k) l"
    "\<And>g. logs (body g) (\<lambda>r l'. R r (l' @ [SessionFreed])) (l @ [SessionOpened router])"
  shows "logs (with_fresh_session L router body) R l"
  unfolding with_fresh_session_def
  by (intro logs_bind logs_noted logs_raced) (auto intro!: assms logs_scoped simp: free_session_def)

lemma gather_said:
  "adds (gather_facts L router name sz sha) (\<lambda>r es. list_all (plain n) es \<and> (\<forall>f. r = TOk f \<longrightarrow>
     facts_said f es \<and> pf_local_image_size f = sz \<and> pf_local_image_sha256 f = sha))"
proof (rule adds_conj)
  show "adds (gather_facts L router name sz sha) (\<lambda>r es. list_all (plain n) es)"
    unfolding always_def [symmetric]
    by (auto simp: gather_facts_def open_validated_def run_probe_def intro!: always_intros split: sum.split option.split)
  show "adds (gather_facts L router name sz sha) (\<lambda>r es. \<forall>f. r = TOk f \<longrightarrow>
      facts_said f es \<and> pf_local_image_size f = sz \<and> pf_local_image_sha256 f = sha)"
    by (rule addsI) (auto simp: gather_facts_def open_validated_def run_probe_def facts_said_def said_def
        intro!: logs_intros split: sum.split)
qed

text \<open>A transfer that went through shows that the device holds the image, with the digest of the staged file.\<close>

definition image_on_device :: "text_lib \<Rightarrow> transfer_cfg \<Rightarrow> string \<Rightarrow> tool_event list \<Rightarrow> bool" where
  "image_on_device X cfg name es \<longleftrightarrow>
     (\<exists>sha sz out. LocalHashed (path_join (tc_staging_dir cfg) name) sha sz \<in> set es
        \<and> CliSaid (checksum_cmd name) (Some out) \<in> set es \<and> parse_checksum_output X out = Inr (Some sha))"

lemma transfer_puts_image:
  assumes "ta_verify args"
  shows "adds (transfer_file X L cfg args)
    (\<lambda>r es. list_all (plain n) es \<and> (\<forall>j. r = TOk j \<longrightarrow> image_on_device X cfg (ta_source_path args) es))"
proof (rule adds_conj)
  show "adds (transfer_file X L cfg args) (\<lambda>r es. list_all (plain n) es)"
    using plain_transfer by (simp add: always_def)
  show "adds (transfer_file X L cfg args) (\<lambda>r es. \<forall>j. r = TOk j \<longrightarrow> image_on_device X cfg (ta_source_path args) es)"
    by (rule adds_mono [OF transfer_file_reports])
      (use assms in \<open>fastforce simp: transfer_report_def image_on_device_def\<close>)
qed

lemma install_log:
  "adds (install_image L args) (\<lambda>r es. (es = []
     \<or> (\<exists>x. es = [SessionOpened (ua_device args), CliSent (install_cmd (ua_source_path args))] @ x @ [SessionFreed]
          \<and> list_all (plain (ua_source_path args)) x)) \<and> (\<forall>out. r = TOk out \<longrightarrow> es \<noteq> []))"
  by (rule addsI) (auto simp: install_image_def intro!: logs_intros split: sum.split)

lemma wait_shows_target:
  fixes L :: "('g, 'c, 'w) tool_lib"
  shows "adds (wait_for_version L router target budget delay poll dl) (\<lambda>r es. list_all (plain n) es
    \<and> (\<forall>out. r = TOk out \<longrightarrow> CliSaid VERSION_CMD (Some out) \<in> set es \<and> parse_junos_version out = Some target))"
proof (rule adds_conj)
  show "adds (wait_for_version L router target budget delay poll dl) (\<lambda>r es. list_all (plain n) es)"
    using plain_wait by (simp add: always_def)
  have sl: "adds (t_sleep delay) (\<lambda>r es. es = [])" by (auto simp: adds_def dest: sleep_log)
  have "adds (wait_poll L router target budget poll dl start seen) (\<lambda>r es. \<forall>out. r = TOk out \<longrightarrow>
      CliSaid VERSION_CMD (Some out) \<in> set es \<and> parse_junos_version out = Some target)" for start seen
    unfolding adds_def
  proof (intro allI impI)
    fix cx and s :: "'w tool_run" and r s'
    assume run: "wait_poll L router target budget poll dl start seen cx s = Some (r, s')"
    have att: "\<exists>es. tr_log s' = tr_log s @ es"
      if "version_attempt L router dl cx s = Some (r, s')" for cx and s :: "'w tool_run" and r s'
    proof -
      have "always (\<lambda>_. True) (version_attempt L router dl)"
        by (rule always_mono [of "list_all (\<lambda>_. True)"]) (auto simp: version_attempt_def intro!: always_intros)
      then show ?thesis using that by (auto elim: alwaysD)
    qed
    have "(\<exists>es. tr_log s' = tr_log s @ es) \<and> (\<forall>out. r = TOk out \<longrightarrow> parse_junos_version out = Some target
        \<and> (\<exists>l. (\<exists>es. l = tr_log s @ es) \<and> tr_log s' = l @ [CliSent VERSION_CMD, CliSaid VERSION_CMD (Some out)]))"
      by (rule wait_poll_invariant [OF run, where I = "\<lambda>a b. \<exists>es. b = a @ es"]) (use att in auto)
    then show "\<exists>es. tr_log s' = tr_log s @ es \<and> (\<forall>out. r = TOk out \<longrightarrow>
        CliSaid VERSION_CMD (Some out) \<in> set es \<and> parse_junos_version out = Some target)"
      by (cases r) auto
  qed
  then show "adds (wait_for_version L router target budget delay poll dl) (\<lambda>r es. \<forall>out. r = TOk out \<longrightarrow>
      CliSaid VERSION_CMD (Some out) \<in> set es \<and> parse_junos_version out = Some target)"
    unfolding wait_for_version_def by (intro adds_now adds_bindI [OF sl]) auto
qed

section \<open>The installation\<close>

text \<open>Where the command is found in a record that is plain but for one part.\<close>

lemma plain_before:
  assumes "list_all (plain n) a" "a @ es = pre @ CliSent (install_cmd n) # post"
  obtains pre' where "pre = a @ pre'" "es = pre' @ CliSent (install_cmd n) # post"
proof -
  from assms(2) consider us where "a = pre @ us" "us @ es = CliSent (install_cmd n) # post"
    | us where "pre = a @ us" "es = us @ CliSent (install_cmd n) # post"
    by (auto simp: append_eq_append_conv2)
  then show ?thesis
  proof cases
    case 1
    with assms(1) have "us = []" by (cases us) auto
    with 1 that [of "[]"] show ?thesis by simp
  qed (use that in blast)
qed

text \<open>
  The installation comes after the image is on the device, and a report of success after the device showed the target
  version, later than the installation.
\<close>

definition installs ::
    "text_lib \<Rightarrow> transfer_cfg \<Rightarrow> upgrade_args \<Rightarrow> 'r outcome \<Rightarrow> tool_event list \<Rightarrow> bool" where
  "installs X cfg args r es \<longleftrightarrow>
     (\<forall>pre post. es = pre @ CliSent (install_cmd (ua_source_path args)) # post \<longrightarrow>
        list_all (plain (ua_source_path args)) pre \<and> image_on_device X cfg (ua_source_path args) pre)
     \<and> (\<forall>j. r = TOk j \<longrightarrow> (\<exists>pre post out. es = pre @ CliSent (install_cmd (ua_source_path args)) # post
        \<and> CliSaid VERSION_CMD (Some out) \<in> set post \<and> parse_junos_version out = Some (ua_target_version args)))
     \<and> (\<forall>d. GaveLease d \<notin> set es)"

lemma plain_no_command:
  "list_all (plain n) es \<Longrightarrow> es \<noteq> pre @ CliSent (install_cmd n) # post" "list_all (plain n) es \<Longrightarrow> GaveLease d \<notin> set es"
  by (auto simp: list_all_iff)

lemma installs_fail:
  "list_all (plain (ua_source_path args)) es \<Longrightarrow> (\<And>j. r \<noteq> TOk j) \<Longrightarrow> installs X cfg args r es"
  using plain_no_command [of "ua_source_path args" es] unfolding installs_def by blast

lemma image_on_device_append: "image_on_device X cfg n es \<Longrightarrow> image_on_device X cfg n (a @ es @ b)"
  unfolding image_on_device_def by auto

lemma installs_parts:
  assumes "list_all (plain (ua_source_path args)) a" "image_on_device X cfg (ua_source_path args) a"
    and "list_all (plain (ua_source_path args)) b"
    and "\<And>j. r = TOk j \<Longrightarrow> \<exists>out. CliSaid VERSION_CMD (Some out) \<in> set b \<and> parse_junos_version out = Some (ua_target_version args)"
  shows "installs X cfg args r (a @ [SessionOpened d, CliSent (install_cmd (ua_source_path args))] @ b)"
  unfolding installs_def
proof (intro conjI allI impI)
  fix pre post
  let ?n = "ua_source_path args"
  assume e: "a @ [SessionOpened d, CliSent (install_cmd ?n)] @ b = pre @ CliSent (install_cmd ?n) # post"
  have "list_all (plain ?n) (a @ [SessionOpened d])" using assms(1) by simp
  moreover from e have "(a @ [SessionOpened d]) @ CliSent (install_cmd ?n) # b = pre @ CliSent (install_cmd ?n) # post" by simp
  ultimately obtain pre' where p: "pre = (a @ [SessionOpened d]) @ pre'"
    "CliSent (install_cmd ?n) # b = pre' @ CliSent (install_cmd ?n) # post"
    by (rule plain_before)
  from p(2) plain_no_command(1) [OF assms(3)] have "pre' = []" by (cases pre') auto
  with p assms(1) show "list_all (plain ?n) pre" by simp
  from \<open>pre' = []\<close> p image_on_device_append [OF assms(2), of "[]"] show "image_on_device X cfg ?n pre" by simp
next
  fix j
  assume "r = TOk j"
  from assms(4) [OF this] show "\<exists>pre post out. a @ [SessionOpened d, CliSent (install_cmd (ua_source_path args))] @ b
      = pre @ CliSent (install_cmd (ua_source_path args)) # post \<and> CliSaid VERSION_CMD (Some out) \<in> set post
      \<and> parse_junos_version out = Some (ua_target_version args)"
    by (metis append.assoc append_Cons append_Nil)
next
  fix dd
  show "GaveLease dd \<notin> set (a @ [SessionOpened d, CliSent (install_cmd (ua_source_path args))] @ b)"
    using plain_no_command(2) assms(1,3) by auto
qed

text \<open>After the installation: the wait and the second baseline.\<close>

lemma destructive_tail:
  assumes "list_all (plain (ua_source_path args)) a" "image_on_device X cfg (ua_source_path args) a"
    and "list_all (plain (ua_source_path args)) x"
    and "\<And>b t. adds (f b t) (\<lambda>r es. es = [])"
  shows "adds (t_bind (wait_for_version L router (ua_target_version args) budget delay poll dl) (\<lambda>_.
      t_bind t_now (\<lambda>t. t_bind (capture_baseline L router) (\<lambda>b. f b t))))
    (\<lambda>r es. installs X cfg args r (a @ [SessionOpened d, CliSent (install_cmd (ua_source_path args))] @ x @ es))"
proof (rule adds_bindI [OF wait_shows_target [where n = "ua_source_path args"]], goal_cases)
  case (1 out es)
  let ?n = "ua_source_path args"
  have i: "installs X cfg args r (a @ [SessionOpened d, CliSent (install_cmd ?n)] @ x @ es @ fs)"
    if "list_all (plain ?n) fs" for r :: "'f outcome" and fs
    by (rule installs_parts) (use assms(1-3) 1 that in auto)
  show ?case
  proof (rule adds_now, rule adds_bindI)
    show "adds (capture_baseline L router) (\<lambda>r. list_all (plain ?n))" using plain_baseline by (simp add: always_def)
  next
    fix b t fs
    assume "list_all (plain ?n) fs"
    with i show "adds (f b t) (\<lambda>r es'. installs X cfg args r
        (a @ [SessionOpened d, CliSent (install_cmd ?n)] @ x @ es @ fs @ es'))"
      by (intro adds_mono [OF assms(4)]) simp
  qed (use i in auto)
next
  case (2 e es)
  show ?case by (rule installs_parts) (use assms(1-3) 2 in auto)
next
  case (3 k es)
  show ?case by (rule installs_parts) (use assms(1-3) 3 in auto)
qed

lemma adds_ret_nil: "adds (t_ret a) (\<lambda>r es. es = [])"
  by (rule adds_ret) simp

lemma adds_now_ret: "adds (t_bind t_now (\<lambda>t. t_ret (f t))) (\<lambda>r es. es = [])"
  by (rule adds_now) (rule adds_ret_nil)

lemma install_stops:
  assumes "list_all (plain (ua_source_path args)) a" "image_on_device X cfg (ua_source_path args) a"
    and "ins = [] \<or> (\<exists>x. ins = [SessionOpened d, CliSent (install_cmd (ua_source_path args))] @ x @ [SessionFreed]
      \<and> list_all (plain (ua_source_path args)) x)"
    and "\<And>j. r \<noteq> TOk j"
  shows "installs X cfg args r (a @ ins)"
  using assms(3)
proof (elim disjE exE conjE)
  assume "ins = []"
  then show ?thesis by (intro installs_fail) (use assms(1,4) in auto)
next
  fix x
  assume x: "ins = [SessionOpened d, CliSent (install_cmd (ua_source_path args))] @ x @ [SessionFreed]"
    "list_all (plain (ua_source_path args)) x"
  show ?thesis unfolding x(1) by (rule installs_parts) (use assms x(2) in auto)
qed

lemma destructive_installs: "adds (run_destructive X L cfg args facts w corr) (installs X cfg args)"
  unfolding run_destructive_def
proof (rule adds_now, rule adds_bindI [OF plain_baseline [unfolded always_def, where name = "ua_source_path args"]], goal_cases)
  case (1 started pre_baseline bs)
  let ?n = "ua_source_path args"
  show ?case
  proof (rule adds_now, rule adds_bindI [OF transfer_puts_image [where n = ?n]], goal_cases)
    case (2 phase1 j ts)
    have bt: "list_all (plain ?n) (bs @ ts)" "image_on_device X cfg ?n (bs @ ts)"
      using \<open>list_all (plain ?n) bs\<close> 2 image_on_device_append [of X cfg ?n ts bs "[]"] by (auto simp: build_transfer_args_def)
    show ?case
    proof (rule adds_now, rule adds_bindI [OF install_log], goal_cases)
      case (1 phase2 out ins)
      then obtain x where x: "ins = [SessionOpened (ua_device args), CliSent (install_cmd ?n)] @ x @ [SessionFreed]"
        "list_all (plain ?n) x"
        by blast
      have "list_all (plain ?n) (x @ [SessionFreed])" using x(2) by simp
      note tail = destructive_tail [OF bt this, where d = "ua_device args"]
      show ?case unfolding x(1) by (rule adds_now, rule adds_mono, rule tail, rule adds_now_ret) simp
    next
      case (2 phase2 e ins)
      have "installs X cfg args (TErr e)  ((bs @ ts) @ ins)" by (rule install_stops [OF bt]) (use 2 in auto)
      then show ?case by simp
    next
      case (3 phase2 k ins)
      have "installs X cfg args (TElapsed k)  ((bs @ ts) @ ins)" by (rule install_stops [OF bt]) (use 3 in auto)
      then show ?case by simp
    qed
  qed (use \<open>list_all (plain ?n) bs\<close> in \<open>auto simp: build_transfer_args_def intro!: installs_fail\<close>)
qed (auto intro: installs_fail)

section \<open>The whole run\<close>

text \<open>
  An installation is justified when, under the lease, which is still held, the device's facts, read under it, let the
  upgrade proceed with the size of the staged image, and the image is on the device.
\<close>

definition install_justified ::
    "text_lib \<Rightarrow> transfer_cfg \<Rightarrow> upgrade_args \<Rightarrow> string \<Rightarrow> tool_event list \<Rightarrow> bool" where
  "install_justified X cfg args corr seen \<longleftrightarrow>
     (\<exists>a b facts sha. seen = a @ TookLease (ua_device args) corr # b \<and> (\<forall>d. GaveLease d \<notin> set b)
        \<and> LocalHashed (path_join (tc_staging_dir cfg) (ua_source_path args)) sha (pf_local_image_size facts) \<in> set a
        \<and> facts_said facts b \<and> evaluate_preflight X facts args = PdProceed
        \<and> image_on_device X cfg (ua_source_path args) b)"

text \<open>
  What a report of success means: the device is at the target already and nothing was installed, or the device showed
  the target version after the installation.
\<close>

definition upgrade_report :: "upgrade_args \<Rightarrow> json outcome \<Rightarrow> tool_event list \<Rightarrow> bool" where
  "upgrade_report args r es \<longleftrightarrow>
     (\<forall>j. r = TOk j \<longrightarrow>
        (CliSent (install_cmd (ua_source_path args)) \<notin> set es
           \<and> (\<exists>out. CliSaid VERSION_CMD (Some out) \<in> set es \<and> parse_junos_version out = Some (ua_target_version args)))
        \<or> (\<exists>pre post out. es = pre @ CliSent (install_cmd (ua_source_path args)) # post
           \<and> CliSaid VERSION_CMD (Some out) \<in> set post \<and> parse_junos_version out = Some (ua_target_version args)))"

definition upgrade_ok ::
    "text_lib \<Rightarrow> transfer_cfg \<Rightarrow> upgrade_args \<Rightarrow> string \<Rightarrow> json outcome \<Rightarrow> tool_event list \<Rightarrow> bool" where
  "upgrade_ok X cfg args corr r es \<longleftrightarrow>
     (\<forall>pre post. es = pre @ CliSent (install_cmd (ua_source_path args)) # post \<longrightarrow> install_justified X cfg args corr pre)
     \<and> upgrade_report args r es"

lemma upgrade_ok_fail:
  assumes "CliSent (install_cmd (ua_source_path args)) \<notin> set es" "\<And>j. r \<noteq> TOk j"
  shows "upgrade_ok X cfg args corr r es"
  using assms by (auto simp: upgrade_ok_def upgrade_report_def)

lemma finish_preflight_ok:
  assumes "finish_preflight X (evaluate_preflight X facts args) args = Some (Inr j)"
  shows "parse_junos_version (pf_version_output facts) = Some (ua_target_version args)"
proof -
  from assms obtain v where "evaluate_preflight X facts args = PdAlreadyAtTarget v"
    by (auto simp: finish_preflight_def split: preflight_decision.splits)
  then show ?thesis by (auto simp: evaluate_preflight_def split: option.splits sum.splits if_splits)
qed

lemma report_preflight_ok:
  assumes "facts_said facts es" "CliSent (install_cmd (ua_source_path args)) \<notin> set es"
  shows "adds (report_preflight X (evaluate_preflight X facts args) args)
    (\<lambda>r fs. fs = [] \<and> upgrade_ok X cfg args corr r es)"
proof (cases "finish_preflight X (evaluate_preflight X facts args) args")
  case None
  then show ?thesis by (simp add: report_preflight_def adds_def t_panics_def)
next
  case (Some v)
  have "upgrade_ok X cfg args corr (TErr e) es" for e by (rule upgrade_ok_fail) (use assms(2) in auto)
  moreover have "upgrade_ok X cfg args corr (TOk j) es" if "v = Inr j" for j
    using Some that finish_preflight_ok [of X facts args j] assms
    unfolding upgrade_ok_def upgrade_report_def facts_said_def by auto
  ultimately show ?thesis using Some
    by (auto simp: report_preflight_def adds_def t_lift_def split: sum.split)
qed

lemma installs_upgrade_ok:
  assumes "installs X cfg args r d" "list_all (plain (ua_source_path args)) a" "list_all (plain (ua_source_path args)) g"
    and "LocalHashed (path_join (tc_staging_dir cfg) (ua_source_path args)) sha (pf_local_image_size facts) \<in> set a"
    and "facts_said facts g" "evaluate_preflight X facts args = PdProceed"
  shows "upgrade_ok X cfg args corr r (a @ TookLease (ua_device args) corr # g @ d @ [GaveLease (ua_device args)])"
proof -
  let ?n = "ua_source_path args" and ?t = "TookLease (ua_device args) corr" and ?e = "GaveLease (ua_device args)"
  have "install_justified X cfg args corr pre" if e: "a @ ?t # g @ d @ [?e] = pre @ CliSent (install_cmd ?n) # post" for pre post
  proof -
    have "list_all (plain ?n) (a @ ?t # g)" using assms(2,3) by simp
    moreover from e have "(a @ ?t # g) @ d @ [?e] = pre @ CliSent (install_cmd ?n) # post" by simp
    ultimately obtain p where p: "pre = (a @ ?t # g) @ p" "d @ [?e] = p @ CliSent (install_cmd ?n) # post"
      by (rule plain_before)
    from p(2) obtain post' where "d = p @ CliSent (install_cmd ?n) # post'" by (cases post rule: rev_cases) auto
    with assms(1) have "list_all (plain ?n) p" "image_on_device X cfg ?n p" unfolding installs_def by blast+
    with assms(3-6) image_on_device_append [of X cfg ?n p g "[]"] show ?thesis
      unfolding install_justified_def p(1)
      by (intro exI [of _ a] exI [of _ "g @ p"] exI [of _ facts] exI [of _ sha])
        (auto simp: facts_said_def plain_no_command(2))
  qed
  moreover have "upgrade_report args r (a @ ?t # g @ d @ [?e])"
    unfolding upgrade_report_def
  proof (intro allI impI disjI2)
    fix j
    assume "r = TOk j"
    with assms(1) obtain pre post out where o: "d = pre @ CliSent (install_cmd ?n) # post"
      "CliSaid VERSION_CMD (Some out) \<in> set post" "parse_junos_version out = Some (ua_target_version args)"
      unfolding installs_def by blast
    show "\<exists>pre post out. a @ ?t # g @ d @ [?e] = pre @ CliSent (install_cmd ?n) # post
        \<and> CliSaid VERSION_CMD (Some out) \<in> set post \<and> parse_junos_version out = Some (ua_target_version args)"
      by (rule exI [of _ "a @ ?t # g @ pre"], rule exI [of _ "post @ [?e]"]) (use o in auto)
  qed
  ultimately show ?thesis by (simp add: upgrade_ok_def)
qed

lemma adds_lease:
  fixes body :: "('a, 'w) tool_m"
  assumes "adds body (\<lambda>r es. C r (TookLease d corr # es @ [GaveLease d]))" "\<And>e. C (TErr e) []" "\<And>k. C (TElapsed k) []"
  shows "adds (with_device_lease L d tool corr body) C"
  unfolding with_device_lease_def
  by (intro addsI logs_bind logs_noted logs_raced)
    (auto simp: free_lease_def assms intro!: logs_scoped adds_logs [OF assms(1)])

lemma plain_no_install: "list_all (plain n) es \<Longrightarrow> CliSent (install_cmd n) \<notin> set es"
  by (auto simp: list_all_iff)

lemma dispatch_ok:
  assumes a: "list_all (plain (ua_source_path args)) a"
    and h: "LocalHashed (path_join (tc_staging_dir cfg) (ua_source_path args)) sha (pf_local_image_size facts) \<in> set a"
    and f: "facts_said facts a"
  shows "adds (dispatch_preflight X L cfg args facts w corr) (\<lambda>r es. upgrade_ok X cfg args corr r (a @ es))"
proof (cases "evaluate_preflight X facts args = PdProceed")
  case False
  then show ?thesis unfolding dispatch_preflight_def Let_def
    by simp (rule adds_mono [OF report_preflight_ok [OF f plain_no_install [OF a]]], simp)
next
  case True
  let ?d = "ua_device args" and ?n = "ua_source_path args"
  have fail: "upgrade_ok X cfg args corr r (a @ TookLease ?d corr # g @ [GaveLease ?d])"
    if "list_all (plain ?n) g" "\<And>j. r \<noteq> TOk j" for r :: "json outcome" and g
    by (rule upgrade_ok_fail) (use a that plain_no_install in auto)
  have "adds (t_bind (gather_facts L ?d (pf_image_basename facts) (pf_local_image_size facts) (pf_local_image_sha256 facts))
      (\<lambda>lf. if evaluate_preflight X lf args \<noteq> PdProceed then report_preflight X (evaluate_preflight X lf args) args
         else run_destructive X L cfg args lf w corr))
      (\<lambda>r es. upgrade_ok X cfg args corr r (a @ TookLease ?d corr # es @ [GaveLease ?d]))"
  proof (rule adds_bindI [OF gather_said [where n = ?n]], goal_cases)
    case (1 lf g)
    show ?case
    proof (cases "evaluate_preflight X lf args = PdProceed")
      case True
      have i: "upgrade_ok X cfg args corr r (a @ TookLease ?d corr # g @ d @ [GaveLease ?d])"
        if "installs X cfg args r d" for r d
        by (rule installs_upgrade_ok [of X cfg args r d a g sha lf]) (use a h 1 True that in auto)
      then show ?thesis using True by (auto intro: adds_mono [OF destructive_installs])
    next
      case False
      have "facts_said lf (a @ TookLease ?d corr # g @ [GaveLease ?d])" using 1 by (auto simp: facts_said_def)
      moreover have "CliSent (install_cmd ?n) \<notin> set (a @ TookLease ?d corr # g @ [GaveLease ?d])"
        using a 1 plain_no_install by auto
      ultimately show ?thesis using False by (auto intro: adds_mono [OF report_preflight_ok])
    qed
  qed (use fail in auto)
  then show ?thesis using True a
    by (auto simp: dispatch_preflight_def Let_def intro!: adds_lease upgrade_ok_fail dest: plain_no_install)
qed

lemma run_ok: "adds (upgrade_run X L cfg args writes corr) (upgrade_ok X cfg args corr)"
proof -
  let ?n = "ua_source_path args" and ?p = "path_join (tc_staging_dir cfg) (ua_source_path args)"
  have fail: "upgrade_ok X cfg args corr r es" if "list_all (plain ?n) es" "\<And>j. r \<noteq> TOk j" for r :: "json outcome" and es
    by (rule upgrade_ok_fail) (use that plain_no_install in auto)
  have g: "adds (t_bind (gather_facts L (ua_device args) ?n sz sha) (\<lambda>facts. dispatch_preflight X L cfg args facts w corr))
      (\<lambda>r es. upgrade_ok X cfg args corr r (LocalHashed ?p sha sz # es))" for sha sz w
  proof (rule adds_bindI [OF gather_said [where n = ?n]], goal_cases)
    case (1 facts es)
    then show ?case using dispatch_ok [of args "LocalHashed ?p sha sz # es" cfg sha facts X L w corr]
      by (auto simp: facts_said_def)
  qed (use fail in auto)
  have g': "logs (t_bind (gather_facts L (ua_device args) ?n sz sha) (\<lambda>facts. dispatch_preflight X L cfg args facts w corr))
      (\<lambda>r l'. \<exists>es. l' = l @ es \<and> upgrade_ok X cfg args corr r es) (l @ [LocalHashed ?p sha sz])" for sha sz w l
    by (rule adds_logs [OF g]) simp
  show ?thesis unfolding upgrade_run_def Let_def
    by (rule addsI) (auto intro!: logs_ret logs_err logs_lift logs_ask logs_sha logs_staged logs_bind g' fail)
qed

lemma upgrade_junos_ok: "adds (upgrade_junos X L cfg args writes corr) (upgrade_ok X cfg args corr)"
  unfolding upgrade_junos_def
proof (intro addsI logs_within adds_logs [OF run_ok])
  fix l r es
  assume ok: "upgrade_ok X cfg args corr r es"
  have "upgrade_ok X cfg args corr (TErr e) es" for e
    using ok by (auto simp: upgrade_ok_def upgrade_report_def)
  with ok show "next_log (\<lambda>a l'. \<exists>es. l' = l @ es \<and> upgrade_ok X cfg args corr (TOk a) es)
     (\<lambda>r l'. (\<exists>es. l' = l @ es \<and> upgrade_ok X cfg args corr (TErr (UpgradeOuterTimeout (unat (ua_timeout args) * 1000))) es)
        \<and> (\<forall>e'. r = TErr e' \<longrightarrow> (\<exists>es. l' = l @ es \<and> upgrade_ok X cfg args corr (TErr e') es))
        \<and> (\<forall>k. r = TElapsed k \<longrightarrow> (\<exists>es. l' = l @ es \<and> upgrade_ok X cfg args corr (TElapsed k) es))) r (l @ es)"
    by (cases r) auto
qed

text \<open>
  C3. The installation command, which reboots the device, is sent only when the caller confirmed it, under the device's
  lease, after the facts read from the device under that lease showed no chassis cluster, a version other than the
  target, no commit that waits for its confirmation, and room for the image twice over, and after the device reported
  the checksum of the staged image.
\<close>

theorem install_is_justified:
  assumes "upgrade_junos X L cfg args writes corr cx s = Some (r, s')"
    and "tr_log s' = tr_log s @ pre @ CliSent (install_cmd (ua_source_path args)) # post"
  shows "ua_confirm args \<and> (\<exists>a b facts sha sz v free.
     pre = a @ TookLease (ua_device args) corr # b \<and> GaveLease (ua_device args) \<notin> set b
     \<and> facts_said facts b \<and> \<not> detect_cluster_active (pf_cluster_status_output facts)
     \<and> parse_junos_version (pf_version_output facts) = Some v \<and> v \<noteq> ua_target_version args
     \<and> detect_active_commit_confirmed (pf_commit_output facts) = None
     \<and> LocalHashed (path_join (tc_staging_dir cfg) (ua_source_path args)) sha sz \<in> set a
     \<and> parse_storage_free_bytes X (pf_storage_output facts) = Inr free \<and> required_bytes sz \<le> free
     \<and> image_on_device X cfg (ua_source_path args) b)"
proof -
  from addsD [OF upgrade_junos_ok assms(1)] assms(2) have "install_justified X cfg args corr pre"
    by (auto simp: upgrade_ok_def)
  then show ?thesis unfolding install_justified_def preflight_proceeds_iff by blast
qed

text \<open>
  C9. An upgrade that reports success is true to the device: either nothing was installed and the device said that it
  runs the target version, or it said so after the installation.
\<close>

theorem upgrade_report_is_true:
  assumes "upgrade_junos X L cfg args writes corr cx s = Some (TOk j, s')"
  shows "\<exists>es out. tr_log s' = tr_log s @ es \<and> parse_junos_version out = Some (ua_target_version args)
    \<and> (CliSent (install_cmd (ua_source_path args)) \<notin> set es \<and> CliSaid VERSION_CMD (Some out) \<in> set es
       \<or> (\<exists>pre post. es = pre @ CliSent (install_cmd (ua_source_path args)) # post
            \<and> CliSaid VERSION_CMD (Some out) \<in> set post))"
  using addsD [OF upgrade_junos_ok assms] unfolding upgrade_ok_def upgrade_report_def by blast

section \<open>An upgrade in the laboratory\<close>

definition upgrade_bench_cli :: "string \<Rightarrow> unit \<Rightarrow> nat \<Rightarrow> (string, rustez_error, nat) answer" where
  "upgrade_bench_cli c g w =
     (if c = ''show chassis cluster status'' then quick ''error: not enabled'' w
      else if c = VERSION_CMD then quick ''Junos: 1'' w
      else bench_cli c g w)"

definition upgrade_bench :: "(unit, unit, nat) tool_lib" where
  "upgrade_bench = bench\<lparr>tl_cli := upgrade_bench_cli, tl_run_cli := \<lambda>_ _. quick ''Junos: 2''\<rparr>"

definition bench_upgrade :: upgrade_args where
  "bench_upgrade = \<lparr>ua_device = ''r1'', ua_source_path = ''f'', ua_target_version = ''2'', ua_confirm = True,
     ua_timeout = 600, ua_reboot_wait_secs = 480\<rparr>"

definition asked :: "string \<Rightarrow> string \<Rightarrow> tool_event list" where
  "asked c a = [CliSent c, CliSaid c (Some a)]"

definition bench_gather :: "tool_event list" where
  "bench_gather = [SessionOpened ''r1''] @ asked ''show chassis cluster status'' ''error: not enabled''
     @ asked VERSION_CMD ''Junos: 1'' @ asked ''show system commit'' []
     @ asked ''show system storage no-forwarding'' ''/dev/x 10G 2G 7B 23% /var'' @ [SessionFreed]"

definition bench_baseline :: "tool_event list" where
  "bench_baseline = [SessionOpened ''r1''] @ concat (map (\<lambda>c. asked c []) BASELINE_COMMANDS) @ [SessionFreed]"

definition bench_up_before :: "tool_event list" where
  "bench_up_before = [LocalHashed ''/s/f'' bench_digest 3] @ bench_gather @ [TookLease ''r1'' ''c''] @ bench_gather
     @ bench_baseline @ bench_before @ ScpStarted bench_job # bench_later @ [SessionOpened ''r1'']"

definition bench_up_later :: "tool_event list" where
  "bench_up_later = [CliSaid (install_cmd ''f'') (Some []), SessionFreed] @ asked VERSION_CMD ''Junos: 2''
     @ bench_baseline @ [GaveLease ''r1'']"

lemma bench_up_facts:
  "parse_junos_version ''Junos: 1'' = Some ''1''" "parse_junos_version ''Junos: 2'' = Some ''2''"
  "detect_cluster_active ''error: not enabled'' = False" "detect_active_commit_confirmed [] = None"
  by code_simp+

lemma bench_proceeds:
  "evaluate_preflight bench_text \<lparr>pf_cluster_status_output = ''error: not enabled'', pf_version_output = ''Junos: 1'',
     pf_commit_output = [], pf_storage_output = ''/dev/x 10G 2G 7B 23% /var'', pf_local_image_size = 3,
     pf_local_image_sha256 = d, pf_image_basename = n\<rparr> bench_upgrade = PdProceed"
  by (simp add: evaluate_preflight_def bench_up_facts bench_facts bench_upgrade_def required_bytes_def saturating_add_def
     saturating_mul_def UPGRADE_DISK_HEADROOM_BYTES_def word_less_alt)

lemma bench_authority: "upgrade_authority bench_upgrade False bench_inv = Inr None"
  by (simp add: upgrade_authority_def inv_get_def bench_inv_def bench_entry_def lab_dm_def bench_upgrade_def
     check_plane_owned_operation_def sample_entry_def)


text \<open>Steps on a device that always answers.\<close>

lemma first_limit_room: "n \<le> t \<Longrightarrow> list_all (\<lambda>d. t \<le> d) ls \<Longrightarrow> not_later t (map_option fst (first_limit n ls))"
  by (induction ls) (auto simp: not_later_def split: option.splits)

lemma quick_simps [simp]: "takes (quick v w) = Some 5" "says (quick v w) = Inr v" "after (quick v w) = w"
  by (simp_all add: quick_def)

lemma later_on: "(t :: nat) + numeral a + numeral b = t + numeral (a + b)"
  by (simp only: add.assoc numeral_plus_numeral)

lemma await_quick:
  assumes "takes (oper w) = Some 5" "list_all (\<lambda>d. t + 5 \<le> d) ls"
  shows "t_await raced started oper \<lparr>cx_cancel = None, cx_limits = ls\<rparr> \<lparr>tr_now = t, tr_world = w, tr_log = l\<rparr> =
    Some (TOk (says (oper w)), \<lparr>tr_now = t + 5, tr_world = after (oper w), tr_log = l @ started_log started\<rparr>)"
  using first_limit_room [of t "t + 5" ls] assms
  by (simp add: t_await_def t_settle_def t_log_def Let_def started_log_def split: option.split)

lemmas calm_defs = t_bind_def t_ret_def t_err_def t_lift_def t_world_def t_now_def t_cancelled_def t_scoped_def t_noted_def
  t_raced_def t_log_def t_cli_def t_probe_def with_session_def free_session_def said_def map_err_def run_probe_def Let_def

lemma bench_gathers:
  assumes "list_all (\<lambda>d. t + 25 \<le> d) ls"
  shows "gather_facts upgrade_bench ''r1'' n sz sha \<lparr>cx_cancel = None, cx_limits = ls\<rparr> \<lparr>tr_now = t, tr_world = w, tr_log = l\<rparr> =
    Some (TOk \<lparr>pf_cluster_status_output = ''error: not enabled'', pf_version_output = ''Junos: 1'', pf_commit_output = [],
      pf_storage_output = ''/dev/x 10G 2G 7B 23% /var'', pf_local_image_size = sz, pf_local_image_sha256 = sha, pf_image_basename = n\<rparr>,
      \<lparr>tr_now = t + 25, tr_world = w, tr_log = l @ bench_gather\<rparr>)"
proof -
  have ls: "list_all (\<lambda>d. t + k \<le> d) ls" if "k \<le> 25" for k using assms that by (auto simp: list_all_iff)
  show ?thesis
    by (simp add: gather_facts_def open_validated_def calm_defs await_quick later_on ls upgrade_bench_def bench_def upgrade_bench_cli_def
       bench_cli_def checksum_cmd_def VERSION_CMD_def bench_gather_def asked_def)
qed

lemma bench_baselines:
  assumes "list_all (\<lambda>d. t + 35 \<le> d) ls"
  shows "capture_baseline upgrade_bench ''r1'' \<lparr>cx_cancel = None, cx_limits = ls\<rparr> \<lparr>tr_now = t, tr_world = w, tr_log = l\<rparr> =
    Some (TOk (foldl (\<lambda>m c. bt_insert c [] m) [] BASELINE_COMMANDS),
      \<lparr>tr_now = t + 35, tr_world = w, tr_log = l @ bench_baseline\<rparr>)"
proof -
  have ls: "list_all (\<lambda>d. t + k \<le> d) ls" if "k \<le> 35" for k using assms that by (auto simp: list_all_iff)
  show ?thesis
    by (simp add: capture_baseline_def BASELINE_COMMANDS_def calm_defs await_quick later_on ls upgrade_bench_def bench_def upgrade_bench_cli_def
       bench_cli_def checksum_cmd_def remote_of_def VERSION_CMD_def bench_baseline_def asked_def del: bt_insert.simps)
qed

lemma bench_transfers:
  assumes "list_all (\<lambda>d. t + 45 \<le> d) ls"
  shows "\<exists>j. transfer_file bench_text upgrade_bench bench_cfg (build_transfer_args bench_upgrade) \<lparr>cx_cancel = None, cx_limits = ls\<rparr>
      \<lparr>tr_now = t, tr_world = 0, tr_log = l\<rparr> =
    Some (TOk j, \<lparr>tr_now = t + 45, tr_world = 2, tr_log = l @ bench_before @ ScpStarted bench_job # bench_later\<rparr>)"
proof -
  have ls: "list_all (\<lambda>d. t + k \<le> d) ls" if "k \<le> 45" for k using assms that by (auto simp: list_all_iff)
  show ?thesis
    by (simp add: transfer_run_defs t_within_def t_timeout_def calm_defs await_quick later_on ls bench_facts bench_key bench_room
        upgrade_bench_def bench_def upgrade_bench_cli_def
        bench_cfg_def bench_upgrade_def build_transfer_args_def bench_cli_def bench_before_def bench_later_def bench_job_def
        checksum_cmd_def remote_of_def path_join_def VERSION_CMD_def)
qed

lemma bench_installs:
  assumes "list_all (\<lambda>d. t + 10 \<le> d) ls"
  shows "install_image upgrade_bench bench_upgrade \<lparr>cx_cancel = None, cx_limits = ls\<rparr> \<lparr>tr_now = t, tr_world = w, tr_log = l\<rparr> =
    Some (TOk [], \<lparr>tr_now = t + 10, tr_world = w,
      tr_log = l @ [SessionOpened ''r1'', CliSent (install_cmd ''f''), CliSaid (install_cmd ''f'') (Some []), SessionFreed]\<rparr>)"
proof -
  have ls: "list_all (\<lambda>d. t + k \<le> d) ls" if "k \<le> 10" for k using assms that by (auto simp: list_all_iff)
  show ?thesis
    by (simp add: install_image_def calm_defs await_quick later_on ls upgrade_bench_def bench_def upgrade_bench_cli_def
       bench_cli_def bench_upgrade_def checksum_cmd_def install_cmd_def VERSION_CMD_def)
qed

lemma sleep_calm:
  assumes "list_all (\<lambda>d. t + ms \<le> d) ls"
  shows "t_sleep ms \<lparr>cx_cancel = None, cx_limits = ls\<rparr> \<lparr>tr_now = t, tr_world = w, tr_log = l\<rparr> =
    Some (TOk (), \<lparr>tr_now = t + ms, tr_world = w, tr_log = l\<rparr>)"
  using first_limit_room [of t "t + ms" ls] assms
  by (simp add: t_sleep_def t_bind_def t_ret_def t_await_def t_settle_def)

lemma bench_waits:
  assumes "list_all (\<lambda>d. t + 30005 \<le> d) ls"
  shows "wait_for_version upgrade_bench ''r1'' ''2'' budget 30000 poll 30000 \<lparr>cx_cancel = None, cx_limits = ls\<rparr>
      \<lparr>tr_now = t, tr_world = w, tr_log = l\<rparr> =
    Some (TOk ''Junos: 2'', \<lparr>tr_now = t + 30005, tr_world = w, tr_log = l @ asked VERSION_CMD ''Junos: 2''\<rparr>)"
proof -
  have ls: "list_all (\<lambda>d. t + k \<le> d) ls" if "k \<le> 30005" for k using assms that by (auto simp: list_all_iff)
  show ?thesis unfolding wait_for_version_def
    by (simp add: calm_defs sleep_calm later_on ls, subst wait_poll.simps)
      (simp add: version_attempt_def t_timeout_def calm_defs await_quick later_on ls upgrade_bench_def bench_def judge_attempt_def
        bench_up_facts asked_def)
qed


text \<open>A device that accepts the image and comes back with the target version.\<close>

lemma bench_upgrades:
  "\<exists>j. upgrade_junos bench_text upgrade_bench bench_cfg bench_upgrade False ''c'' bench_ctx bench_start =
     Some (TOk j, \<lparr>tr_now = 30190, tr_world = 2,
       tr_log = bench_up_before @ CliSent (install_cmd ''f'') # bench_up_later\<rparr>)"
proof -
  let ?l = "[LocalHashed ''/s/f'' bench_digest 3] @ bench_gather @ [TookLease ''r1'' ''c''] @ bench_gather @ bench_baseline"
  obtain j where t: "transfer_file bench_text upgrade_bench bench_cfg (build_transfer_args bench_upgrade)
      \<lparr>cx_cancel = None, cx_limits = [600000]\<rparr> \<lparr>tr_now = 95, tr_world = 0, tr_log = ?l\<rparr> =
    Some (TOk j, \<lparr>tr_now = 140, tr_world = 2, tr_log = ?l @ bench_before @ ScpStarted bench_job # bench_later\<rparr>)"
    using bench_transfers [of 95 "[600000]" ?l] by auto
  have lib: "tl_read upgrade_bench p = quick [''abc'']" "tl_hash upgrade_bench c = bench_digest" "tl_kind upgrade_bench p w = Some FkRegular"
     "tl_inventory upgrade_bench w = bench_inv" "tl_lease upgrade_bench d tl cr = quick ()" "tl_free_lease upgrade_bench d = (\<lambda>w. w)" for p c w d tl cr
    by (auto simp: upgrade_bench_def bench_def)
  have path: "path_join (tc_staging_dir bench_cfg) ''f'' = ''/s/f''" by (simp add: path_join_def bench_cfg_def)
  have args: "ua_device bench_upgrade = ''r1''" "ua_source_path bench_upgrade = ''f''" "ua_target_version bench_upgrade = ''2''"
    "ua_timeout bench_upgrade = 600" by (simp_all add: bench_upgrade_def)
  show ?thesis
    by (simp add: upgrade_junos_def upgrade_run_def dispatch_preflight_def run_destructive_def t_within_def t_timeout_def calm_defs
      await_quick later_on bench_facts bench_authority check_staged_def sha256_file_cancellable_def with_device_lease_def free_lease_def
      bench_gathers bench_baselines t [simplified] bench_installs bench_waits bench_proceeds lib args path
      bench_up_before_def bench_up_later_def bench_upgrade_def [symmetric])
qed

theorem install_is_justified_witness:
  "ua_confirm bench_upgrade \<and> (\<exists>a b facts sha sz v free.
     bench_up_before = a @ TookLease ''r1'' ''c'' # b \<and> GaveLease ''r1'' \<notin> set b
     \<and> facts_said facts b \<and> \<not> detect_cluster_active (pf_cluster_status_output facts)
     \<and> parse_junos_version (pf_version_output facts) = Some v \<and> v \<noteq> ''2''
     \<and> detect_active_commit_confirmed (pf_commit_output facts) = None
     \<and> LocalHashed ''/s/f'' sha sz \<in> set a
     \<and> parse_storage_free_bytes bench_text (pf_storage_output facts) = Inr free \<and> required_bytes sz \<le> free
     \<and> image_on_device bench_text bench_cfg ''f'' b)"
proof -
  obtain j where "upgrade_junos bench_text upgrade_bench bench_cfg bench_upgrade False ''c'' bench_ctx bench_start =
     Some (TOk j, \<lparr>tr_now = 30190, tr_world = 2,
       tr_log = bench_up_before @ CliSent (install_cmd ''f'') # bench_up_later\<rparr>)"
    using bench_upgrades by blast
  from install_is_justified [OF this, of bench_up_before bench_up_later] show ?thesis
    by (simp add: bench_upgrade_def bench_cfg_def path_join_def)
qed

theorem upgrade_report_is_true_witness:
  "\<exists>es out. bench_up_before @ CliSent (install_cmd ''f'') # bench_up_later = es \<and> parse_junos_version out = Some ''2''
    \<and> (CliSent (install_cmd ''f'') \<notin> set es \<and> CliSaid VERSION_CMD (Some out) \<in> set es
       \<or> (\<exists>pre post. es = pre @ CliSent (install_cmd ''f'') # post \<and> CliSaid VERSION_CMD (Some out) \<in> set post))"
proof -
  obtain j where "upgrade_junos bench_text upgrade_bench bench_cfg bench_upgrade False ''c'' bench_ctx bench_start =
     Some (TOk j, \<lparr>tr_now = 30190, tr_world = 2,
       tr_log = bench_up_before @ CliSent (install_cmd ''f'') # bench_up_later\<rparr>)"
    using bench_upgrades by blast
  from upgrade_report_is_true [OF this] show ?thesis by (simp add: bench_upgrade_def)
qed

end
