(* ===== verification/Staged_Files.thy ===== *)
theory Staged_Files
  imports Transfer_File
begin

text \<open>
  \<^verbatim>\<open>tools/list_staged_files.rs\<close>: what is staged on the server, with the digest of each file, and what lies in a
  device's \<^verbatim>\<open>/var/tmp\<close>. Reading the directory and formatting a time are parameters.
\<close>

section \<open>The device's listing\<close>

record device_file_entry =
  de_path :: string
  de_size_bytes :: u64
  de_mtime_iso :: string

definition month_to_num :: "string \<Rightarrow> nat" where
  "month_to_num m =
     (case map_of (zip [''Jan'', ''Feb'', ''Mar'', ''Apr'', ''May'', ''Jun'', ''Jul'', ''Aug'', ''Sep'', ''Oct'', ''Nov'', ''Dec''] [1 ..< 13]) m of
        Some n \<Rightarrow> n | None \<Rightarrow> 0)"

text \<open>Padding with zeros on the left to two characters.\<close>

definition pad2 :: "string \<Rightarrow> string" where
  "pad2 s = replicate (2 - length (utf8_chars s)) (CHR ''0'') @ s"

definition show_int :: "int \<Rightarrow> string" where
  "show_int i = (if i < 0 then ''-'' @ show_nat (nat (- i)) else show_nat (nat i))"

definition junos_date_to_iso :: "string \<Rightarrow> string \<Rightarrow> string" where
  "junos_date_to_iso date time =
     (case split_on (CHR ''-'') date of
        [year, month, day] \<Rightarrow>
          year @ ''-'' @ pad2 (show_nat (month_to_num month)) @ ''-'' @ pad2 day @ ''T''
            @ (if CHR '':'' \<in> set time then time @ '':00'' else ''00:00:00'')
      | _ \<Rightarrow> date @ ''T'' @ time)"

definition listing_row :: "int \<Rightarrow> string \<Rightarrow> device_file_entry option" where
  "listing_row current_year line =
     (let trimmed = trim_end line in
      if trimmed = [] \<or> starts_with ''total '' trimmed \<or> suffix '':'' trimmed then None
      else
        (let flds = split_whitespace trimmed in
         if length flds < 9 then None
         else if starts_with ''d'' (flds ! 0) then None
         else
           (case parse_uint (flds ! 4) of
              None \<Rightarrow> None
            | Some sz \<Rightarrow>
                (let month = flds ! 5; day = flds ! 6; stamp = flds ! 7; name = str_join '' '' (drop 8 flds) in
                 if month_to_num month = 0 then None
                 else if name = ''.'' \<or> name = ''..'' then None
                 else
                   (let (date_str, time_str) =
                          (if CHR '':'' \<in> set stamp
                           then (show_int current_year @ ''-'' @ month @ ''-'' @ pad2 day, stamp)
                           else (stamp @ ''-'' @ month @ ''-'' @ pad2 day, ''00:00''))
                    in Some \<lparr>de_path = ''/var/tmp/'' @ name, de_size_bytes = sz,
                         de_mtime_iso = junos_date_to_iso date_str time_str\<rparr>)))))"

definition parse_var_tmp_listing :: "string \<Rightarrow> int \<Rightarrow> device_file_entry list" where
  "parse_var_tmp_listing output current_year = List.map_filter (listing_row current_year) (str_lines output)"

section \<open>The staging directory\<close>

definition STAGING_DIR_MAX_ENTRIES :: nat where "STAGING_DIR_MAX_ENTRIES = 256"

record dir_meta =
  dm_is_symlink :: bool
  dm_is_file :: bool
  dm_modified :: "int option"

record dir_entry =
  dn_name :: string
  dn_path :: string
  dn_metadata :: "string + dir_meta"

text \<open>
  The library: whether the directory exists, its entries (each may fail), the UTC text of a time in seconds since the
  epoch where there is one, that of the current time, and the current year where it parses.
\<close>

record 'w staging_lib =
  sg_exists :: "string \<Rightarrow> 'w \<Rightarrow> bool"
  sg_read_dir :: "string \<Rightarrow> 'w \<Rightarrow> ((string + dir_entry) list, string, 'w) answer"
  sg_utc :: "int \<Rightarrow> string option"
  sg_utc_now :: "'w \<Rightarrow> string"
  sg_year :: "'w \<Rightarrow> int option"

record staged_file_entry =
  sf_name :: string
  sf_size_bytes :: u64
  sf_sha256 :: string
  sf_mtime_iso :: string

record staging_dir_result =
  sr_entries :: "staged_file_entry list"
  sr_truncated :: bool
  sr_total_found :: nat

fun staged_entries :: "(string + dir_entry) list \<Rightarrow> (dir_entry \<times> int option) list jres" where
  "staged_entries [] = Inr []"
| "staged_entries (Inl e # es) = Inl (Io e)"
| "staged_entries (Inr d # es) =
     (case dn_metadata d of
        Inl e \<Rightarrow> Inl (Io e)
      | Inr meta \<Rightarrow>
          if dm_is_symlink meta \<or> \<not> dm_is_file meta \<or> starts_with ''.'' (dn_name d) then staged_entries es
          else and_then (staged_entries es) (\<lambda>r. Inr ((d, dm_modified meta) # r)))"

definition systemtime_to_iso :: "'w staging_lib \<Rightarrow> int option \<Rightarrow> 'w \<Rightarrow> string" where
  "systemtime_to_iso G t w =
     (case t of
        None \<Rightarrow> ''unknown''
      | Some secs \<Rightarrow> (case sg_utc G (if secs < 0 then 0 else secs) of Some text \<Rightarrow> text | None \<Rightarrow> sg_utc_now G w))"

text \<open>Hashing a file, not raced against any token.\<close>

definition sha256_file :: "('g, 'c, 'w) tool_lib \<Rightarrow> string \<Rightarrow> (string \<times> u64, 'w) tool_m" where
  "sha256_file L path =
     t_noted (\<lambda>(sha, sz). LocalHashed path sha sz)
       (t_bind (t_await False None (tl_read L path)) (\<lambda>r.
         case r of
           Inl e \<Rightarrow> t_err (Io e)
         | Inr blocks \<Rightarrow> t_ret (tl_hash L (concat blocks), foldl (\<lambda>sz b. sz + of_nat (length b)) 0 blocks)))"

fun hash_entries :: "'w staging_lib \<Rightarrow> ('g, 'c, 'w) tool_lib \<Rightarrow> (dir_entry \<times> int option) list \<Rightarrow> (staged_file_entry list, 'w) tool_m" where
  "hash_entries G L [] = t_ret []"
| "hash_entries G L ((d, mtime) # ds) =
     t_bind (sha256_file L (dn_path d)) (\<lambda>(sha, sz).
     t_bind (t_world (systemtime_to_iso G mtime)) (\<lambda>iso.
     t_bind (hash_entries G L ds) (\<lambda>rest.
       t_ret (\<lparr>sf_name = dn_name d, sf_size_bytes = sz, sf_sha256 = hex32 sha, sf_mtime_iso = iso\<rparr> # rest))))"

definition read_staging_dir :: "'w staging_lib \<Rightarrow> ('g, 'c, 'w) tool_lib \<Rightarrow> string \<Rightarrow> (staging_dir_result, 'w) tool_m" where
  "read_staging_dir G L dir =
     t_bind (t_world (sg_exists G dir)) (\<lambda>present.
       if \<not> present then t_ret \<lparr>sr_entries = [], sr_truncated = False, sr_total_found = 0\<rparr>
       else
         t_bind (t_await False None (sg_read_dir G dir)) (\<lambda>r.
         t_bind (t_lift (and_then (map_err Io r) staged_entries)) (\<lambda>found.
           let prelim = sort_key (\<lambda>(d, _). dn_name d) found;
               total_found = length prelim;
               truncated = STAGING_DIR_MAX_ENTRIES < total_found in
           t_bind (hash_entries G L (take STAGING_DIR_MAX_ENTRIES prelim)) (\<lambda>out.
             t_ret \<lparr>sr_entries = out, sr_truncated = truncated, sr_total_found = total_found\<rparr>))))"

section \<open>The tool\<close>

definition staged_json :: "staged_file_entry \<Rightarrow> json" where
  "staged_json e = JObj [(''name'', JStr (sf_name e)), (''size_bytes'', JNat (unat (sf_size_bytes e))), (''sha256'', JStr (sf_sha256 e)),
     (''mtime_iso'', JStr (sf_mtime_iso e))]"

definition device_file_json :: "device_file_entry \<Rightarrow> json" where
  "device_file_json e = JObj [(''path'', JStr (de_path e)), (''size_bytes'', JNat (unat (de_size_bytes e))),
     (''mtime_iso'', JStr (de_mtime_iso e))]"

definition staging_payload :: "string \<Rightarrow> staging_dir_result \<Rightarrow> json \<Rightarrow> json \<Rightarrow> json" where
  "staging_payload dir staged device device_files =
     JObj [(''staging_dir'', JStr dir), (''staged_files'', JList (map staged_json (sr_entries staged))),
       (''staged_files_truncated'', JBool (sr_truncated staged)), (''staged_files_total_found'', JNat (sr_total_found staged)),
       (''device'', device), (''device_files'', device_files)]"

definition list_staged_body ::
    "'w staging_lib \<Rightarrow> ('g, 'c, 'w) tool_lib \<Rightarrow> string \<Rightarrow> string option \<Rightarrow> (json, 'w) tool_m" where
  "list_staged_body G L dir device =
     t_bind (read_staging_dir G L dir) (\<lambda>staged.
       case device of
         None \<Rightarrow> t_ret (staging_payload dir staged JNull JNull)
       | Some name \<Rightarrow>
           t_bind (t_world (tl_inventory L)) (\<lambda>iv.
           t_bind (t_lift (inv_get iv name)) (\<lambda>_.
           t_bind (t_noted (\<lambda>_. SessionOpened name) (t_bind (t_await False None (tl_open L name)) t_lift)) (\<lambda>g.
             t_scoped (free_session L g) (
               t_bind (t_cli False L g ''file list /var/tmp/ detail'') (\<lambda>r.
               t_bind (t_lift (map_err (probe_failed ''list_var_tmp'') r)) (\<lambda>raw.
               t_bind (t_world (sg_year G)) (\<lambda>year.
                 t_ret (staging_payload dir staged (JStr name)
                   (JList (map device_file_json (parse_var_tmp_listing raw (case year of Some y \<Rightarrow> y | None \<Rightarrow> 2026)))))))))))))"

definition list_staged_files ::
    "'w staging_lib \<Rightarrow> ('g, 'c, 'w) tool_lib \<Rightarrow> string \<Rightarrow> string option \<Rightarrow> u64 \<Rightarrow> (json, 'w) tool_m" where
  "list_staged_files G L dir device timeout =
     t_within (unat timeout * 1000) (Timeout (unat timeout * 1000)) (list_staged_body G L dir device)"

section \<open>What is staged is what is listed\<close>

lemma t_bind_TOk:
  "t_bind m f cx s = Some (TOk b, s') \<longleftrightarrow> (\<exists>a s1. m cx s = Some (TOk a, s1) \<and> f a cx s1 = Some (TOk b, s'))"
  by (auto simp: t_bind_def split: option.splits prod.splits outcome.splits)

lemma plain_steps_TOk:
  "t_ret a cx s = Some (TOk b, s') \<longleftrightarrow> b = a \<and> s' = s" "t_world f cx s = Some (TOk c, s') \<longleftrightarrow> c = f (tr_world s) \<and> s' = s"
  "t_lift r cx s = Some (TOk d, s') \<longleftrightarrow> r = Inr d \<and> s' = s"
  by (auto simp: t_ret_def t_world_def t_lift_def split: sum.splits)

lemma quiet_await_TOk:
  assumes "t_await False None oper cx s = Some (TOk r, s')"
  shows "r = says (oper (tr_world s)) \<and> tr_log s' = tr_log s"
  using assms by (auto simp: t_await_def t_settle_def Let_def split: option.splits if_splits)

text \<open>An entry of the listing, the directory entry it is for, and the hash it comes from.\<close>

definition hashed_as :: "dir_entry \<times> int option \<Rightarrow> staged_file_entry \<times> tool_event \<Rightarrow> bool" where
  "hashed_as d e \<longleftrightarrow> sf_name (fst e) = dn_name (fst d)
     \<and> (\<exists>sha. snd e = LocalHashed (dn_path (fst d)) sha (sf_size_bytes (fst e)) \<and> sf_sha256 (fst e) = hex32 sha)"

lemma sha256_file_TOk:
  assumes "sha256_file L path cx s = Some (TOk (sha, sz), s')"
  shows "tr_log s' = tr_log s @ [LocalHashed path sha sz]"
proof -
  obtain r s1 s2 where r: "t_await False None (tl_read L path) cx s = Some (TOk r, s1)"
    and c: "(case r of Inl e \<Rightarrow> t_err (Io e) | Inr blocks \<Rightarrow>
        t_ret (tl_hash L (concat blocks), foldl (\<lambda>sz b. sz + of_nat (length b)) 0 blocks)) cx s1 = Some (TOk (sha, sz), s2)"
    and s': "s' = s2\<lparr>tr_log := tr_log s2 @ [LocalHashed path sha sz]\<rparr>"
    using assms by (auto simp: sha256_file_def t_noted_def t_bind_TOk t_log_def plain_steps_TOk)
  have e: "tr_log s' = tr_log s1 @ [LocalHashed path sha sz]" using c by (cases r) (simp_all add: s' t_err_def plain_steps_TOk)
  show ?thesis using quiet_await_TOk [OF r] e by simp
qed

lemma hash_entries_TOk:
  "hash_entries G L ds cx s = Some (TOk out, s') \<Longrightarrow>
     \<exists>evs. tr_log s' = tr_log s @ evs \<and> length evs = length out \<and> list_all2 hashed_as ds (zip out evs)"
proof (induction ds arbitrary: s out)
  case (Cons d ds)
  obtain e mtime where d: "d = (e, mtime)" by (cases d)
  obtain sha sz s1 iso rest where r: "sha256_file L (dn_path e) cx s = Some (TOk (sha, sz), s1)"
    "hash_entries G L ds cx s1 = Some (TOk rest, s')"
    "out = \<lparr>sf_name = dn_name e, sf_size_bytes = sz, sf_sha256 = hex32 sha, sf_mtime_iso = iso\<rparr> # rest"
    using Cons.prems by (auto simp: d t_bind_TOk plain_steps_TOk split: prod.splits)
  from Cons.IH [OF r(2)] obtain evs where "tr_log s' = tr_log s1 @ evs" "length evs = length rest" "list_all2 hashed_as ds (zip rest evs)"
    by blast
  moreover have "hashed_as d (hd out, LocalHashed (dn_path e) sha sz)" by (simp add: r(3) d hashed_as_def)
  ultimately show ?case using sha256_file_TOk [OF r(1)]
    by (intro exI [of _ "LocalHashed (dn_path e) sha sz # evs"]) (simp add: r(3))
qed (simp add: plain_steps_TOk)

text \<open>The entries that count: regular files, no links, no hidden names.\<close>

definition staged_entry :: "string + dir_entry \<Rightarrow> (dir_entry \<times> int option) option" where
  "staged_entry x =
     (case x of
        Inr d \<Rightarrow> (case dn_metadata d of
           Inr m \<Rightarrow> if \<not> dm_is_symlink m \<and> dm_is_file m \<and> \<not> starts_with ''.'' (dn_name d) then Some (d, dm_modified m) else None
         | Inl _ \<Rightarrow> None)
      | Inl _ \<Rightarrow> None)"

lemma staged_entries_Inr: "staged_entries xs = Inr found \<Longrightarrow> found = List.map_filter staged_entry xs"
  by (induction xs arbitrary: found rule: staged_entries.induct)
    (auto simp: List.map_filter_simps staged_entry_def and_then_eq_Inr split: sum.splits if_splits)

text \<open>
  A listing of the staging directory that returns shows, in the order of their names, the first 256 of the regular
  files there that are no links and not hidden, each with the size and the digest of what was read of it; these and no
  other file were read; it says how many there are, and that it was cut short exactly when there are more.
\<close>

theorem staging_listing_is_faithful:
  assumes "read_staging_dir G L dir cx s = Some (TOk res, s')" "sg_exists G dir (tr_world s)"
  shows "\<exists>xs kept evs. says (sg_read_dir G dir (tr_world s)) = Inr xs
    \<and> kept = take STAGING_DIR_MAX_ENTRIES (sort_key (\<lambda>(d, _). dn_name d) (List.map_filter staged_entry xs))
    \<and> tr_log s' = tr_log s @ evs \<and> length evs = length (sr_entries res) \<and> list_all2 hashed_as kept (zip (sr_entries res) evs)
    \<and> sr_total_found res = length (List.map_filter staged_entry xs)
    \<and> (sr_truncated res \<longleftrightarrow> STAGING_DIR_MAX_ENTRIES < sr_total_found res)"
proof -
  obtain r s1 xs found out s2 where r: "t_await False None (sg_read_dir G dir) cx s = Some (TOk r, s1)" "r = Inr xs"
    "staged_entries xs = Inr found"
    "hash_entries G L (take STAGING_DIR_MAX_ENTRIES (sort_key (\<lambda>(d, _). dn_name d) found)) cx s1 = Some (TOk out, s2)"
    "res = \<lparr>sr_entries = out, sr_truncated = (STAGING_DIR_MAX_ENTRIES < length found), sr_total_found = length found\<rparr>" "s' = s2"
    using assms by (auto simp: read_staging_dir_def t_bind_TOk plain_steps_TOk and_then_eq_Inr map_err_eq_Inr Let_def)
  have q: "says (sg_read_dir G dir (tr_world s)) = Inr xs" "tr_log s1 = tr_log s" using quiet_await_TOk [OF r(1)] r(2) by auto
  obtain evs where "tr_log s' = tr_log s @ evs" "length evs = length out"
    "list_all2 hashed_as (take STAGING_DIR_MAX_ENTRIES (sort_key (\<lambda>(d, _). dn_name d) found)) (zip out evs)"
    using hash_entries_TOk [OF r(4)] q(2) r(6) by auto
  then show ?thesis using q(1) staged_entries_Inr [OF r(3)] r(5) by auto
qed

text \<open>The tool returns within the time it was given.\<close>

lemma list_staged_files_returns:
  "\<exists>r s'. list_staged_files G L dir device timeout \<lparr>cx_cancel = ct, cx_limits = []\<rparr> s = Some (r, s')
     \<and> tr_now s' \<le> tr_now s + unat timeout * 1000 \<and> (\<forall>k. r \<noteq> TElapsed k)"
proof -
  have sha: "timely (sha256_file L p)" for p
    by (auto simp: sha256_file_def intro!: timely_intros split: sum.split)
  have h: "timely (hash_entries G L ds)" for ds
  proof (induction ds)
    case (Cons d ds)
    then show ?case by (cases d) (auto intro!: timely_intros sha split: prod.split)
  qed (auto intro!: timely_intros)
  then have "timely (list_staged_body G L dir device)"
    by (auto simp: list_staged_body_def read_staging_dir_def Let_def free_session_def t_log_def intro!: timely_intros split: option.split)
  from timely_within [OF this] show ?thesis unfolding list_staged_files_def by meson
qed

end
