(* ===== verification/Rust_Net.thy ===== *)
theory Rust_Net
  imports Rust_Str
begin

text \<open>
  \<^verbatim>\<open>std::net::IpAddr\<close> and its \<^verbatim>\<open>FromStr\<close>: the parser the library uses, reading from the left and backing up
  where an alternative fails, and its \<^verbatim>\<open>Display\<close>. A reader returns the value and what is left of the text.
\<close>

datatype ip_addr = V4 u32 | V6 "u16 list"

type_synonym 'a reader = "string \<Rightarrow> ('a \<times> string) option"

definition digit_value :: "int \<Rightarrow> char \<Rightarrow> int option" where
  "digit_value radix c =
     (let b = int (byte c);
          d = (if 48 \<le> b \<and> b \<le> 57 then Some (b - 48)
               else if 97 \<le> b \<and> b \<le> 122 then Some (b - 87)
               else if 65 \<le> b \<and> b \<le> 90 then Some (b - 55) else None)
      in case d of Some v \<Rightarrow> (if v < radix then Some v else None) | None \<Rightarrow> None)"

text \<open>
  \<^verbatim>\<open>read_number\<close>: all the digits that follow, failing on too many of them, on a value over the
  limit, and on a leading zero where none is allowed.
\<close>

fun read_digits :: "int \<Rightarrow> nat \<Rightarrow> int \<Rightarrow> string \<Rightarrow> nat \<times> int \<times> string" where
  "read_digits radix n acc [] = (n, acc, [])"
| "read_digits radix n acc (c # cs) =
     (case digit_value radix c of
        None \<Rightarrow> (n, acc, c # cs)
      | Some d \<Rightarrow> read_digits radix (Suc n) (acc * radix + d) cs)"

definition read_number :: "int \<Rightarrow> nat \<Rightarrow> bool \<Rightarrow> int \<Rightarrow> int reader" where
  "read_number radix max_digits allow_zero_prefix limit s =
     (let (n, v, rest) = read_digits radix 0 0 s in
      if n = 0 \<or> max_digits < n \<or> limit < v then None
      else if \<not> allow_zero_prefix \<and> hd s = CHR ''0'' \<and> 1 < n then None
      else Some (v, rest))"

definition read_given_char :: "char \<Rightarrow> unit reader" where
  "read_given_char c s = (case s of x # rest \<Rightarrow> (if x = c then Some ((), rest) else None) | [] \<Rightarrow> None)"

text \<open>The separator stands before every element but the first.\<close>

definition read_separator :: "char \<Rightarrow> nat \<Rightarrow> 'a reader \<Rightarrow> 'a reader" where
  "read_separator sep index inner s =
     (if 0 < index then (case read_given_char sep s of None \<Rightarrow> None | Some (_, r) \<Rightarrow> inner r) else inner s)"

fun read_octets :: "nat \<Rightarrow> nat \<Rightarrow> int list reader" where
  "read_octets i 0 s = Some ([], s)"
| "read_octets i (Suc k) s =
     (case read_separator (CHR ''.'') i (read_number 10 3 False 255) s of
        None \<Rightarrow> None
      | Some (v, r) \<Rightarrow> map_option (\<lambda>(vs, r'). (v # vs, r')) (read_octets (Suc i) k r))"

definition octets_value :: "int list \<Rightarrow> int" where
  "octets_value vs = foldl (\<lambda>a v. a * 256 + v) 0 vs"

definition read_ipv4_addr :: "int reader" where
  "read_ipv4_addr s = map_option (\<lambda>(vs, r). (octets_value vs, r)) (read_octets 0 4 s)"

text \<open>
  Up to \<^verbatim>\<open>limit\<close> groups, an IPv4 address standing for the last two; the second component says
  whether one did.
\<close>

function read_groups :: "nat \<Rightarrow> nat \<Rightarrow> string \<Rightarrow> u16 list \<times> bool \<times> string" where
  "read_groups limit i s =
     (if limit \<le> i then ([], False, s)
      else
        (case (if i < limit - 1 then read_separator (CHR '':'') i read_ipv4_addr s else None) of
           Some (v, r) \<Rightarrow> ([word_of_int (v div 65536), word_of_int (v mod 65536)], True, r)
         | None \<Rightarrow>
             (case read_separator (CHR '':'') i (read_number 16 4 True 65535) s of
                Some (g, r) \<Rightarrow> (let (gs, v4, r') = read_groups limit (Suc i) r in (word_of_int g # gs, v4, r'))
              | None \<Rightarrow> ([], False, s))))"
  by pat_completeness auto
termination by (relation "measure (\<lambda>(limit, i, s). limit - i)") auto

declare read_groups.simps [simp del]

definition read_ipv6_addr :: "u16 list reader" where
  "read_ipv6_addr s =
     (let (head, head_ipv4, r) = read_groups 8 0 s in
      if length head = 8 then Some (head, r)
      else if head_ipv4 then None
      else
        (case Option.bind (read_given_char (CHR '':'') r) (\<lambda>(_, r1). read_given_char (CHR '':'') r1) of
           None \<Rightarrow> None
         | Some (_, r2) \<Rightarrow>
             (let (tl_groups, _, r3) = read_groups (8 - (length head + 1)) 0 r2
              in Some (head @ replicate (8 - length head - length tl_groups) 0 @ tl_groups, r3))))"

definition parse_ip :: "string \<Rightarrow> ip_addr option" where
  "parse_ip s =
     (case (case read_ipv4_addr s of
              Some (v, r) \<Rightarrow> Some (V4 (word_of_int v), r)
            | None \<Rightarrow> map_option (\<lambda>(gs, r). (V6 gs, r)) (read_ipv6_addr s)) of
        Some (a, []) \<Rightarrow> Some a
      | _ \<Rightarrow> None)"

section \<open>Printing\<close>

text \<open>
  \<^verbatim>\<open>Display\<close>: four decimal octets, or the groups in hexadecimal with the first longest run of at least two zero
  groups left out; an IPv4-mapped address shows its last two groups as octets.
\<close>

definition hex_char :: "nat \<Rightarrow> char" where
  "hex_char d = (if d < 10 then digit_char d else char_of (87 + d))"

fun show_hex :: "nat \<Rightarrow> string" where
  "show_hex n = (if n < 16 then [hex_char n] else show_hex (n div 16) @ [hex_char (n mod 16)])"

declare show_hex.simps [simp del]

definition show_octets :: "u32 \<Rightarrow> string" where
  "show_octets w =
     show_nat (unat (w div 16777216)) @ ''.'' @ show_nat (unat (w div 65536 mod 256)) @ ''.''
     @ show_nat (unat (w div 256 mod 256)) @ ''.'' @ show_nat (unat (w mod 256))"

fun show_groups :: "u16 list \<Rightarrow> string" where
  "show_groups [] = []"
| "show_groups [g] = show_hex (unat g)"
| "show_groups (g # gs) = show_hex (unat g) @ '':'' @ show_groups gs"

fun zero_run :: "nat \<Rightarrow> nat \<times> nat \<Rightarrow> nat \<times> nat \<Rightarrow> u16 list \<Rightarrow> nat \<times> nat" where
  "zero_run i cur longest [] = longest"
| "zero_run i (start, len) (lstart, llen) (g # gs) =
     (if g = 0 then
        (let cur = (if len = 0 then i else start, len + 1)
         in zero_run (i + 1) cur (if llen < snd cur then cur else (lstart, llen)) gs)
      else zero_run (i + 1) (0, 0) (lstart, llen) gs)"

definition show_ip :: "ip_addr \<Rightarrow> string" where
  "show_ip a =
     (case a of
        V4 w \<Rightarrow> show_octets w
      | V6 gs \<Rightarrow>
          if take 6 gs = [0, 0, 0, 0, 0, 0xFFFF]
          then ''::ffff:'' @ show_octets (ucast (gs ! 6) * 65536 + ucast (gs ! 7))
          else
            (let (start, len) = zero_run 0 (0, 0) (0, 0) gs in
             if 1 < len then show_groups (take start gs) @ ''::'' @ show_groups (drop (start + len) gs)
             else show_groups gs))"

section \<open>Shape\<close>

lemma read_groups_length: "length (fst (read_groups limit i s)) \<le> limit - i"
proof (induction limit i s rule: read_groups.induct)
  case (1 limit i s)
  show ?case
  proof (cases "limit \<le> i")
    case True
    then show ?thesis by (subst read_groups.simps) simp
  next
    case False
    show ?thesis
    proof (cases "if i < limit - 1 then read_separator (CHR '':'') i read_ipv4_addr s else None")
      case None
      show ?thesis
      proof (cases "read_separator (CHR '':'') i (read_number 16 4 True 65535) s")
        case (Some q)
        obtain g r where q: "q = (g, r)" by (cases q)
        show ?thesis using 1 [OF False None Some q [symmetric]] False None Some
          by (subst read_groups.simps) (auto simp: q split: prod.splits)
      qed (use None False in \<open>subst read_groups.simps, simp\<close>)
    next
      case (Some p)
      then show ?thesis using False by (subst read_groups.simps) (auto split: if_splits prod.splits)
    qed
  qed
qed

text \<open>An address has eight groups when it is one of the second kind.\<close>

lemma read_groups_lengthD: "read_groups limit i s = (gs, v4, r) \<Longrightarrow> length gs \<le> limit - i"
  using read_groups_length [of limit i s] by simp

lemma read_ipv6_addr_length: "read_ipv6_addr s = Some (gs, r) \<Longrightarrow> length gs = 8"
  by (auto simp: read_ipv6_addr_def split: option.splits prod.splits if_splits dest!: read_groups_lengthD)

lemma parse_ip_V6_length: "parse_ip s = Some (V6 gs) \<Longrightarrow> length gs = 8"
  by (auto simp: parse_ip_def split: option.splits prod.splits list.splits dest: read_ipv6_addr_length)

section \<open>What is printed is read back\<close>

definition digits_value :: "int \<Rightarrow> int \<Rightarrow> string \<Rightarrow> int" where
  "digits_value radix acc s = foldl (\<lambda>a c. a * radix + the (digit_value radix c)) acc s"

definition all_digits :: "int \<Rightarrow> string \<Rightarrow> bool" where
  "all_digits radix s \<longleftrightarrow> list_all (\<lambda>c. digit_value radix c \<noteq> None) s"

definition stops :: "int \<Rightarrow> string \<Rightarrow> bool" where
  "stops radix s \<longleftrightarrow> s = [] \<or> digit_value radix (hd s) = None"

lemma read_digits_append:
  "all_digits radix s \<Longrightarrow> stops radix rest \<Longrightarrow>
     read_digits radix n acc (s @ rest) = (n + length s, digits_value radix acc s, rest)"
proof (induction s arbitrary: n acc)
  case Nil
  then show ?case by (cases rest) (simp_all add: stops_def digits_value_def)
qed (auto simp: all_digits_def digits_value_def split: option.splits)

lemma byte_digit_char: "d < 10 \<Longrightarrow> byte (digit_char d) = 48 + d"
  by (simp add: byte_def digit_char_def)

lemma byte_hex_char: "d < 16 \<Longrightarrow> byte (hex_char d) = (if d < 10 then 48 + d else 87 + d)"
  by (simp add: hex_char_def byte_digit_char) (simp add: byte_def)

lemma digit_value_decimal: "d < 10 \<Longrightarrow> digit_value 10 (digit_char d) = Some (int d)"
  by (simp add: digit_value_def byte_digit_char)

lemma digit_value_hex: "d < 16 \<Longrightarrow> digit_value 16 (hex_char d) = Some (int d)"
  by (simp add: digit_value_def byte_hex_char)

lemma show_nat_reads: "all_digits 10 (show_nat n) \<and> digits_value 10 0 (show_nat n) = int n"
proof (induction n rule: show_nat.induct)
  case (1 n)
  show ?case
  proof (cases "n < 10")
    case True
    then show ?thesis by (subst (1 2) show_nat.simps) (simp add: all_digits_def digits_value_def digit_value_decimal)
  next
    case False
    then show ?thesis using 1
      by (subst (1 2) show_nat.simps) (simp add: all_digits_def digits_value_def digit_value_decimal zdiv_int zmod_int)
  qed
qed

lemma show_hex_reads: "all_digits 16 (show_hex n) \<and> digits_value 16 0 (show_hex n) = int n"
proof (induction n rule: show_hex.induct)
  case (1 n)
  show ?case
  proof (cases "n < 16")
    case True
    then show ?thesis by (subst (1 2) show_hex.simps) (simp add: all_digits_def digits_value_def digit_value_hex)
  next
    case False
    then show ?thesis using 1
      by (subst (1 2) show_hex.simps) (simp add: all_digits_def digits_value_def digit_value_hex zdiv_int zmod_int)
  qed
qed

lemma show_hex_not_Nil [simp]: "show_hex n \<noteq> []"
  by (subst show_hex.simps) simp

lemma length_show_hex: "n < 65536 \<Longrightarrow> length (show_hex n) \<le> 4"
  by (subst show_hex.simps, simp, subst show_hex.simps, simp, subst show_hex.simps, simp, subst show_hex.simps, simp)

lemma length_show_octet: "n < 256 \<Longrightarrow> length (show_nat n) \<le> 3"
  by (subst show_nat.simps, simp, subst show_nat.simps, simp, subst show_nat.simps, simp)

lemma hd_show_nat: "hd (show_nat n) = CHR ''0'' \<Longrightarrow> n = 0"
proof (induction n rule: show_nat.induct)
  case (1 n)
  show ?case
  proof (cases "n < 10")
    case True
    then have "byte (hd (show_nat n)) = 48 + n" by (subst show_nat.simps) (simp add: byte_digit_char)
    moreover have "byte (CHR ''0'') = 48" by (simp add: byte_def)
    ultimately show ?thesis using 1(2) by simp
  next
    case False
    then have "hd (show_nat n) = hd (show_nat (n div 10))" by (subst show_nat.simps) simp
    then show ?thesis using 1 False by auto
  qed
qed

lemma read_octet: "n < 256 \<Longrightarrow> stops 10 rest \<Longrightarrow> read_number 10 3 False 255 (show_nat n @ rest) = Some (int n, rest)"
proof -
  assume n: "n < 256" and r: "stops 10 rest"
  have z: "hd (show_nat n) = CHR ''0'' \<Longrightarrow> length (show_nat n) = 1"
    by (drule hd_show_nat) (simp add: show_nat.simps)
  show ?thesis using n length_show_octet [OF n] show_nat_reads [of n] z
    by (auto simp: read_number_def read_digits_append r)
qed

lemma read_group: "stops 16 rest \<Longrightarrow> read_number 16 4 True 65535 (show_hex (unat g) @ rest) = Some (uint g, rest)" for g :: u16
proof -
  assume r: "stops 16 rest"
  have g: "unat g < 65536" using unsigned_less [of g] by simp
  have i: "uint g \<le> 65535" "int (unat g) = uint g" using uint_bounded [of g] by simp_all
  then show ?thesis using length_show_hex [OF g] show_hex_reads [of "unat g"]
    by (simp add: read_number_def read_digits_append r)
qed

lemma stops_simps [simp]: "stops r []" "stops 10 (CHR ''.'' # s)" "stops 16 (CHR '':'' # s)" "stops 10 (CHR '':'' # s)"
  by (simp_all add: stops_def digit_value_def byte_def)

lemma uint_octets: "((uint (w div 16777216) * 256 + uint (w div 65536 mod 256)) * 256 + uint (w div 256 mod 256)) * 256
    + uint (w mod 256) = uint w" for w :: u32
proof -
  have u: "uint (w div 16777216) = uint w div 16777216" "uint (w div 65536 mod 256) = uint w div 65536 mod 256"
    "uint (w div 256 mod 256) = uint w div 256 mod 256" "uint (w mod 256) = uint w mod 256"
    by (simp_all add: uint_div uint_mod)
  have d: "v div 65536 = v div 256 div 256" "v div 16777216 = v div 65536 div 256" for v :: int
    using zdiv_zmult2_eq [of 256 v 256] zdiv_zmult2_eq [of 256 v 65536] by simp_all
  show ?thesis by (simp only: u d div_mult_mod_eq)
qed

lemma read_ipv4_addr_eq:
  "read_ipv4_addr s = map_option (\<lambda>(vs, r). (octets_value vs, r)) (read_octets 0 (Suc (Suc (Suc (Suc 0)))) s)"
  by (simp add: read_ipv4_addr_def numeral_eq_Suc)

lemma read_octets_show: "read_ipv4_addr (show_octets w) = Some (uint w, [])"
proof -
  have "unat w < 4294967296" using unsigned_less [of w] by simp
  then have b: "unat (w div 16777216) < 256" "unat (w div 65536 mod 256) < 256" "unat (w div 256 mod 256) < 256" "unat (w mod 256) < 256"
    by (simp_all add: unat_div unat_mod less_mult_imp_div_less)
  have o: "\<And>n. n < 256 \<Longrightarrow> read_number 10 3 False 255 (show_nat n) = Some (int n, [])" using read_octet [of _ "[]"] by simp
  show ?thesis
    by (simp add: read_ipv4_addr_eq show_octets_def read_separator_def read_given_char_def read_octet b o octets_value_def)
      (use uint_octets [of w] in simp)
qed


section \<open>Groups\<close>

lemma read_digits_rest: "read_digits radix n acc s = (k, v, r) \<Longrightarrow> r = dropWhile (\<lambda>c. digit_value radix c \<noteq> None) s"
  by (induction s arbitrary: n acc) (auto split: option.splits)

lemma read_ipv4_needs_dot:
  assumes "dropWhile (\<lambda>c. digit_value 10 c \<noteq> None) s = [] \<or> hd (dropWhile (\<lambda>c. digit_value 10 c \<noteq> None) s) \<noteq> CHR ''.''"
  shows "read_ipv4_addr s = None"
proof -
  obtain k v r where d: "read_digits 10 0 0 s = (k, v, r)" by (metis prod_cases3)
  from assms have "r = [] \<or> hd r \<noteq> CHR ''.''" unfolding read_digits_rest [OF d] .
  then have "read_given_char (CHR ''.'') r = None" by (cases r) (simp_all add: read_given_char_def)
  then show ?thesis by (simp add: read_ipv4_addr_eq read_separator_def read_number_def d)
qed

lemma group_is_no_ipv4:
  assumes "rest = [] \<or> (\<exists>t. rest = CHR '':'' # t)"
  shows "read_ipv4_addr (show_hex n @ rest) = None"
proof (rule read_ipv4_needs_dot)
  let ?P = "\<lambda>c. digit_value 10 c \<noteq> None"
  have dot: "c \<noteq> CHR ''.''" if "c \<in> set (show_hex n)" for c
    using show_hex_reads [of n] that by (auto simp: all_digits_def list_all_iff digit_value_def byte_def)
  show "dropWhile ?P (show_hex n @ rest) = [] \<or> hd (dropWhile ?P (show_hex n @ rest)) \<noteq> CHR ''.''"
  proof (cases "\<forall>c\<in>set (show_hex n). ?P c")
    case True
    then have "dropWhile ?P (show_hex n @ rest) = dropWhile ?P rest" by (intro dropWhile_append2) blast
    also have "\<dots> = rest" using assms by (auto simp: digit_value_def byte_def)
    finally show ?thesis using assms by auto
  next
    case False
    then have e: "dropWhile ?P (show_hex n @ rest) = dropWhile ?P (show_hex n) @ rest" "dropWhile ?P (show_hex n) \<noteq> []"
      by (auto simp: dropWhile_append)
    then have "hd (dropWhile ?P (show_hex n)) \<in> set (show_hex n)" by (meson hd_in_set set_dropWhileD)
    with dot e show ?thesis by simp
  qed
qed

definition group_end :: "string \<Rightarrow> bool" where
  "group_end rest \<longleftrightarrow> rest = [] \<or> (\<exists>t. rest = ''::'' @ t)"

lemma read_number_colon [simp]: "read_number radix m z l (CHR '':'' # t) = None" "read_number radix m z l [] = None" if "radix \<le> 36"
  using that by (simp_all add: read_number_def digit_value_def byte_def)

lemma read_ipv4_colon [simp]: "read_ipv4_addr (CHR '':'' # t) = None" "read_ipv4_addr [] = None"
  by (rule read_ipv4_needs_dot; simp add: digit_value_def byte_def)+

lemma read_groups_end: "group_end rest \<Longrightarrow> read_groups limit i rest = ([], False, rest)"
  by (subst read_groups.simps) (auto simp: group_end_def read_separator_def read_given_char_def split: option.splits)

lemma read_groups_step:
  assumes "i < limit" "rest = [] \<or> (\<exists>t. rest = CHR '':'' # t)"
  shows "read_groups limit i ((if 0 < i then '':'' else []) @ show_hex (unat g) @ rest) =
    (let (gs, v4, r) = read_groups limit (Suc i) rest in (g # gs, v4, r))"
proof -
  let ?s = "(if 0 < i then '':'' else []) @ show_hex (unat g) @ rest"
  have st: "stops 16 rest" using assms(2) by auto
  have "read_separator (CHR '':'') i read_ipv4_addr ?s = None"
    by (simp add: read_separator_def read_given_char_def group_is_no_ipv4 [OF assms(2)])
  moreover have "read_separator (CHR '':'') i (read_number 16 4 True 65535) ?s = Some (uint g, rest)"
    by (simp add: read_separator_def read_given_char_def read_group [OF st])
  ultimately show ?thesis using assms(1) by (subst read_groups.simps) simp
qed

lemma read_groups_show:
  "gs \<noteq> [] \<Longrightarrow> i + length gs \<le> limit \<Longrightarrow> group_end rest \<Longrightarrow>
     read_groups limit i ((if 0 < i then '':'' else []) @ show_groups gs @ rest) = (gs, False, rest)"
proof (induction gs arbitrary: i rule: show_groups.induct)
  case (2 g)
  have "rest = [] \<or> (\<exists>t. rest = CHR '':'' # t)" using 2(3) by (auto simp: group_end_def)
  from read_groups_step [OF _ this] 2 show ?case by (simp add: read_groups_end)
next
  case (3 g h gs)
  have ih: "read_groups limit (Suc i) ('':'' @ show_groups (h # gs) @ rest) = (h # gs, False, rest)"
    using 3(1) [of "Suc i"] 3(3,4) by simp
  show ?case using read_groups_step [of i limit "'':'' @ show_groups (h # gs) @ rest" g] 3(3) ih by simp
qed simp


section \<open>Addresses\<close>

text \<open>The run of zeros that is left out is one.\<close>

lemma zero_run_is_zero:
  assumes "zero_run i (st, ln) (lst, lln) gs = (a, b)" "pre @ gs = full" "length pre = i"
    and "st + ln = i \<or> ln = 0" "take ln (drop st full) = replicate ln 0" "st + ln \<le> length full"
    and "take lln (drop lst full) = replicate lln 0" "lst + lln \<le> length full"
  shows "take b (drop a full) = replicate b 0 \<and> a + b \<le> length full"
  using assms
proof (induction gs arbitrary: i st ln lst lln pre)
  case (Cons g gs)
  show ?case
  proof (cases "g = 0")
    case False
    then show ?thesis using Cons.IH [of "i + 1" 0 0 lst lln "pre @ [g]"] Cons.prems by simp
  next
    case True
    let ?st = "if ln = 0 then i else st"
    have at: "take (ln + 1) (drop ?st full) = replicate (ln + 1) 0" "?st + (ln + 1) = i + 1"
    proof -
      show e: "?st + (ln + 1) = i + 1" using Cons.prems(4) by auto
      have "full ! i = 0" using Cons.prems(2,3) True by (auto simp: nth_append)
      moreover have "i < length full" using Cons.prems(2,3) by auto
      ultimately have "drop ?st full ! ln = 0" "ln < length (drop ?st full)" using e by auto
      then have "take (ln + 1) (drop ?st full) = take ln (drop ?st full) @ [0]" by (simp add: take_Suc_conv_app_nth)
      also have "\<dots> = replicate ln 0 @ [0]" using Cons.prems(5) by (cases "ln = 0") auto
      finally show "take (ln + 1) (drop ?st full) = replicate (ln + 1) 0" by (simp add: replicate_append_same)
    qed
    have "?st + (ln + 1) \<le> length full" unfolding at(2) using Cons.prems(2,3) by auto
    then show ?thesis
      using Cons.IH [of "i + 1" ?st "ln + 1" "if lln < ln + 1 then ?st else lst" "if lln < ln + 1 then ln + 1 else lln" "pre @ [0]"]
        Cons.prems(1,2,3,7,8) at True by (auto simp: Let_def split: if_splits)
  qed
qed simp

lemma show_groups_head: "gs \<noteq> [] \<Longrightarrow> \<exists>n rest. show_groups gs @ t = show_hex n @ rest \<and> (rest = t \<or> (\<exists>u. rest = CHR '':'' # u))"
  by (cases gs rule: show_groups.cases) auto

lemma groups_are_no_ipv4: "group_end t \<Longrightarrow> read_ipv4_addr (show_groups gs @ t) = None"
proof (cases "gs = []")
  case True
  moreover assume "group_end t"
  ultimately show ?thesis by (auto simp: group_end_def)
next
  case False
  moreover assume "group_end t"
  ultimately obtain n rest where "show_groups gs @ t = show_hex n @ rest" "rest = [] \<or> (\<exists>u. rest = CHR '':'' # u)"
    using show_groups_head [of gs t] by (auto simp: group_end_def)
  then show ?thesis using group_is_no_ipv4 [of rest n] by simp
qed

lemma read_groups_show0: "length gs \<le> limit \<Longrightarrow> group_end rest \<Longrightarrow> read_groups limit 0 (show_groups gs @ rest) = (gs, False, rest)"
  using read_groups_show [of gs 0 limit rest] read_groups_end [of rest limit 0] by (cases "gs = []") simp_all

lemma joined_groups:
  "word_of_int (uint (ucast a * 65536 + ucast b :: u32) div 65536) = a"
  "word_of_int (uint (ucast a * 65536 + ucast b :: u32) mod 65536) = b" for a b :: u16
proof -
  have r: "uint a < 65536" "uint b < 65536" "0 \<le> uint a" "0 \<le> uint b" using uint_bounded [of a] uint_bounded [of b] by simp_all
  have c: "uint (ucast x :: u32) = uint x" for x :: u16
    using uint_bounded [of x] by (simp add: unsigned_ucast_eq take_bit_int_eq_self)
  have "uint (ucast a * 65536 + ucast b :: u32) = uint a * 65536 + uint b"
    using r by (simp add: uint_word_ariths c)
  then show "word_of_int (uint (ucast a * 65536 + ucast b :: u32) div 65536) = a"
    "word_of_int (uint (ucast a * 65536 + ucast b :: u32) mod 65536) = b" using r by simp_all
qed

lemma read_mapped: "read_ipv6_addr (''::ffff:'' @ show_octets w) =
    Some (replicate 5 0 @ [0xFFFF, word_of_int (uint w div 65536), word_of_int (uint w mod 65536)], [])"
proof -
  have h: "read_groups 8 0 (''::ffff:'' @ show_octets w) = ([], False, ''::ffff:'' @ show_octets w)"
    by (rule read_groups_end) (simp add: group_end_def)
  have "hex_char 15 = CHR ''f''" by code_simp
  then have f: "show_hex 65535 = ''ffff''" by (simp add: show_hex.simps)
  have "read_groups 7 (Suc 0) (CHR '':'' # show_octets w) = ([word_of_int (uint w div 65536), word_of_int (uint w mod 65536)], True, [])"
    by (subst read_groups.simps) (simp add: read_separator_def read_given_char_def read_octets_show)
  then have "read_groups 7 0 (''ffff:'' @ show_octets w) =
      ([0xFFFF, word_of_int (uint w div 65536), word_of_int (uint w mod 65536)], True, [])"
    using read_groups_step [of 0 7 "CHR '':'' # show_octets w" "0xFFFF"] by (simp add: f)
  with h show ?thesis by (simp add: read_ipv6_addr_def read_given_char_def)
qed

text \<open>
  An address that is printed and read again is the same address, for every IPv4 address and for every IPv6
  address of eight groups, whatever run of zeros the print leaves out.
\<close>

theorem ip_round_trip:
  assumes "case a of V4 w \<Rightarrow> True | V6 gs \<Rightarrow> length gs = 8"
  shows "parse_ip (show_ip a) = Some a"
proof (cases a)
  case (V4 w)
  then show ?thesis by (simp add: show_ip_def parse_ip_def read_octets_show)
next
  case (V6 gs)
  then have l: "length gs = 8" using assms by simp
  show ?thesis
  proof (cases "take 6 gs = [0, 0, 0, 0, 0, 0xFFFF]")
    case True
    have "drop 6 gs = gs ! 6 # drop 7 gs" "drop 7 gs = [gs ! 7]"
      using l Cons_nth_drop_Suc [of 6 gs] Cons_nth_drop_Suc [of 7 gs] by simp_all
    then have g: "gs = [0, 0, 0, 0, 0, 0xFFFF] @ [gs ! 6, gs ! 7]" by (metis True append_take_drop_id)
    have "read_ipv4_addr (''::ffff:'' @ t) = None" for t by simp
    moreover have "replicate 5 0 @ [0xFFFF, gs ! 6, gs ! 7] = gs" using g by (simp add: numeral_eq_Suc)
    ultimately show ?thesis using True
      by (simp add: V6 show_ip_def parse_ip_def read_mapped [simplified] joined_groups)
  next
    case False
    obtain st ln where z: "zero_run 0 (0, 0) (0, 0) gs = (st, ln)" by fastforce
    have zr: "take ln (drop st gs) = replicate ln 0" "st + ln \<le> 8"
      using zero_run_is_zero [OF z, of "[]" gs] l by simp_all
    show ?thesis
    proof (cases "1 < ln")
      case True
      let ?h = "take st gs" and ?t = "drop (st + ln) gs"
      have g: "gs = ?h @ replicate ln 0 @ ?t"
        by (metis append_take_drop_id drop_drop add.commute zr(1))
      have h: "read_groups 8 0 (show_groups ?h @ ''::'' @ show_groups ?t) = (?h, False, ''::'' @ show_groups ?t)"
        by (rule read_groups_show0) (use l in \<open>auto simp: group_end_def\<close>)
      have lh: "length ?h = st" "length ?t = 8 - (st + ln)" using l zr(2) by auto
      have t: "read_groups (8 - (st + 1)) 0 (show_groups ?t) = (?t, False, [])"
        using read_groups_show0 [of ?t "8 - (st + 1)" "[]"] lh True by (simp add: group_end_def)
      have "8 - st - (8 - (st + ln)) = ln" using zr(2) by simp
      then have "read_ipv6_addr (show_groups ?h @ ''::'' @ show_groups ?t) = Some (gs, [])"
        using h t lh zr(2) True g by (simp add: read_ipv6_addr_def read_given_char_def)
      moreover have "read_ipv4_addr (show_groups ?h @ ''::'' @ show_groups ?t) = None"
        by (rule groups_are_no_ipv4) (simp add: group_end_def)
      ultimately show ?thesis using z True False by (simp add: V6 show_ip_def parse_ip_def)
    next
      case few: False
      have "read_groups 8 0 (show_groups gs) = (gs, False, [])"
        using read_groups_show0 [of gs 8 "[]"] l by (simp add: group_end_def)
      then have "read_ipv6_addr (show_groups gs) = Some (gs, [])" using l by (simp add: read_ipv6_addr_def)
      moreover have "read_ipv4_addr (show_groups gs) = None" using groups_are_no_ipv4 [of "[]" gs] by (simp add: group_end_def)
      ultimately show ?thesis using z few False by (simp add: V6 show_ip_def parse_ip_def)
    qed
  qed
qed

theorem ip_round_trip_witness: "parse_ip (show_ip (V6 [0x2001, 0xDB8, 0, 0, 1, 0, 0, 1])) = Some (V6 [0x2001, 0xDB8, 0, 0, 1, 0, 0, 1])"
  by (rule ip_round_trip) simp

end
