(* ===== verification/Srx_Resolve.thy ===== *)
theory Srx_Resolve
  imports Srx_Status Rust_Net "HOL-Library.AList"
begin

text \<open>
  Flattening nested sets: \<^verbatim>\<open>workflows/resolve.rs\<close>, and what the two workflows that use it and the other
  configuration readers share (\<^verbatim>\<open>workflows/config_fetch.rs\<close>, and choosing the node whose configuration is
  read).
\<close>

section \<open>The walk\<close>

datatype 'l config_node = LeafNode 'l | SetNode "string list"

text \<open>A \<^verbatim>\<open>HashMap\<close> from names to entries, as the list of its entries.\<close>

type_synonym 'l node_map = "(string \<times> 'l config_node) list"

definition MAX_RESOLUTION_DEPTH :: nat where "MAX_RESOLUTION_DEPTH = 16"

definition cycle_chain :: "string list \<Rightarrow> string \<Rightarrow> string list" where
  "cycle_chain path name = dropWhile (\<lambda>n. n \<noteq> name) path @ [name]"

text \<open>
  The names on the way from the root (\<^verbatim>\<open>path\<close>) are an argument, what is pushed for the members being
  popped after them; the names seen and the leaves found are passed on.
\<close>

function (sequential)
  walk :: "string \<Rightarrow> 'l node_map \<Rightarrow> string \<Rightarrow> nat \<Rightarrow> string list \<Rightarrow> string
             \<Rightarrow> string set \<times> (string \<times> 'l) list \<Rightarrow> (string set \<times> (string \<times> 'l) list) sres"
and walk_members :: "string \<Rightarrow> 'l node_map \<Rightarrow> string \<Rightarrow> nat \<Rightarrow> string list \<Rightarrow> string list
             \<Rightarrow> string set \<times> (string \<times> 'l) list \<Rightarrow> (string set \<times> (string \<times> 'l) list) sres"
where
  "walk router nodes book depth path name (seen, out) =
     (if MAX_RESOLUTION_DEPTH < depth then Inl (ResolutionDepthExceeded router name MAX_RESOLUTION_DEPTH)
      else if name \<in> set path then Inl (ResolutionCycle router name (str_join '' -> '' (cycle_chain path name)))
      else
        (case map_of nodes name of
           None \<Rightarrow> Inl (ResolutionNameNotFound router name book)
         | Some (LeafNode l) \<Rightarrow>
             Inr (if name \<in> seen then (seen, out) else (insert name seen, out @ [(name, l)]))
         | Some (SetNode members) \<Rightarrow>
             walk_members router nodes book (depth + 1) (path @ [name]) members (seen, out)))"
| "walk_members router nodes book depth path [] st = Inr st"
| "walk_members router nodes book depth path (m # ms) st =
     and_then (walk router nodes book depth path m st) (walk_members router nodes book depth path ms)"
  by pat_completeness auto
termination
  by (relation "measures
        [\<lambda>x. case x of Inl (_, _, _, d, _) \<Rightarrow> MAX_RESOLUTION_DEPTH + 2 - d
                     | Inr (_, _, _, d, _) \<Rightarrow> MAX_RESOLUTION_DEPTH + 2 - d,
         \<lambda>x. case x of Inl _ \<Rightarrow> 0 | Inr (_, _, _, _, _, ms, _) \<Rightarrow> Suc (length ms)]")
    (auto simp: MAX_RESOLUTION_DEPTH_def)

declare walk.simps [simp del] walk_members.simps [simp del]

definition resolve :: "string \<Rightarrow> 'l node_map \<Rightarrow> string \<Rightarrow> string \<Rightarrow> nat \<Rightarrow> ((string \<times> 'l) list \<times> bool) sres" where
  "resolve router nodes root book cap =
     and_then (walk router nodes book 0 [] root ({}, [])) (\<lambda>(_, out).
       Inr (take cap out, cap < length out))"

section \<open>What the walk finds\<close>

text \<open>
  The specification: one name is a member of another, the leaves a name stands for are those its member chains
  end in.
\<close>

definition member_rel :: "'l node_map \<Rightarrow> (string \<times> string) set" where
  "member_rel nodes = {(a, b). \<exists>ms. map_of nodes a = Some (SetNode ms) \<and> b \<in> set ms}"

definition leaves_of :: "'l node_map \<Rightarrow> string \<Rightarrow> (string \<times> 'l) set" where
  "leaves_of nodes root = {(n, l). (root, n) \<in> (member_rel nodes)\<^sup>* \<and> map_of nodes n = Some (LeafNode l)}"

text \<open>A name can be flattened below a given depth.\<close>

definition shallow :: "'l node_map \<Rightarrow> nat \<Rightarrow> string \<Rightarrow> bool" where
  "shallow nodes k root \<longleftrightarrow>
     (\<forall>y. (root, y) \<notin> member_rel nodes ^^ Suc k) \<and> (\<forall>y. (root, y) \<in> (member_rel nodes)\<^sup>* \<longrightarrow> map_of nodes y \<noteq> None)"

text \<open>The leaves found so far, with the names seen in step with them.\<close>

definition found :: "'l node_map \<Rightarrow> string set \<times> (string \<times> 'l) list \<Rightarrow> bool" where
  "found nodes st \<longleftrightarrow>
     fst st = fst ` set (snd st) \<and> distinct (map fst (snd st))
     \<and> (\<forall>(n, l) \<in> set (snd st). map_of nodes n = Some (LeafNode l))"

lemma member_rel_set [simp]:
  "map_of nodes a = Some (SetNode ms) \<Longrightarrow> (a, b) \<in> member_rel nodes \<longleftrightarrow> b \<in> set ms"
  by (simp add: member_rel_def)

lemma member_rel_leaf [simp]:
  "map_of nodes a = Some (LeafNode l) \<Longrightarrow> (a, b) \<notin> member_rel nodes"
  "map_of nodes a = None \<Longrightarrow> (a, b) \<notin> member_rel nodes"
  by (simp_all add: member_rel_def)

lemma leaves_of_leaf: "map_of nodes n = Some (LeafNode l) \<Longrightarrow> leaves_of nodes n = {(n, l)}"
  by (auto simp: leaves_of_def elim: converse_rtranclE)

lemma leaves_of_set:
  "map_of nodes n = Some (SetNode ms) \<Longrightarrow> leaves_of nodes n = (\<Union>m\<in>set ms. leaves_of nodes m)"
proof -
  assume s: "map_of nodes n = Some (SetNode ms)"
  have "(n, y) \<in> (member_rel nodes)\<^sup>* \<longleftrightarrow> n = y \<or> (\<exists>m\<in>set ms. (m, y) \<in> (member_rel nodes)\<^sup>*)" for y
    using s by (metis converse_rtranclE converse_rtrancl_into_rtrancl member_rel_set rtrancl.rtrancl_refl)
  then show ?thesis using s by (auto simp: leaves_of_def)
qed

lemma shallow_leaf:
  assumes "map_of nodes n = Some (LeafNode l)"
  shows "shallow nodes k n"
proof -
  have "(n, y) \<notin> member_rel nodes ^^ Suc k" for y using assms by (metis member_rel_leaf(1) relpow_Suc_D2)
  then show ?thesis using assms by (auto simp: shallow_def simp del: relpow.simps elim: converse_rtranclE)
qed

lemma shallow_set:
  assumes "map_of nodes n = Some (SetNode ms)"
  shows "shallow nodes (Suc k) n \<longleftrightarrow> (\<forall>m\<in>set ms. shallow nodes k m)"
proof
  assume s: "shallow nodes (Suc k) n"
  show "\<forall>m\<in>set ms. shallow nodes k m"
  proof
    fix m assume "m \<in> set ms"
    then have nm: "(n, m) \<in> member_rel nodes" using assms by simp
    then show "shallow nodes k m"
      using s unfolding shallow_def by (metis converse_rtrancl_into_rtrancl relpow_Suc_I2)
  qed
next
  assume a: "\<forall>m\<in>set ms. shallow nodes k m"
  have "(n, y) \<notin> member_rel nodes ^^ Suc (Suc k)" for y
    using a assms unfolding shallow_def by (metis member_rel_set relpow_Suc_D2)
  moreover have "map_of nodes y \<noteq> None" if "(n, y) \<in> (member_rel nodes)\<^sup>*" for y
    using that
  proof (cases rule: converse_rtranclE)
    case base
    then show ?thesis using assms by simp
  next
    case (step m)
    then show ?thesis using a assms by (auto simp: shallow_def)
  qed
  ultimately show "shallow nodes (Suc k) n" by (simp add: shallow_def)
qed

lemma shallow_missing: "map_of nodes n = None \<Longrightarrow> \<not> shallow nodes k n"
  by (auto simp: shallow_def)

text \<open>A name that is its own indirect member has chains of every length.\<close>

lemma cycle_pumps:
  assumes "(n, n) \<in> R\<^sup>+"
  shows "\<exists>y. (n, y) \<in> R ^^ k \<and> (y, n) \<in> R\<^sup>*"
proof (induction k)
  case 0
  show ?case by auto
next
  case (Suc k)
  then obtain y where y: "(n, y) \<in> R ^^ k" "(y, n) \<in> R\<^sup>*" by blast
  from y(2) assms have "(y, n) \<in> R\<^sup>+" by (metis rtrancl_trancl_trancl)
  then obtain z where "(y, z) \<in> R" "(z, n) \<in> R\<^sup>*" by (auto dest: tranclD)
  with y(1) show ?case by (meson relpow_Suc_I)
qed

lemma cycle_not_shallow: "(n, n) \<in> (member_rel nodes)\<^sup>+ \<Longrightarrow> \<not> shallow nodes k n"
  using cycle_pumps [of n "member_rel nodes" "Suc k"] by (auto simp: shallow_def)

lemma shallow_set_0: "map_of nodes n = Some (SetNode ms) \<Longrightarrow> shallow nodes 0 n \<longleftrightarrow> ms = []"
  by (cases ms) (auto simp: shallow_def elim: converse_rtranclE)

definition walks_ok :: "'l node_map \<Rightarrow> nat \<Rightarrow> string \<Rightarrow> bool" where
  "walks_ok nodes depth name \<longleftrightarrow> depth \<le> MAX_RESOLUTION_DEPTH \<and> shallow nodes (MAX_RESOLUTION_DEPTH - depth) name"

lemma walks_ok_set:
  assumes "map_of nodes n = Some (SetNode ms)" "d \<le> MAX_RESOLUTION_DEPTH"
  shows "walks_ok nodes d n \<longleftrightarrow> (\<forall>m\<in>set ms. walks_ok nodes (d + 1) m)"
proof (cases "d = MAX_RESOLUTION_DEPTH")
  case True
  then show ?thesis using assms shallow_set_0 [of nodes n ms] by (cases ms) (auto simp: walks_ok_def)
next
  case False
  then have "MAX_RESOLUTION_DEPTH - d = Suc (MAX_RESOLUTION_DEPTH - (d + 1))" "d + 1 \<le> MAX_RESOLUTION_DEPTH"
    using assms(2) by auto
  then show ?thesis using assms shallow_set [OF assms(1)] by (auto simp: walks_ok_def)
qed

text \<open>What a step of the walk must give, for the names it is about.\<close>

definition walked ::
    "'l node_map \<Rightarrow> bool \<Rightarrow> string set \<Rightarrow> string set \<times> (string \<times> 'l) list
       \<Rightarrow> (string set \<times> (string \<times> 'l) list) sres \<Rightarrow> bool" where
  "walked nodes ok names st r \<longleftrightarrow>
     (case r of
        Inl _ \<Rightarrow> \<not> ok
      | Inr st' \<Rightarrow> ok \<and> found nodes st' \<and> set (snd st') = set (snd st) \<union> (\<Union>n\<in>names. leaves_of nodes n))"

lemma found_add:
  assumes "found nodes (seen, out)" "map_of nodes n = Some (LeafNode l)"
  shows "found nodes (if n \<in> seen then (seen, out) else (insert n seen, out @ [(n, l)]))
    \<and> set (snd (if n \<in> seen then (seen, out) else (insert n seen, out @ [(n, l)]))) = insert (n, l) (set out)"
proof (cases "n \<in> seen")
  case True
  then obtain l' where "(n, l') \<in> set out" using assms(1) by (force simp: found_def)
  moreover from this have "l' = l" using assms by (force simp: found_def)
  ultimately show ?thesis using True assms(1) by auto
next
  case False
  then show ?thesis using assms by (auto simp: found_def)
qed

lemma walk_spec:
  "\<forall>p\<in>set path. (p, name) \<in> (member_rel nodes)\<^sup>+ \<Longrightarrow> found nodes st \<Longrightarrow>
     walked nodes (walks_ok nodes depth name) {name} st (walk router nodes book depth path name st)"
  "\<forall>p\<in>set path. \<forall>m\<in>set ms. (p, m) \<in> (member_rel nodes)\<^sup>+ \<Longrightarrow> found nodes st \<Longrightarrow>
     walked nodes (\<forall>m\<in>set ms. walks_ok nodes depth m) (set ms) st (walk_members router nodes book depth path ms st)"
proof (induction router nodes book depth path name st and router nodes book depth path ms st
    rule: walk_walk_members.induct)
  case (1 router nodes book depth path name seen out)
  consider (deep) "MAX_RESOLUTION_DEPTH < depth"
    | (cycle) "\<not> MAX_RESOLUTION_DEPTH < depth" "name \<in> set path"
    | (missing) "\<not> MAX_RESOLUTION_DEPTH < depth" "name \<notin> set path" "map_of nodes name = None"
    | (leaf) l where "\<not> MAX_RESOLUTION_DEPTH < depth" "name \<notin> set path" "map_of nodes name = Some (LeafNode l)"
    | (members) ms where "\<not> MAX_RESOLUTION_DEPTH < depth" "name \<notin> set path" "map_of nodes name = Some (SetNode ms)"
    by (metis config_node.exhaust option.exhaust)
  then show ?case
  proof cases
    case deep
    then show ?thesis by (simp add: walk.simps walked_def walks_ok_def)
  next
    case cycle
    then show ?thesis using 1(2) cycle_not_shallow by (auto simp: walk.simps walked_def walks_ok_def)
  next
    case missing
    then show ?thesis by (simp add: walk.simps walked_def walks_ok_def shallow_missing)
  next
    case leaf
    then show ?thesis using found_add [OF 1(3) leaf(3)]
      by (auto simp: walk.simps walked_def walks_ok_def shallow_leaf leaves_of_leaf)
  next
    case members
    have e: "walk router nodes book depth path name (seen, out) =
        walk_members router nodes book (depth + 1) (path @ [name]) ms (seen, out)"
      using members by (simp add: walk.simps)
    have "\<forall>p\<in>set (path @ [name]). \<forall>m\<in>set ms. (p, m) \<in> (member_rel nodes)\<^sup>+"
      using 1(2) members(3) by (auto intro: trancl_into_trancl)
    from 1(1) [OF members(1,2,3) refl this 1(3)] show ?thesis
      unfolding e walked_def leaves_of_set [OF members(3)] using members walks_ok_set [OF members(3)]
      by (auto simp: leaves_of_set [OF members(3)] split: sum.splits)
  qed
next
  case (2 router nodes book depth path st)
  then show ?case by (simp add: walk_members.simps walked_def)
next
  case (3 router nodes book depth path m ms st)
  have w: "walked nodes (walks_ok nodes depth m) {m} st (walk router nodes book depth path m st)"
    using 3 by auto
  show ?case
  proof (cases "walk router nodes book depth path m st")
    case (Inl e)
    then show ?thesis using w by (simp add: walk_members.simps walked_def)
  next
    case (Inr st')
    then have s: "found nodes st'" "walks_ok nodes depth m" "set (snd st') = set (snd st) \<union> leaves_of nodes m"
      using w by (simp_all add: walked_def)
    have "walked nodes (\<forall>m\<in>set ms. walks_ok nodes depth m) (set ms) st'
        (walk_members router nodes book depth path ms st')"
      using 3(2) [OF _ s(1)] 3(3) by simp
    then show ?thesis using s Inr
      by (auto simp: walk_members.simps walked_def split: sum.splits)
  qed
qed

lemma resolve_walked:
  "walked nodes (shallow nodes MAX_RESOLUTION_DEPTH root) {root} ({}, []) (walk router nodes book 0 [] root ({}, []))"
  using walk_spec(1) [of "[]" root nodes "({}, [])" 0 router book] by (simp add: found_def walks_ok_def)

lemma resolve_ok:
  assumes "resolve router nodes root book cap = Inr (leaves, truncated)"
  shows "\<exists>all. set all = leaves_of nodes root \<and> distinct (map fst all) \<and> leaves = take cap all
    \<and> truncated = (cap < length all)"
proof -
  obtain seen out where w: "walk router nodes book 0 [] root ({}, []) = Inr (seen, out)"
    and o: "leaves = take cap out" "truncated = (cap < length out)"
    using assms by (auto simp: resolve_def and_then_eq_Inr)
  from resolve_walked [of nodes root router book] show ?thesis
    by (intro exI [of _ out]) (simp add: w o walked_def found_def)
qed

text \<open>
  C16. Flattening a name succeeds exactly when every name its member chains reach is defined and no chain is longer
  than sixteen members (so no set contains itself, however indirectly); the leaves found are then exactly the leaves
  those chains end in, each name once, cut at the cap, and the flag tells whether the cap cut any.
\<close>

theorem resolve_is_reachability:
  "case resolve router nodes root book cap of
     Inl _ \<Rightarrow> \<not> shallow nodes MAX_RESOLUTION_DEPTH root
   | Inr (leaves, truncated) \<Rightarrow> shallow nodes MAX_RESOLUTION_DEPTH root
       \<and> (\<exists>all. set all = leaves_of nodes root \<and> distinct (map fst all) \<and> leaves = take cap all
            \<and> truncated = (cap < length all))"
proof (cases "resolve router nodes root book cap")
  case (Inl e)
  then show ?thesis using resolve_walked [of nodes root router book]
    by (auto simp: resolve_def and_then_eq_Inl walked_def)
next
  case (Inr p)
  then have "shallow nodes MAX_RESOLUTION_DEPTH root" using resolve_walked [of nodes root router book]
    by (auto simp: resolve_def and_then_eq_Inr walked_def)
  with Inr show ?thesis using resolve_ok [of router nodes root book cap "fst p" "snd p"] by (simp add: case_prod_beta)
qed

section \<open>Why it fails\<close>

definition names_true_fault :: "'l node_map \<Rightarrow> string \<Rightarrow> string \<Rightarrow> string \<Rightarrow> srx_error \<Rightarrow> bool" where
  "names_true_fault nodes router book root e \<longleftrightarrow>
     (\<exists>n. (root, n) \<in> (member_rel nodes)\<^sup>* \<and>
        (e = ResolutionNameNotFound router n book \<and> map_of nodes n = None
         \<or> (\<exists>chain. e = ResolutionCycle router n (str_join '' -> '' chain) \<and> (n, n) \<in> (member_rel nodes)\<^sup>+
              \<and> hd chain = n \<and> last chain = n)
         \<or> e = ResolutionDepthExceeded router n MAX_RESOLUTION_DEPTH \<and> (root, n) \<in> member_rel nodes ^^ Suc MAX_RESOLUTION_DEPTH))"

lemma cycle_chain_ends: "name \<in> set path \<Longrightarrow> hd (cycle_chain path name) = name \<and> last (cycle_chain path name) = name"
  by (induction path) (auto simp: cycle_chain_def)

lemma walk_fault:
  "depth \<le> Suc MAX_RESOLUTION_DEPTH \<Longrightarrow> (root, name) \<in> member_rel nodes ^^ depth \<Longrightarrow>
     \<forall>p\<in>set path. (p, name) \<in> (member_rel nodes)\<^sup>+ \<Longrightarrow>
     walk router nodes book depth path name st = Inl e \<Longrightarrow> names_true_fault nodes router book root e"
  "depth \<le> Suc MAX_RESOLUTION_DEPTH \<Longrightarrow> \<forall>m\<in>set ms. (root, m) \<in> member_rel nodes ^^ depth \<Longrightarrow>
     \<forall>p\<in>set path. \<forall>m\<in>set ms. (p, m) \<in> (member_rel nodes)\<^sup>+ \<Longrightarrow>
     walk_members router nodes book depth path ms st = Inl e \<Longrightarrow> names_true_fault nodes router book root e"
proof (induction router nodes book depth path name st and router nodes book depth path ms st
    rule: walk_walk_members.induct)
  case (1 router nodes book depth path name seen out)
  have rn: "(root, name) \<in> (member_rel nodes)\<^sup>*" using 1(3) by (rule relpow_imp_rtrancl)
  show ?case
  proof (cases "MAX_RESOLUTION_DEPTH < depth \<or> name \<in> set path \<or> map_of nodes name = None")
    case True
    then consider "MAX_RESOLUTION_DEPTH < depth" | "\<not> MAX_RESOLUTION_DEPTH < depth" "name \<in> set path"
      | "\<not> MAX_RESOLUTION_DEPTH < depth" "name \<notin> set path" "map_of nodes name = None" by metis
    then show ?thesis
    proof cases
      case 1
      with \<open>depth \<le> _\<close> have "depth = Suc MAX_RESOLUTION_DEPTH" by simp
      with 1 \<open>walk _ _ _ _ _ _ _ = _\<close> \<open>(root, name) \<in> _ ^^ _\<close> rn show ?thesis
        unfolding names_true_fault_def by (intro exI [of _ name]) (auto simp: walk.simps simp del: relpow.simps)
    next
      case 2
      with \<open>walk _ _ _ _ _ _ _ = _\<close> \<open>\<forall>p\<in>set path. _\<close> rn cycle_chain_ends show ?thesis
        unfolding names_true_fault_def by (intro exI [of _ name]) (auto simp: walk.simps)
    next
      case 3
      with \<open>walk _ _ _ _ _ _ _ = _\<close> rn show ?thesis
        unfolding names_true_fault_def by (intro exI [of _ name]) (auto simp: walk.simps)
    qed
  next
    case False
    then obtain nd where nd: "map_of nodes name = Some nd" by blast
    with False 1(5) obtain ms where ms: "map_of nodes name = Some (SetNode ms)"
      by (cases nd) (auto simp: walk.simps)
    have f: "\<not> MAX_RESOLUTION_DEPTH < depth" "name \<notin> set path" using False by auto
    have rm: "\<forall>m\<in>set ms. (root, m) \<in> member_rel nodes ^^ (depth + 1)" using 1(3) ms by auto
    have pm: "\<forall>p\<in>set (path @ [name]). \<forall>m\<in>set ms. (p, m) \<in> (member_rel nodes)\<^sup>+"
      using 1(4) ms by (auto intro: trancl_into_trancl)
    show ?thesis using 1(1) [OF f ms refl _ rm pm] f ms 1(5) by (auto simp: walk.simps)
  qed
next
  case (2 router nodes book depth path st)
  then show ?case by (simp add: walk_members.simps)
next
  case (3 router nodes book depth path m ms st)
  then show ?case by (cases "walk router nodes book depth path m st") (auto simp: walk_members.simps)
qed

text \<open>
  When flattening fails, the error names a name the member chains do reach, and what it says of it is true: it
  is defined nowhere, or it is its own indirect member and the printed chain runs from it to itself, or a chain of
  seventeen members leads to it.
\<close>

theorem resolve_faults_are_true:
  assumes "resolve router nodes root book cap = Inl e"
  shows "names_true_fault nodes router book root e"
proof -
  have "walk router nodes book 0 [] root ({}, []) = Inl e"
    using assms by (auto simp: resolve_def and_then_eq_Inl split: prod.splits)
  then show ?thesis by (rule walk_fault(1) [rotated 3]) simp_all
qed

theorem resolve_faults_are_true_witness:
  "names_true_fault [(''a'', SetNode [''b'']), (''b'', SetNode [''a'']::nat config_node)] ''r'' ''g'' ''a''
     (ResolutionCycle ''r'' ''a'' ''a -> b -> a'')"
proof (rule resolve_faults_are_true [where cap = 5])
  show "resolve ''r'' [(''a'', SetNode [''b'']), (''b'', SetNode [''a'']::nat config_node)] ''a'' ''g'' 5 =
      Inl (ResolutionCycle ''r'' ''a'' ''a -> b -> a'')"
    by (simp add: resolve_def walk.simps walk_members.simps cycle_chain_def MAX_RESOLUTION_DEPTH_def)
qed

section \<open>How much it walks\<close>

text \<open>
  The number of calls of the walk, on maps without faults: a set is expanded anew every time it is met, only leaves
  are remembered, and the cap is applied to what the walk returns.
\<close>

fun walk_calls :: "nat \<Rightarrow> 'l node_map \<Rightarrow> string \<Rightarrow> nat" where
  "walk_calls 0 nodes name = 1"
| "walk_calls (Suc k) nodes name =
     (case map_of nodes name of
        Some (SetNode ms) \<Rightarrow> 1 + sum_list (map (walk_calls k nodes) ms)
      | _ \<Rightarrow> 1)"

text \<open>A name with \<^verbatim>\<open>k\<close> levels of sets of \<^verbatim>\<open>b\<close> members each below it.\<close>

fun ladder :: "nat \<Rightarrow> nat \<Rightarrow> 'l node_map \<Rightarrow> string \<Rightarrow> bool" where
  "ladder b 0 nodes name \<longleftrightarrow> (\<exists>l. map_of nodes name = Some (LeafNode l))"
| "ladder b (Suc k) nodes name \<longleftrightarrow>
     (\<exists>ms. map_of nodes name = Some (SetNode ms) \<and> length ms = b \<and> list_all (ladder b k nodes) ms)"

lemma ladder_calls: "ladder b k nodes name \<Longrightarrow> k \<le> d \<Longrightarrow> b ^ k \<le> walk_calls d nodes name"
proof (induction k arbitrary: name d)
  case 0
  then show ?case by (cases d) (auto split: option.splits config_node.splits)
next
  case (Suc k)
  then obtain ms d' where ms: "map_of nodes name = Some (SetNode ms)" "length ms = b" "list_all (ladder b k nodes) ms"
    and d: "d = Suc d'" "k \<le> d'" by (cases d) auto
  have "\<forall>m\<in>set ms. b ^ k \<le> walk_calls d' nodes m" using Suc.IH ms(3) d(2) by (auto simp: list_all_iff)
  then have "length ms * b ^ k \<le> sum_list (map (walk_calls d' nodes) ms)" by (induction ms) auto
  then show ?case using ms d by simp
qed

end
