(* ===== verification/Srx_Objects.thy ===== *)
theory Srx_Objects
  imports Srx_Resolve
begin

text \<open>
  Resolving addresses and applications from the configuration: \<^verbatim>\<open>workflows/resolve_address.rs\<close> and
  \<^verbatim>\<open>workflows/resolve_application.rs\<close>, with \<^verbatim>\<open>workflows/config_fetch.rs\<close>. Reading a network prefix is
  the library's and a parameter.
\<close>

section \<open>Fetching configuration\<close>

definition get_configuration_envelope :: "string \<Rightarrow> string" where
  "get_configuration_envelope filter_inner =
     ''<get-configuration inherit='' @ [DQ] @ ''inherit'' @ [DQ] @ ''><configuration>'' @ filter_inner
     @ ''</configuration></get-configuration>''"

definition get_configuration_subtree :: "'w srx_device \<Rightarrow> string \<Rightarrow> (string, 'w) srx_m" where
  "get_configuration_subtree D filter_inner = call D (RpcXml (get_configuration_envelope filter_inner))"

text \<open>The first node that answers without an error; nodes without the configuration are passed over.\<close>

fun first_answering :: "xml_lib \<Rightarrow> re_node list \<Rightarrow> re_node option sres" where
  "first_answering X [] = Inr None"
| "first_answering X (n # ns) =
     and_then (map_err (\<lambda>e. SrxParse (''roxmltree: '' @ e)) (xl_parse X (sanitize_rustez_xml (inner_xml n)))) (\<lambda>doc.
       case rpc_error_parts doc of
         None \<Rightarrow> Inr (Some n)
       | Some (tag, msg) \<Rightarrow>
           if tag = ''not-configured'' then first_answering X ns else Inl (SrxRpc tag ''error'' msg))"

fun attribute :: "xnode \<Rightarrow> string \<Rightarrow> string option" where
  "attribute (XElem _ attrs _) k = map_of attrs k"
| "attribute _ k = None"

definition is_inactive :: "xnode \<Rightarrow> bool" where
  "is_inactive n \<longleftrightarrow> attribute n ''inactive'' = Some ''inactive''"

definition schema_mismatch :: "string \<Rightarrow> srx_error" where
  "schema_mismatch element = SchemaMismatch ''get-configuration'' element"

definition ok_or :: "'e \<Rightarrow> 'a option \<Rightarrow> 'e + 'a" where
  "ok_or e x = (case x of None \<Rightarrow> Inl e | Some a \<Rightarrow> Inr a)"

text \<open>The members a set element names; members without a name are passed over.\<close>

definition member_names :: "string \<Rightarrow> string \<Rightarrow> xnode \<Rightarrow> string list" where
  "member_names leaf_tag set_tag n =
     List.map_filter (\<lambda>m. child_text m ''name'')
       (filter (\<lambda>m. is_element m \<and> (tag_name m = leaf_tag \<or> tag_name m = set_tag)) (children n))"

section \<open>Addresses\<close>

type_synonym ip_net = "ip_addr \<times> nat"

datatype address_scope = GlobalScope | ZoneScope string string
datatype address_kind = KAddress | KAddressSet
datatype address_value = APrefix ip_net | ARange ip_addr ip_addr | AWildcard string | ADns string

record resolved_address =
  ra_name :: string
  ra_value :: address_value
  ra_active :: bool

record address_resolution =
  ar_requested :: string
  ar_scope :: address_scope
  ar_kind :: address_kind
  ar_members :: "resolved_address list"
  ar_truncated :: bool

definition DEFAULT_ADDRESS_MEMBER_CAP :: nat where "DEFAULT_ADDRESS_MEMBER_CAP = 1000"

definition ADDRESS_FILTER :: string where
  "ADDRESS_FILTER =
     ''<security><address-book/><zones><security-zone><address-book/></security-zone></zones></security>''"

definition parse_range :: "xnode \<Rightarrow> address_value sres" where
  "parse_range range_node =
     and_then (ok_or (schema_mismatch ''range-address/name'') (child_text range_node ''name'')) (\<lambda>start.
     and_then (ok_or (schema_mismatch ''range-address-upper'') (find_child ''range-address-upper'' range_node)) (\<lambda>upper.
     and_then (ok_or (schema_mismatch ''range-address-upper/name'') (child_text upper ''name'')) (\<lambda>end_txt.
     and_then (ok_or (SrxParse (''invalid range start: '' @ start)) (parse_ip start)) (\<lambda>start_ip.
     and_then (ok_or (SrxParse (''invalid range end: '' @ end_txt)) (parse_ip end_txt)) (\<lambda>end_ip.
       Inr (ARange start_ip end_ip))))))"

definition parse_address_value :: "(string \<Rightarrow> ip_net option) \<Rightarrow> xnode \<Rightarrow> address_value sres" where
  "parse_address_value parse_net addr_node =
     (case child_text addr_node ''ip-prefix'' of
        Some pre \<Rightarrow>
          and_then (ok_or (SrxParse (''invalid ip-prefix: '' @ pre)) (parse_net pre)) (\<lambda>net. Inr (APrefix net))
      | None \<Rightarrow>
     (case find_child ''range-address'' addr_node of
        Some range_node \<Rightarrow> parse_range range_node
      | None \<Rightarrow>
     (case find_child ''wildcard-address'' addr_node of
        Some wc \<Rightarrow>
          and_then (ok_or (schema_mismatch ''wildcard-address/name'') (child_text wc ''name'')) (\<lambda>a. Inr (AWildcard a))
      | None \<Rightarrow>
     (case find_child ''dns-name'' addr_node of
        Some dns \<Rightarrow> and_then (ok_or (schema_mismatch ''dns-name/name'') (child_text dns ''name'')) (\<lambda>n. Inr (ADns n))
      | None \<Rightarrow> Inl (schema_mismatch ''address value (ip-prefix|range-address|wildcard-address|dns-name)'')))))"

text \<open>The entries of a book; a later entry of the same name replaces an earlier one.\<close>

fun parse_book_entries ::
    "(string \<Rightarrow> ip_net option) \<Rightarrow> xnode list \<Rightarrow> resolved_address node_map \<Rightarrow> resolved_address node_map sres" where
  "parse_book_entries parse_net [] m = Inr m"
| "parse_book_entries parse_net (child # cs) m =
     (if tag_name child = ''address'' then
        and_then (ok_or (schema_mismatch ''address/name'') (child_text child ''name'')) (\<lambda>name.
        and_then (parse_address_value parse_net child) (\<lambda>value.
          parse_book_entries parse_net cs
            (AList.update name
              (LeafNode \<lparr>ra_name = name, ra_value = value, ra_active = \<not> is_inactive child\<rparr>) m)))
      else if tag_name child = ''address-set'' then
        and_then (ok_or (schema_mismatch ''address-set/name'') (child_text child ''name'')) (\<lambda>name.
          parse_book_entries parse_net cs
            (AList.update name (SetNode (member_names ''address'' ''address-set'' child)) m))
      else parse_book_entries parse_net cs m)"

definition parse_address_book :: "(string \<Rightarrow> ip_net option) \<Rightarrow> xnode \<Rightarrow> resolved_address node_map sres" where
  "parse_address_book parse_net book = parse_book_entries parse_net (filter is_element (children book)) []"

record address_books =
  bk_global :: "resolved_address node_map"
  bk_zone_inline :: "(string \<times> resolved_address node_map) list"
  bk_named_books :: "(string \<times> resolved_address node_map) list"
  bk_attach :: "(string \<times> string) list"

definition resolve_zone :: "address_books \<Rightarrow> string \<Rightarrow> (string \<times> resolved_address node_map) option" where
  "resolve_zone B zone =
     (case map_of (bk_zone_inline B) zone of
        Some m \<Rightarrow> Some (zone @ '' (zone-inline)'', m)
      | None \<Rightarrow>
     (case Option.bind (map_of (bk_attach B) zone)
             (\<lambda>book_name. map_option (\<lambda>m. (book_name, m)) (map_of (bk_named_books B) book_name)) of
        Some r \<Rightarrow> Some r
      | None \<Rightarrow> if bk_global B \<noteq> [] then Some (''global'', bk_global B) else None))"

text \<open>The zones an \<^verbatim>\<open>attach\<close> stanza of the book names.\<close>

definition attach_zones :: "xnode \<Rightarrow> string list" where
  "attach_zones book =
     concat (map (\<lambda>at. List.map_filter (\<lambda>z. map_option str_trim (node_text z)) (filter (named ''zone'') (children at)))
       (filter (named ''attach'') (children book)))"

definition extend_map :: "('a \<times> 'b) list \<Rightarrow> ('a \<times> 'b) list \<Rightarrow> ('a \<times> 'b) list" where
  "extend_map m new = foldl (\<lambda>acc (k, v). AList.update k v acc) m new"

fun parse_books :: "(string \<Rightarrow> ip_net option) \<Rightarrow> xnode list \<Rightarrow> address_books \<Rightarrow> address_books sres" where
  "parse_books parse_net [] B = Inr B"
| "parse_books parse_net (book # bs) B =
     (let book_name = opt_str (child_text book ''name'') in
      if book_name = ''global'' \<or> book_name = [] then
        and_then (parse_address_book parse_net book) (\<lambda>m.
          parse_books parse_net bs (B\<lparr>bk_global := extend_map (bk_global B) m\<rparr>))
      else
        (let B' = B\<lparr>bk_attach := foldl (\<lambda>a z. AList.update z book_name a) (bk_attach B) (attach_zones book)\<rparr> in
         and_then (parse_address_book parse_net book) (\<lambda>m.
           parse_books parse_net bs (B'\<lparr>bk_named_books := AList.update book_name m (bk_named_books B')\<rparr>))))"

fun parse_zones :: "(string \<Rightarrow> ip_net option) \<Rightarrow> xnode list \<Rightarrow> address_books \<Rightarrow> address_books sres" where
  "parse_zones parse_net [] B = Inr B"
| "parse_zones parse_net (z # zs) B =
     and_then (ok_or (schema_mismatch ''security-zone/name'') (child_text z ''name'')) (\<lambda>zone_name.
       case find_child ''address-book'' z of
         None \<Rightarrow> parse_zones parse_net zs B
       | Some book \<Rightarrow>
           and_then (parse_address_book parse_net book) (\<lambda>m.
             parse_zones parse_net zs (B\<lparr>bk_zone_inline := AList.update zone_name m (bk_zone_inline B)\<rparr>)))"

definition no_books :: address_books where
  "no_books = \<lparr>bk_global = [], bk_zone_inline = [], bk_named_books = [], bk_attach = []\<rparr>"

definition parse_address_books :: "xml_lib \<Rightarrow> (string \<Rightarrow> ip_net option) \<Rightarrow> string \<Rightarrow> address_books sres" where
  "parse_address_books X parse_net config_xml =
     and_then (map_err (\<lambda>e. SrxParse (''roxmltree: '' @ e)) (xl_parse X (sanitize_rustez_xml config_xml))) (\<lambda>doc.
     and_then (parse_books parse_net
         (concat (map (\<lambda>s. filter (named ''address-book'') (children s)) (filter (named ''security'') (descendants doc))))
         no_books) (\<lambda>B.
       parse_zones parse_net (filter (named ''security-zone'') (descendants doc)) B))"

text \<open>Where the name is looked up: the book's entries, the scope reported and the label of the error.\<close>

definition choose_book ::
    "address_books \<Rightarrow> string \<Rightarrow> string option
       \<Rightarrow> string + (resolved_address node_map \<times> address_scope \<times> string)" where
  "choose_book B name zone =
     (case zone of
        Some z \<Rightarrow>
          (case resolve_zone B z of
             Some (book_name, m) \<Rightarrow>
               if map_of m name = None \<and> map_of (bk_global B) name \<noteq> None
               then Inr (bk_global B, ZoneScope z ''global'', ''global address-book (zone '' @ [SQ] @ z @ [SQ] @ '')'')
               else Inr (m, ZoneScope z book_name,
                 ''address-book '' @ [SQ] @ book_name @ [SQ] @ '' (zone '' @ [SQ] @ z @ [SQ] @ '')'')
           | None \<Rightarrow> Inl (''zone '' @ [SQ] @ z @ [SQ] @ '' has no address-book configured (no inline book, no book ''
               @ ''attached to it, and no global book)''))
      | None \<Rightarrow>
          if bk_global B = [] then Inl ''no global address-book configured''
          else Inr (bk_global B, GlobalScope, ''global address-book''))"

definition answer_from_books ::
    "string \<Rightarrow> string \<Rightarrow> string option \<Rightarrow> address_books \<Rightarrow> address_resolution srx_response sres" where
  "answer_from_books router name zone books =
     (case choose_book books name zone of
        Inl reason \<Rightarrow> Inr (not_configured reason)
      | Inr (m, scope, book_label) \<Rightarrow>
          (case map_of m name of
             None \<Rightarrow> Inl (ResolutionNameNotFound router name book_label)
           | Some nd \<Rightarrow>
               and_then (resolve router m name book_label DEFAULT_ADDRESS_MEMBER_CAP) (\<lambda>(leaves, truncated).
                 Inr (active \<lparr>ar_requested = name, ar_scope = scope,
                   ar_kind = (case nd of LeafNode _ \<Rightarrow> KAddress | SetNode _ \<Rightarrow> KAddressSet),
                   ar_members = map snd leaves, ar_truncated = truncated\<rparr>))))"

definition parse_address ::
    "xml_lib \<Rightarrow> (string \<Rightarrow> ip_net option) \<Rightarrow> string \<Rightarrow> string \<Rightarrow> string option \<Rightarrow> string
       \<Rightarrow> address_resolution srx_response sres" where
  "parse_address X parse_net router name zone reply_xml =
     and_then (multi_re_split X reply_xml) (\<lambda>re_nodes.
     and_then (first_answering X re_nodes) (\<lambda>node.
       case node of
         None \<Rightarrow> Inr (not_configured ''no node returned address-book configuration without an error'')
       | Some n \<Rightarrow>
           and_then (parse_address_books X parse_net (inner_xml n)) (answer_from_books router name zone)))"

definition check_names :: "string \<Rightarrow> string \<Rightarrow> unit sres" where
  "check_names router name =
     (if str_trim router = [] then Inl (InvalidInput ''router must not be empty'')
      else if str_trim name = [] then Inl (InvalidInput ''name must not be empty'')
      else Inr ())"

definition run_resolve_address ::
    "'w srx_device \<Rightarrow> xml_lib \<Rightarrow> (string \<Rightarrow> ip_net option) \<Rightarrow> string \<Rightarrow> string \<Rightarrow> string option \<Rightarrow> bool
       \<Rightarrow> (address_resolution srx_response, 'w) srx_m" where
  "run_resolve_address D X parse_net router name zone include_raw =
     sx_bind (sx_ret (check_names router name)) (\<lambda>_.
     sx_bind (open_rpc D) (\<lambda>_.
     sx_bind (get_configuration_subtree D ADDRESS_FILTER) (\<lambda>reply.
     sx_bind (sx_ret (parse_address X parse_net router name zone reply)) (\<lambda>parsed.
       sx_ret (Inr (if include_raw then with_raw reply parsed else parsed))))))"

section \<open>Applications\<close>

datatype application_kind = KApplication | KApplicationSet

record port_range =
  pr_low :: u16
  pr_high :: u16

datatype port_spec = PNumeric port_range | PNamed string
datatype application_source = FromDevice | BuiltinTable

record resolved_application =
  rp_name :: string
  rp_protocol :: string
  rp_source_port :: "port_spec option"
  rp_destination_port :: "port_spec option"
  rp_inactivity_timeout :: "u32 option"
  rp_icmp_type :: "8 word option"
  rp_icmp_code :: "8 word option"
  rp_active :: bool
  rp_source :: application_source

record application_resolution =
  ap_requested :: string
  ap_kind :: application_kind
  ap_members :: "resolved_application list"
  ap_truncated :: bool

datatype application_leaf = DeviceLeaf xnode | StaticLeaf resolved_application

definition DEFAULT_APPLICATION_MEMBER_CAP :: nat where "DEFAULT_APPLICATION_MEMBER_CAP = 200"

definition APPLICATION_FILTER :: string where
  "APPLICATION_FILTER = ''<applications/><groups><name>junos-defaults</name><applications/></groups>''"

definition static_entry :: "string \<Rightarrow> string \<Rightarrow> u16 option \<Rightarrow> string \<times> application_leaf config_node" where
  "static_entry name proto p =
     (name, LeafNode (StaticLeaf \<lparr>rp_name = name, rp_protocol = proto, rp_source_port = None,
        rp_destination_port = map_option (\<lambda>n. PNumeric \<lparr>pr_low = n, pr_high = n\<rparr>) p,
        rp_inactivity_timeout = None, rp_icmp_type = None, rp_icmp_code = None, rp_active = True,
        rp_source = BuiltinTable\<rparr>))"

definition static_junos_defaults :: "application_leaf node_map" where
  "static_junos_defaults =
     [static_entry ''junos-http'' ''tcp'' (Some 80), static_entry ''junos-https'' ''tcp'' (Some 443),
      static_entry ''junos-ftp'' ''tcp'' (Some 21), static_entry ''junos-ssh'' ''tcp'' (Some 22),
      static_entry ''junos-smtp'' ''tcp'' (Some 25), static_entry ''junos-dns-udp'' ''udp'' (Some 53),
      static_entry ''junos-icmp-ping'' ''icmp'' None]"

definition parse_port_spec :: "string \<Rightarrow> port_spec" where
  "parse_port_spec txt =
     (case Option.bind (find_char (CHR ''-'') txt) (\<lambda>i.
             Option.bind (parse_uint (str_trim (take i txt))) (\<lambda>low.
               map_option (\<lambda>high. \<lparr>pr_low = low, pr_high = high\<rparr>) (parse_uint (str_trim (drop (Suc i) txt))))) of
        Some r \<Rightarrow> PNumeric r
      | None \<Rightarrow>
          (case parse_uint (str_trim txt) of
             Some p \<Rightarrow> PNumeric \<lparr>pr_low = p, pr_high = p\<rparr>
           | None \<Rightarrow> PNamed (str_trim txt)))"

definition KNOWN_APPLICATION_CHILDREN :: "string list" where
  "KNOWN_APPLICATION_CHILDREN =
     [''name'', ''description'', ''protocol'', ''source-port'', ''destination-port'', ''inactivity-timeout'',
      ''icmp-type'', ''icmp-code'', ''icmp6-type'', ''icmp6-code'']"

definition reject_unknown_children :: "xnode \<Rightarrow> string list \<Rightarrow> unit sres" where
  "reject_unknown_children node extra_allowed =
     (case find (\<lambda>c. tag_name c \<notin> set KNOWN_APPLICATION_CHILDREN \<and> tag_name c \<notin> set extra_allowed)
             (filter is_element (children node)) of
        Some c \<Rightarrow> Inl (SrxParse (''unrecognised application child <'' @ tag_name c
          @ ''>: refusing to report this application rather than silently drop a match criterion''))
      | None \<Rightarrow> Inr ())"

definition parse_icmp_field :: "xnode \<Rightarrow> string \<Rightarrow> string \<Rightarrow> 8 word option sres" where
  "parse_icmp_field node v4_tag v6_tag =
     (let num = (\<lambda>t. case parse_uint t of
            Some n \<Rightarrow> Inr (Some n) | None \<Rightarrow> Inl (SrxParse (''invalid '' @ v4_tag @ ''/'' @ v6_tag @ '': '' @ t)))
      in case (child_text node v4_tag, child_text node v6_tag) of
           (Some _, Some _) \<Rightarrow> Inl (SrxParse (''application has both <'' @ v4_tag @ ''> and <'' @ v6_tag @ ''>''))
         | (Some t, None) \<Rightarrow> num t
         | (None, Some t) \<Rightarrow> num t
         | (None, None) \<Rightarrow> Inr None)"

text \<open>The match fields of an application or of one of its terms, under the name and activity it is reported with.\<close>

definition parse_application_fields :: "string \<Rightarrow> bool \<Rightarrow> xnode \<Rightarrow> resolved_application sres" where
  "parse_application_fields name act node =
     and_then (reject_unknown_children node []) (\<lambda>_.
     and_then (ok_or (schema_mismatch ''application/protocol'') (child_text node ''protocol'')) (\<lambda>proto.
     and_then (case child_text node ''inactivity-timeout'' of
                 None \<Rightarrow> Inr None
               | Some t \<Rightarrow> (case parse_uint t of
                     Some n \<Rightarrow> Inr (Some n) | None \<Rightarrow> Inl (SrxParse (''invalid inactivity-timeout: '' @ t)))) (\<lambda>timeout.
     and_then (parse_icmp_field node ''icmp-type'' ''icmp6-type'') (\<lambda>icmp_type.
     and_then (parse_icmp_field node ''icmp-code'' ''icmp6-code'') (\<lambda>icmp_code.
       Inr \<lparr>rp_name = name, rp_protocol = proto,
         rp_source_port = map_option parse_port_spec (child_text node ''source-port''),
         rp_destination_port = map_option parse_port_spec (child_text node ''destination-port''),
         rp_inactivity_timeout = timeout, rp_icmp_type = icmp_type, rp_icmp_code = icmp_code,
         rp_active = act, rp_source = FromDevice\<rparr>)))))"

definition parse_term :: "string \<Rightarrow> bool \<Rightarrow> xnode \<Rightarrow> resolved_application sres" where
  "parse_term name app_active t =
     and_then (ok_or (schema_mismatch ''application/term/name'') (child_text t ''name'')) (\<lambda>term_name.
       parse_application_fields (name @ ''#'' @ term_name) (app_active \<and> \<not> is_inactive t) t)"

definition parse_application_node :: "xnode \<Rightarrow> resolved_application list sres" where
  "parse_application_node app_node =
     and_then (ok_or (schema_mismatch ''application/name'') (child_text app_node ''name'')) (\<lambda>name.
       let app_active = \<not> is_inactive app_node; terms = filter (named ''term'') (children app_node) in
       if terms = [] then
         and_then (parse_application_fields name app_active app_node) (\<lambda>a. Inr [a])
       else
         (case find (\<lambda>c. tag_name c \<notin> {''name'', ''description'', ''term''}) (filter is_element (children app_node)) of
            Some c \<Rightarrow> Inl (SrxParse (''unrecognised child <'' @ tag_name c @ ''> beside <term> in application ''
              @ [SQ] @ name @ [SQ]))
          | None \<Rightarrow> try_map (parse_term name app_active) terms))"

fun collect_entries :: "xnode list \<Rightarrow> application_leaf node_map \<Rightarrow> application_leaf node_map sres" where
  "collect_entries [] m = Inr m"
| "collect_entries (child # cs) m =
     (if tag_name child = ''application'' then
        and_then (ok_or (schema_mismatch ''application/name'') (child_text child ''name'')) (\<lambda>name.
          collect_entries cs (AList.update name (LeafNode (DeviceLeaf child)) m))
      else if tag_name child = ''application-set'' then
        and_then (ok_or (schema_mismatch ''application-set/name'') (child_text child ''name'')) (\<lambda>name.
          collect_entries cs (AList.update name (SetNode (member_names ''application'' ''application-set'' child)) m))
      else collect_entries cs m)"

fun collect_containers :: "xnode list \<Rightarrow> application_leaf node_map \<Rightarrow> application_leaf node_map sres" where
  "collect_containers [] m = Inr m"
| "collect_containers (c # cs) m =
     and_then (collect_entries (filter is_element (children c)) m) (collect_containers cs)"

definition is_junos_defaults :: "xnode \<Rightarrow> bool" where
  "is_junos_defaults g \<longleftrightarrow> child_text g ''name'' = Some ''junos-defaults''"

definition collect_applications :: "xnode \<Rightarrow> application_leaf node_map \<Rightarrow> application_leaf node_map sres" where
  "collect_applications doc m =
     and_then (collect_containers (filter (named ''applications'') (descendants doc)) m)
       (collect_containers
         (concat (map (\<lambda>g. filter (named ''applications'') (children g))
           (filter is_junos_defaults (filter (named ''groups'') (descendants doc))))))"

text \<open>The fallback is laid under what the device gave.\<close>

definition with_defaults :: "application_leaf node_map \<Rightarrow> application_leaf node_map" where
  "with_defaults m = foldl (\<lambda>acc (k, v). if map_of acc k = None then AList.update k v acc else acc) m static_junos_defaults"

fun application_members :: "application_leaf list \<Rightarrow> resolved_application list sres" where
  "application_members [] = Inr []"
| "application_members (StaticLeaf a # ls) = and_then (application_members ls) (\<lambda>r. Inr (a # r))"
| "application_members (DeviceLeaf n # ls) =
     and_then (parse_application_node n) (\<lambda>as. and_then (application_members ls) (\<lambda>r. Inr (as @ r)))"

definition resolve_application :: "string \<Rightarrow> string \<Rightarrow> application_leaf node_map \<Rightarrow> application_resolution sres" where
  "resolve_application router name m =
     (case map_of m name of
        None \<Rightarrow> Inl (ResolutionNameNotFound router name ''applications'')
      | Some nd \<Rightarrow>
          and_then (resolve router m name ''applications'' DEFAULT_APPLICATION_MEMBER_CAP) (\<lambda>(leaves, truncated).
          and_then (application_members (map snd leaves)) (\<lambda>members.
            Inr \<lparr>ap_requested = name,
              ap_kind = (case nd of LeafNode _ \<Rightarrow> KApplication | SetNode _ \<Rightarrow> KApplicationSet),
              ap_members = members, ap_truncated = truncated\<rparr>)))"

definition parse_application ::
    "xml_lib \<Rightarrow> string \<Rightarrow> string \<Rightarrow> string \<Rightarrow> application_resolution srx_response sres" where
  "parse_application X router name reply_xml =
     and_then (multi_re_split X reply_xml) (\<lambda>re_nodes.
     and_then (first_answering X re_nodes) (\<lambda>node.
       case node of
         None \<Rightarrow> Inr (not_configured ''no node returned applications configuration without an error'')
       | Some n \<Rightarrow>
           and_then (map_err (\<lambda>e. SrxParse (''roxmltree: '' @ e)) (xl_parse X (sanitize_rustez_xml (inner_xml n)))) (\<lambda>doc.
           and_then (collect_applications doc []) (\<lambda>m.
           and_then (resolve_application router name (with_defaults m)) (\<lambda>r. Inr (active r))))))"

definition run_resolve_application ::
    "'w srx_device \<Rightarrow> xml_lib \<Rightarrow> string \<Rightarrow> string \<Rightarrow> bool \<Rightarrow> (application_resolution srx_response, 'w) srx_m" where
  "run_resolve_application D X router name include_raw =
     sx_bind (sx_ret (check_names router name)) (\<lambda>_.
     sx_bind (open_rpc D) (\<lambda>_.
     sx_bind (get_configuration_subtree D APPLICATION_FILTER) (\<lambda>reply.
     sx_bind (sx_ret (parse_application X router name reply)) (\<lambda>parsed.
       sx_ret (Inr (if include_raw then with_raw reply parsed else parsed))))))"

section \<open>Lookups are local\<close>

lemma walk_agree:
  "\<forall>y. (name, y) \<in> (member_rel nodes)\<^sup>* \<longrightarrow> map_of nodes' y = map_of nodes y \<Longrightarrow>
     walk router nodes' book depth path name st = walk router nodes book depth path name st"
  "\<forall>m\<in>set ms. \<forall>y. (m, y) \<in> (member_rel nodes)\<^sup>* \<longrightarrow> map_of nodes' y = map_of nodes y \<Longrightarrow>
     walk_members router nodes' book depth path ms st = walk_members router nodes book depth path ms st"
proof (induction router nodes book depth path name st and router nodes book depth path ms st
    rule: walk_walk_members.induct)
  case (1 router nodes book depth path name seen out)
  have e: "map_of nodes' name = map_of nodes name" using 1(2) by simp
  have "walk_members router nodes' book (depth + 1) (path @ [name]) ms (seen, out) =
      walk_members router nodes book (depth + 1) (path @ [name]) ms (seen, out)"
    if "\<not> MAX_RESOLUTION_DEPTH < depth" "name \<notin> set path" "map_of nodes name = Some (SetNode ms)" for ms
  proof (rule 1(1) [OF that(1,2,3) refl])
    show "\<forall>m\<in>set ms. \<forall>y. (m, y) \<in> (member_rel nodes)\<^sup>* \<longrightarrow> map_of nodes' y = map_of nodes y"
      using 1(2) that(3) by (meson converse_rtrancl_into_rtrancl member_rel_set)
  qed
  then show ?case by (simp add: walk.simps e split: option.splits config_node.splits)
next
  case (2 router nodes book depth path st)
  show ?case by (simp add: walk_members.simps)
next
  case (3 router nodes book depth path m ms st)
  then show ?case by (cases "walk router nodes book depth path m st") (simp_all add: walk_members.simps)
qed

text \<open>
  An application lookup depends on nothing but the entries its member chains reach: two configurations that
  agree on those give the same answer, whatever else they hold, applications that cannot be read included.
\<close>

theorem application_lookup_is_local:
  assumes "\<forall>y. (name, y) \<in> (member_rel m)\<^sup>* \<longrightarrow> map_of m' y = map_of m y"
  shows "resolve_application router name m' = resolve_application router name m"
proof -
  have "map_of m' name = map_of m name" using assms by simp
  moreover have "resolve router m' name book cap = resolve router m name book cap" for book cap
    by (simp add: resolve_def walk_agree(1) [OF assms])
  ultimately show ?thesis by (simp add: resolve_application_def cong: option.case_cong)
qed

theorem application_lookup_is_local_witness:
  "resolve_application ''r'' ''web'' [(''web'', SetNode []), (''odd'', LeafNode (DeviceLeaf (XElem ''application'' [] [])))] =
     resolve_application ''r'' ''web'' [(''web'', SetNode [])]"
proof (rule application_lookup_is_local)
  show "\<forall>y. (''web'', y) \<in> (member_rel [(''web'', SetNode [] :: application_leaf config_node)])\<^sup>* \<longrightarrow>
      map_of [(''web'', SetNode []), (''odd'', LeafNode (DeviceLeaf (XElem ''application'' [] [])))] y =
      map_of [(''web'', SetNode [] :: application_leaf config_node)] y"
    by (auto elim: converse_rtranclE)
qed

section \<open>Nothing is dropped\<close>

definition known_children :: "string list \<Rightarrow> xnode \<Rightarrow> bool" where
  "known_children allowed n \<longleftrightarrow> list_all (\<lambda>c. is_element c \<longrightarrow> tag_name c \<in> set allowed) (children n)"

lemma reject_unknown_children_Inr:
  "reject_unknown_children n [] = Inr u \<Longrightarrow> known_children KNOWN_APPLICATION_CHILDREN n"
  by (auto simp: reject_unknown_children_def known_children_def list_all_iff find_None_iff split: option.splits)

lemma parse_application_fields_known:
  "parse_application_fields name act n = Inr a \<Longrightarrow>
     known_children KNOWN_APPLICATION_CHILDREN n \<and> rp_active a = act \<and> rp_name a = name"
  by (auto simp: parse_application_fields_def and_then_eq_Inr dest: reject_unknown_children_Inr)

text \<open>
  C35. An application that is reported has no criterion the report leaves out: every element of it, or of each of its
  terms, is one the reader knows, each term gives exactly one entry, and an entry is active exactly when neither the
  application nor its term is deactivated.
\<close>

theorem reported_application_is_complete:
  assumes "parse_application_node n = Inr as"
  shows "if filter (named ''term'') (children n) = []
    then known_children KNOWN_APPLICATION_CHILDREN n \<and> length as = 1 \<and> rp_active (hd as) = (\<not> is_inactive n)
    else known_children [''name'', ''description'', ''term''] n
      \<and> list_all2 (\<lambda>t a. known_children KNOWN_APPLICATION_CHILDREN t \<and> rp_active a = (\<not> is_inactive n \<and> \<not> is_inactive t))
          (filter (named ''term'') (children n)) as"
proof (cases "filter (named ''term'') (children n) = []")
  case True
  then show ?thesis using assms
    by (auto simp: parse_application_node_def and_then_eq_Inr dest: parse_application_fields_known)
next
  case False
  then obtain name where
    none: "find (\<lambda>c. tag_name c \<notin> {''name'', ''description'', ''term''}) (filter is_element (children n)) = None"
    and tm: "try_map (parse_term name (\<not> is_inactive n)) (filter (named ''term'') (children n)) = Inr as"
    using assms by (auto simp: parse_application_node_def and_then_eq_Inr Let_def split: option.splits)
  from none have "known_children [''name'', ''description'', ''term''] n"
    by (auto simp: known_children_def list_all_iff find_None_iff)
  moreover have "list_all2 (\<lambda>t a. known_children KNOWN_APPLICATION_CHILDREN t
      \<and> rp_active a = (\<not> is_inactive n \<and> \<not> is_inactive t)) (filter (named ''term'') (children n)) as"
    using tm unfolding try_map_Inr_iff
    by (rule list_all2_mono) (auto simp: parse_term_def and_then_eq_Inr dest: parse_application_fields_known)
  ultimately show ?thesis using False by simp
qed

theorem reported_application_is_complete_witness:
  "known_children KNOWN_APPLICATION_CHILDREN
     (XElem ''application'' [] [XElem ''name'' [] [XText ''web''], XElem ''protocol'' [] [XText ''tcp'']])"
proof -
  let ?n = "XElem ''application'' [] [XElem ''name'' [] [XText ''web''], XElem ''protocol'' [] [XText ''tcp'']]"
  have "is_ok (parse_application_node ?n)" by code_simp
  then obtain as where "parse_application_node ?n = Inr as" by (auto simp: is_ok_iff)
  from reported_application_is_complete [OF this] show ?thesis by (simp add: named_def)
qed

section \<open>Books\<close>






















end
