(* ===== verification/Srx_Read.thy ===== *)
theory Srx_Read
  imports Srx_Objects
begin

text \<open>
  What the read-only SRX workflows share: the text of a child element, an element with its parent, the readable
  parts of a reply per routing engine, and a request whose failure is kept as a value.
\<close>

section \<open>Reading elements\<close>

text \<open>The text of the first child of that name, trimmed; an empty text counts as present.\<close>

definition child_str :: "string \<Rightarrow> xnode \<Rightarrow> string option" where
  "child_str name n = map_option str_trim (Option.bind (find_child name n) node_text)"

fun parented :: "xnode option \<Rightarrow> xnode \<Rightarrow> (xnode option \<times> xnode) list" where
  "parented p (XElem n at cs) = (p, XElem n at cs) # concat (map (parented (Some (XElem n at cs))) cs)"
| "parented p x = [(p, x)]"

lemma map_snd_parented: "map snd (parented p n) = descendants n"
proof (induction n arbitrary: p rule: descendants.induct)
  case (1 n at cs)
  then have "map (\<lambda>c. map snd (parented (Some (XElem n at cs)) c)) cs = map descendants cs" by (intro map_cong) auto
  then have "concat (map (\<lambda>c. map snd (parented (Some (XElem n at cs)) c)) cs) = concat (map descendants cs)" by (rule arg_cong)
  then show ?case by (simp add: map_concat comp_def del: map_eq_conv)
qed simp_all

definition push_new :: "'a list \<Rightarrow> 'a \<Rightarrow> 'a list" where
  "push_new acc x = (if x \<in> set acc then acc else acc @ [x])"

lemma set_foldl_push_new: "set (foldl push_new acc xs) = set acc \<union> set xs"
  by (induction xs arbitrary: acc) (auto simp: push_new_def)

lemma distinct_foldl_push_new: "distinct acc \<Longrightarrow> distinct (foldl push_new acc xs)"
  by (induction xs arbitrary: acc) (auto simp: push_new_def)

lemma try_map_elements:
  "try_map f xs = Inr ys \<Longrightarrow> (\<forall>x\<in>set xs. \<exists>y\<in>set ys. f x = Inr y) \<and> (\<forall>y\<in>set ys. \<exists>x\<in>set xs. f x = Inr y)"
proof (induction xs arbitrary: ys)
  case (Cons x xs)
  then obtain z zs where z: "f x = Inr z" "try_map f xs = Inr zs" "ys = z # zs" by (auto simp: and_then_eq_Inr)
  show ?case unfolding z(3) list.set using Cons.IH [OF z(2)] z(1) by blast
qed simp

section \<open>Replies\<close>

definition node_docs :: "xml_lib \<Rightarrow> re_node list \<Rightarrow> (string \<times> xnode) list" where
  "node_docs X nodes =
     List.map_filter (\<lambda>re. case xl_parse X (inner_xml re) of Inl _ \<Rightarrow> None | Inr doc \<Rightarrow> Some (re_name re, doc)) nodes"

text \<open>A reply that cannot be split gives nothing, and a node that cannot be parsed is passed over.\<close>

definition reply_docs :: "xml_lib \<Rightarrow> string \<Rightarrow> (string \<times> xnode) list" where
  "reply_docs X raw = (case multi_re_split X raw of Inl _ \<Rightarrow> [] | Inr nodes \<Rightarrow> node_docs X nodes)"

definition rpc_with :: "string \<Rightarrow> (string \<times> string) list \<Rightarrow> srx_request" where
  "rpc_with name args = (if args = [] then RpcCall name else RpcArgs name args)"

definition opt_arg :: "string \<Rightarrow> string option \<Rightarrow> (string \<times> string) list" where
  "opt_arg k v = (case v of None \<Rightarrow> [] | Some s \<Rightarrow> [(k, s)])"

definition try_call :: "'w srx_device \<Rightarrow> srx_request \<Rightarrow> 'w srx_run \<Rightarrow> (rustez_error + string) \<times> 'w srx_run" where
  "try_call D req s =
     (let (r, ms, w) = sd_call D req (sx_world s)
      in (r, emit (Sent req) (s\<lparr>sx_now := sx_now s + ms, sx_world := w\<rparr>)))"

lemma try_call_log: "sx_log (snd (try_call D req s)) = sx_log s @ [Sent req]"
  by (simp add: try_call_def emit_def split: prod.split)

lemma call_try_call:
  "call D req s = (let (r, s') = try_call D req s in Some (map_err (\<lambda>e. Transport (Rustez e)) r, s'))"
  by (simp add: call_def send_def try_call_def split: prod.splits)

lemma call_cases:
  obtains e s' where "call D req s = Some (Inl e, s')" "sx_log s' = sx_log s @ [Sent req]"
  | reply s' where "call D req s = Some (Inr reply, s')" "sx_log s' = sx_log s @ [Sent req]" "try_call D req s = (Inr reply, s')"
proof -
  obtain r s' where t: "try_call D req s = (r, s')" by fastforce
  have l: "sx_log s' = sx_log s @ [Sent req]" using try_call_log [of D req s] by (simp add: t)
  show ?thesis using that l t by (cases r) (simp_all add: call_try_call)
qed

lemma call_Inr: "call D req s = Some (Inr reply, s') \<longleftrightarrow> try_call D req s = (Inr reply, s')"
  by (cases "try_call D req s") (auto simp: call_try_call map_err_eq_Inr)

text \<open>The tokens the workflows accept as zone and application names.\<close>

definition token_byte :: "char \<Rightarrow> bool" where
  "token_byte b \<longleftrightarrow> is_ascii_alphanumeric b \<or> b = CHR ''.'' \<or> b = CHR ''-'' \<or> b = CHR ''_''"

definition check_port :: "string \<Rightarrow> u32 \<Rightarrow> u16 sres" where
  "check_port field p = (if p < 65536 then Inr (ucast p) else Inl (InvalidInput (field @ '' must be 0-65535'')))"

section \<open>Pages\<close>

text \<open>
  A page of a list: the elements from \<^verbatim>\<open>offset\<close>, at most \<^verbatim>\<open>limit\<close> of them, whether there are any after it, and the
  length of the list in 32 bits.
\<close>

definition page :: "u32 \<Rightarrow> u32 \<Rightarrow> 'a list \<Rightarrow> 'a list \<times> bool \<times> u32" where
  "page offset limit xs =
     (let total = word_of_nat (length xs) :: u32;
          start = unat (min offset total);
          stop = min (start + unat limit) (length xs)
      in (take (stop - start) (drop start xs), (word_of_nat stop :: u32) < total, total))"

lemma unat_min: "unat (min a b) = min (unat a) (unat b)" for a b :: u32
  by (simp add: min_def word_le_nat_alt)

lemma page_eq:
  assumes "length xs < 2 ^ 32"
  shows "page offset limit xs =
    (take (unat limit) (drop (unat offset) xs), unat offset + unat limit < length xs, word_of_nat (length xs))"
proof -
  have l: "unat (word_of_nat (length xs) :: u32) = length xs" using assms by (simp add: unat_of_nat take_bit_nat_eq_self)
  let ?start = "min (unat offset) (length xs)"
  let ?stop = "min (?start + unat limit) (length xs)"
  have t: "unat (word_of_nat ?stop :: u32) = ?stop" using assms by (simp add: unat_of_nat take_bit_nat_eq_self)
  have "(word_of_nat ?stop :: u32) < word_of_nat (length xs) \<longleftrightarrow> unat offset + unat limit < length xs"
    unfolding word_less_nat_alt l t by auto
  moreover have "take (?stop - ?start) (drop ?start xs) = take (unat limit) (drop (unat offset) xs)"
    by (cases "unat offset \<le> length xs"; cases "unat offset + unat limit \<le> length xs") auto
  ultimately show ?thesis by (simp add: page_def Let_def unat_min l)
qed

text \<open>Pages of the same size, read until one says there is nothing after it.\<close>

fun read_pages :: "nat \<Rightarrow> u32 \<Rightarrow> u32 \<Rightarrow> 'a list \<Rightarrow> 'a list option" where
  "read_pages 0 offset limit xs = None"
| "read_pages (Suc fuel) offset limit xs =
     (case page offset limit xs of
        (p, further, _) \<Rightarrow> if further then map_option (\<lambda>r. p @ r) (read_pages fuel (offset + limit) limit xs) else Some p)"

lemma read_pages_suffix:
  assumes "length xs < 2 ^ 32" "0 < limit" "length xs \<le> unat offset + fuel" "0 < fuel"
  shows "read_pages fuel offset limit xs = Some (drop (unat offset) xs)"
  using assms(3,4)
proof (induction fuel arbitrary: offset)
  case (Suc fuel)
  have lp: "0 < unat limit" using assms(2) by (simp add: word_less_nat_alt)
  show ?case
  proof (cases "unat offset + unat limit < length xs")
    case False
    then show ?thesis by (simp add: page_eq [OF assms(1)])
  next
    case True
    have o: "unat (offset + limit) = unat offset + unat limit" using True assms(1) by (simp add: unat_word_ariths)
    have "fuel \<noteq> 0" using Suc.prems(1) True lp by (intro notI) simp
    then have "read_pages fuel (offset + limit) limit xs = Some (drop (unat offset + unat limit) xs)"
      using Suc.IH [of "offset + limit"] Suc.prems(1) lp by (simp add: o)
    moreover have "take (unat limit) (drop (unat offset) xs) @ drop (unat offset + unat limit) xs = drop (unat offset) xs"
      by (metis append_take_drop_id drop_drop add.commute)
    ultimately show ?thesis using True by (simp add: page_eq [OF assms(1)])
  qed
qed simp

text \<open>Reading a list page by page gives the list, for any page size but zero.\<close>

lemma pages_give_the_list:
  "length xs < 2 ^ 32 \<Longrightarrow> 0 < limit \<Longrightarrow> read_pages (Suc (length xs)) 0 limit xs = Some xs"
  using read_pages_suffix [of xs limit 0 "Suc (length xs)"] by simp

end
