(* ===== verification/Srx_Flow.thy ===== *)
theory Srx_Flow
  imports Srx_Read
begin

text \<open>
  Querying the session table: \<^verbatim>\<open>workflows/flow_sessions.rs\<close>. The filter is checked before anything is sent, the
  device is asked for a count first, and the sessions are asked for only when the count is within the cap.
\<close>

section \<open>Data\<close>

definition DEFAULT_CAP :: u32 where "DEFAULT_CAP = 200"
definition MAX_CAP :: u32 where "MAX_CAP = 2000"

record flow_args =
  fa_router :: string
  fa_source_prefix :: "string option"
  fa_destination_prefix :: "string option"
  fa_source_port :: "u32 option"
  fa_destination_port :: "u32 option"
  fa_protocol :: "string option"
  fa_application :: "string option"
  fa_session_identifier :: "string option"
  fa_cap :: "u32 option"
  fa_acknowledge_unfiltered :: bool
  fa_include_raw :: bool

record flow_session =
  fs_session_id :: u64
  fs_protocol :: string
  fs_source :: "ip_addr \<times> u16"
  fs_destination :: "ip_addr \<times> u16"
  fs_translated_source :: "(ip_addr \<times> u16) option"
  fs_translated_destination :: "(ip_addr \<times> u16) option"
  fs_application :: "string option"
  fs_policy_name :: "string option"
  fs_in_interface :: string
  fs_out_interface :: string
  fs_timeout :: u32
  fs_duration :: u32

record node_sessions =
  nd_re_name :: string
  nd_sessions :: "flow_session list"
  nd_error :: "string option"

datatype refusal_reason = CountExceedsCap | CountUnavailable

record flow_query =
  fq_nodes :: "node_sessions list"
  fq_total_count_reported :: "u64 option"
  fq_truncated :: bool
  fq_refused :: "refusal_reason option"
  fq_cap :: u32

record flow_filter =
  ff_source_prefix :: "string option"
  ff_destination_prefix :: "string option"
  ff_source_port :: "u16 option"
  ff_destination_port :: "u16 option"
  ff_protocol :: "ip_protocol option"
  ff_application :: "string option"
  ff_session_identifier :: "u64 option"

section \<open>Checks before any request\<close>

definition has_filter :: "flow_filter \<Rightarrow> bool" where
  "has_filter f \<longleftrightarrow> ff_source_prefix f \<noteq> None \<or> ff_destination_prefix f \<noteq> None \<or> ff_source_port f \<noteq> None
     \<or> ff_destination_port f \<noteq> None \<or> ff_protocol f \<noteq> None \<or> ff_application f \<noteq> None \<or> ff_session_identifier f \<noteq> None"

definition to_rpc_args :: "flow_filter \<Rightarrow> (string \<times> string) list" where
  "to_rpc_args f =
     opt_arg ''source-prefix'' (ff_source_prefix f) @ opt_arg ''destination-prefix'' (ff_destination_prefix f)
     @ opt_arg ''source-port'' (map_option (\<lambda>p. show_nat (unat p)) (ff_source_port f))
     @ opt_arg ''destination-port'' (map_option (\<lambda>p. show_nat (unat p)) (ff_destination_port f))
     @ opt_arg ''protocol'' (map_option rpc_value (ff_protocol f)) @ opt_arg ''application'' (ff_application f)
     @ opt_arg ''session-identifier'' (map_option (\<lambda>n. show_nat (unat n)) (ff_session_identifier f))"

definition is_ipv4 :: "ip_addr \<Rightarrow> bool" where
  "is_ipv4 a = (case a of V4 _ \<Rightarrow> True | V6 _ \<Rightarrow> False)"

definition validate_prefix :: "string \<Rightarrow> string sres" where
  "validate_prefix s =
     (let trimmed = str_trim s in
      if trimmed = [] then Inl (InvalidInput ''prefix must not be empty'')
      else
        (case find_char (CHR ''/'') trimmed of
           Some i \<Rightarrow>
             and_then (ok_or (InvalidInput ''invalid prefix address'') (parse_ip (take i trimmed))) (\<lambda>addr.
             and_then (ok_or (InvalidInput ''invalid prefix length'') (parse_uint (drop (Suc i) trimmed) :: 8 word option)) (\<lambda>len.
               if len = 0 then Inl (InvalidInput (''prefix length must be at least 1 (/0 matches every address, which is not a ''
                 @ ''valid filter)''))
               else if (if is_ipv4 addr then 32 else 128) < len then Inl (InvalidInput ''prefix length out of range'')
               else Inr trimmed))
         | None \<Rightarrow> and_then (ok_or (InvalidInput ''invalid prefix'') (parse_ip trimmed)) (\<lambda>_. Inr trimmed)))"

definition validate_identifier_token :: "string \<Rightarrow> string \<Rightarrow> string sres" where
  "validate_identifier_token field s =
     (if 63 < length s then Inl (InvalidInput (field @ '' must be 63 characters or fewer''))
      else if \<not> list_all token_byte s then Inl (InvalidInput (field @ '' must match [A-Za-z0-9._-]+''))
      else Inr s)"

definition try_opt :: "('a \<Rightarrow> 'b sres) \<Rightarrow> 'a option \<Rightarrow> 'b option sres" where
  "try_opt f x = (case x of None \<Rightarrow> Inr None | Some a \<Rightarrow> and_then (f a) (\<lambda>b. Inr (Some b)))"

definition trimmed_some :: "string option \<Rightarrow> string option" where
  "trimmed_some x = (case x of None \<Rightarrow> None | Some s \<Rightarrow> if str_trim s = [] then None else Some (str_trim s))"

definition validate_filter :: "flow_args \<Rightarrow> flow_filter sres" where
  "validate_filter a =
     (if str_trim (fa_router a) = [] then Inl (InvalidInput ''router must not be empty'')
      else if (fa_source_port a \<noteq> None \<or> fa_destination_port a \<noteq> None) \<and> fa_protocol a = None
      then Inl (InvalidInput ''source_port/destination_port filter requires protocol'')
      else
        and_then (try_opt validate_prefix (fa_source_prefix a)) (\<lambda>source_prefix.
        and_then (try_opt validate_prefix (fa_destination_prefix a)) (\<lambda>destination_prefix.
        and_then (try_opt (check_port ''source_port'') (fa_source_port a)) (\<lambda>source_port.
        and_then (try_opt (check_port ''destination_port'') (fa_destination_port a)) (\<lambda>destination_port.
        and_then (try_opt parse_protocol (fa_protocol a)) (\<lambda>prot.
        and_then (try_opt (validate_identifier_token ''application'') (trimmed_some (fa_application a))) (\<lambda>application.
        and_then (try_opt (\<lambda>s. ok_or (InvalidInput ''session_identifier must be a non-negative integer'') (parse_uint s))
            (trimmed_some (fa_session_identifier a))) (\<lambda>session_identifier.
          let f = \<lparr>ff_source_prefix = source_prefix, ff_destination_prefix = destination_prefix, ff_source_port = source_port,
            ff_destination_port = destination_port, ff_protocol = prot, ff_application = application,
            ff_session_identifier = session_identifier\<rparr>
          in if \<not> has_filter f \<and> \<not> fa_acknowledge_unfiltered a
             then Inl (InvalidInput (''flow-session query has no filter; narrow the query or set ''
               @ ''acknowledge_unfiltered=true to accept a capped, possibly-truncated walk''))
             else Inr f))))))))"

definition validate_cap :: "u32 option \<Rightarrow> u32 sres" where
  "validate_cap given =
     (let cap = (case given of None \<Rightarrow> DEFAULT_CAP | Some c \<Rightarrow> c) in
      if cap = 0 then Inl (InvalidInput ''cap must be at least 1'')
      else if MAX_CAP < cap
      then Inl (InvalidInput (''cap '' @ show_nat (unat cap) @ '' exceeds hard ceiling '' @ show_nat (unat MAX_CAP)))
      else Inr cap)"

section \<open>Reading the replies\<close>

definition ensure_single_root :: "xml_lib \<Rightarrow> string \<Rightarrow> string" where
  "ensure_single_root X xml = (if is_ok (xl_parse X xml) then xml else ''<_>'' @ xml @ ''</_>'')"

record rpc_error_info =
  re_message :: string
  re_is_warning :: bool
  re_is_error :: bool

definition error_message_of :: "xnode \<Rightarrow> string" where
  "error_message_of err =
     (case trimmed_text ''error-message'' err of
        Some t \<Rightarrow> if t = [] then ''rpc-error (no error-message)'' else t
      | None \<Rightarrow> ''rpc-error (no error-message)'')"

definition severity_of :: "xnode \<Rightarrow> string option" where
  "severity_of err = map_option to_ascii_lowercase (trimmed_text ''error-severity'' err)"

definition extract_rpc_error :: "xml_lib \<Rightarrow> string \<Rightarrow> rpc_error_info option" where
  "extract_rpc_error X xml =
     (case xl_parse X (ensure_single_root X xml) of
        Inl _ \<Rightarrow> None
      | Inr doc \<Rightarrow>
          (let errors = filter (named ''rpc-error'') (descendants doc) in
           if errors = [] then None
           else
             (let any_error = list_ex (\<lambda>e. severity_of e = Some ''error'') errors;
                  any_warning = list_ex (\<lambda>e. severity_of e = Some ''warning'') errors
              in Some \<lparr>re_message = str_join ''; '' (map error_message_of errors),
                   re_is_warning = (any_warning \<and> \<not> any_error), re_is_error = any_error\<rparr>)))"

definition count_in :: "xnode \<Rightarrow> u64 option" where
  "count_in doc =
     or_else (Option.bind (trimmed_text ''displayed-session-count'' doc) parse_uint)
       (Option.bind (trimmed_text ''sessions-in-use'' doc) parse_uint)"

fun sum_nodes :: "xml_lib \<Rightarrow> re_node list \<Rightarrow> u64 \<Rightarrow> bool \<Rightarrow> u64 option sres" where
  "sum_nodes X [] tot any_counted = Inr (if any_counted then Some tot else None)"
| "sum_nodes X (n # ns) tot any_counted =
     (let e = extract_rpc_error X (inner_xml n) in
      if (case e of Some i \<Rightarrow> re_is_error i | None \<Rightarrow> False) then Inr None
      else if (case e of Some i \<Rightarrow> \<not> re_is_warning i | None \<Rightarrow> False) then sum_nodes X ns tot any_counted
      else
        and_then (map_err (\<lambda>e. SrxParse (''roxmltree: '' @ e)) (xl_parse X (ensure_single_root X (inner_xml n)))) (\<lambda>doc.
          case count_in doc of
            Some c \<Rightarrow> sum_nodes X ns (saturating_add tot c) True
          | None \<Rightarrow> Inr None))"

definition parse_summary_total :: "xml_lib \<Rightarrow> string \<Rightarrow> u64 option sres" where
  "parse_summary_total X xml =
     and_then (multi_re_split X xml) (\<lambda>nodes. if nodes = [] then Inr None else sum_nodes X nodes 0 False)"

definition flow_schema :: "string \<Rightarrow> srx_error" where
  "flow_schema element = SchemaMismatch ''get-flow-session-information'' element"

definition or_zero :: "'a::len word option \<Rightarrow> 'a word" where
  "or_zero x = (case x of None \<Rightarrow> 0 | Some n \<Rightarrow> n)"

definition nat_endpoint :: "xnode \<Rightarrow> string \<Rightarrow> string \<Rightarrow> (ip_addr \<times> u16) option" where
  "nat_endpoint block addr_tag port_tag =
     map_option (\<lambda>a. (a, or_zero (Option.bind (child_text block port_tag) parse_uint)))
       (Option.bind (child_text block addr_tag) parse_ip)"

definition parse_session :: "xnode \<Rightarrow> flow_session sres" where
  "parse_session block =
     and_then (ok_or (flow_schema ''session-identifier'') (Option.bind (child_text block ''session-identifier'') parse_uint)) (\<lambda>session_id.
     and_then (ok_or (flow_schema ''source-address'') (Option.bind (child_text block ''source-address'') parse_ip)) (\<lambda>source_address.
     and_then (ok_or (flow_schema ''destination-address'') (Option.bind (child_text block ''destination-address'') parse_ip))
       (\<lambda>destination_address.
       Inr \<lparr>fs_session_id = session_id, fs_protocol = opt_str (child_text block ''session-protocol-name''),
         fs_source = (source_address, or_zero (Option.bind (child_text block ''source-port'') parse_uint)),
         fs_destination = (destination_address, or_zero (Option.bind (child_text block ''destination-port'') parse_uint)),
         fs_translated_source = nat_endpoint block ''nat-source-address'' ''nat-source-port'',
         fs_translated_destination = nat_endpoint block ''nat-destination-address'' ''nat-destination-port'',
         fs_application = child_text block ''application'', fs_policy_name = child_text block ''policy-name'',
         fs_in_interface = opt_str (child_text block ''in-interface-name''),
         fs_out_interface = opt_str (child_text block ''out-interface-name''),
         fs_timeout = or_zero (Option.bind (child_text block ''timeout'') parse_uint),
         fs_duration = or_zero (Option.bind (child_text block ''duration'') parse_uint)\<rparr>)))"

definition parse_sessions :: "xml_lib \<Rightarrow> string \<Rightarrow> flow_session list sres" where
  "parse_sessions X xml =
     and_then (map_err (\<lambda>e. SrxParse (''roxmltree: '' @ e)) (xl_parse X (ensure_single_root X xml))) (\<lambda>doc.
       try_map parse_session (filter (named ''flow-session'') (descendants doc)))"

fun walk_nodes :: "xml_lib \<Rightarrow> re_node list \<Rightarrow> nat \<Rightarrow> bool \<Rightarrow> (node_sessions list \<times> bool) sres" where
  "walk_nodes X [] remaining truncated = Inr ([], truncated)"
| "walk_nodes X (n # ns) remaining truncated =
     (let e = extract_rpc_error X (inner_xml n) in
      if (case e of Some i \<Rightarrow> \<not> re_is_warning i | None \<Rightarrow> False)
      then and_then (walk_nodes X ns remaining truncated) (\<lambda>(nodes, t).
             Inr (\<lparr>nd_re_name = re_name n, nd_sessions = [], nd_error = map_option re_message e\<rparr> # nodes, t))
      else
        and_then (parse_sessions X (inner_xml n)) (\<lambda>all.
          let sessions = take remaining all in
          and_then (walk_nodes X ns (remaining - length sessions) (truncated \<or> remaining < length all)) (\<lambda>(nodes, t).
            Inr (\<lparr>nd_re_name = re_name n, nd_sessions = sessions, nd_error = map_option re_message e\<rparr> # nodes, t))))"

definition parse_walk :: "xml_lib \<Rightarrow> string \<Rightarrow> u64 option \<Rightarrow> u32 \<Rightarrow> flow_query srx_response sres" where
  "parse_walk X xml total_count cap =
     and_then (multi_re_split X (sanitize_rustez_xml xml)) (\<lambda>re_nodes.
     and_then (walk_nodes X re_nodes (unat cap) (case total_count of Some t \<Rightarrow> ucast cap < t | None \<Rightarrow> False)) (\<lambda>(nodes, truncated).
       Inr (active \<lparr>fq_nodes = nodes, fq_total_count_reported = total_count, fq_truncated = truncated, fq_refused = None,
         fq_cap = cap\<rparr>)))"

section \<open>The tool\<close>

datatype walk_decision = WalkProceed | WalkRefuse refusal_reason

definition plan_walk :: "u64 option \<Rightarrow> u32 \<Rightarrow> walk_decision" where
  "plan_walk summary_total cap =
     (case summary_total of
        Some t \<Rightarrow> if t \<le> ucast cap then WalkProceed else WalkRefuse CountExceedsCap
      | None \<Rightarrow> WalkRefuse CountUnavailable)"

definition compose_refuse_raw :: "string \<Rightarrow> string" where
  "compose_refuse_raw summary_xml = ''<!-- summary -->'' @ [NL] @ summary_xml"

definition compose_walk_raw :: "string \<Rightarrow> string \<Rightarrow> bool \<Rightarrow> string" where
  "compose_walk_raw summary_xml walk_xml truncated =
     (if truncated
      then ''<!-- summary -->'' @ [NL] @ summary_xml @ [NL] @ ''<!-- walk raw XML omitted: result was truncated ''
        @ ''to the cap, and the raw walk body is not cap-bounded -->''
      else ''<!-- summary -->'' @ [NL] @ summary_xml @ [NL] @ ''<!-- walk -->'' @ [NL] @ walk_xml)"

definition summary_request :: "flow_filter \<Rightarrow> srx_request" where
  "summary_request f = rpc_with ''get-flow-session-information'' ((''summary'', []) # to_rpc_args f)"

definition walk_request :: "flow_filter \<Rightarrow> srx_request" where
  "walk_request f = rpc_with ''get-flow-session-information'' (to_rpc_args f)"

definition walk_or_refuse ::
    "'w srx_device \<Rightarrow> xml_lib \<Rightarrow> bool \<Rightarrow> flow_filter \<Rightarrow> u32 \<Rightarrow> string \<Rightarrow> u64 option \<Rightarrow> (flow_query srx_response, 'w) srx_m" where
  "walk_or_refuse D X include_raw f cap summary_xml total_count =
     (case plan_walk total_count cap of
        WalkRefuse reason \<Rightarrow>
          (let resp = active \<lparr>fq_nodes = [], fq_total_count_reported = total_count, fq_truncated = True,
             fq_refused = Some reason, fq_cap = cap\<rparr>
           in sx_ret (Inr (if include_raw then with_raw (compose_refuse_raw summary_xml) resp else resp)))
      | WalkProceed \<Rightarrow>
          sx_bind (call D (walk_request f)) (\<lambda>walk_xml.
          sx_bind (sx_ret (parse_walk X walk_xml total_count cap)) (\<lambda>parsed.
            sx_ret (Inr (if include_raw
              then with_raw (compose_walk_raw summary_xml walk_xml
                     (case rs_data parsed of Some d \<Rightarrow> fq_truncated d | None \<Rightarrow> False)) parsed
              else parsed)))))"

definition run_flow_sessions :: "'w srx_device \<Rightarrow> xml_lib \<Rightarrow> flow_args \<Rightarrow> (flow_query srx_response, 'w) srx_m" where
  "run_flow_sessions D X a =
     sx_bind (sx_ret (validate_filter a)) (\<lambda>f.
     sx_bind (sx_ret (validate_cap (fa_cap a))) (\<lambda>cap.
     sx_bind (open_rpc D) (\<lambda>_.
     sx_bind (call D (summary_request f)) (\<lambda>summary_xml.
     sx_bind (sx_ret (parse_summary_total X summary_xml)) (\<lambda>total_count.
       walk_or_refuse D X (fa_include_raw a) f cap summary_xml total_count)))))"

section \<open>The session table is not walked blindly\<close>

lemma plan_walk_proceed: "plan_walk t cap = WalkProceed \<longleftrightarrow> (\<exists>n. t = Some n \<and> n \<le> ucast cap)"
  by (auto simp: plan_walk_def split: option.splits)

lemma validate_cap_range: "validate_cap c = Inr cap \<Longrightarrow> 0 < cap \<and> cap \<le> MAX_CAP"
  by (auto simp: validate_cap_def Let_def word_neq_0_conv not_less split: if_splits)

lemma walk_or_refuse_log:
  obtains r s' where "walk_or_refuse D X raw f cap summary_xml t s = Some (r, s')"
    "sx_log s' = sx_log s @ (if plan_walk t cap = WalkProceed then [Sent (walk_request f)] else [])"
proof (cases "plan_walk t cap")
  case (WalkRefuse reason)
  then show ?thesis using that by (auto simp: walk_or_refuse_def Let_def sx_ret_def)
next
  case p: WalkProceed
  obtain q s2 where "call D (walk_request f) s = Some (q, s2)" "sx_log s2 = sx_log s @ [Sent (walk_request f)]"
    by (rule call_cases [of D "walk_request f" s]) auto
  moreover from this have "\<exists>r. walk_or_refuse D X raw f cap summary_xml t s = Some (r, s2)"
    using p by (cases q) (auto simp: walk_or_refuse_def sx_bind_def sx_ret_def split: sum.split)
  ultimately show ?thesis using that p by auto
qed

text \<open>
  C21. What a session query sends: nothing when the request is invalid; else one request for the count, with the
  filter of the query; and the request for the sessions, with that same filter, only after the device answered the
  first with a count that reads and is at most the cap, which is at most 2000. Every query returns.
\<close>

theorem sessions_are_asked_for_only_within_the_cap:
  "\<exists>r s'. run_flow_sessions D X a s = Some (r, s')
     \<and> (sx_log s' = sx_log s
        \<or> (\<exists>f. validate_filter a = Inr f \<and> sx_log s' = sx_log s @ [Sent (summary_request f)])
        \<or> (\<exists>f cap reply n. validate_filter a = Inr f \<and> validate_cap (fa_cap a) = Inr cap
             \<and> fst (try_call D (summary_request f) s) = Inr reply \<and> parse_summary_total X reply = Inr (Some n)
             \<and> n \<le> ucast cap \<and> cap \<le> MAX_CAP
             \<and> sx_log s' = sx_log s @ [Sent (summary_request f), Sent (walk_request f)]))"
proof (cases "\<exists>f cap u. validate_filter a = Inr f \<and> validate_cap (fa_cap a) = Inr cap \<and> sd_rpc D (sx_world s) = Inr u")
  case False
  then show ?thesis
    by (cases "validate_filter a"; cases "validate_cap (fa_cap a)"; cases "sd_rpc D (sx_world s)")
      (simp_all add: run_flow_sessions_def sx_bind_def sx_ret_def open_rpc_def)
next
  case True
  then obtain f cap u where g: "validate_filter a = Inr f" "validate_cap (fa_cap a) = Inr cap" "sd_rpc D (sx_world s) = Inr u"
    by blast
  note start = run_flow_sessions_def sx_bind_def sx_ret_def open_rpc_def g
  show ?thesis
  proof (rule call_cases [of D "summary_request f" s])
    fix e s1 assume "call D (summary_request f) s = Some (Inl e, s1)" "sx_log s1 = sx_log s @ [Sent (summary_request f)]"
    then show ?thesis by (auto simp: start)
  next
    fix reply s1
    assume r: "call D (summary_request f) s = Some (Inr reply, s1)" "sx_log s1 = sx_log s @ [Sent (summary_request f)]"
      "try_call D (summary_request f) s = (Inr reply, s1)"
    show ?thesis
    proof (cases "parse_summary_total X reply")
      case (Inl e)
      then show ?thesis using r by (auto simp: start)
    next
      case (Inr t)
      obtain q s2 where w: "walk_or_refuse D X (fa_include_raw a) f cap reply t s1 = Some (q, s2)"
        "sx_log s2 = sx_log s1 @ (if plan_walk t cap = WalkProceed then [Sent (walk_request f)] else [])"
        by (rule walk_or_refuse_log)
      have "run_flow_sessions D X a s = Some (q, s2)" using r(1) Inr w(1) by (simp add: start)
      then show ?thesis using w(2) r(2,3) g Inr validate_cap_range [OF g(2)]
        by (cases "plan_walk t cap = WalkProceed") (auto simp: plan_walk_proceed)
    qed
  qed
qed

section \<open>What is returned is within the cap\<close>

definition session_count :: "node_sessions list \<Rightarrow> nat" where
  "session_count nodes = sum_list (map (\<lambda>n. length (nd_sessions n)) nodes)"

lemma walk_nodes_bound: "walk_nodes X ns remaining t = Inr (nodes, t') \<Longrightarrow> session_count nodes \<le> remaining"
proof (induction ns arbitrary: remaining t nodes t')
  case (Cons n ns)
  let ?fatal = "case extract_rpc_error X (inner_xml n) of Some i \<Rightarrow> \<not> re_is_warning i | None \<Rightarrow> False"
  show ?case
  proof (cases ?fatal)
    case True
    then obtain rest where "walk_nodes X ns remaining t = Inr (rest, t')" "session_count nodes = session_count rest"
      using Cons.prems by (auto simp: Let_def and_then_eq_Inr session_count_def)
    then show ?thesis using Cons.IH by auto
  next
    case False
    then obtain all rest where w: "walk_nodes X ns (remaining - length (take remaining all)) (t \<or> remaining < length all) = Inr (rest, t')"
      and n: "nodes = \<lparr>nd_re_name = re_name n, nd_sessions = take remaining all,
        nd_error = map_option re_message (extract_rpc_error X (inner_xml n))\<rparr> # rest"
      using Cons.prems by (auto simp: Let_def and_then_eq_Inr)
    show ?thesis using Cons.IH [OF w] by (simp add: n session_count_def)
  qed
qed (simp add: session_count_def)

text \<open>The sessions a node reports, all of them.\<close>

definition node_complete :: "xml_lib \<Rightarrow> re_node \<Rightarrow> node_sessions \<Rightarrow> bool" where
  "node_complete X n r \<longleftrightarrow> nd_re_name r = re_name n
     \<and> (nd_sessions r = [] \<and> nd_error r \<noteq> None \<or> parse_sessions X (inner_xml n) = Inr (nd_sessions r))"

lemma walk_nodes_complete:
  "walk_nodes X ns remaining t = Inr (nodes, False) \<Longrightarrow> \<not> t \<and> list_all2 (node_complete X) ns nodes"
proof (induction ns arbitrary: remaining t nodes)
  case (Cons n ns)
  let ?e = "extract_rpc_error X (inner_xml n)"
  show ?case
  proof (cases "case ?e of Some i \<Rightarrow> \<not> re_is_warning i | None \<Rightarrow> False")
    case True
    then obtain rest where "walk_nodes X ns remaining t = Inr (rest, False)"
      "nodes = \<lparr>nd_re_name = re_name n, nd_sessions = [], nd_error = map_option re_message ?e\<rparr> # rest"
      using Cons.prems by (auto simp: Let_def and_then_eq_Inr)
    moreover have "?e \<noteq> None" using True by (auto split: option.splits)
    ultimately show ?thesis using Cons.IH by (auto simp: node_complete_def)
  next
    case False
    then obtain all rest where "parse_sessions X (inner_xml n) = Inr all"
      "walk_nodes X ns (remaining - length (take remaining all)) (t \<or> remaining < length all) = Inr (rest, False)"
      "nodes = \<lparr>nd_re_name = re_name n, nd_sessions = take remaining all, nd_error = map_option re_message ?e\<rparr> # rest"
      using Cons.prems by (auto simp: Let_def and_then_eq_Inr)
    then show ?thesis using Cons.IH by (fastforce simp: node_complete_def)
  qed
qed simp

text \<open>
  C38. A reply with sessions never holds more of them, over all nodes together, than the cap; and when it is not marked
  as cut short, the device had reported a count within the cap and every node is there with all the sessions of its
  reply, or with the error it answered.
\<close>

theorem walk_is_capped_and_honest:
  assumes "parse_walk X xml t cap = Inr resp" "rs_data resp = Some q"
  shows "session_count (fq_nodes q) \<le> unat cap
    \<and> (\<not> fq_truncated q \<longrightarrow> (\<forall>n. t = Some n \<longrightarrow> n \<le> ucast cap)
        \<and> (\<exists>ns. multi_re_split X (sanitize_rustez_xml xml) = Inr ns \<and> list_all2 (node_complete X) ns (fq_nodes q)))"
proof -
  obtain ns nodes trunc where w: "multi_re_split X (sanitize_rustez_xml xml) = Inr ns"
    "walk_nodes X ns (unat cap) (case t of Some n \<Rightarrow> ucast cap < n | None \<Rightarrow> False) = Inr (nodes, trunc)"
    "q = \<lparr>fq_nodes = nodes, fq_total_count_reported = t, fq_truncated = trunc, fq_refused = None, fq_cap = cap\<rparr>"
    using assms by (auto simp: parse_walk_def and_then_eq_Inr active_def)
  have "session_count nodes \<le> unat cap" by (rule walk_nodes_bound [OF w(2)])
  moreover have "(\<forall>n. t = Some n \<longrightarrow> \<not> ucast cap < n) \<and> list_all2 (node_complete X) ns nodes" if "\<not> trunc"
    using walk_nodes_complete [of X ns "unat cap" "case t of Some n \<Rightarrow> ucast cap < n | None \<Rightarrow> False" nodes] w(2) that by auto
  ultimately show ?thesis using w(1,3) by (auto simp: not_less)
qed

definition flow_block :: xnode where
  "flow_block = XElem ''flow-session'' [] [XElem ''session-identifier'' [] [XText ''7''],
     XElem ''source-address'' [] [XText ''10.0.0.1''], XElem ''destination-address'' [] [XText ''10.0.0.2'']]"

definition flow_lab :: xml_lib where
  "flow_lab = \<lparr>xl_parse = (\<lambda>_. Inr (XElem ''flow-session-information'' [] [flow_block])),
     xl_escape = id, xl_lowercase = id, xl_debug = id, xl_rfc3339 = (\<lambda>_. Inl [])\<rparr>"

lemma flow_lab_facts:
  "multi_re_split flow_lab (sanitize_rustez_xml ''x'') = Inr [\<lparr>re_name = [], inner_xml = ''x''\<rparr>]"
  "extract_rpc_error flow_lab ''x'' = None" "child_text flow_block ''session-identifier'' = Some ''7''"
  "Option.bind (child_text flow_block ''source-address'') parse_ip = Some (V4 0x0A000001)"
  "Option.bind (child_text flow_block ''destination-address'') parse_ip = Some (V4 0x0A000002)"
  "filter (named ''flow-session'') (descendants (XElem ''flow-session-information'' [] [flow_block])) = [flow_block]"
  by code_simp+

lemma flow_lab_sessions: "\<exists>b. parse_sessions flow_lab ''x'' = Inr [b]"
proof -
  have "parse_uint ''7'' = Some (7 :: u64)" by (simp add: parse_uint_def is_ascii_digit_def byte_def)
  then show ?thesis using flow_lab_facts(6)
    by (simp add: parse_sessions_def ensure_single_root_def flow_lab_def parse_session_def flow_lab_facts(3-5) ok_or_def)
qed

theorem walk_is_capped_and_honest_witness:
  "\<exists>resp q. parse_walk flow_lab ''x'' (Some 1) 1 = Inr resp \<and> rs_data resp = Some q \<and> session_count (fq_nodes q) = 1
     \<and> session_count (fq_nodes q) \<le> unat (1 :: u32)"
proof -
  obtain b where b: "parse_sessions flow_lab ''x'' = Inr [b]" using flow_lab_sessions by blast
  let ?q = "\<lparr>fq_nodes = [\<lparr>nd_re_name = [], nd_sessions = [b], nd_error = None\<rparr>], fq_total_count_reported = Some 1,
    fq_truncated = False, fq_refused = None, fq_cap = 1\<rparr>"
  have p: "parse_walk flow_lab ''x'' (Some 1) 1 = Inr (active ?q)"
    by (simp add: parse_walk_def flow_lab_facts(1,2) b)
  have d: "rs_data (active ?q) = Some ?q" by (simp add: active_def)
  from walk_is_capped_and_honest [OF p d] p d show ?thesis
    by (intro exI [of _ "active ?q"] exI [of _ ?q]) (simp add: session_count_def)
qed

section \<open>Filters\<close>

text \<open>An address, or an address and a length that leaves at least one bit fixed.\<close>

definition narrow_prefix :: "string \<Rightarrow> bool" where
  "narrow_prefix p \<longleftrightarrow> parse_ip p \<noteq> None
     \<or> (\<exists>s l addr len. p = s @ ''/'' @ l \<and> parse_ip s = Some addr \<and> parse_uint l = Some (len :: 8 word) \<and> 0 < len
          \<and> len \<le> (if is_ipv4 addr then 32 else 128))"

lemma validate_prefix_narrow: "validate_prefix s = Inr p \<Longrightarrow> narrow_prefix p"
proof -
  assume v: "validate_prefix s = Inr p"
  have p: "p = str_trim s" using v
    by (auto simp: validate_prefix_def Let_def and_then_eq_Inr ok_or_def split: if_splits option.splits)
  show ?thesis
  proof (cases "find_char (CHR ''/'') p")
    case None
    then show ?thesis using v
      by (auto simp: validate_prefix_def Let_def and_then_eq_Inr ok_or_def narrow_prefix_def p [symmetric] split: if_splits option.splits)
  next
    case (Some i)
    then obtain m t where m: "p = m @ CHR ''/'' # t" "length m = i" using find_char_split by blast
    then have e: "take i p = m" "drop (Suc i) p = t" by auto
    obtain addr len where "parse_ip m = Some addr" "parse_uint t = Some (len :: 8 word)" "len \<noteq> 0"
      "\<not> (if is_ipv4 addr then 32 else 128) < len"
      using v Some unfolding validate_prefix_def Let_def p [symmetric]
      by (auto simp: e and_then_eq_Inr ok_or_def split: if_splits option.splits)
    then show ?thesis unfolding narrow_prefix_def
      by (intro disjI2 exI [of _ m] exI [of _ t] exI [of _ addr] exI [of _ len]) (simp add: m(1) word_neq_0_conv not_less)
  qed
qed

lemma try_opt_Inr: "try_opt f x = Inr y \<longleftrightarrow> (case x of None \<Rightarrow> y = None | Some a \<Rightarrow> \<exists>b. f a = Inr b \<and> y = Some b)"
  by (auto simp: try_opt_def and_then_eq_Inr split: option.splits)

text \<open>
  C37. A filter that passes the checks is one the device can be asked about: each prefix is an address or an address
  with a length of at least one bit that its family allows, an application name is a short token, a port comes with a
  protocol, and a query without any filter was acknowledged by the caller.
\<close>

theorem accepted_filter_is_well_formed:
  assumes "validate_filter a = Inr f"
  shows "(\<forall>p. ff_source_prefix f = Some p \<or> ff_destination_prefix f = Some p \<longrightarrow> narrow_prefix p)
    \<and> (\<forall>t. ff_application f = Some t \<longrightarrow> length t \<le> 63 \<and> list_all token_byte t)
    \<and> (ff_source_port f \<noteq> None \<or> ff_destination_port f \<noteq> None \<longrightarrow> ff_protocol f \<noteq> None)
    \<and> (has_filter f \<or> fa_acknowledge_unfiltered a)"
proof -
  have v: "\<not> ((fa_source_port a \<noteq> None \<or> fa_destination_port a \<noteq> None) \<and> fa_protocol a = None)"
    "try_opt validate_prefix (fa_source_prefix a) = Inr (ff_source_prefix f)"
    "try_opt validate_prefix (fa_destination_prefix a) = Inr (ff_destination_prefix f)"
    "try_opt (check_port ''source_port'') (fa_source_port a) = Inr (ff_source_port f)"
    "try_opt (check_port ''destination_port'') (fa_destination_port a) = Inr (ff_destination_port f)"
    "try_opt parse_protocol (fa_protocol a) = Inr (ff_protocol f)"
    "try_opt (validate_identifier_token ''application'') (trimmed_some (fa_application a)) = Inr (ff_application f)"
    "has_filter f \<or> fa_acknowledge_unfiltered a"
    using assms by (auto simp: validate_filter_def Let_def and_then_eq_Inr split: if_splits)
  have "length t \<le> 63 \<and> list_all token_byte t" if "ff_application f = Some t" for t
    using v(7) that by (auto simp: try_opt_Inr validate_identifier_token_def split: option.splits if_splits)
  then show ?thesis using v
    by (auto simp: try_opt_Inr split: option.splits dest: validate_prefix_narrow)
qed

theorem accepted_filter_is_well_formed_witness:
  "\<exists>f. validate_filter \<lparr>fa_router = ''srx1'', fa_source_prefix = Some ''10.0.0.0/8'', fa_destination_prefix = None,
      fa_source_port = None, fa_destination_port = None, fa_protocol = None, fa_application = None, fa_session_identifier = None,
      fa_cap = None, fa_acknowledge_unfiltered = False, fa_include_raw = False\<rparr> = Inr f
    \<and> ff_source_prefix f = Some ''10.0.0.0/8'' \<and> narrow_prefix ''10.0.0.0/8''"
proof -
  let ?a = "\<lparr>fa_router = ''srx1'', fa_source_prefix = Some ''10.0.0.0/8'', fa_destination_prefix = None,
      fa_source_port = None, fa_destination_port = None, fa_protocol = None, fa_application = None, fa_session_identifier = None,
      fa_cap = None, fa_acknowledge_unfiltered = False, fa_include_raw = False\<rparr>"
  let ?f = "\<lparr>ff_source_prefix = Some ''10.0.0.0/8'', ff_destination_prefix = None, ff_source_port = None,
      ff_destination_port = None, ff_protocol = None, ff_application = None, ff_session_identifier = None\<rparr>"
  have v: "validate_filter ?a = Inr ?f" by code_simp
  from accepted_filter_is_well_formed [OF v] v show ?thesis by auto
qed

text \<open>
  A node that answers with a warning and with an error element of no severity counts as one that only warned.
\<close>

lemma warning_covers_unknown_severity:
  assumes "xl_parse X (ensure_single_root X xml) = Inr (XElem ''output'' []
     [XElem ''rpc-error'' [] [XElem ''error-message'' [] [XText ''node is secondary'']],
      XElem ''rpc-error'' [] [XElem ''error-severity'' [] [XText ''warning''], XElem ''error-message'' [] [XText ''deprecated'']]])"
  shows "map_option re_is_warning (extract_rpc_error X xml) = Some True"
proof -
  have "severity_of (XElem ''rpc-error'' [] [XElem ''error-message'' [] [XText ''node is secondary'']]) = None" by code_simp
  moreover have "severity_of (XElem ''rpc-error'' [] [XElem ''error-severity'' [] [XText ''warning''],
      XElem ''error-message'' [] [XText ''deprecated'']]) = Some ''warning''" by code_simp
  ultimately show ?thesis by (simp add: extract_rpc_error_def assms named_def)
qed

end
