(* ===== verification/Srx_Match.thy ===== *)
theory Srx_Match
  imports Srx_Read
begin

text \<open>
  Asking the device which policy applies to a connection: \<^verbatim>\<open>workflows/policy_match.rs\<close>. The policies of the zone
  pair are asked first; where none matches, the global policies are, before the default is given as the answer.
\<close>

section \<open>Data\<close>

record match_args =
  ma_router :: string
  ma_from_zone :: string
  ma_to_zone :: string
  ma_source_ip :: string
  ma_destination_ip :: string
  ma_source_port :: u32
  ma_destination_port :: u32
  ma_protocol :: string
  ma_include_raw :: bool

record five_tuple =
  ft_from_zone :: string
  ft_to_zone :: string
  ft_source_ip :: ip_addr
  ft_destination_ip :: ip_addr
  ft_source_port :: u16
  ft_destination_port :: u16
  ft_protocol :: ip_protocol

datatype match_verdict = MvPermit | MvDeny | MvReject | MvNoMatch

datatype default_action = DefaultDeny | DefaultPermit

record matched_policy =
  mp_from_zone :: string
  mp_to_zone :: string
  mp_name :: string
  mp_sequence :: u32

record policy_match_result =
  pm_verdict :: match_verdict
  pm_matched_policy :: "matched_policy option"
  pm_is_global :: bool
  pm_default_action :: "default_action option"

section \<open>Checks before any request\<close>

definition validate_zone_token :: "string \<Rightarrow> string \<Rightarrow> string sres" where
  "validate_zone_token field s =
     (if s = [] then Inl (InvalidInput (field @ '' must not be empty''))
      else if 63 < length s then Inl (InvalidInput (field @ '' must be 63 characters or fewer''))
      else if \<not> list_all token_byte s then Inl (InvalidInput (field @ '' must match [A-Za-z0-9._-]+''))
      else Inr s)"

definition parse_five_tuple :: "match_args \<Rightarrow> five_tuple sres" where
  "parse_five_tuple a =
     and_then (check_router (ma_router a)) (\<lambda>_.
     and_then (validate_zone_token ''from_zone'' (str_trim (ma_from_zone a))) (\<lambda>from_zone.
     and_then (validate_zone_token ''to_zone'' (str_trim (ma_to_zone a))) (\<lambda>to_zone.
     and_then (ok_or (InvalidInput ''source_ip is not a valid IP address'') (parse_ip (str_trim (ma_source_ip a)))) (\<lambda>source_ip.
     and_then (ok_or (InvalidInput ''destination_ip is not a valid IP address'') (parse_ip (str_trim (ma_destination_ip a))))
       (\<lambda>destination_ip.
     and_then (check_port ''source_port'' (ma_source_port a)) (\<lambda>source_port.
     and_then (check_port ''destination_port'' (ma_destination_port a)) (\<lambda>destination_port.
     and_then (parse_protocol (ma_protocol a)) (\<lambda>prot.
       Inr \<lparr>ft_from_zone = from_zone, ft_to_zone = to_zone, ft_source_ip = source_ip, ft_destination_ip = destination_ip,
         ft_source_port = source_port, ft_destination_port = destination_port, ft_protocol = prot\<rparr>))))))))"

definition tuple_args :: "five_tuple \<Rightarrow> (string \<times> string) list" where
  "tuple_args t =
     [(''source-ip'', show_ip (ft_source_ip t)), (''destination-ip'', show_ip (ft_destination_ip t)),
      (''source-port'', show_nat (unat (ft_source_port t))), (''destination-port'', show_nat (unat (ft_destination_port t))),
      (''protocol'', rpc_value (ft_protocol t))]"

definition zone_request :: "five_tuple \<Rightarrow> srx_request" where
  "zone_request t = rpc_with ''match-firewall-policies''
     ([(''from-zone'', ft_from_zone t), (''to-zone'', ft_to_zone t)] @ tuple_args t)"

definition global_request :: "five_tuple \<Rightarrow> srx_request" where
  "global_request t = rpc_with ''match-global-policies'' (tuple_args t)"

section \<open>Reading a reply\<close>

definition default_of :: "string \<Rightarrow> default_action option" where
  "default_of act =
     (if act = ''deny-all'' then Some DefaultDeny else if act = ''permit-all'' then Some DefaultPermit else None)"

definition verdict_of :: "string \<Rightarrow> match_verdict option" where
  "verdict_of act =
     (if act = ''permit'' then Some MvPermit else if act = ''deny'' then Some MvDeny
      else if act = ''reject'' then Some MvReject else None)"

definition zone_field :: "string \<Rightarrow> bool \<Rightarrow> xnode \<Rightarrow> string \<Rightarrow> string sres" where
  "zone_field rpc global p name =
     (case child_text p name of
        Some z \<Rightarrow> Inr z
      | None \<Rightarrow> if global then Inr ''any'' else Inl (SchemaMismatch rpc name))"

definition no_match :: "default_action \<Rightarrow> policy_match_result" where
  "no_match d = \<lparr>pm_verdict = MvNoMatch, pm_matched_policy = None, pm_is_global = False, pm_default_action = Some d\<rparr>"

definition judge_record :: "xml_lib \<Rightarrow> string \<Rightarrow> bool \<Rightarrow> xnode \<Rightarrow> policy_match_result sres" where
  "judge_record X rpc global p =
     and_then (ok_or (SchemaMismatch rpc ''policy-name'') (child_text p ''policy-name'')) (\<lambda>policy_name.
     and_then (ok_or (SchemaMismatch rpc ''action-type'') (child_text p ''action-type'')) (\<lambda>action_type.
       let sequence = (case Option.bind (child_text p ''policy-sequence-number'') (\<lambda>t. parse_uint (str_trim t)) of
             None \<Rightarrow> 0 | Some n \<Rightarrow> n);
           action_lc = to_ascii_lowercase (str_trim action_type)
       in case default_of action_lc of
            Some d \<Rightarrow> Inr (no_match d)
          | None \<Rightarrow>
              and_then (ok_or (SrxParse (''unrecognised match-policies action-type: '' @ xl_debug X action_lc)) (verdict_of action_lc))
                (\<lambda>verdict.
              and_then (zone_field rpc global p ''from-zone-name'') (\<lambda>from_zone.
              and_then (zone_field rpc global p ''to-zone-name'') (\<lambda>to_zone.
                Inr \<lparr>pm_verdict = verdict,
                  pm_matched_policy = Some \<lparr>mp_from_zone = from_zone, mp_to_zone = to_zone, mp_name = policy_name, mp_sequence = sequence\<rparr>,
                  pm_is_global = (global \<or> eq_ignore_ascii_case from_zone ''any'' \<and> eq_ignore_ascii_case to_zone ''any''),
                  pm_default_action = None\<rparr>)))))"

definition answering_record :: "xml_lib \<Rightarrow> string \<Rightarrow> string \<Rightarrow> xnode sres" where
  "answering_record X xml rpc =
     and_then (multi_re_split X (sanitize_rustez_xml xml)) (\<lambda>re_nodes.
     and_then (ok_or (SrxRpc ''rpc-error'' ''error'' (''every node returned rpc-error for '' @ rpc))
         (find (\<lambda>n. \<not> contains_rpc_error (inner_xml n)) re_nodes)) (\<lambda>node.
     and_then (map_err (\<lambda>e. SrxParse (''roxmltree: '' @ e)) (xl_parse X (inner_xml node))) (\<lambda>doc.
       ok_or (SchemaMismatch rpc ''policy-information'') (find_descendant ''policy-information'' doc))))"

definition parse_reply :: "xml_lib \<Rightarrow> string \<Rightarrow> string \<Rightarrow> bool \<Rightarrow> policy_match_result srx_response sres" where
  "parse_reply X xml rpc global =
     and_then (answering_record X xml rpc) (\<lambda>p.
     and_then (judge_record X rpc global p) (\<lambda>d. Inr (active d)))"

definition parse_zone_match :: "xml_lib \<Rightarrow> string \<Rightarrow> policy_match_result srx_response sres" where
  "parse_zone_match X xml = parse_reply X xml ''match-firewall-policies'' False"

definition parse_global_match :: "xml_lib \<Rightarrow> string \<Rightarrow> policy_match_result srx_response sres" where
  "parse_global_match X xml = parse_reply X xml ''match-global-policies'' True"

definition fell_through :: "policy_match_result srx_response \<Rightarrow> bool" where
  "fell_through r = (case rs_data r of Some d \<Rightarrow> pm_verdict d = MvNoMatch | None \<Rightarrow> False)"

definition global_matched :: "policy_match_result srx_response \<Rightarrow> bool" where
  "global_matched r = (case rs_data r of Some d \<Rightarrow> pm_verdict d \<noteq> MvNoMatch | None \<Rightarrow> False)"

definition resolve_match :: "xml_lib \<Rightarrow> string \<Rightarrow> string option \<Rightarrow> policy_match_result srx_response sres" where
  "resolve_match X zone_xml global_xml =
     and_then (parse_zone_match X zone_xml) (\<lambda>zone.
       if \<not> fell_through zone then Inr zone
       else
         and_then (ok_or (SrxParse (''zone-pair query fell through to the default policy; the global-policy ''
             @ ''query is required before answering'')) global_xml) (\<lambda>gx.
         and_then (parse_global_match X gx) (\<lambda>g. Inr (if global_matched g then g else zone))))"

definition run_policy_match :: "'w srx_device \<Rightarrow> xml_lib \<Rightarrow> match_args \<Rightarrow> (policy_match_result srx_response, 'w) srx_m" where
  "run_policy_match D X a =
     sx_bind (sx_ret (parse_five_tuple a)) (\<lambda>t.
     sx_bind (open_rpc D) (\<lambda>_.
     sx_bind (call D (zone_request t)) (\<lambda>zone_reply.
     sx_bind (sx_ret (parse_zone_match X zone_reply)) (\<lambda>zone.
     sx_bind (if fell_through zone then sx_bind (call D (global_request t)) (\<lambda>g. sx_ret (Inr (Some g))) else sx_ret (Inr None))
       (\<lambda>global_reply.
     sx_bind (sx_ret (resolve_match X zone_reply global_reply)) (\<lambda>parsed.
       sx_ret (Inr (if ma_include_raw a
         then with_raw (case global_reply of Some g \<Rightarrow> zone_reply @ [NL] @ g | None \<Rightarrow> zone_reply) parsed
         else parsed))))))))"

section \<open>The answer is the device's\<close>

text \<open>The action the reply gives for the connection.\<close>

definition action_in :: "xml_lib \<Rightarrow> string \<Rightarrow> string \<Rightarrow> string \<Rightarrow> bool" where
  "action_in X xml rpc act \<longleftrightarrow> (\<exists>p t. answering_record X xml rpc = Inr p \<and> child_text p ''action-type'' = Some t
     \<and> act = to_ascii_lowercase (str_trim t))"

definition explicit :: "match_verdict \<Rightarrow> string \<Rightarrow> bool" where
  "explicit v act \<longleftrightarrow> (v = MvPermit \<and> act = ''permit'') \<or> (v = MvDeny \<and> act = ''deny'') \<or> (v = MvReject \<and> act = ''reject'')"

lemma judge_record_cases:
  assumes "judge_record X rpc global p = Inr d"
  obtains t e where "child_text p ''action-type'' = Some t" "default_of (to_ascii_lowercase (str_trim t)) = Some e" "d = no_match e"
  | t where "child_text p ''action-type'' = Some t" "explicit (pm_verdict d) (to_ascii_lowercase (str_trim t))"
      "global \<Longrightarrow> pm_is_global d" "pm_matched_policy d \<noteq> None" "pm_default_action d = None"
proof -
  obtain t where t: "child_text p ''action-type'' = Some t"
    using assms by (auto simp: judge_record_def and_then_eq_Inr ok_or_def split: option.splits)
  let ?act = "to_ascii_lowercase (str_trim t)"
  show ?thesis
  proof (cases "default_of ?act")
    case (Some e)
    then show ?thesis using that(1) [OF t Some] assms t
      by (auto simp: judge_record_def and_then_eq_Inr ok_or_def Let_def split: option.splits)
  next
    case None
    then obtain v where "verdict_of ?act = Some v" "pm_verdict d = v" "global \<Longrightarrow> pm_is_global d" "pm_matched_policy d \<noteq> None"
      "pm_default_action d = None"
      using assms t by (auto simp: judge_record_def and_then_eq_Inr ok_or_def Let_def split: option.splits)
    then show ?thesis using that(2) [OF t] by (auto simp: verdict_of_def explicit_def split: if_splits)
  qed
qed

lemma explicit_not_NoMatch: "explicit v act \<Longrightarrow> v \<noteq> MvNoMatch"
  by (auto simp: explicit_def)

lemma parse_reply_cases:
  assumes "parse_reply X xml rpc global = Inr r"
  obtains act e where "action_in X xml rpc act" "default_of act = Some e" "r = active (no_match e)"
  | act d where "r = active d" "action_in X xml rpc act" "explicit (pm_verdict d) act" "global \<Longrightarrow> pm_is_global d"
      "pm_matched_policy d \<noteq> None" "pm_default_action d = None"
proof -
  obtain p d where p: "answering_record X xml rpc = Inr p" "judge_record X rpc global p = Inr d" "r = active d"
    using assms by (auto simp: parse_reply_def and_then_eq_Inr)
  show ?thesis using p(2)
  proof (cases rule: judge_record_cases)
    case (1 t e)
    then show ?thesis using p that(1) by (auto simp: action_in_def)
  next
    case (2 t)
    then show ?thesis using p that(2) by (auto simp: action_in_def)
  qed
qed
lemma match_steps:
  assumes "run_policy_match D X a s = Some (Inr resp, s')"
  obtains t z s1 zone where "parse_five_tuple a = Inr t" "try_call D (zone_request t) s = (Inr z, s1)"
    "parse_zone_match X z = Inr zone" "\<not> fell_through zone" "s' = s1" "rs_data resp = rs_data zone"
  | t z s1 zone g glob where "parse_five_tuple a = Inr t" "try_call D (zone_request t) s = (Inr z, s1)"
    "parse_zone_match X z = Inr zone" "fell_through zone" "try_call D (global_request t) s1 = (Inr g, s')"
    "parse_global_match X g = Inr glob" "rs_data resp = rs_data (if global_matched glob then glob else zone)"
proof -
  obtain t u z s1 zone where r: "parse_five_tuple a = Inr t" "sd_rpc D (sx_world s) = Inr u"
    "call D (zone_request t) s = Some (Inr z, s1)" "parse_zone_match X z = Inr zone"
    using assms
    by (cases "parse_five_tuple a"; cases "sd_rpc D (sx_world s)")
      (auto simp: run_policy_match_def sx_bind_def sx_ret_def open_rpc_def split: option.splits sum.splits)
  note start = run_policy_match_def sx_bind_def sx_ret_def open_rpc_def r resolve_match_def
  show ?thesis
  proof (cases "fell_through zone")
    case False
    then have "s' = s1" "rs_data resp = rs_data zone" using assms by (auto simp: start with_raw_def)
    then show ?thesis using that(1) r False by (simp add: call_Inr)
  next
    case True
    then obtain g s2 glob where g: "call D (global_request t) s1 = Some (Inr g, s2)" "parse_global_match X g = Inr glob"
      using assms by (auto simp: start ok_or_def and_then_eq_Inr split: option.splits sum.splits)
    then have "s' = s2" "rs_data resp = rs_data (if global_matched glob then glob else zone)"
      using assms True by (auto simp: start ok_or_def with_raw_def)
    then show ?thesis using that(2) r True g by (simp add: call_Inr)
  qed
qed

text \<open>
  C22. The answer to a match query is the device's: an explicit verdict of the zone pair is given as it stands, after
  that one request; where the zone pair falls through to the default, the global policies are asked with the same
  connection, and their explicit verdict is given, marked as global; and only where both fall through is the answer
  that nothing matched, with the default of the zone-pair reply.
\<close>

theorem match_answer_is_the_devices:
  assumes "run_policy_match D X a s = Some (Inr resp, s')" "rs_data resp = Some d"
  shows "\<exists>t z s1 act. parse_five_tuple a = Inr t \<and> try_call D (zone_request t) s = (Inr z, s1)
    \<and> action_in X z ''match-firewall-policies'' act
    \<and> (explicit (pm_verdict d) act \<and> s' = s1
       \<or> (\<exists>e g gact. default_of act = Some e \<and> try_call D (global_request t) s1 = (Inr g, s')
           \<and> action_in X g ''match-global-policies'' gact
           \<and> (explicit (pm_verdict d) gact \<and> pm_is_global d \<or> default_of gact \<noteq> None \<and> d = no_match e)))"
  using assms(1)
proof (cases rule: match_steps)
  case (1 t z s1 zone)
  show ?thesis using 1(3) unfolding parse_zone_match_def
  proof (cases rule: parse_reply_cases)
    case (1 act e)
    then show ?thesis using \<open>\<not> fell_through zone\<close> by (simp add: fell_through_def active_def no_match_def)
  next
    case (2 act d')
    then have "d' = d" using assms(2) \<open>rs_data resp = rs_data zone\<close> by (simp add: active_def)
    then show ?thesis using 1 2 by blast
  qed
next
  case (2 t z s1 zone g glob)
  have z: "\<exists>act e. action_in X z ''match-firewall-policies'' act \<and> default_of act = Some e \<and> zone = active (no_match e)"
    using 2(3) unfolding parse_zone_match_def
  proof (cases rule: parse_reply_cases)
    case (2 act d')
    then show ?thesis using \<open>fell_through zone\<close> explicit_not_NoMatch by (auto simp: fell_through_def active_def)
  qed blast
  show ?thesis using 2(6) unfolding parse_global_match_def
  proof (cases rule: parse_reply_cases)
    case (1 gact e)
    then have "\<not> global_matched glob" by (simp add: global_matched_def active_def no_match_def)
    then show ?thesis using 1 2 z assms(2) by (auto simp: active_def)
  next
    case (2 gact d')
    then have "global_matched glob" using explicit_not_NoMatch by (auto simp: global_matched_def active_def)
    then have "d' = d" using 2(1) assms(2) \<open>rs_data resp = rs_data (if global_matched glob then glob else zone)\<close> by (simp add: active_def)
    then show ?thesis using 2 z \<open>parse_five_tuple a = Inr t\<close> \<open>try_call D (zone_request t) s = (Inr z, s1)\<close>
      \<open>try_call D (global_request t) s1 = (Inr g, s')\<close> by blast
  qed
qed

text \<open>A device whose zone pair falls through to deny and whose global policies permit.\<close>

definition match_lab :: xml_lib where
  "match_lab = \<lparr>xl_parse = (\<lambda>s. Inr (if s = ''z''
       then XElem ''policy-information'' [] [XElem ''policy-name'' [] [XText ''Default-Policy''], XElem ''action-type'' [] [XText ''deny-all'']]
       else XElem ''policy-information'' [] [XElem ''policy-name'' [] [XText ''vsrx-ci-1''], XElem ''action-type'' [] [XText ''permit'']])),
     xl_escape = id, xl_lowercase = id, xl_debug = id, xl_rfc3339 = (\<lambda>_. Inl [])\<rparr>"

definition match_device :: "unit srx_device" where
  "match_device = \<lparr>sd_rpc = (\<lambda>_. Inr ()),
     sd_call = (\<lambda>req w. (Inr (case req of RpcArgs n _ \<Rightarrow> if n = ''match-firewall-policies'' then ''z'' else ''g'' | _ \<Rightarrow> ''g''), 1, w)),
     sd_acquire = (\<lambda>_ _ _ w. (Inr (), 0, w)), sd_release = (\<lambda>_ w. w)\<rparr>"

definition match_query :: match_args where
  "match_query = \<lparr>ma_router = ''srx1'', ma_from_zone = ''trust'', ma_to_zone = ''untrust'', ma_source_ip = ''10.0.0.1'',
     ma_destination_ip = ''10.0.0.2'', ma_source_port = 7, ma_destination_port = 9, ma_protocol = ''tcp'', ma_include_raw = False\<rparr>"

definition match_start :: "unit srx_run" where
  "match_start = \<lparr>sx_now = 0, sx_world = (), sx_store = new_store 0 0, sx_draws = [], sx_log = []\<rparr>"

theorem match_answer_is_the_devices_witness:
  "\<exists>resp s' d. run_policy_match match_device match_lab match_query match_start = Some (Inr resp, s') \<and> rs_data resp = Some d
     \<and> pm_verdict d = MvPermit \<and> pm_is_global d \<and> length (sx_log s') = 2"
proof -
  have "case run_policy_match match_device match_lab match_query match_start of
      Some (Inr resp, s') \<Rightarrow> (case rs_data resp of Some d \<Rightarrow> pm_verdict d = MvPermit \<and> pm_is_global d \<and> length (sx_log s') = 2
        | None \<Rightarrow> False) | _ \<Rightarrow> False" by code_simp
  then obtain resp s' d where r: "run_policy_match match_device match_lab match_query match_start = Some (Inr resp, s')"
    "rs_data resp = Some d" "pm_verdict d = MvPermit" "pm_is_global d" "length (sx_log s') = 2"
    by (auto split: option.splits prod.splits sum.splits)
  from match_answer_is_the_devices [OF r(1,2)] r show ?thesis by blast
qed

end
