(* ===== verification/Srx_Policies.thy ===== *)
theory Srx_Policies
  imports Srx_Read
begin

text \<open>
  Listing the security policies: \<^verbatim>\<open>workflows/list_policies.rs\<close>. The policies of every zone pair, read so that no
  match criterion is lost, once each over the nodes of a cluster, with the hit counts where they were asked for, in
  pages.
\<close>

section \<open>Data\<close>

definition DEFAULT_POLICY_LIMIT :: u32 where "DEFAULT_POLICY_LIMIT = 500"

record policy_list_args =
  pa_router :: string
  pa_from_zone :: "string option"
  pa_to_zone :: "string option"
  pa_policy_name :: "string option"
  pa_include_hit_counts :: bool
  pa_limit :: u32
  pa_offset :: u32
  pa_include_raw :: bool

datatype policy_action = PaPermit | PaDeny | PaReject | PaPermitWithServices "string list"

datatype policy_state = PolicyEnabled | PolicyDisabled

datatype policy_log = PlNone | PlSessionInit | PlSessionClose | PlBoth

record security_policy =
  sp_from_zone :: string
  sp_to_zone :: string
  sp_name :: string
  sp_state :: policy_state
  sp_sequence :: u32
  sp_source_addresses :: "string list"
  sp_destination_addresses :: "string list"
  sp_applications :: "string list"
  sp_action :: policy_action
  sp_log :: policy_log
  sp_hit_count :: "u64 option"

record policy_list_data =
  pd_policies :: "security_policy list"
  pd_truncated :: bool
  pd_total_count :: u32

type_synonym policy_id = "string \<times> string \<times> string"

definition policy_key :: "security_policy \<Rightarrow> policy_id" where
  "policy_key p = (sp_from_zone p, sp_to_zone p, sp_name p)"

section \<open>Reading a policy\<close>

definition parse_name_list :: "string \<Rightarrow> string \<Rightarrow> xnode \<Rightarrow> string list" where
  "parse_name_list item_tag name_tag container =
     List.map_filter (\<lambda>item. child_text item name_tag) (filter (named item_tag) (children container))"

definition names_under :: "xnode \<Rightarrow> string \<Rightarrow> string \<Rightarrow> string \<Rightarrow> string list" where
  "names_under pi container_tag item_tag name_tag =
     (case find_child container_tag pi of None \<Rightarrow> [] | Some c \<Rightarrow> parse_name_list item_tag name_tag c)"

definition KNOWN_POLICY_INFORMATION_CHILDREN :: "string list" where
  "KNOWN_POLICY_INFORMATION_CHILDREN = [''policy-name'', ''policy-state'', ''policy-identifier'', ''policy-sequence-number'',
     ''source-addresses'', ''destination-addresses'', ''applications'', ''policy-action'']"

definition policy_schema :: "string \<Rightarrow> srx_error" where
  "policy_schema element = SchemaMismatch ''get-firewall-policies'' element"

definition check_policy_children :: "xnode \<Rightarrow> unit sres" where
  "check_policy_children pi =
     (case find (\<lambda>c. tag_name c \<notin> set KNOWN_POLICY_INFORMATION_CHILDREN) (filter is_element (children pi)) of
        None \<Rightarrow> Inr ()
      | Some c \<Rightarrow> Inl (SrxParse (''unrecognised <policy-information> child <'' @ tag_name c @ ''>: refusing to report this ''
          @ ''policy rather than silently drop a match criterion the parser doesn'' @ [CHR 0x27] @ ''t ''
          @ ''understand (e.g. a negated address/application match)'')))"

definition parse_policy_state :: "xnode \<Rightarrow> policy_state sres" where
  "parse_policy_state pi =
     (case child_text pi ''policy-state'' of
        None \<Rightarrow> Inl (policy_schema ''policy-state'')
      | Some t \<Rightarrow> if t = ''enabled'' then Inr PolicyEnabled
                  else if t = ''disabled'' then Inr PolicyDisabled
                  else Inl (SrxParse (''unrecognised policy-state value: '' @ t)))"

definition attached_services :: "xnode \<Rightarrow> string list" where
  "attached_services action_node =
     (case find_child ''application-services'' action_node of
        None \<Rightarrow> []
      | Some svc \<Rightarrow> map tag_name (filter is_element (children svc)))"

definition parse_policy_action :: "string \<Rightarrow> string list \<Rightarrow> policy_action sres" where
  "parse_policy_action action_type services =
     (if action_type = ''permit'' then Inr (if services \<noteq> [] then PaPermitWithServices services else PaPermit)
      else if action_type = ''deny'' then Inr PaDeny
      else if action_type = ''reject'' then Inr PaReject
      else Inl (SrxParse (''unrecognised policy action-type: '' @ action_type)))"

definition parse_policy_log :: "xnode \<Rightarrow> policy_log" where
  "parse_policy_log action_node =
     (case find_child ''policy-log'' action_node of
        None \<Rightarrow> PlNone
      | Some l \<Rightarrow>
          (case (list_ex (named ''session-init'') (children l), list_ex (named ''session-close'') (children l)) of
             (True, True) \<Rightarrow> PlBoth
           | (True, False) \<Rightarrow> PlSessionInit
           | (False, True) \<Rightarrow> PlSessionClose
           | (False, False) \<Rightarrow> PlNone))"

definition parse_policy_information :: "string \<Rightarrow> string \<Rightarrow> xnode \<Rightarrow> security_policy sres" where
  "parse_policy_information from_zone to_zone pi =
     and_then (check_policy_children pi) (\<lambda>_.
     and_then (ok_or (policy_schema ''policy-name'') (child_text pi ''policy-name'')) (\<lambda>name.
     and_then (parse_policy_state pi) (\<lambda>state.
     and_then (ok_or (policy_schema ''policy-action'') (find_child ''policy-action'' pi)) (\<lambda>action_node.
     and_then (ok_or (policy_schema ''action-type'') (child_text action_node ''action-type'')) (\<lambda>action_type.
     and_then (parse_policy_action action_type (attached_services action_node)) (\<lambda>action.
       Inr \<lparr>sp_from_zone = from_zone, sp_to_zone = to_zone, sp_name = name, sp_state = state,
         sp_sequence = (case Option.bind (child_text pi ''policy-sequence-number'') parse_uint of None \<Rightarrow> 0 | Some n \<Rightarrow> n),
         sp_source_addresses = names_under pi ''source-addresses'' ''source-address'' ''address-name'',
         sp_destination_addresses = names_under pi ''destination-addresses'' ''destination-address'' ''address-name'',
         sp_applications = names_under pi ''applications'' ''application'' ''application-name'',
         sp_action = action, sp_log = parse_policy_log action_node, sp_hit_count = None\<rparr>))))))"

section \<open>Reading a reply\<close>

text \<open>The zones of a context; a context without them is the global one.\<close>

definition context_zone :: "xnode \<Rightarrow> string \<Rightarrow> string" where
  "context_zone ctx tag =
     (case Option.bind (find_child ''context-information'' ctx) (\<lambda>c. child_text c tag) of None \<Rightarrow> ''any'' | Some z \<Rightarrow> z)"

definition context_policies :: "xnode \<Rightarrow> (string \<times> string \<times> xnode) list" where
  "context_policies ctx =
     (case find_child ''policies'' ctx of
        None \<Rightarrow> []
      | Some ps \<Rightarrow> map (\<lambda>pi. (context_zone ctx ''source-zone-name'', context_zone ctx ''destination-zone-name'', pi))
          (filter (named ''policy-information'') (children ps)))"

definition doc_policies :: "xnode \<Rightarrow> (string \<times> string \<times> xnode) list" where
  "doc_policies doc = concat (map context_policies (filter (named ''security-context'') (descendants doc)))"

text \<open>Node by node: one that has no policies configured is passed over, any other error ends the listing.\<close>

fun collect_policies :: "xml_lib \<Rightarrow> re_node list \<Rightarrow> security_policy list sres" where
  "collect_policies X [] = Inr []"
| "collect_policies X (n # ns) =
     and_then (map_err (\<lambda>e. SrxParse (''roxmltree: '' @ e)) (xl_parse X (inner_xml n))) (\<lambda>doc.
       case rpc_error_parts doc of
         Some (tag, msg) \<Rightarrow> if tag = ''not-configured'' then collect_policies X ns else Inl (SrxRpc tag ''error'' msg)
       | None \<Rightarrow>
           and_then (try_map (\<lambda>(f, t, pi). parse_policy_information f t pi) (doc_policies doc)) (\<lambda>ps.
           and_then (collect_policies X ns) (\<lambda>rest. Inr (ps @ rest))))"

definition insert_policy :: "security_policy list \<Rightarrow> security_policy \<Rightarrow> security_policy list" where
  "insert_policy acc p = (if policy_key p \<in> set (map policy_key acc) then acc else acc @ [p])"

definition all_policies :: "xml_lib \<Rightarrow> string \<Rightarrow> security_policy list sres" where
  "all_policies X reply_xml =
     and_then (multi_re_split X reply_xml) (\<lambda>nodes.
     and_then (collect_policies X nodes) (\<lambda>ps. Inr (foldl insert_policy [] ps)))"

definition join_hits :: "(policy_id \<times> u64) list option \<Rightarrow> security_policy \<Rightarrow> security_policy" where
  "join_hits hits p = (case hits of None \<Rightarrow> p | Some hc \<Rightarrow> p\<lparr>sp_hit_count := map_of hc (policy_key p)\<rparr>)"

definition parse_policies ::
    "xml_lib \<Rightarrow> string \<Rightarrow> (policy_id \<times> u64) list option \<Rightarrow> u32 \<Rightarrow> u32 \<Rightarrow> policy_list_data srx_response sres" where
  "parse_policies X reply_xml hits offset limit =
     and_then (all_policies X reply_xml) (\<lambda>ps.
       let (policies, truncated, total_count) = page offset limit (map (join_hits hits) ps)
       in Inr (active \<lparr>pd_policies = policies, pd_truncated = truncated, pd_total_count = total_count\<rparr>))"

text \<open>Hit counts: the last count for a key stands; a node in error adds none.\<close>

definition context_hits :: "xnode \<Rightarrow> (policy_id \<times> u64) list" where
  "context_hits ctx =
     List.map_filter (\<lambda>hc.
       case (child_text hc ''policy-name'', Option.bind (child_text hc ''hit-count'') parse_uint) of
         (Some name, Some cnt) \<Rightarrow> Some ((context_zone ctx ''source-zone-name'', context_zone ctx ''destination-zone-name'', name), cnt)
       | _ \<Rightarrow> None) (filter (named ''policy-hit-count'') (descendants ctx))"

fun collect_hits :: "xml_lib \<Rightarrow> re_node list \<Rightarrow> (policy_id \<times> u64) list \<Rightarrow> (policy_id \<times> u64) list sres" where
  "collect_hits X [] hits = Inr hits"
| "collect_hits X (n # ns) hits =
     and_then (map_err (\<lambda>e. SrxParse (''roxmltree: '' @ e)) (xl_parse X (inner_xml n))) (\<lambda>doc.
       if rpc_error_parts doc \<noteq> None then collect_hits X ns hits
       else collect_hits X ns
         (rev (concat (map context_hits (filter (named ''security-context'') (descendants doc)))) @ hits))"

definition parse_hit_counts :: "xml_lib \<Rightarrow> string \<Rightarrow> (policy_id \<times> u64) list sres" where
  "parse_hit_counts X reply_xml = and_then (multi_re_split X reply_xml) (\<lambda>nodes. collect_hits X nodes [])"

section \<open>The tool\<close>

definition policy_call_args :: "policy_list_args \<Rightarrow> (string \<times> string) list" where
  "policy_call_args a =
     opt_arg ''from-zone'' (pa_from_zone a) @ opt_arg ''to-zone'' (pa_to_zone a) @ opt_arg ''policy-name'' (pa_policy_name a)"

definition fetch_policy_hits ::
    "'w srx_device \<Rightarrow> xml_lib \<Rightarrow> (string \<times> string) list \<Rightarrow> ((policy_id \<times> u64) list option, 'w) srx_m" where
  "fetch_policy_hits D X args s =
     (let (r, s') = try_call D (rpc_with ''get-security-policies-hit-count'' args) s in
      Some (Inr (case r of
          Inl _ \<Rightarrow> None
        | Inr xml \<Rightarrow> (case parse_hit_counts X xml of Inl _ \<Rightarrow> None | Inr m \<Rightarrow> Some m)), s'))"

definition run_list_policies :: "'w srx_device \<Rightarrow> xml_lib \<Rightarrow> policy_list_args \<Rightarrow> (policy_list_data srx_response, 'w) srx_m" where
  "run_list_policies D X a =
     sx_bind (sx_ret (check_router (pa_router a))) (\<lambda>_.
     sx_bind (open_rpc D) (\<lambda>_.
     sx_bind (call D (rpc_with ''get-firewall-policies'' (policy_call_args a))) (\<lambda>reply.
     sx_bind (if pa_include_hit_counts a then fetch_policy_hits D X (policy_call_args a) else sx_ret (Inr None)) (\<lambda>hits.
     sx_bind (sx_ret (parse_policies X reply hits (pa_offset a) (pa_limit a))) (\<lambda>parsed.
       sx_ret (Inr (if pa_include_raw a then with_raw reply parsed else parsed)))))))"

section \<open>What a listing says\<close>











text \<open>
  Policies of the same zone pair and name count as one whatever they say: of two nodes that disagree, the second is not
  reported.
\<close>

lemma disagreeing_policy_is_dropped: "policy_key p = policy_key q \<Longrightarrow> foldl insert_policy [] [p, q] = [p]"
  by (simp add: insert_policy_def)

end
