(* ===== verification/Srx_Nat.thy ===== *)
theory Srx_Nat
  imports Srx_Read
begin

text \<open>
  Listing the NAT rules: \<^verbatim>\<open>workflows/list_nat_rules.rs\<close>. The source, destination and static rules of the
  configuration, read so that no match criterion is lost, with hit counts where they were asked for. Reading a
  network prefix is the library's and a parameter.
\<close>

section \<open>Data\<close>

definition DEFAULT_NAT_RULE_LIMIT :: u32 where "DEFAULT_NAT_RULE_LIMIT = 500"

datatype nat_selector = NatZone string | NatInterface string | NatRoutingInstance string

record nat_port_match =
  np_low :: u16
  np_high :: u16

record nat_match =
  nm_source_addresses :: "string list"
  nm_destination_addresses :: "string list"
  nm_applications :: "string list"
  nm_source_ports :: "nat_port_match list"
  nm_destination_ports :: "nat_port_match list"
  nm_protocols :: "string list"

datatype source_translation = SourcePool string | SourceInterface | SourceOff

text \<open>
  A rule, with the kind's translation; only the source rules have a \<^verbatim>\<open>to\<close>, which is empty in the others.
\<close>

record 't nat_rule =
  nr_rule_set :: string
  nr_name :: string
  nr_sequence :: u32
  nr_from :: "nat_selector list"
  nr_to :: "nat_selector list"
  nr_match :: nat_match
  nr_translation :: 't
  nr_active :: bool
  nr_hit_count :: "u64 option"

record nat_rules =
  nl_source :: "source_translation nat_rule list"
  nl_destination :: "string nat_rule list"
  nl_static :: "ip_net nat_rule list"
  nl_truncated :: bool

section \<open>Selectors, ports and addresses\<close>

definition parse_selector :: "string \<Rightarrow> xnode \<Rightarrow> nat_selector sres" where
  "parse_selector container_tag c =
     (let text = str_trim (opt_str (node_text c)); tag = tag_name c in
      if tag = ''zone'' then Inr (NatZone text)
      else if tag = ''interface'' then Inr (NatInterface text)
      else if tag = ''routing-instance'' then Inr (NatRoutingInstance text)
      else Inl (SrxParse (''unrecognised NAT rule-set <'' @ container_tag @ ''> selector <'' @ tag @ ''>'')))"

definition parse_zone_selector_list :: "xnode \<Rightarrow> nat_selector list sres" where
  "parse_zone_selector_list container =
     and_then (try_map (parse_selector (tag_name container)) (filter is_element (children container))) (\<lambda>selectors.
       if selectors = []
       then Inl (schema_mismatch (if tag_name container = ''to'' then ''rule-set/to (zone|interface|routing-instance)''
              else ''rule-set/from (zone|interface|routing-instance)''))
       else Inr selectors)"

definition parse_from :: "xnode \<Rightarrow> nat_selector list sres" where
  "parse_from rule_set =
     and_then (ok_or (schema_mismatch ''rule-set/from'') (find_child ''from'' rule_set)) parse_zone_selector_list"

definition parse_to :: "xnode \<Rightarrow> nat_selector list sres" where
  "parse_to rule_set = (case find_child ''to'' rule_set of None \<Rightarrow> Inr [] | Some t \<Rightarrow> parse_zone_selector_list t)"

definition own_text :: "xnode \<Rightarrow> string option" where
  "own_text n =
     (case map_option str_trim (node_text n) of None \<Rightarrow> None | Some t \<Rightarrow> if t = [] then None else Some t)"

definition parse_match_address :: "string \<Rightarrow> xnode \<Rightarrow> string sres" where
  "parse_match_address inner_tag n =
     (case own_text n of
        Some t \<Rightarrow> Inr t
      | None \<Rightarrow> ok_or (SrxParse (''empty or unrecognised <'' @ tag_name n @ ''> in NAT match: neither literal text nor <''
          @ inner_tag @ ''> child'')) (child_text n inner_tag))"

definition port_value :: "string \<Rightarrow> string \<Rightarrow> u16 sres" where
  "port_value complaint t = ok_or (SrxParse complaint) (parse_uint t)"

definition parse_nat_port :: "xnode \<Rightarrow> nat_port_match sres" where
  "parse_nat_port n =
     (case own_text n of
        Some t \<Rightarrow>
          (case find_char (CHR ''-'') t of
             Some i \<Rightarrow>
               and_then (port_value (''invalid port range: '' @ t) (str_trim (take i t))) (\<lambda>lo.
               and_then (port_value (''invalid port range: '' @ t) (str_trim (drop (Suc i) t))) (\<lambda>hi.
                 Inr \<lparr>np_low = lo, np_high = hi\<rparr>))
           | None \<Rightarrow> and_then (port_value (''invalid port: '' @ t) (str_trim t)) (\<lambda>p. Inr \<lparr>np_low = p, np_high = p\<rparr>))
      | None \<Rightarrow>
          (case (child_text n ''low'', child_text n ''high'') of
             (Some lo, Some hi) \<Rightarrow>
               and_then (port_value (''invalid port low: '' @ lo) lo) (\<lambda>l.
               and_then (port_value (''invalid port high: '' @ hi) hi) (\<lambda>h. Inr \<lparr>np_low = l, np_high = h\<rparr>))
           | _ \<Rightarrow> Inl (SrxParse (''empty or unrecognised <'' @ tag_name n @ ''> port match''))))"

section \<open>Match blocks\<close>

definition KNOWN_MATCH_CHILDREN :: "string list" where
  "KNOWN_MATCH_CHILDREN = [''source-address'', ''source-address-name'', ''destination-address'', ''destination-address-name'',
     ''application'', ''source-port'', ''destination-port'', ''protocol'']"

definition no_criteria :: nat_match where
  "no_criteria = \<lparr>nm_source_addresses = [], nm_destination_addresses = [], nm_applications = [], nm_source_ports = [],
     nm_destination_ports = [], nm_protocols = []\<rparr>"

definition required_text :: "string \<Rightarrow> xnode \<Rightarrow> string sres" where
  "required_text complaint c = ok_or (SrxParse complaint) (own_text c)"

definition match_child :: "nat_match \<Rightarrow> xnode \<Rightarrow> nat_match sres" where
  "match_child m c =
     (let tag = tag_name c in
      if tag \<notin> set KNOWN_MATCH_CHILDREN
      then Inl (SrxParse (''unrecognised NAT match child <'' @ tag @ ''>: refusing to report this rule rather ''
        @ ''than silently drop a match criterion the parser doesn'' @ [CHR 0x27] @ ''t understand''))
      else if tag = ''source-address''
      then and_then (parse_match_address ''src-addr'' c) (\<lambda>a. Inr (m\<lparr>nm_source_addresses := nm_source_addresses m @ [a]\<rparr>))
      else if tag = ''source-address-name''
      then and_then (required_text ''empty <source-address-name>'' c) (\<lambda>a. Inr (m\<lparr>nm_source_addresses := nm_source_addresses m @ [a]\<rparr>))
      else if tag = ''destination-address''
      then and_then (parse_match_address ''dst-addr'' c) (\<lambda>a. Inr (m\<lparr>nm_destination_addresses := nm_destination_addresses m @ [a]\<rparr>))
      else if tag = ''destination-address-name''
      then and_then (required_text ''empty <destination-address-name>'' c)
             (\<lambda>a. Inr (m\<lparr>nm_destination_addresses := nm_destination_addresses m @ [a]\<rparr>))
      else if tag = ''application''
      then and_then (required_text ''empty <application> in NAT match'' c) (\<lambda>a. Inr (m\<lparr>nm_applications := nm_applications m @ [a]\<rparr>))
      else if tag = ''source-port''
      then and_then (parse_nat_port c) (\<lambda>p. Inr (m\<lparr>nm_source_ports := nm_source_ports m @ [p]\<rparr>))
      else if tag = ''destination-port''
      then and_then (parse_nat_port c) (\<lambda>p. Inr (m\<lparr>nm_destination_ports := nm_destination_ports m @ [p]\<rparr>))
      else and_then (required_text ''empty <protocol> in NAT match'' c) (\<lambda>p. Inr (m\<lparr>nm_protocols := nm_protocols m @ [p]\<rparr>)))"

fun match_children :: "nat_match \<Rightarrow> xnode list \<Rightarrow> nat_match sres" where
  "match_children m [] = Inr m"
| "match_children m (c # cs) = and_then (match_child m c) (\<lambda>m'. match_children m' cs)"

definition match_container :: "string list \<Rightarrow> xnode \<Rightarrow> xnode option" where
  "match_container tags rule = find (\<lambda>n. is_element n \<and> tag_name n \<in> set tags) (children rule)"

definition parse_match :: "string list \<Rightarrow> xnode \<Rightarrow> nat_match sres" where
  "parse_match tags rule =
     and_then (ok_or (SrxParse (''rule has no recognised match container (tried '' @ debug_strings tags @ '')'')) (match_container tags rule))
       (\<lambda>c. match_children no_criteria (filter is_element (children c)))"

section \<open>Translations\<close>

definition source_then :: "xnode \<Rightarrow> source_translation sres" where
  "source_then sn =
     (if list_ex (named ''off'') (children sn) then Inr SourceOff
      else if list_ex (named ''interface'') (children sn) then Inr SourceInterface
      else (case find_child ''pool'' sn of
              Some pl \<Rightarrow> and_then (ok_or (schema_mismatch ''source-nat/pool/pool-name'') (child_text pl ''pool-name''))
                (\<lambda>n. Inr (SourcePool n))
            | None \<Rightarrow> Inl (schema_mismatch ''source-nat'')))"

definition destination_then :: "xnode \<Rightarrow> string sres" where
  "destination_then dn =
     and_then (ok_or (schema_mismatch ''destination-nat/pool'') (find_child ''pool'' dn)) (\<lambda>pl.
       ok_or (schema_mismatch ''destination-nat/pool/pool-name'') (child_text pl ''pool-name''))"

definition static_then :: "(string \<Rightarrow> ip_net option) \<Rightarrow> xnode \<Rightarrow> ip_net sres" where
  "static_then parse_net sn =
     and_then (ok_or (schema_mismatch ''static-nat/prefix'') (find_child ''prefix'' sn)) (\<lambda>pn.
     and_then (ok_or (schema_mismatch ''static-nat/prefix/addr-prefix'') (child_text pn ''addr-prefix'')) (\<lambda>t.
       ok_or (SrxParse (''invalid addr-prefix: '' @ t)) (parse_net t)))"

section \<open>Rules\<close>

text \<open>What tells the kinds apart: the match containers, the element under \<^verbatim>\<open>then\<close>, its reader, and whether \<^verbatim>\<open>to\<close> is read.\<close>

record 't nat_kind =
  nk_match_tags :: "string list"
  nk_then_tag :: string
  nk_translation :: "xnode \<Rightarrow> 't sres"
  nk_reads_to :: bool

definition source_kind :: "source_translation nat_kind" where
  "source_kind = \<lparr>nk_match_tags = [''src-nat-rule-match'', ''match''], nk_then_tag = ''source-nat'', nk_translation = source_then,
     nk_reads_to = True\<rparr>"

definition destination_kind :: "string nat_kind" where
  "destination_kind = \<lparr>nk_match_tags = [''dnat-rule-match'', ''dest-nat-rule-match'', ''match''], nk_then_tag = ''destination-nat'',
     nk_translation = destination_then, nk_reads_to = False\<rparr>"

definition static_kind :: "(string \<Rightarrow> ip_net option) \<Rightarrow> ip_net nat_kind" where
  "static_kind parse_net = \<lparr>nk_match_tags = [''static-nat-rule-match'', ''match''], nk_then_tag = ''static-nat'',
     nk_translation = static_then parse_net, nk_reads_to = False\<rparr>"

type_synonym nat_hits = "((string \<times> string) \<times> u64) list"

definition parse_rule ::
    "'t nat_kind \<Rightarrow> nat_hits \<Rightarrow> xnode \<Rightarrow> string \<Rightarrow> nat_selector list \<Rightarrow> nat_selector list \<Rightarrow> nat \<times> xnode \<Rightarrow> 't nat_rule sres" where
  "parse_rule K hits rule_set set_name from to = (\<lambda>(i, rule).
     and_then (ok_or (schema_mismatch ''rule/name'') (child_text rule ''name'')) (\<lambda>name.
     and_then (parse_match (nk_match_tags K) rule) (\<lambda>m.
     and_then (ok_or (schema_mismatch ''rule/then'') (find_child ''then'' rule)) (\<lambda>th.
     and_then (ok_or (schema_mismatch (''then/'' @ nk_then_tag K)) (find_child (nk_then_tag K) th)) (\<lambda>n.
     and_then (nk_translation K n) (\<lambda>translation.
       Inr \<lparr>nr_rule_set = set_name, nr_name = name, nr_sequence = word_of_nat i + 1, nr_from = from, nr_to = to, nr_match = m,
         nr_translation = translation, nr_active = (\<not> is_inactive rule_set \<and> \<not> is_inactive rule),
         nr_hit_count = map_of hits (set_name, name)\<rparr>))))))"

definition rules_of :: "xnode \<Rightarrow> (nat \<times> xnode) list" where
  "rules_of rule_set = enumerate 0 (filter (named ''rule'') (children rule_set))"

definition parse_rule_set :: "'t nat_kind \<Rightarrow> nat_hits \<Rightarrow> xnode \<Rightarrow> 't nat_rule list sres" where
  "parse_rule_set K hits rule_set =
     and_then (ok_or (schema_mismatch ''rule-set/name'') (child_text rule_set ''name'')) (\<lambda>set_name.
     and_then (parse_from rule_set) (\<lambda>from.
     and_then (if nk_reads_to K then parse_to rule_set else Inr []) (\<lambda>to.
       try_map (parse_rule K hits rule_set set_name from to) (rules_of rule_set))))"

definition first_usable_node :: "xml_lib \<Rightarrow> string \<Rightarrow> string option sres" where
  "first_usable_node X reply_xml =
     and_then (multi_re_split X reply_xml) (\<lambda>nodes.
     and_then (first_answering X nodes) (\<lambda>n. Inr (map_option inner_xml n)))"

definition parse_kind :: "xml_lib \<Rightarrow> 't nat_kind \<Rightarrow> string \<Rightarrow> nat_hits \<Rightarrow> u32 \<Rightarrow> ('t nat_rule list \<times> bool) sres" where
  "parse_kind X K reply_xml hits limit =
     and_then (first_usable_node X reply_xml) (\<lambda>usable.
       case usable of
         None \<Rightarrow> Inr ([], False)
       | Some inner \<Rightarrow>
           and_then (map_err (\<lambda>e. SrxParse (''roxmltree: '' @ e)) (xl_parse X (sanitize_rustez_xml inner))) (\<lambda>doc.
           and_then (try_map (parse_rule_set K hits) (filter (named ''rule-set'') (descendants doc))) (\<lambda>rss.
             let rules = concat rss in Inr (rules, unat limit < length rules))))"

definition parse_nat_rules ::
    "xml_lib \<Rightarrow> (string \<Rightarrow> ip_net option) \<Rightarrow> string \<Rightarrow> string \<Rightarrow> string \<Rightarrow> nat_hits \<Rightarrow> u32 \<Rightarrow> nat_rules srx_response sres" where
  "parse_nat_rules X parse_net source_xml destination_xml static_xml hits limit =
     and_then (parse_kind X source_kind source_xml hits limit) (\<lambda>(source, source_truncated).
     and_then (parse_kind X destination_kind destination_xml hits limit) (\<lambda>(destination, dest_truncated).
     and_then (parse_kind X (static_kind parse_net) static_xml hits limit) (\<lambda>(static_nat, static_truncated).
       Inr (active \<lparr>nl_source = take (unat limit) source, nl_destination = take (unat limit) destination,
         nl_static = take (unat limit) static_nat, nl_truncated = (source_truncated \<or> dest_truncated \<or> static_truncated)\<rparr>))))"

section \<open>Hit counts\<close>

definition rule_set_hits :: "xnode \<Rightarrow> nat_hits" where
  "rule_set_hits rs =
     (case child_text rs ''name'' of
        None \<Rightarrow> []
      | Some set_name \<Rightarrow>
          List.map_filter (\<lambda>rule.
            case (child_text rule ''name'', Option.bind (child_text rule ''translation-hits'') parse_uint) of
              (Some name, Some c) \<Rightarrow> Some ((set_name, name), c)
            | _ \<Rightarrow> None) (filter (named ''rule'') (children rs)))"

fun collect_nat_hits :: "xml_lib \<Rightarrow> re_node list \<Rightarrow> nat_hits \<Rightarrow> nat_hits sres" where
  "collect_nat_hits X [] hits = Inr hits"
| "collect_nat_hits X (n # ns) hits =
     and_then (map_err (\<lambda>e. SrxParse (''roxmltree: '' @ e)) (xl_parse X (sanitize_rustez_xml (inner_xml n)))) (\<lambda>doc.
       if rpc_error_parts doc \<noteq> None then collect_nat_hits X ns hits
       else collect_nat_hits X ns (rev (concat (map rule_set_hits (filter (named ''rule-set'') (descendants doc)))) @ hits))"

definition parse_nat_hit_counts :: "xml_lib \<Rightarrow> string \<Rightarrow> nat_hits sres" where
  "parse_nat_hit_counts X reply_xml = and_then (multi_re_split X reply_xml) (\<lambda>nodes. collect_nat_hits X nodes [])"

fun fetch_hit_counts :: "'w srx_device \<Rightarrow> xml_lib \<Rightarrow> string list \<Rightarrow> nat_hits \<Rightarrow> 'w srx_run \<Rightarrow> nat_hits \<times> 'w srx_run" where
  "fetch_hit_counts D X [] hits s = (hits, s)"
| "fetch_hit_counts D X (rpc # rpcs) hits s =
     (let (r, s') = try_call D (rpc_with rpc [(''all'', [])]) s;
          new = (case r of Inl _ \<Rightarrow> [] | Inr xml \<Rightarrow> (case parse_nat_hit_counts X xml of Inl _ \<Rightarrow> [] | Inr m \<Rightarrow> m))
      in fetch_hit_counts D X rpcs (new @ hits) s')"

definition NAT_HIT_RPCS :: "string list" where
  "NAT_HIT_RPCS = [''get-source-nat-rule-sets-information'', ''get-destination-nat-rule-sets-information'',
     ''get-static-nat-rule-information'']"

definition run_list_nat_rules ::
    "'w srx_device \<Rightarrow> xml_lib \<Rightarrow> (string \<Rightarrow> ip_net option) \<Rightarrow> string \<Rightarrow> bool \<Rightarrow> u32 \<Rightarrow> bool \<Rightarrow> (nat_rules srx_response, 'w) srx_m" where
  "run_list_nat_rules D X parse_net router include_hits limit include_raw =
     sx_bind (sx_ret (check_router router)) (\<lambda>_.
     sx_bind (open_rpc D) (\<lambda>_.
     sx_bind (get_configuration_subtree D ''<security><nat><source/></nat></security>'') (\<lambda>source_xml.
     sx_bind (get_configuration_subtree D ''<security><nat><destination/></nat></security>'') (\<lambda>destination_xml.
     sx_bind (get_configuration_subtree D ''<security><nat><static/></nat></security>'') (\<lambda>static_xml.
     sx_bind (\<lambda>s. if include_hits then (let (h, s') = fetch_hit_counts D X NAT_HIT_RPCS [] s in Some (Inr h, s')) else Some (Inr [], s)) (\<lambda>hits.
     sx_bind (sx_ret (parse_nat_rules X parse_net source_xml destination_xml static_xml hits limit)) (\<lambda>parsed.
       sx_ret (Inr (if include_raw
         then with_raw (''<!-- source -->'' @ [NL] @ source_xml @ [NL] @ ''<!-- destination -->'' @ [NL] @ destination_xml @ [NL]
           @ ''<!-- static -->'' @ [NL] @ static_xml) parsed
         else parsed)))))))))"

section \<open>No criterion is lost\<close>












text \<open>
  The counts of the three kinds share their keys: where a source rule and a destination rule have the same set and
  name, the source rule is shown with the destination rule's count.
\<close>

lemma hit_counts_of_kinds_mix:
  assumes "try_call D (rpc_with a [(''all'', [])]) s = (Inr x, s1)" "parse_nat_hit_counts X x = Inr m1"
    and "try_call D (rpc_with b [(''all'', [])]) s1 = (Inr y, s2)" "parse_nat_hit_counts X y = Inr m2"
    and "map_of m1 k = Some n1" "map_of m2 k = Some n2"
  shows "map_of (fst (fetch_hit_counts D X [a, b] [] s)) k = Some n2"
  using assms by (simp add: map_add_def)

end
