(* ===== verification/Srx_Services.thy ===== *)
theory Srx_Services
  imports Srx_Read
begin

text \<open>
  The state of the security services: \<^verbatim>\<open>workflows/services_status.rs\<close>. Five requests whose failures are kept
  per service, read per node, and put together in one response.
\<close>

section \<open>Data\<close>

text \<open>A captured request: the raw reply, and its parts per routing engine or what went wrong.\<close>

record sub_call =
  sc_raw :: string
  sc_result :: "string + re_node list"

record 'a sub_status =
  ss_state :: srx_state_tag
  ss_data :: "'a option"
  ss_reason :: "string option"

definition sub_active :: "'a \<Rightarrow> 'a sub_status" where
  "sub_active d = \<lparr>ss_state = Active, ss_data = Some d, ss_reason = None\<rparr>"

definition sub_not_configured :: "string \<Rightarrow> 'a sub_status" where
  "sub_not_configured reason = \<lparr>ss_state = NotConfigured, ss_data = None, ss_reason = Some reason\<rparr>"

definition sub_error :: "string \<Rightarrow> 'a sub_status" where
  "sub_error reason = \<lparr>ss_state = SrxStateError, ss_data = None, ss_reason = Some reason\<rparr>"

record idp_info =
  ii_package_version :: string
  ii_detector_version :: string

record node_services =
  ns_re_name :: string
  ns_idp :: "idp_info sub_status"
  ns_appid :: "string sub_status"
  ns_utm_av :: "string sub_status"
  ns_secintel :: "string list sub_status"
  ns_atp_cloud :: "string option sub_status"

section \<open>Reading one service\<close>

text \<open>
  What the five readers begin with: a reply that does not parse is an error, and so is an \<^verbatim>\<open>rpc-error\<close> other than
  \<^verbatim>\<open>not-configured\<close>.
\<close>

definition with_service_doc :: "xml_lib \<Rightarrow> string \<Rightarrow> (xnode \<Rightarrow> 'a sub_status) \<Rightarrow> 'a sub_status" where
  "with_service_doc X xml body =
     (case xl_parse X xml of
        Inl e \<Rightarrow> sub_error (''xml parse error: '' @ e)
      | Inr root \<Rightarrow>
          (case rpc_error_parts root of
             Some (tag, reason) \<Rightarrow> if tag = ''not-configured'' then sub_not_configured reason else sub_error reason
           | None \<Rightarrow> body root))"

definition parse_idp_status :: "xml_lib \<Rightarrow> string \<Rightarrow> idp_info sub_status" where
  "parse_idp_status X xml = with_service_doc X xml (\<lambda>root.
     case find_descendant ''idp-security-package-information'' root of
       None \<Rightarrow> sub_not_configured ''idp-security-package-information element absent''
     | Some el \<Rightarrow> sub_active \<lparr>ii_package_version = opt_str (child_str ''security-package-version'' el),
         ii_detector_version = opt_str (child_str ''detector-version'' el)\<rparr>)"

definition parse_appid_status :: "xml_lib \<Rightarrow> string \<Rightarrow> string sub_status" where
  "parse_appid_status X xml = with_service_doc X xml (\<lambda>root.
     case find_descendant ''appid-package-version'' root of
       None \<Rightarrow> sub_not_configured ''appid-package-version element absent''
     | Some el \<Rightarrow> sub_active (opt_str (child_str ''version-detail'' el)))"

definition parse_utm_av :: "xml_lib \<Rightarrow> string \<Rightarrow> string sub_status" where
  "parse_utm_av X xml = with_service_doc X xml (\<lambda>root.
     let engine_type = opt_str (trimmed_text ''anti-virus-scan-engine-type'' root)
     in if engine_type = [] \<or> engine_type = ''no-config''
        then sub_not_configured ''UTM anti-virus not configured (no-config)''
        else sub_active engine_type)"

definition parse_secintel :: "xml_lib \<Rightarrow> string \<Rightarrow> string list sub_status" where
  "parse_secintel X xml = with_service_doc X xml (\<lambda>root.
     let feeds = filter (\<lambda>s. s \<noteq> []) (map str_trim (List.map_filter node_text (filter (named ''feed-name'') (descendants root))));
         has_summary = list_ex (named ''secintel-feed-summary'') (descendants root)
     in if \<not> has_summary \<and> feeds = [] then sub_not_configured ''secintel-feed-summary element absent''
        else sub_active feeds)"

definition parse_atp :: "xml_lib \<Rightarrow> string \<Rightarrow> string option sub_status" where
  "parse_atp X xml = with_service_doc X xml (\<lambda>root.
     if list_ex (named ''aamw-errors'') (descendants root)
     then sub_not_configured ''AAMW/ATP Cloud not configured (no connection URL)''
     else (case find_descendant ''aamw-status'' root of
             None \<Rightarrow> sub_not_configured ''aamw-status element absent''
           | Some st \<Rightarrow> sub_active (child_str ''aamw-connection-url'' st)))"

definition per_node :: "sub_call \<Rightarrow> nat \<Rightarrow> (string \<Rightarrow> 'a sub_status) \<Rightarrow> 'a sub_status" where
  "per_node sub index parse =
     (case sc_result sub of
        Inl reason \<Rightarrow> sub_error reason
      | Inr nodes \<Rightarrow> if index < length nodes then parse (inner_xml (nodes ! index))
                     else sub_error ''no payload for this RE node'')"

section \<open>The response\<close>

text \<open>The node names are those of the first request that gave a readable reply.\<close>

definition service_nodes :: "sub_call list \<Rightarrow> string list" where
  "service_nodes subs =
     (case List.map_filter (\<lambda>sub. case sc_result sub of Inl _ \<Rightarrow> None | Inr nodes \<Rightarrow> Some nodes) subs of
        [] \<Rightarrow> [[]]
      | nodes # _ \<Rightarrow> map re_name nodes)"

definition node_status ::
    "xml_lib \<Rightarrow> sub_call \<Rightarrow> sub_call \<Rightarrow> sub_call \<Rightarrow> sub_call \<Rightarrow> sub_call \<Rightarrow> nat \<times> string \<Rightarrow> node_services" where
  "node_status X idp appid utm secintel atp = (\<lambda>(i, name).
     \<lparr>ns_re_name = name, ns_idp = per_node idp i (parse_idp_status X), ns_appid = per_node appid i (parse_appid_status X),
      ns_utm_av = per_node utm i (parse_utm_av X), ns_secintel = per_node secintel i (parse_secintel X),
      ns_atp_cloud = per_node atp i (parse_atp X)\<rparr>)"

definition node_absent :: "node_services \<Rightarrow> bool" where
  "node_absent n \<longleftrightarrow> ss_state (ns_idp n) = NotConfigured \<and> ss_state (ns_appid n) = NotConfigured
     \<and> ss_state (ns_utm_av n) = NotConfigured \<and> ss_state (ns_secintel n) = NotConfigured
     \<and> ss_state (ns_atp_cloud n) = NotConfigured"

definition services_response ::
    "xml_lib \<Rightarrow> sub_call \<Rightarrow> sub_call \<Rightarrow> sub_call \<Rightarrow> sub_call \<Rightarrow> sub_call \<Rightarrow> node_services list srx_response" where
  "services_response X idp appid utm secintel atp =
     (let nodes = map (node_status X idp appid utm secintel atp) (enumerate 0 (service_nodes [idp, appid, utm, secintel, atp]))
      in if list_all node_absent nodes then not_configured ''no SRX security services configured on this device''
         else active nodes)"

text \<open>Printing an error needs the printer of JSON values.\<close>

definition capture_nodes ::
    "(json \<Rightarrow> string) \<Rightarrow> 'w srx_device \<Rightarrow> xml_lib \<Rightarrow> string \<Rightarrow> (sub_call, 'w) srx_m" where
  "capture_nodes pj D X rpc s =
     (let (r, s') = try_call D (RpcCall rpc) s in
      Some (Inr (case r of
          Inr xml \<Rightarrow> \<lparr>sc_raw = xml,
            sc_result = map_err (\<lambda>e. ''xml split error: '' @ srx_error_to_string pj e) (multi_re_split X xml)\<rparr>
        | Inl e \<Rightarrow> \<lparr>sc_raw = [], sc_result = Inl (''rpc error: '' @ rz_text e)\<rparr>), s'))"

definition run_services_status ::
    "(json \<Rightarrow> string) \<Rightarrow> 'w srx_device \<Rightarrow> xml_lib \<Rightarrow> string \<Rightarrow> bool \<Rightarrow> (node_services list srx_response, 'w) srx_m" where
  "run_services_status pj D X router include_raw =
     sx_bind (sx_ret (check_router router)) (\<lambda>_.
     sx_bind (open_rpc D) (\<lambda>_.
     sx_bind (capture_nodes pj D X ''get-idp-security-package-information'') (\<lambda>idp.
     sx_bind (capture_nodes pj D X ''get-appid-package-version'') (\<lambda>appid.
     sx_bind (capture_nodes pj D X ''get-anti-virus-status'') (\<lambda>utm.
     sx_bind (capture_nodes pj D X ''get-secintel-feed-summary'') (\<lambda>secintel.
     sx_bind (capture_nodes pj D X ''get-aamw-status'') (\<lambda>atp.
       let resp = services_response X idp appid utm secintel atp in
       sx_ret (Inr (if include_raw
         then with_raw (''<!-- idp -->'' @ [NL] @ sc_raw idp @ [NL] @ ''<!-- appid -->'' @ [NL] @ sc_raw appid @ [NL]
           @ ''<!-- utm -->'' @ [NL] @ sc_raw utm @ [NL] @ ''<!-- secintel -->'' @ [NL] @ sc_raw secintel @ [NL]
           @ ''<!-- atp -->'' @ [NL] @ sc_raw atp) resp
         else resp)))))))))"

section \<open>A check that failed is not an absent service\<close>

lemma sub_status_simps [simp]:
  "ss_state (sub_active d) = Active" "ss_state (sub_not_configured r) = NotConfigured" "ss_state (sub_error r) = SrxStateError"
  "ss_reason (sub_error r) = Some r"
  by (simp_all add: sub_active_def sub_not_configured_def sub_error_def)

lemma per_node_failed: "sc_result sub = Inl reason \<Longrightarrow> per_node sub i parse = sub_error reason"
  by (simp add: per_node_def)






text \<open>
  A request that failed is reported: the response is not an absence, and that service is in error, with the
  reason, at every node.
\<close>

lemma failed_secintel_is_reported:
  assumes "sc_result secintel = Inl reason" "service_nodes [idp, appid, utm, secintel, atp] \<noteq> []"
  shows "\<exists>nodes. services_response X idp appid utm secintel atp = active nodes \<and> nodes \<noteq> []
    \<and> list_all (\<lambda>n. ns_secintel n = sub_error reason) nodes"
proof -
  let ?names = "service_nodes [idp, appid, utm, secintel, atp]"
  let ?nodes = "map (node_status X idp appid utm secintel atp) (enumerate 0 ?names)"
  have e: "list_all (\<lambda>n. ns_secintel n = sub_error reason) ?nodes"
    by (auto simp: list_all_iff node_status_def per_node_failed [OF assms(1)])
  have ne: "?nodes \<noteq> []" using assms(2) by (cases ?names) simp_all
  then have "\<not> list_all node_absent ?nodes" using e
    by (cases ?nodes) (auto simp: node_absent_def)
  then show ?thesis using e ne by (intro exI [of _ ?nodes]) (simp add: services_response_def Let_def)
qed

text \<open>
  Where the reply the node names come from is an envelope without parts, the report says no service is configured,
  whatever the other requests found.
\<close>

lemma empty_envelope_hides_services:
  "sc_result idp = Inr [] \<Longrightarrow>
     services_response X idp appid utm secintel atp = not_configured ''no SRX security services configured on this device''"
  by (simp add: services_response_def service_nodes_def List.map_filter_simps)

text \<open>
  The parts of the replies are paired by position: where a later reply lists the nodes in another order, a node is
  reported with the state of the other one.
\<close>

lemma misordered_reply_swaps_nodes:
  assumes "sc_result idp = Inr [\<lparr>re_name = ''node0'', inner_xml = a\<rparr>, \<lparr>re_name = ''node1'', inner_xml = b\<rparr>]"
    and "sc_result appid = Inr [\<lparr>re_name = ''node1'', inner_xml = c\<rparr>, \<lparr>re_name = ''node0'', inner_xml = d\<rparr>]"
    and "services_response X idp appid utm secintel atp = active nodes"
  shows "map (\<lambda>n. (ns_re_name n, ns_appid n)) nodes =
    [(''node0'', parse_appid_status X c), (''node1'', parse_appid_status X d)]"
  using assms
  by (auto simp: services_response_def service_nodes_def List.map_filter_simps node_status_def per_node_def
      Let_def active_def not_configured_def split: if_splits)

end
