(* ===== verification/Srx_Vpn.thy ===== *)
theory Srx_Vpn
  imports Srx_Read
begin

text \<open>
  The VPN report: \<^verbatim>\<open>workflows/vpn_lifecycle.rs\<close>. The IKE and the IPsec associations of every node, and which
  tunnels belong to which IKE association.
\<close>

section \<open>Data\<close>

record ike_sa =
  ik_index :: "u64 option"
  ik_remote_address :: string
  ik_state :: string
  ik_mode :: string
  ik_initiator_cookie :: string
  ik_responder_cookie :: string
  ik_lifetime_remaining_seconds :: "u64 option"
  ik_gateway_name :: "string option"

record ipsec_sa =
  is_tunnel_id :: "u32 option"
  is_direction :: string
  is_gateway :: string
  is_spi :: string
  is_block_state :: string
  is_lifetime_remaining_seconds :: "u64 option"
  is_lifetime_remaining_kilobytes :: "u64 option"

record vpn_correlation =
  vc_ike_sa_index :: "u64 option"
  vc_ipsec_sa_tunnel_ids :: "u32 list"

record node_vpn_report =
  nv_re_name :: string
  nv_ike_sas :: "ike_sa list"
  nv_ipsec_sas :: "ipsec_sa list"
  nv_correlations :: "vpn_correlation list"

section \<open>Reading the replies\<close>

definition parse_lifetime_seconds :: "string \<Rightarrow> u64 option" where
  "parse_lifetime_seconds text =
     Option.bind (strip_prefix ''Expires in '' (str_trim text)) (\<lambda>rest.
     Option.bind (strip_suffix '' seconds'' rest) (\<lambda>digits. parse_uint (str_trim digits)))"

text \<open>An element under an error that says the feature is absent.\<close>

definition absence_marker :: "xnode \<Rightarrow> bool" where
  "absence_marker n \<longleftrightarrow>
     (named ''error-tag'' n \<and> (case node_text n of None \<Rightarrow> False
        | Some t \<Rightarrow> str_trim t = ''not-configured'' \<or> str_trim t = ''data-missing''))
     \<or> (named ''message'' n \<and> (case node_text n of None \<Rightarrow> False
        | Some t \<Rightarrow> str_contains ''not configured'' (to_ascii_lowercase t)
            \<or> str_contains ''not enabled'' (to_ascii_lowercase t)))"

definition vpn_not_configured_xml :: "xml_lib \<Rightarrow> string \<Rightarrow> bool sres" where
  "vpn_not_configured_xml X raw =
     (let xml = str_trim raw in
      if xml = [] then Inr False
      else
        and_then (map_err (\<lambda>e. SrxParse (''roxmltree: '' @ e)) (xl_parse X (sanitize_rustez_xml xml))) (\<lambda>root.
          let root_is_error = is_error_element root;
              errors = (if root_is_error then [root] else filter (\<lambda>n. is_element n \<and> is_error_element n) (children root));
              any_error = root_is_error \<or> list_ex (\<lambda>n. is_element n \<and> is_error_element n) (children root);
              has_sa_info = list_ex (\<lambda>n. named ''ike-security-associations-information'' n
                  \<or> named ''ipsec-security-associations-information'' n) (descendants root)
          in if \<not> any_error then Inr False
             else if has_sa_info then Inr False
             else if list_ex (\<lambda>e. list_ex absence_marker (descendants e)) errors then Inr True
             else Inr True))"

definition ike_sa_of :: "xnode \<Rightarrow> xnode \<Rightarrow> ike_sa" where
  "ike_sa_of block sa =
     \<lparr>ik_index = Option.bind (Option.bind (find_child ''ike-sa-index'' block) node_text) (\<lambda>t. parse_uint (str_trim t)),
      ik_remote_address = opt_str (child_str ''ike-sa-remote-address'' block),
      ik_state = opt_str (child_str ''ike-sa-state'' sa),
      ik_mode = opt_str (child_str ''ike-sa-exchange-type'' sa),
      ik_initiator_cookie = opt_str (child_str ''ike-sa-initiator-cookie'' sa),
      ik_responder_cookie = opt_str (child_str ''ike-sa-responder-cookie'' sa),
      ik_lifetime_remaining_seconds = Option.bind (child_str ''ike-sa-lifetime'' sa) parse_lifetime_seconds,
      ik_gateway_name = (case child_str ''ike-gw-name'' block of None \<Rightarrow> None | Some s \<Rightarrow> if s = [] then None else Some s)\<rparr>"

definition parse_ike :: "xml_lib \<Rightarrow> string \<Rightarrow> ike_sa list sres" where
  "parse_ike X xml =
     and_then (vpn_not_configured_xml X xml) (\<lambda>absent.
       if absent then Inr []
       else
         and_then (map_err (\<lambda>e. SrxParse (''IKE xml parse: '' @ e)) (xl_parse X (sanitize_rustez_xml xml))) (\<lambda>doc.
           Inr (concat (map (\<lambda>block. map (ike_sa_of block) (filter (named ''ike-security-associations'') (children block)))
                  (filter (named ''ike-security-associations-block'') (descendants doc))))))"

definition ipsec_sa_of :: "xnode \<Rightarrow> xnode \<Rightarrow> ipsec_sa" where
  "ipsec_sa_of block sa =
     \<lparr>is_tunnel_id = Option.bind (child_str ''sa-tunnel-index'' sa) parse_uint,
      is_direction = opt_str (child_str ''sa-direction'' sa),
      is_gateway = opt_str (child_str ''sa-remote-gateway'' sa),
      is_spi = opt_str (child_str ''sa-spi'' sa),
      is_block_state = opt_str (child_str ''sa-block-state'' block),
      is_lifetime_remaining_seconds = Option.bind (child_str ''sa-hard-lifetime'' sa) (\<lambda>t.
        Option.bind (parse_uint t) (\<lambda>n. if n = 0 then None else Some n)),
      is_lifetime_remaining_kilobytes = Option.bind (child_str ''sa-lifesize-remaining'' sa) (\<lambda>t.
        if t = ''unlim'' \<or> t = ''-'' then None else parse_uint t)\<rparr>"

definition parse_ipsec :: "xml_lib \<Rightarrow> string \<Rightarrow> ipsec_sa list sres" where
  "parse_ipsec X xml =
     (if str_trim xml = [] then Inr []
      else
        and_then (vpn_not_configured_xml X xml) (\<lambda>absent.
          if absent then Inr []
          else
            and_then (map_err (\<lambda>e. SrxParse (''IPsec xml parse: '' @ e)) (xl_parse X (sanitize_rustez_xml xml))) (\<lambda>doc.
              Inr (concat (map (\<lambda>block. map (ipsec_sa_of block) (filter (named ''ipsec-security-associations'') (children block)))
                     (filter (named ''ipsec-security-associations-block'') (descendants doc)))))))"

section \<open>The report\<close>

definition correlate :: "ike_sa list \<Rightarrow> ipsec_sa list \<Rightarrow> vpn_correlation list" where
  "correlate ike_sas ipsec_sas =
     map (\<lambda>ike. \<lparr>vc_ike_sa_index = ik_index ike,
        vc_ipsec_sa_tunnel_ids =
          foldl push_new [] (List.map_filter is_tunnel_id (filter (\<lambda>ipc. is_gateway ipc = ik_remote_address ike) ipsec_sas))\<rparr>)
       ike_sas"

definition peer_ike :: "string option \<Rightarrow> ike_sa list \<Rightarrow> ike_sa list" where
  "peer_ike peer sas = (case peer of None \<Rightarrow> sas | Some p \<Rightarrow> filter (\<lambda>sa. str_contains p (ik_remote_address sa)) sas)"

definition peer_ipsec :: "string option \<Rightarrow> ipsec_sa list \<Rightarrow> ipsec_sa list" where
  "peer_ipsec peer sas = (case peer of None \<Rightarrow> sas | Some p \<Rightarrow> filter (\<lambda>sa. str_contains p (is_gateway sa)) sas)"

definition vpn_node ::
    "xml_lib \<Rightarrow> re_node list \<Rightarrow> string option \<Rightarrow> string option \<Rightarrow> re_node \<Rightarrow> node_vpn_report sres" where
  "vpn_node X ipsec_nodes peer tunnel ike_node =
     (let ipsec_inner = (case find (\<lambda>n. re_name n = re_name ike_node) ipsec_nodes of None \<Rightarrow> [] | Some n \<Rightarrow> inner_xml n) in
      and_then (parse_ike X (inner_xml ike_node)) (\<lambda>ikes.
      and_then (parse_ipsec X ipsec_inner) (\<lambda>ipsecs.
        let ike_sas = peer_ike peer ikes; ipsec_sas = peer_ipsec tunnel (peer_ipsec peer ipsecs)
        in Inr \<lparr>nv_re_name = re_name ike_node, nv_ike_sas = ike_sas, nv_ipsec_sas = ipsec_sas,
             nv_correlations = correlate ike_sas ipsec_sas\<rparr>)))"

definition parse_combined ::
    "xml_lib \<Rightarrow> string \<Rightarrow> string \<Rightarrow> string option \<Rightarrow> string option \<Rightarrow> node_vpn_report list srx_response sres" where
  "parse_combined X ike_raw ipsec_raw peer tunnel =
     (let ike_xml = sanitize_rustez_xml ike_raw; ipsec_xml = sanitize_rustez_xml ipsec_raw in
      and_then (vpn_not_configured_xml X ike_xml) (\<lambda>ike_absent.
      and_then (vpn_not_configured_xml X ipsec_xml) (\<lambda>ipsec_absent.
        if ike_absent \<and> ipsec_absent then Inr (not_configured ''security ike/ipsec stanza absent'')
        else
          and_then (multi_re_split X ike_xml) (\<lambda>ike_nodes.
          and_then (multi_re_split X ipsec_xml) (\<lambda>ipsec_nodes.
          and_then (try_map (vpn_node X ipsec_nodes peer tunnel) ike_nodes) (\<lambda>nodes. Inr (active nodes)))))))"

definition run_vpn_lifecycle ::
    "'w srx_device \<Rightarrow> xml_lib \<Rightarrow> string \<Rightarrow> string option \<Rightarrow> string option \<Rightarrow> bool
       \<Rightarrow> (node_vpn_report list srx_response, 'w) srx_m" where
  "run_vpn_lifecycle D X router peer tunnel include_raw =
     sx_bind (sx_ret (check_router router)) (\<lambda>_.
     sx_bind (open_rpc D) (\<lambda>_.
     sx_bind (call D (RpcXml (''<get-ike-security-associations-information><detail/>''
        @ ''</get-ike-security-associations-information>''))) (\<lambda>ike_xml.
     sx_bind (call D (RpcCall ''get-security-associations-information'')) (\<lambda>ipsec_xml.
     sx_bind (sx_ret (parse_combined X ike_xml ipsec_xml peer tunnel)) (\<lambda>parsed.
       sx_ret (Inr (if include_raw
         then with_raw (''<!-- IKE -->'' @ [NL] @ ike_xml @ [NL] @ ''<!-- IPsec -->'' @ [NL] @ ipsec_xml) parsed
         else parsed)))))))"

section \<open>What the report says\<close>







text \<open>
  The nodes of the report are those of the IKE reply: where that reply has one part, without a node name, and the
  IPsec reply has a part per named node, the report shows no IPsec association at all.
\<close>

lemma named_ipsec_nodes_are_dropped:
  assumes "list_all (\<lambda>n. re_name n \<noteq> []) ipsec_nodes" "re_name ike_node = []"
    and "vpn_node X ipsec_nodes peer tunnel ike_node = Inr n"
  shows "nv_ipsec_sas n = []"
proof -
  have "find (\<lambda>m. re_name m = re_name ike_node) ipsec_nodes = None"
    using assms(1,2) by (auto simp: find_None_iff list_all_iff)
  moreover have "str_trim [] = []" by code_simp
  ultimately show ?thesis using assms(3)
    by (auto simp: vpn_node_def Let_def parse_ipsec_def and_then_eq_Inr peer_ipsec_def split: option.splits)
qed

end
