(* ===== verification/Srx_Health.thy ===== *)
theory Srx_Health
  imports Srx_Read
begin

text \<open>
  The health of a chassis cluster: \<^verbatim>\<open>workflows/cluster_health.rs\<close>. Eight requests, seven checks over their
  replies, and one verdict over the findings.
\<close>

section \<open>Data\<close>

datatype severity = SevPass | SevWarn | SevFail

datatype verdict = VerdictPass | VerdictWarn | VerdictFail

record health_finding =
  hf_check_id :: string
  hf_severity :: severity
  hf_message :: string
  hf_detail :: "json option"

record cluster_health_data =
  ch_verdict :: verdict
  ch_findings :: "health_finding list"
  ch_request_id :: string
  ch_cluster_status :: "cluster_status_data option"

fun roll_up_from :: "verdict \<Rightarrow> health_finding list \<Rightarrow> verdict" where
  "roll_up_from worst [] = worst"
| "roll_up_from worst (f # fs) =
     (case (worst, hf_severity f) of
        (_, SevFail) \<Rightarrow> VerdictFail
      | (VerdictPass, SevWarn) \<Rightarrow> roll_up_from VerdictWarn fs
      | _ \<Rightarrow> roll_up_from worst fs)"

definition roll_up :: "health_finding list \<Rightarrow> verdict" where
  "roll_up fs = roll_up_from VerdictPass fs"

definition CHECK_IDS :: "string list" where
  "CHECK_IDS = [''red_led'', ''disabled_secondary'', ''control_link_failure'', ''major_alarm'', ''minor_alarm'',
     ''recent_reboot'', ''version_skew'']"

text \<open>A captured request keeps the raw reply or what went wrong.\<close>

record raw_call =
  rc_raw :: string
  rc_error :: "string option"

definition capture_raw :: "'w srx_device \<Rightarrow> string \<Rightarrow> (raw_call, 'w) srx_m" where
  "capture_raw D rpc s =
     (let (r, s') = try_call D (RpcCall rpc) s in
      Some (Inr (case r of
          Inr xml \<Rightarrow> \<lparr>rc_raw = xml, rc_error = None\<rparr>
        | Inl e \<Rightarrow> \<lparr>rc_raw = [], rc_error = Some (''rpc error: '' @ rz_text e)\<rparr>), s'))"

section \<open>Checks\<close>

definition synth_warn :: "string \<Rightarrow> string \<Rightarrow> string \<Rightarrow> health_finding" where
  "synth_warn check_id code reason =
     \<lparr>hf_check_id = check_id, hf_severity = SevWarn, hf_message = ''check '' @ check_id @ '' skipped: '' @ reason,
      hf_detail = Some (JObj [(''code'', JStr code), (''reason'', JStr reason)])\<rparr>"

definition led_findings :: "string \<times> xnode \<Rightarrow> health_finding list" where
  "led_findings = (\<lambda>(name, doc).
     concat (map (\<lambda>led. let color = opt_str (child_str ''current-led-color'' led) in
       if eq_ignore_ascii_case color ''Red'' then
         (let node = (case child_str ''node-name'' led of None \<Rightarrow> name | Some n \<Rightarrow> n) in
          [\<lparr>hf_check_id = ''red_led'', hf_severity = SevFail, hf_message = ''node '' @ node @ '' cluster LED is Red'',
            hf_detail = Some (JObj [(''node'', JStr node), (''color'', JStr color)])\<rparr>])
       else []) (filter (named ''chassis-cluster-led-information'') (descendants doc))))"

definition check_red_led :: "xml_lib \<Rightarrow> raw_call \<Rightarrow> health_finding list" where
  "check_red_led X info =
     (case rc_error info of
        Some reason \<Rightarrow> [synth_warn ''red_led'' ''data_unavailable'' reason]
      | None \<Rightarrow> concat (map led_findings (reply_docs X (rc_raw info))))"

definition check_disabled_secondary :: "cluster_status_data option \<Rightarrow> health_finding list" where
  "check_disabled_secondary snapshot =
     (case snapshot of
        None \<Rightarrow> [synth_warn ''disabled_secondary'' ''data_unavailable'' ''cluster_status RPC produced no parseable snapshot'']
      | Some snap \<Rightarrow>
          concat (map (\<lambda>rg. concat (map (\<lambda>m.
            let lower = to_ascii_lowercase (rm_status m) in
            if lower = ''disabled'' \<or> lower = ''lost'' then
              [\<lparr>hf_check_id = ''disabled_secondary'', hf_severity = SevFail,
                hf_message = ''RG'' @ show_nat (unat (rg_group_id rg)) @ '' member '' @ rm_node m @ '' is in state '' @ rm_status m,
                hf_detail = Some (JObj [(''rg'', JNat (unat (rg_group_id rg))), (''node'', JStr (rm_node m)),
                  (''status'', JStr (rm_status m))])\<rparr>]
            else []) (rg_members rg))) (cd_redundancy_groups snap)))"

definition fabric_findings :: "string \<times> xnode \<Rightarrow> health_finding list" where
  "fabric_findings = (\<lambda>(name, doc).
     concat (map (\<lambda>(parent, child).
       if eq_ignore_ascii_case (str_trim (opt_str (node_text child))) ''Down'' then
         (let iface = (case Option.bind parent (child_str ''fabric-link-child-interface-name'') of None \<Rightarrow> ''?'' | Some i \<Rightarrow> i) in
          [\<lparr>hf_check_id = ''control_link_failure'', hf_severity = SevFail,
            hf_message = ''fabric-link child interface '' @ iface @ '' monitored status Down on '' @ name,
            hf_detail = Some (JObj [(''node'', JStr name), (''interface'', JStr iface)])\<rparr>])
       else []) (filter (\<lambda>(_, n). named ''fabric-link-child-interface-monitored-status'' n) (parented None doc))))"

definition transition_findings :: "string \<times> xnode \<Rightarrow> health_finding list" where
  "transition_findings = (\<lambda>(name, doc).
     concat (map (\<lambda>rec. let reason = opt_str (child_str ''transition-reason'' rec); lower = to_ascii_lowercase reason in
       if str_contains ''control link failure'' lower \<or> str_contains ''fabric link failure'' lower then
         [\<lparr>hf_check_id = ''control_link_failure'', hf_severity = SevFail,
           hf_message = ''RG transition record on '' @ name @ '': '' @ reason,
           hf_detail = Some (JObj [(''node'', JStr name), (''reason'', JStr reason)])\<rparr>]
       else []) (filter (named ''redundancy-group-state-transition-record'') (descendants doc))))"

definition check_control_link_failure :: "xml_lib \<Rightarrow> raw_call \<Rightarrow> raw_call \<Rightarrow> health_finding list" where
  "check_control_link_failure X interfaces info =
     (if rc_error interfaces = None then concat (map fabric_findings (reply_docs X (rc_raw interfaces))) else [])
     @ (if rc_error info = None then concat (map transition_findings (reply_docs X (rc_raw info))) else [])
     @ (if rc_error interfaces \<noteq> None \<and> rc_error info \<noteq> None
        then [synth_warn ''control_link_failure'' ''data_unavailable'' ''neither cluster-interfaces nor cluster-information available'']
        else [])"

definition alarm_findings :: "string \<Rightarrow> severity \<Rightarrow> string \<Rightarrow> string \<times> xnode \<Rightarrow> health_finding list" where
  "alarm_findings class_filter severity check_id = (\<lambda>(name, doc).
     concat (map (\<lambda>alarm. let cls = opt_str (child_str ''alarm-class'' alarm) in
       if \<not> eq_ignore_ascii_case cls class_filter then []
       else
         (let description = opt_str (or_else (child_str ''alarm-description'' alarm) (child_str ''alarm-short-description'' alarm)) in
          [\<lparr>hf_check_id = check_id, hf_severity = severity, hf_message = cls @ '' alarm on '' @ name @ '': '' @ description,
            hf_detail = Some (JObj [(''node'', JStr name), (''class'', JStr cls), (''description'', JStr description)])\<rparr>]))
       (filter (named ''alarm-detail'') (descendants doc))))"

definition iter_alarms :: "xml_lib \<Rightarrow> raw_call \<Rightarrow> string \<Rightarrow> severity \<Rightarrow> string \<Rightarrow> health_finding list" where
  "iter_alarms X alarms class_filter severity check_id =
     (case rc_error alarms of
        Some reason \<Rightarrow> if check_id = ''major_alarm'' then [synth_warn check_id ''data_unavailable'' reason] else []
      | None \<Rightarrow> concat (map (alarm_findings class_filter severity check_id) (reply_docs X (rc_raw alarms))))"

definition check_major_alarm :: "xml_lib \<Rightarrow> raw_call \<Rightarrow> health_finding list" where
  "check_major_alarm X alarms = iter_alarms X alarms ''Major'' SevFail ''major_alarm''"

definition check_minor_alarm :: "xml_lib \<Rightarrow> raw_call \<Rightarrow> health_finding list" where
  "check_minor_alarm X alarms = iter_alarms X alarms ''Minor'' SevWarn ''minor_alarm''"

definition uptime_seconds :: "xnode \<Rightarrow> u64 option" where
  "uptime_seconds uptime_info =
     Option.bind (find_descendant ''up-time'' uptime_info) (\<lambda>n.
     Option.bind (attribute n ''seconds'') (\<lambda>t. parse_uint (str_trim t)))"

definition reboot_findings :: "string \<times> xnode \<Rightarrow> health_finding list" where
  "reboot_findings = (\<lambda>(name, doc).
     concat (map (\<lambda>u. case uptime_seconds u of
         None \<Rightarrow> []
       | Some n \<Rightarrow>
           if n < 300 then
             [\<lparr>hf_check_id = ''recent_reboot'', hf_severity = SevWarn,
               hf_message = name @ '' uptime '' @ show_nat (unat n) @ ''s < 5 min; let it converge before destructive changes'',
               hf_detail = Some (JObj [(''node'', JStr name), (''uptime_seconds'', JNat (unat n))])\<rparr>]
           else []) (filter (named ''system-uptime-information'') (descendants doc))))"

definition check_recent_reboot :: "xml_lib \<Rightarrow> raw_call \<Rightarrow> health_finding list" where
  "check_recent_reboot X uptime =
     (case rc_error uptime of
        Some reason \<Rightarrow> [synth_warn ''recent_reboot'' ''data_unavailable'' reason]
      | None \<Rightarrow> concat (map reboot_findings (reply_docs X (rc_raw uptime))))"

text \<open>The train of a version: the part before the first dot and the leading digits after it.\<close>

definition train_of :: "string \<Rightarrow> string" where
  "train_of v =
     (let parts = split_on (CHR ''.'') v;
          major = (case parts of [] \<Rightarrow> [] | p # _ \<Rightarrow> p);
          minor_full = (case parts of _ # p # _ \<Rightarrow> p | _ \<Rightarrow> []);
          minor_digits = takeWhile is_ascii_digit minor_full
      in if major = [] \<or> minor_digits = [] then v else major @ ''.'' @ minor_digits)"

definition node_versions :: "(string \<times> xnode) list \<Rightarrow> (string \<times> string) list" where
  "node_versions docs =
     filter (\<lambda>(_, v). v \<noteq> []) (map (\<lambda>(name, doc). (name, opt_str (trimmed_text ''junos-version'' doc))) docs)"

definition skew_findings :: "(string \<times> string) list \<Rightarrow> health_finding list" where
  "skew_findings versions =
     (case versions of
        (base_name, base_ver) # others \<Rightarrow>
          concat (map (\<lambda>(name, ver).
            if ver = base_ver then []
            else
              [\<lparr>hf_check_id = ''version_skew'',
                hf_severity = (if train_of base_ver \<noteq> train_of ver then SevFail else SevWarn),
                hf_message = base_name @ '' runs '' @ base_ver @ '', '' @ name @ '' runs '' @ ver,
                hf_detail = Some (JObj [(''node_a'', JStr base_name), (''version_a'', JStr base_ver), (''node_b'', JStr name),
                  (''version_b'', JStr ver)])\<rparr>]) others)
      | [] \<Rightarrow> [])"

definition check_version_skew :: "xml_lib \<Rightarrow> raw_call \<Rightarrow> health_finding list" where
  "check_version_skew X software =
     (case rc_error software of
        Some reason \<Rightarrow> [synth_warn ''version_skew'' ''data_unavailable'' reason]
      | None \<Rightarrow>
          (case multi_re_split X (rc_raw software) of
             Inl _ \<Rightarrow> []
           | Inr nodes \<Rightarrow>
               if length nodes < 2 then []
               else (let versions = node_versions (node_docs X nodes)
                     in if length versions < 2 then [] else skew_findings versions)))"

section \<open>The tool\<close>

definition health_findings ::
    "xml_lib \<Rightarrow> cluster_status_data option \<Rightarrow> raw_call \<Rightarrow> raw_call \<Rightarrow> raw_call \<Rightarrow> raw_call \<Rightarrow> raw_call
       \<Rightarrow> health_finding list" where
  "health_findings X snapshot interfaces info software alarms uptime =
     check_red_led X info @ check_disabled_secondary snapshot @ check_control_link_failure X interfaces info
     @ check_major_alarm X alarms @ check_minor_alarm X alarms @ check_recent_reboot X uptime
     @ check_version_skew X software"

definition status_snapshot :: "xml_lib \<Rightarrow> raw_call \<Rightarrow> cluster_status_data option" where
  "status_snapshot X status =
     (if rc_error status = None then
        (case parse_cluster_status X (rc_raw status) of
           Inl _ \<Rightarrow> None
         | Inr r \<Rightarrow> if rs_state r = Active then rs_data r else None)
      else None)"

definition health_rest ::
    "'w srx_device \<Rightarrow> xml_lib \<Rightarrow> string \<Rightarrow> bool \<Rightarrow> raw_call \<Rightarrow> (cluster_health_data srx_response, 'w) srx_m" where
  "health_rest D X rid include_raw status =
     sx_bind (capture_raw D ''get-chassis-cluster-interfaces'') (\<lambda>interfaces.
     sx_bind (capture_raw D ''get-chassis-cluster-information'') (\<lambda>info.
     sx_bind (capture_raw D ''get-chassis-cluster-data-plane-statistics'') (\<lambda>dp_stats.
     sx_bind (capture_raw D ''get-chassis-cluster-statistics'') (\<lambda>cl_stats.
     sx_bind (capture_raw D ''get-software-information'') (\<lambda>software.
     sx_bind (capture_raw D ''get-system-alarm-information'') (\<lambda>alarms.
     sx_bind (capture_raw D ''get-system-uptime-information'') (\<lambda>uptime.
       let snapshot = status_snapshot X status;
           findings = health_findings X snapshot interfaces info software alarms uptime;
           resp = active \<lparr>ch_verdict = roll_up findings, ch_findings = findings, ch_request_id = rid,
             ch_cluster_status = snapshot\<rparr>
       in sx_ret (Inr (if include_raw
            then with_raw (''<!-- cluster-status -->'' @ [NL] @ rc_raw status @ [NL] @ ''<!-- cluster-interfaces -->'' @ [NL]
              @ rc_raw interfaces @ [NL] @ ''<!-- cluster-information -->'' @ [NL] @ rc_raw info @ [NL] @ ''<!-- dp-stats -->'' @ [NL]
              @ rc_raw dp_stats @ [NL] @ ''<!-- cl-stats -->'' @ [NL] @ rc_raw cl_stats @ [NL] @ ''<!-- software -->'' @ [NL]
              @ rc_raw software @ [NL] @ ''<!-- alarms -->'' @ [NL] @ rc_raw alarms @ [NL] @ ''<!-- uptime -->'' @ [NL]
              @ rc_raw uptime) resp
            else resp)))))))))"

text \<open>The random part of a request id the server makes up is the library's.\<close>

definition health_request_id :: "string \<Rightarrow> string option \<Rightarrow> string" where
  "health_request_id uuid given =
     (case given of
        Some s \<Rightarrow> if str_trim s = [] then ''srxmcp-'' @ uuid else s
      | None \<Rightarrow> ''srxmcp-'' @ uuid)"

definition run_cluster_health ::
    "'w srx_device \<Rightarrow> xml_lib \<Rightarrow> string \<Rightarrow> string \<Rightarrow> bool \<Rightarrow> string option \<Rightarrow> (cluster_health_data srx_response, 'w) srx_m" where
  "run_cluster_health D X uuid router include_raw given =
     sx_bind (sx_ret (check_router router)) (\<lambda>_.
     sx_bind (open_rpc D) (\<lambda>_.
     sx_bind (capture_raw D ''get-chassis-cluster-status'') (\<lambda>status.
       if rc_error status = None then
         sx_bind (sx_ret (parse_cluster_status X (rc_raw status))) (\<lambda>parsed.
           if rs_state parsed = NotConfigured then
             (let resp = not_configured ''chassis cluster disabled''
              in sx_ret (Inr (if include_raw then with_raw (rc_raw status) resp else resp)))
           else health_rest D X (health_request_id uuid given) include_raw status)
       else health_rest D X (health_request_id uuid given) include_raw status)))"

section \<open>The verdict\<close>

lemma roll_up_from_worst:
  "roll_up_from w fs =
     (if w = VerdictFail \<or> list_ex (\<lambda>f. hf_severity f = SevFail) fs then VerdictFail
      else if w = VerdictWarn \<or> list_ex (\<lambda>f. hf_severity f = SevWarn) fs then VerdictWarn
      else VerdictPass)"
proof (induction fs arbitrary: w)
  case Nil
  show ?case by (cases w) simp_all
next
  case (Cons f fs)
  then show ?case by (cases w; cases "hf_severity f") simp_all
qed

text \<open>The verdict is the worst severity among the findings.\<close>

lemma roll_up_eq:
  "roll_up fs =
     (if list_ex (\<lambda>f. hf_severity f = SevFail) fs then VerdictFail
      else if list_ex (\<lambda>f. hf_severity f = SevWarn) fs then VerdictWarn
      else VerdictPass)"
  by (simp add: roll_up_def roll_up_from_worst)

definition only_pass :: "health_finding list \<Rightarrow> bool" where
  "only_pass fs \<longleftrightarrow> list_all (\<lambda>f. hf_severity f = SevPass) fs"

lemma roll_up_Pass: "roll_up fs = VerdictPass \<longleftrightarrow> only_pass fs"
proof -
  have "s = SevPass \<longleftrightarrow> s \<noteq> SevFail \<and> s \<noteq> SevWarn" for s by (cases s) simp_all
  then show ?thesis by (auto simp: roll_up_eq only_pass_def list_all_iff list_ex_iff)
qed





definition members_up :: "cluster_status_data \<Rightarrow> bool" where
  "members_up snap \<longleftrightarrow> list_all (\<lambda>g. list_all (\<lambda>m. to_ascii_lowercase (rm_status m) \<notin> {''disabled'', ''lost''})
     (rg_members g)) (cd_redundancy_groups snap)"








abbreviation answered :: "string \<Rightarrow> raw_call" where
  "answered xml \<equiv> \<lparr>rc_raw = xml, rc_error = None\<rparr>"


text \<open>
  A reply that arrives but cannot be parsed gives no finding at all, not even the warning a failed request gives: with
  every reply garbled the verdict is still a pass.
\<close>

lemma garbled_replies_pass:
  assumes "\<And>xml. \<not> is_ok (xl_parse X xml)" "members_up snap"
  shows "roll_up (health_findings X (Some snap) (answered a) (answered b) (answered c) (answered d) (answered e)) = VerdictPass"
proof -
  have sp: "\<exists>m. multi_re_split X raw = Inl m" for raw
    using assms(1) [of "sanitize_rustez_xml raw"] by (cases "xl_parse X (sanitize_rustez_xml raw)") (auto simp: multi_re_split_def)
  have d: "reply_docs X raw = []" "\<not> is_ok (multi_re_split X raw)" for raw
    using sp [of raw] by (auto simp: reply_docs_def)
  have m: "only_pass (check_disabled_secondary (Some snap))"
    using assms(2) by (auto simp: check_disabled_secondary_def members_up_def only_pass_def Let_def list_all_iff)
  have "check_version_skew X (answered c) = []"
    using d(2) [of c] by (auto simp: check_version_skew_def split: sum.splits)
  then show ?thesis unfolding roll_up_Pass
    using m by (simp add: health_findings_def check_red_led_def check_control_link_failure_def check_major_alarm_def
        check_minor_alarm_def iter_alarms_def check_recent_reboot_def d(1))
qed

text \<open>
  The uptime check reads the attribute \<^verbatim>\<open>seconds\<close>, which the device sends as \<^verbatim>\<open>junos:seconds\<close>; the repair of the reply
  takes that attribute out before it is parsed.
\<close>

lemma uptime_attribute_is_stripped:
  "sanitize_rustez_xml (''<up-time junos:seconds='' @ [DQ] @ ''12'' @ [DQ] @ ''>0:12</up-time>'') = ''<up-time >0:12</up-time>''"
  by code_simp

end
