(* ===== verification/Spec2Isabelle.thy ===== *)
theory Spec2Isabelle
  imports Changeset_Safety Config_Tools Batch_Tool Inventory_Tools Idp_Package Appid_Package Upgrade_Report Staged_Files
    Srx_Flow Srx_Match Srx_Policies Srx_Nat Srx_Services Srx_Vpn Srx_Health
begin

text \<open>
  Verification of the rust-junosmcp server, a Model Context Protocol server that lets an agent read and
  change the configuration of Junos devices over NETCONF.

  \<^bold>\<open>The program.\<close> The crate \<^verbatim>\<open>rust-junosmcp-core\<close> holds the logic. A tool call
  reaches a handler under \<^verbatim>\<open>tools/\<close>, which checks the arguments and the command policy and then
  works on a device through the device manager, which owns the inventory and a pool of NETCONF sessions.
  Configuration changes take one of two ways. The direct tools run one \<^emph>\<open>candidate transaction\<close>:
  lock, load, diff, commit or preview, clean up. The change-set tools separate planning, approval by a second
  principal, and application through \<^verbatim>\<open>JunosTransaction\<close>; the life cycle of change sets is kept
  by an external coordinator, and a recovery sweep settles operations that a crash left undecided. The crate
  \<^verbatim>\<open>rust-junosmcp-srx-core\<close> holds read-mostly workflows for SRX firewalls, and
  \<^verbatim>\<open>rust-junosmcp\<close> the command line, the transports and the tool registration.

  \<^bold>\<open>Theories\<close> (sources under \<^verbatim>\<open>src/rust-junosmcp-core/src\<close>):

  \<^item> \<^verbatim>\<open>Jmcp_Prelude\<close>, \<^verbatim>\<open>Rust_Str\<close>: results and the question-mark operator,
    fixed-width integers, lists and UTF-8 strings as byte lists, the fact collections the proofs use.
  \<^item> \<^verbatim>\<open>Jmcp_Error\<close> (\<^verbatim>\<open>error.rs\<close>), \<^verbatim>\<open>Helpers\<close>
    (\<^verbatim>\<open>helpers.rs\<close>, \<^verbatim>\<open>config_authority.rs\<close>), \<^verbatim>\<open>Output\<close>
    (\<^verbatim>\<open>output.rs\<close>), \<^verbatim>\<open>Inventory\<close> (\<^verbatim>\<open>inventory.rs\<close>): errors as
    values, argument checks, pipe modifiers and output caps, the inventory and its validators.
  \<^item> \<^verbatim>\<open>Policy_Rs\<close> (\<^verbatim>\<open>policy.rs\<close>): building the policy and the decisions.
    The matching engine is a parameter with a contract; the locale \<^verbatim>\<open>gated_domain\<close> states once
    what a gated command domain promises and is interpreted for the CLI and the PFE domain.
  \<^item> \<^verbatim>\<open>Netconf\<close>, \<^verbatim>\<open>Device_Pool\<close>
    (\<^verbatim>\<open>device_manager.rs\<close>): the NETCONF client as a parameter; the pool, its guards and the
    manager. The interleavings of tasks over the pool are an inductive step relation.
  \<^item> \<^verbatim>\<open>Candidate_Txn\<close> (\<^verbatim>\<open>tools/candidate_transaction.rs\<close>): the transaction
    with deadlines, cancellation and clean-up; refinement of a protocol automaton.
  \<^item> \<^verbatim>\<open>Fingerprint\<close>, \<^verbatim>\<open>Junos_Txn\<close>
    (\<^verbatim>\<open>junos_transaction.rs\<close>, \<^verbatim>\<open>junos_commit_metadata.rs\<close>): the
    fingerprint of a candidate; lock, stage, validate, commit, confirm, roll back, release.
  \<^item> \<^verbatim>\<open>Commit_Recovery\<close> (\<^verbatim>\<open>changeset_recovery.rs\<close>): the search in the
    commit log, the probes and the sweep.
  \<^item> \<^verbatim>\<open>Changeset_Tools\<close>, \<^verbatim>\<open>Changeset_Safety\<close>
    (\<^verbatim>\<open>tools/changeset.rs\<close>): the change-set tools over the coordinator's operations, and what
    they guarantee.
  \<^item> \<^verbatim>\<open>Config_Tools\<close> (\<^verbatim>\<open>load_commit\<close>, \<^verbatim>\<open>commit_check\<close>,
    \<^verbatim>\<open>rollback_config\<close>, \<^verbatim>\<open>discard_candidate\<close>,
    \<^verbatim>\<open>confirm_commit\<close>, \<^verbatim>\<open>template\<close>), \<^verbatim>\<open>Command_Tools\<close>
    (\<^verbatim>\<open>execute_command\<close>, \<^verbatim>\<open>pfe\<close>, \<^verbatim>\<open>get_config\<close>,
    \<^verbatim>\<open>config_diff\<close>, \<^verbatim>\<open>router_list\<close>), \<^verbatim>\<open>Batch_Tool\<close>
    (\<^verbatim>\<open>batch\<close>), \<^verbatim>\<open>Inventory_Tools\<close> (\<^verbatim>\<open>add_device\<close>,
    \<^verbatim>\<open>reload_devices\<close> and the file functions of \<^verbatim>\<open>inventory.rs\<close>): the
    handlers under \<^verbatim>\<open>tools/\<close>.
  \<^item> \<^verbatim>\<open>Srx_Base\<close> (\<^verbatim>\<open>error.rs\<close>, \<^verbatim>\<open>absence.rs\<close>,
    \<^verbatim>\<open>protocol.rs\<close> of \<^verbatim>\<open>src/rust-junosmcp-srx-core/src\<close>),
    \<^verbatim>\<open>Srx_Xml\<close> (\<^verbatim>\<open>xml.rs\<close>), \<^verbatim>\<open>Srx_Device\<close> (the
    state a workflow runs on, leases, audit lines and the poll loop), \<^verbatim>\<open>Srx_Status\<close>
    (\<^verbatim>\<open>license.rs\<close>, \<^verbatim>\<open>cluster_status.rs\<close>,
    \<^verbatim>\<open>preflight.rs\<close>): what the SRX workflows share, and the licence and the cluster gate.
  \<^item> \<^verbatim>\<open>Sig_Confirm\<close> (\<^verbatim>\<open>confirmation.rs\<close>): the store of one-time
    confirmations; the interleavings of its users are an inductive step relation.
  \<^item> \<^verbatim>\<open>Sig_Package\<close> (\<^verbatim>\<open>plan.rs\<close> and the two-call protocol),
    \<^verbatim>\<open>Idp_Package\<close> (\<^verbatim>\<open>idp_package.rs\<close>),
    \<^verbatim>\<open>Appid_Package\<close> (\<^verbatim>\<open>appid_package.rs\<close>): the signature-package
    workflows. The locale \<^verbatim>\<open>confirmed_verb\<close> states once what the protocol needs of a verb, and is
    interpreted for install and rollback of IDP and install and uninstall of AppID.
  \<^item> \<^verbatim>\<open>Rust_Net\<close> (IP addresses as the standard library reads them),
    \<^verbatim>\<open>Srx_Resolve\<close> (\<^verbatim>\<open>resolve.rs\<close>), \<^verbatim>\<open>Srx_Objects\<close>
    (\<^verbatim>\<open>config_fetch.rs\<close>, \<^verbatim>\<open>resolve_address.rs\<close>,
    \<^verbatim>\<open>resolve_application.rs\<close>): the walk over nested sets and the two lookups built on it.
  \<^item> \<^verbatim>\<open>Srx_Read\<close> (what the readers of replies share, and the pages of a listing),
    \<^verbatim>\<open>Srx_Flow\<close> (\<^verbatim>\<open>flow_sessions.rs\<close>), \<^verbatim>\<open>Srx_Match\<close>
    (\<^verbatim>\<open>policy_match.rs\<close>), \<^verbatim>\<open>Srx_Policies\<close> (\<^verbatim>\<open>list_policies.rs\<close>),
    \<^verbatim>\<open>Srx_Nat\<close> (\<^verbatim>\<open>list_nat_rules.rs\<close>), \<^verbatim>\<open>Srx_Services\<close>
    (\<^verbatim>\<open>services_status.rs\<close>), \<^verbatim>\<open>Srx_Vpn\<close> (\<^verbatim>\<open>vpn_lifecycle.rs\<close>),
    \<^verbatim>\<open>Srx_Health\<close> (\<^verbatim>\<open>cluster_health.rs\<close>): the read-only SRX workflows.
  \<^item> \<^verbatim>\<open>Tool_Run\<close>: how the long-running tools run, as steps over a clock, the outside world and a
    record of events, under a cancellation token and nested time limits; the locale \<^verbatim>\<open>log_kind\<close>
    gives the rules for any property of records that compositions keep, and is interpreted for properties of single
    events and for the guards held. \<^verbatim>\<open>Transfer_Text\<close>, \<^verbatim>\<open>Transfer_File\<close>
    (\<^verbatim>\<open>tools/transfer_file.rs\<close>, \<^verbatim>\<open>tools/fetch_file.rs\<close>),
    \<^verbatim>\<open>Upgrade_Checks\<close>, \<^verbatim>\<open>Upgrade_Junos\<close>
    (\<^verbatim>\<open>tools/upgrade_junos.rs\<close>): the text readers, the copies and the upgrade.
    \<^verbatim>\<open>Staged_Files\<close> (\<^verbatim>\<open>tools/list_staged_files.rs\<close>): what is staged, and what
    lies on a device. \<^verbatim>\<open>Upgrade_Safety\<close>, \<^verbatim>\<open>Upgrade_Report\<close>: what they guarantee.

  \<^bold>\<open>How state and time are modelled.\<close> A handler is a function from the manager (or the manager, the
  policy and the files) to a result and the state after it; errors are values of \<^typ>\<open>jmcp_error\<close>. The
  device, the libraries and the coordinator are records of functions, the first argument of what uses them; every
  theorem is about all of them, or names what it assumes. Time is a count of milliseconds that answers advance, so
  a timeout is a comparison; a request that is abandoned is a value of its own. A future that may never be ready
  is \<^verbatim>\<open>Hangs\<close>, and the theorems on time and on answers show when it does not occur. An SRX
  workflow that would not return is \<^term>\<open>None\<close>: its poll loop is a partial function, shown to end within
  its budget; so is the reboot wait of the upgrade. All other loops are structural recursions, so no fuel is used.

  \<^bold>\<open>What is shown.\<close> A candidate transaction follows its protocol: a commit is sent at most once, after
  lock, load and diff; an acquired lock is given back; reports are truthful; the call returns in bounded time. No
  interleaving shares a pooled session or hands out a dirty one. The policy admits exactly the commands the
  configuration describes, fails closed by default, isolates devices, and follows the inventory through every
  history of changes. Change sets are checked when stored and again before application; an apply reported as
  applied was committed; one that fails is marked as failed, and recorded as discarded only on proof. The sweep
  settles only what a device confirmed. Direct tools commit without an automatic rollback only on request, a
  preview never commits, and every tool answers. A batch reports every device, in every schedule.
  A signature package is changed only under the device's lease and with a confirmation that was issued to the same
  caller for the same plan and is used once; a confirmed call returns, an install that answers was verified on every
  node, and its failures are on record. A lookup of an address or an application gives exactly what the configuration
  reaches, and a fault it reports is there. A transfer starts only when it is justified, reports only what the device
  confirmed and returns in time; an upgrade installs only what was confirmed, checked under the lease and verified on
  the device; every guard is given back. The session table of a firewall is walked only after the device reported a
  count within the cap, and a cut is never hidden; a policy match is what the device answered; listings of policies and
  NAT rules leave nothing unread; a passing cluster verdict and the absence of services are backed by replies.

  \<^bold>\<open>Not modelled\<close>, and why: the SRX support bundle, a collector of files; the facts tool, which returns what
  the NETCONF client gathers; the poll helper, which no workflow calls; the MCP server, transports, TLS, command line and
  authentication layer, which wire external crates together and call the handlers modelled here; logging and
  metrics, which no result depends on. External crates (the NETCONF client, the policy engine, the change-set
  coordinator, the lease manager, the SCP client, regular expressions, JSON, templates, digests) are parameters.
\<close>

end
